(* ===== verification/Prelude.thy ===== *)
theory Prelude
  imports Complex_Main "HOL-Library.AList" "HOL-Library.Multiset" "HOL-Library.Signed_Division"
begin

text \<open>
  Shared vocabulary of the development: how C++ control flow (exceptions and aborts), the
  standard library's numeric helpers and \<open>std::lower_bound\<close>, and unordered maps are
  rendered, with the generic lemmas the component theories use.

  \<^item> A computation that may fail returns \<open>exn + 'a\<close>. \<open>StdException\<close> is anything derived
    from \<open>std::exception\<close> (the only thing the program's handlers catch); \<open>Abort\<close> is a failed
    \<open>ensure\<close>, which terminates the process and is caught by nobody.
  \<^item> A stateful operation returns its result together with the state reached, also on the
    error path: a C++ exception does not undo the writes made before it.
  \<^item> \<open>double\<close> is rendered by \<open>real\<close>: arithmetic is exact, rounding is not modelled.
  \<^item> Time points and durations are tick counts in nanoseconds (the tick of libstdc++).
  \<^item> An unordered map that is only looked up is a partial function. One that the code
    iterates over is an association list with distinct keys; its order stands for the
    unspecified iteration order.
\<close>

section \<open>Results\<close>

datatype exn = StdException string | Abort string

type_synonym ticker = string
type_synonym time_ns = int

named_theorems result_simps
named_theorems state_frame

section \<open>Numeric helpers of the C++ standard library\<close>

definition clamp :: "'a::linorder \<Rightarrow> 'a \<Rightarrow> 'a \<Rightarrow> 'a" where
  "clamp v lo hi = (if v < lo then lo else if hi < v then hi else v)"

definition c_round :: "real \<Rightarrow> int" where
  "c_round x = (if x < 0 then - \<lfloor>- x + 1/2\<rfloor> else \<lfloor>x + 1/2\<rfloor>)"

definition c_trunc :: "real \<Rightarrow> int" where
  "c_trunc x = (if x < 0 then \<lceil>x\<rceil> else \<lfloor>x\<rfloor>)"

lemma clamp_bounds:
  "lo \<le> hi \<Longrightarrow> lo \<le> clamp v lo hi" "lo \<le> hi \<Longrightarrow> clamp v lo hi \<le> hi"
  by (auto simp: clamp_def)

lemma clamp_id [simp]: "lo \<le> v \<Longrightarrow> v \<le> hi \<Longrightarrow> clamp v lo hi = v"
  by (auto simp: clamp_def)

lemma clamp_mono: "v \<le> w \<Longrightarrow> lo \<le> hi \<Longrightarrow> clamp v lo hi \<le> clamp w lo hi"
  by (auto simp: clamp_def)

lemma c_round_of_int [simp]: "c_round (of_int k) = k"
proof -
  have "\<lfloor>of_int j + 1/2 :: real\<rfloor> = j" for j
    by (simp add: floor_eq_iff)
  from this [of k] this [of "- k"] show ?thesis by (simp add: c_round_def)
qed

lemma c_round_mono: "x \<le> y \<Longrightarrow> c_round x \<le> c_round y"
proof -
  assume le: "x \<le> y"
  have "- \<lfloor>- x + 1/2\<rfloor> \<le> \<lfloor>y + 1/2\<rfloor>" if "x < 0" "0 \<le> y"
    using that by linarith
  then show ?thesis
    using le floor_mono [of "x + 1/2" "y + 1/2"] floor_mono [of "- y + 1/2" "- x + 1/2"]
    by (auto simp: c_round_def)
qed

lemma c_round_ge: "of_int a \<le> x \<Longrightarrow> a \<le> c_round x"
  and c_round_le: "x \<le> of_int b \<Longrightarrow> c_round x \<le> b"
  using c_round_mono [of "of_int a" x] c_round_mono [of x "of_int b"] by simp_all

lemma c_round_bounds: "\<bar>of_int (c_round x) - x\<bar> \<le> 1/2"
proof -
  have up: "of_int \<lfloor>y + 1/2\<rfloor> \<le> y + 1/2" "y + 1/2 < of_int \<lfloor>y + 1/2\<rfloor> + 1" for y :: real
    by linarith+
  show ?thesis
  proof (cases "x < 0")
    case True
    then have "c_round x = - \<lfloor>- x + 1/2\<rfloor>" by (simp add: c_round_def)
    with up [of "- x"] show ?thesis by (simp only: abs_le_iff of_int_minus) linarith
  next
    case False
    then have "c_round x = \<lfloor>x + 1/2\<rfloor>" by (simp add: c_round_def)
    with up [of x] show ?thesis by (simp only: abs_le_iff) linarith
  qed
qed

section \<open>Binary search\<close>

text \<open>
  \<open>std::lower_bound\<close> over a random-access range, as the loop it is: \<open>before\<close> is "element is
  before the target".
\<close>

function lower_bound_loop :: "('a \<Rightarrow> bool) \<Rightarrow> 'a list \<Rightarrow> nat \<Rightarrow> nat \<Rightarrow> nat" where
  "lower_bound_loop before xs first len =
     (if len = 0 then first
      else let half = len div 2; middle = first + half in
        if before (xs ! middle) then lower_bound_loop before xs (Suc middle) (len - half - 1)
        else lower_bound_loop before xs first half)"
  by pat_completeness auto
termination
  by (relation "measure (\<lambda>(before, xs, first, len). len)") auto

declare lower_bound_loop.simps [simp del]

definition lower_bound :: "('a \<Rightarrow> bool) \<Rightarrow> 'a list \<Rightarrow> nat" where
  "lower_bound before xs = lower_bound_loop before xs 0 (length xs)"

text \<open>The range is partitioned: no element after a non-\<open>before\<close> one is \<open>before\<close>.\<close>

definition partitioned :: "('a \<Rightarrow> bool) \<Rightarrow> 'a list \<Rightarrow> bool" where
  "partitioned before xs \<longleftrightarrow> sorted_wrt (\<lambda>x y. before y \<longrightarrow> before x) xs"

lemma partitioned_nth:
  "partitioned before xs \<Longrightarrow> i \<le> j \<Longrightarrow> j < length xs \<Longrightarrow> before (xs ! j) \<Longrightarrow> before (xs ! i)"
  unfolding partitioned_def by (cases "i = j") (use sorted_wrt_nth_less [of _ xs i j] in auto)

lemma lower_bound_loop_partition:
  assumes "partitioned before xs" and "first + len \<le> length xs"
    and "\<forall>i < first. before (xs ! i)"
    and "\<forall>i. first + len \<le> i \<and> i < length xs \<longrightarrow> \<not> before (xs ! i)"
  shows "let k = lower_bound_loop before xs first len in k \<le> length xs \<and>
     (\<forall>i < k. before (xs ! i)) \<and> (\<forall>i. k \<le> i \<and> i < length xs \<longrightarrow> \<not> before (xs ! i))"
  using assms
proof (induction before xs first len rule: lower_bound_loop.induct)
  case (1 before xs first len)
  show ?case
  proof (cases "len = 0")
    case True
    then have "lower_bound_loop before xs first len = first"
      by (simp add: lower_bound_loop.simps)
    with True 1 show ?thesis by (simp add: Let_def)
  next
    case False
    define middle where "middle = first + len div 2"
    have mid: "middle < length xs" using False 1(4) by (auto simp: middle_def)
    show ?thesis
    proof (cases "before (xs ! middle)")
      case True
      have below: "\<forall>i < Suc middle. before (xs ! i)"
        using partitioned_nth [OF 1(3) _ mid True] by (simp add: less_Suc_eq_le)
      have "lower_bound_loop before xs first len =
          lower_bound_loop before xs (Suc middle) (len - len div 2 - 1)"
        using False True
        by (subst lower_bound_loop.simps) (simp add: Let_def middle_def)
      moreover have "Suc middle + (len - len div 2 - 1) = first + len"
        using False by (simp add: middle_def)
      ultimately show ?thesis
        using 1(1) [OF False refl middle_def True 1(3) _ below] 1(4,6) by simp
    next
      case nless: False
      have above: "\<forall>i. first + len div 2 \<le> i \<and> i < length xs \<longrightarrow> \<not> before (xs ! i)"
        using partitioned_nth [OF 1(3)] nless by (auto simp: middle_def)
      have "lower_bound_loop before xs first len = lower_bound_loop before xs first (len div 2)"
        using False nless
        by (subst lower_bound_loop.simps) (simp add: Let_def middle_def)
      then show ?thesis
        using 1(2) [OF False refl middle_def nless 1(3) _ 1(5) above] 1(4) by simp
    qed
  qed
qed

lemma lower_bound_partition:
  assumes "partitioned before xs"
  shows "lower_bound before xs \<le> length xs"
    and "i < lower_bound before xs \<Longrightarrow> before (xs ! i)"
    and "lower_bound before xs \<le> i \<Longrightarrow> i < length xs \<Longrightarrow> \<not> before (xs ! i)"
proof -
  have "let k = lower_bound before xs in k \<le> length xs \<and>
     (\<forall>i < k. before (xs ! i)) \<and> (\<forall>i. k \<le> i \<and> i < length xs \<longrightarrow> \<not> before (xs ! i))"
    unfolding lower_bound_def by (rule lower_bound_loop_partition) (use assms in auto)
  then show "lower_bound before xs \<le> length xs"
    and "i < lower_bound before xs \<Longrightarrow> before (xs ! i)"
    and "lower_bound before xs \<le> i \<Longrightarrow> i < length xs \<Longrightarrow> \<not> before (xs ! i)"
    by (simp_all add: Let_def)
qed

lemma lower_bound_takeWhile:
  assumes "partitioned before xs"
  shows "lower_bound before xs = length (takeWhile before xs)"
proof (rule antisym)
  let ?k = "lower_bound before xs" and ?n = "length (takeWhile before xs)"
  show "?k \<le> ?n"
  proof (rule ccontr)
    assume "\<not> ?k \<le> ?n"
    then have "?n < ?k" by simp
    then have "?n < length xs" using lower_bound_partition(1) [OF assms] by simp
    then have "\<not> before (xs ! ?n)" by (rule nth_length_takeWhile)
    with lower_bound_partition(2) [OF assms \<open>?n < ?k\<close>] show False by simp
  qed
  show "?n \<le> ?k"
  proof (rule ccontr)
    assume "\<not> ?n \<le> ?k"
    then have lt: "?k < ?n" by simp
    then have "before (xs ! ?k)"
      by (metis nth_mem set_takeWhileD takeWhile_nth)
    moreover have "?k < length xs"
      using lt length_takeWhile_le [of before xs] by simp
    ultimately show False using lower_bound_partition(3) [OF assms order_refl] by simp
  qed
qed

lemma take_lower_bound:
  "partitioned before xs \<Longrightarrow> take (lower_bound before xs) xs = takeWhile before xs"
  by (simp add: lower_bound_takeWhile takeWhile_eq_take [symmetric])

lemma drop_lower_bound:
  "partitioned before xs \<Longrightarrow> drop (lower_bound before xs) xs = dropWhile before xs"
  by (simp add: lower_bound_takeWhile dropWhile_eq_drop [symmetric])

section \<open>Maps\<close>

definition lookup_or :: "'v \<Rightarrow> ('k \<rightharpoonup> 'v) \<Rightarrow> 'k \<Rightarrow> 'v" where
  "lookup_or d m k = (case m k of None \<Rightarrow> d | Some v \<Rightarrow> v)"

lemma lookup_or_simps [simp]:
  "m k = None \<Longrightarrow> lookup_or d m k = d"
  "m k = Some v \<Longrightarrow> lookup_or d m k = v"
  "lookup_or d Map.empty k = d"
  by (simp_all add: lookup_or_def)

lemma lookup_or_upd [simp]:
  "lookup_or d (m(k \<mapsto> v)) k' = (if k' = k then v else lookup_or d m k')"
  by (simp add: lookup_or_def)

text \<open>Association lists with distinct keys.\<close>

abbreviation keys_distinct :: "('k \<times> 'v) list \<Rightarrow> bool" where
  "keys_distinct xs \<equiv> distinct (map fst xs)"

lemma map_of_alist_update [simp]: "map_of (AList.update k v xs) = (map_of xs)(k \<mapsto> v)"
  by (rule update_conv')

lemma map_of_alist_delete [simp]: "map_of (AList.delete k xs) = (map_of xs)(k := None)"
  by (rule delete_conv')

lemma keys_distinct_update [simp]: "keys_distinct xs \<Longrightarrow> keys_distinct (AList.update k v xs)"
  by (rule distinct_update)

lemma keys_distinct_delete [simp]: "keys_distinct xs \<Longrightarrow> keys_distinct (AList.delete k xs)"
  by (rule distinct_delete)

lemma in_set_map_of: "keys_distinct xs \<Longrightarrow> (k, v) \<in> set xs \<longleftrightarrow> map_of xs k = Some v"
  by simp

lemma set_delete_iff: "(k, v) \<in> set (AList.delete k' xs) \<longleftrightarrow> k \<noteq> k' \<and> (k, v) \<in> set xs"
  by (auto simp: AList.delete_eq)

section \<open>Results that may carry an exception\<close>

fun bindE :: "exn + 'a \<Rightarrow> ('a \<Rightarrow> exn + 'b) \<Rightarrow> exn + 'b" where
  "bindE (Inl e) f = Inl e"
| "bindE (Inr x) f = f x"

text \<open>\<open>std::vector::at\<close>.\<close>

definition vector_at :: "'a list \<Rightarrow> nat \<Rightarrow> exn + 'a" where
  "vector_at xs i = (if i < length xs then Inr (xs ! i) else Inl (StdException ''out_of_range''))"

lemma vector_at_in_range [simp]: "i < length xs \<Longrightarrow> vector_at xs i = Inr (xs ! i)"
  by (simp add: vector_at_def)

lemma bindE_eq_Inr: "bindE r f = Inr y \<longleftrightarrow> (\<exists>x. r = Inr x \<and> f x = Inr y)"
  by (cases r) auto

text \<open>A statement, then the next one unless it raised; state changes made before a raise stay.\<close>

definition and_then :: "(exn + unit) \<times> 's \<Rightarrow> ('s \<Rightarrow> (exn + unit) \<times> 's) \<Rightarrow> (exn + unit) \<times> 's" where
  "and_then r f = (case r of (Inl e, s) \<Rightarrow> (Inl e, s) | (Inr _, s) \<Rightarrow> f s)"

lemma and_then_simps [simp]:
  "and_then (Inl e, s) f = (Inl e, s)" "and_then (Inr u, s) f = f s"
  by (simp_all add: and_then_def)

text \<open>What every statement preserves, a sequence preserves.\<close>

lemma and_then_invar:
  assumes "P (snd r)" and "\<And>s. P s \<Longrightarrow> P (snd (f s))"
  shows "P (snd (and_then r f))"
  using assms by (cases r) (auto simp: and_then_def split: sum.splits)

section \<open>Sliding windows\<close>

definition kNanosPerSecond :: int where "kNanosPerSecond = 1000000000"
definition kNanosPerMilli :: int where "kNanosPerMilli = 1000000"

text \<open>Dropping expired elements from the front is invisible to a query that skips them.\<close>

lemma filter_dropWhile: "(\<And>x. expired x \<Longrightarrow> \<not> live x) \<Longrightarrow> filter live (dropWhile expired xs) = filter live xs"
  by (induction xs) auto

end
