(* ===== verification/Core_Types.thy ===== *)
theory Core_Types
  imports Prelude
begin

text \<open>
  The domain types of \<open>source/core/types.hpp\<close> and the contract count of
  \<open>source/core/quantity.hpp\<close>: an exact number of hundredths of a contract, with its
  arithmetic, ordering and fixed-point text form.
\<close>

section \<open>Quantity\<close>

datatype quantity = from_centi (centi: int)

definition kCentiPerContract :: int where
  "kCentiPerContract = 100"

definition from_contracts :: "int \<Rightarrow> quantity" where
  "from_contracts n = from_centi (n * kCentiPerContract)"

definition contracts :: "quantity \<Rightarrow> real" where
  "contracts q = of_int (centi q) / of_int kCentiPerContract"

text \<open>
  The comparison and arithmetic operators of the class, as the library's type classes, so
  that sums, \<open>min\<close>, \<open>abs\<close> and sorting apply to quantities.
\<close>

instantiation quantity :: "{linorder, ab_group_add}"
begin

definition less_eq_quantity :: "quantity \<Rightarrow> quantity \<Rightarrow> bool" where
  "less_eq_quantity q r \<longleftrightarrow> centi q \<le> centi r"

definition less_quantity :: "quantity \<Rightarrow> quantity \<Rightarrow> bool" where
  "less_quantity q r \<longleftrightarrow> centi q < centi r"

definition zero_quantity :: quantity where
  "zero_quantity = from_centi 0"

definition plus_quantity :: "quantity \<Rightarrow> quantity \<Rightarrow> quantity" where
  "plus_quantity q r = from_centi (centi q + centi r)"

definition minus_quantity :: "quantity \<Rightarrow> quantity \<Rightarrow> quantity" where
  "minus_quantity q r = from_centi (centi q - centi r)"

definition uminus_quantity :: "quantity \<Rightarrow> quantity" where
  "uminus_quantity q = from_centi (- centi q)"

instance
  by standard
    (auto simp: less_eq_quantity_def less_quantity_def zero_quantity_def plus_quantity_def
      minus_quantity_def uminus_quantity_def quantity.expand)

end

definition is_zero :: "quantity \<Rightarrow> bool" where
  "is_zero q \<longleftrightarrow> centi q = 0"

definition is_positive :: "quantity \<Rightarrow> bool" where
  "is_positive q \<longleftrightarrow> 0 < centi q"

definition abs_quantity :: "quantity \<Rightarrow> quantity" where
  "abs_quantity q = (if is_positive q \<or> is_zero q then q else - q)"

definition min_quantity :: "quantity \<Rightarrow> quantity \<Rightarrow> quantity" where
  "min_quantity lhs rhs = (if lhs < rhs then lhs else rhs)"

lemma centi_simps [simp]:
  "centi 0 = 0" "centi (q + r) = centi q + centi r" "centi (q - r) = centi q - centi r"
  "centi (- q) = - centi q" "centi (from_contracts n) = n * 100"
  by (simp_all add: zero_quantity_def plus_quantity_def minus_quantity_def uminus_quantity_def
      from_contracts_def kCentiPerContract_def)

lemma quantity_le [simp]: "q \<le> r \<longleftrightarrow> centi q \<le> centi r"
  by (rule less_eq_quantity_def)

lemma quantity_less [simp]: "q < r \<longleftrightarrow> centi q < centi r"
  by (rule less_quantity_def)

lemma quantity_eqI: "centi q = centi r \<Longrightarrow> q = r"
  by (rule quantity.expand)

lemma is_zero_iff [simp]: "is_zero q \<longleftrightarrow> q = 0"
  by (auto simp: is_zero_def intro: quantity_eqI)

lemma is_positive_iff [simp]: "is_positive q \<longleftrightarrow> 0 < centi q"
  by (simp add: is_positive_def)

lemma centi_abs [simp]: "centi (abs_quantity q) = \<bar>centi q\<bar>"
  by (auto simp: abs_quantity_def)

lemma centi_min [simp]: "centi (min_quantity q r) = min (centi q) (centi r)"
  by (auto simp: min_quantity_def)

lemma centi_sum_list [simp]: "centi (sum_list qs) = sum_list (map centi qs)"
  by (induction qs) auto

lemma contracts_simps [simp]:
  "contracts 0 = 0" "contracts (q + r) = contracts q + contracts r"
  "contracts (q - r) = contracts q - contracts r" "contracts (- q) = - contracts q"
  "contracts (from_contracts n) = of_int n"
  by (simp_all add: contracts_def kCentiPerContract_def diff_divide_distrib add_divide_distrib)

lemma contracts_order:
  "contracts q \<le> contracts r \<longleftrightarrow> centi q \<le> centi r"
  "contracts q < contracts r \<longleftrightarrow> centi q < centi r"
  "contracts q = contracts r \<longleftrightarrow> q = r"
  by (auto simp: contracts_def kCentiPerContract_def divide_le_cancel divide_less_cancel
      intro: quantity_eqI)

lemma contracts_sign [simp]:
  "0 \<le> contracts q \<longleftrightarrow> 0 \<le> centi q" "0 < contracts q \<longleftrightarrow> 0 < centi q"
  "contracts q \<le> 0 \<longleftrightarrow> centi q \<le> 0" "contracts q < 0 \<longleftrightarrow> centi q < 0"
  "contracts q = 0 \<longleftrightarrow> q = 0"
  using contracts_order [of 0 q] contracts_order [of q 0] by auto

lemma contracts_sum_list [simp]: "contracts (sum_list qs) = sum_list (map contracts qs)"
  by (induction qs) auto

section \<open>Enumerations and plain records\<close>

datatype side = Yes | No

datatype order_status = Open | PartiallyFilled | Filled | Cancelled

datatype order_type = Limit | Market

record level =
  lv_price_cents :: int
  lv_quantity :: quantity

record orderbook =
  ob_ticker :: ticker
  ob_yes :: "level list"
  ob_no :: "level list"

record order =
  o_id :: string
  o_market_ticker :: ticker
  o_side :: side
  o_price_cents :: int
  o_quantity :: quantity
  o_filled_quantity :: quantity
  o_status :: order_status
  o_type :: order_type
  o_created_at :: time_ns
  o_average_fill_price_cents :: int

definition remaining_quantity :: "order \<Rightarrow> quantity" where
  "remaining_quantity ord = o_quantity ord - o_filled_quantity ord"

definition is_active :: "order \<Rightarrow> bool" where
  "is_active ord \<longleftrightarrow> o_status ord = Open \<or> o_status ord = PartiallyFilled"

record fill =
  f_trade_id :: string
  f_order_id :: string
  f_market_ticker :: ticker
  f_side :: side
  f_price_cents :: int
  f_quantity :: quantity
  f_fee_cents :: real
  f_is_taker :: bool
  f_timestamp :: time_ns

record market =
  m_ticker :: ticker
  m_title :: string
  m_category :: string
  m_status :: string
  m_fee_rate_bps :: int
  m_yes_bid_cents :: int
  m_yes_ask_cents :: int
  m_volume_24h :: real
  m_close_time :: time_ns

record market_position =
  mp_ticker :: ticker
  mp_position :: quantity
  mp_realized_pnl_cents :: real
  mp_market_exposure_cents :: real
  mp_resting_orders_count :: int

record incentive_program =
  ip_market_ticker :: ticker
  ip_period_reward_centicents :: int
  ip_target_size :: quantity
  ip_discount_factor_bps :: int

record public_trade =
  pt_trade_id :: string
  pt_market_ticker :: ticker
  pt_yes_price_cents :: int
  pt_quantity :: quantity
  pt_taker_side :: side
  pt_timestamp :: time_ns

record candle =
  close_cents :: "int option"

definition kMinPriceCents :: int where "kMinPriceCents = 1"
definition kMaxPriceCents :: int where "kMaxPriceCents = 99"
definition kPriceBasis :: int where "kPriceBasis = 100"

definition is_valid_price :: "int \<Rightarrow> bool" where
  "is_valid_price price_cents \<longleftrightarrow> kMinPriceCents \<le> price_cents \<and> price_cents \<le> kMaxPriceCents"

definition complement_price :: "int \<Rightarrow> int" where
  "complement_price price_cents = kPriceBasis - price_cents"

lemmas price_defs = is_valid_price_def complement_price_def kMinPriceCents_def
  kMaxPriceCents_def kPriceBasis_def

lemma complement_price_valid: "is_valid_price (complement_price p) \<longleftrightarrow> is_valid_price p"
  by (auto simp: price_defs)

lemma complement_price_involution [simp]: "complement_price (complement_price p) = p"
  by (simp add: price_defs)

end
