(* ===== verification/Pricing.thy ===== *)
theory Pricing
  imports Core_Types
begin

text \<open>
  The pricing models of \<open>source/engine/pricing_model.cpp\<close> and the engine that forwards to one of
  them (\<open>source/engine/fair_value.cpp\<close>). Every model is an instance of the interface
  \<open>IPricingModel\<close>, here the locale \<open>pricing_model\<close>: an estimate is a price in cents between
  1 and 99, whatever the input.
\<close>

section \<open>Inputs\<close>

record fair_value_input =
  fv_mid_cents :: real
  fv_time_to_close_hours :: real
  fv_net_position :: int
  fv_external_prob :: "real option"
  fv_tape_vwap_cents :: "real option"

type_synonym pricing_fn = "fair_value_input \<Rightarrow> real"

definition kDecayTimeConstantHours :: real where "kDecayTimeConstantHours = 24"
definition kInventorySkewCentsPerContract :: real where "kInventorySkewCentsPerContract = 5 / 100"
definition kExternalSignalWeight :: real where "kExternalSignalWeight = 3 / 10"
definition kMinValidCents :: real where "kMinValidCents = 1"
definition kMaxValidCents :: real where "kMaxValidCents = 99"
definition kMidPointCents :: real where "kMidPointCents = 50"
definition kContractMaxCents_real :: real where "kContractMaxCents_real = 100"
definition kMinProb :: real where "kMinProb = 1 / 100"
definition kMaxProb :: real where "kMaxProb = 99 / 100"
definition kBetaMax :: real where "kBetaMax = 95 / 100"
definition kDefaultBeta :: real where "kDefaultBeta = 9 / 100"

lemmas pricing_consts = kDecayTimeConstantHours_def kInventorySkewCentsPerContract_def
  kExternalSignalWeight_def kMinValidCents_def kMaxValidCents_def kMidPointCents_def
  kContractMaxCents_real_def kMinProb_def kMaxProb_def kBetaMax_def kDefaultBeta_def

section \<open>The models\<close>

definition heuristic_estimate :: pricing_fn where
  "heuristic_estimate inp =
     (let value0 = fv_mid_cents inp;
          decay = exp (- fv_time_to_close_hours inp / kDecayTimeConstantHours);
          value1 = value0 + (kMidPointCents - value0) * decay;
          value2 = value1 - of_int (fv_net_position inp) * kInventorySkewCentsPerContract;
          value3 = (case fv_external_prob inp of
              None \<Rightarrow> value2
            | Some prob \<Rightarrow>
                (let ext_cents = prob * kContractMaxCents_real in
                 (1 - kExternalSignalWeight) * value2 + kExternalSignalWeight * ext_cents))
      in clamp value3 kMinValidCents kMaxValidCents)"

definition clearing_price_estimate :: "real \<Rightarrow> pricing_fn" where
  "clearing_price_estimate tape_weight inp =
     clamp (case fv_tape_vwap_cents inp of
         None \<Rightarrow> fv_mid_cents inp
       | Some vwap \<Rightarrow> tape_weight * vwap + (1 - tape_weight) * fv_mid_cents inp)
       kMinValidCents kMaxValidCents"

definition debias_probability :: "real \<Rightarrow> real \<Rightarrow> real" where
  "debias_probability market_prob beta =
     (let debiased = (market_prob - beta / 2) / (1 - beta) in clamp debiased kMinProb kMaxProb)"

text \<open>The constructor's clamp of \<open>beta\<close>, then \<open>estimate\<close>.\<close>

definition view_based_beta :: "real \<Rightarrow> real" where
  "view_based_beta beta = clamp beta 0 kBetaMax"

definition view_based_estimate :: "real \<Rightarrow> pricing_fn" where
  "view_based_estimate beta_arg inp =
     (let beta = view_based_beta beta_arg;
          view_prob = (case fv_external_prob inp of
              Some prob \<Rightarrow> clamp prob kMinProb kMaxProb
            | None \<Rightarrow> debias_probability (fv_mid_cents inp / kContractMaxCents_real) beta)
      in view_prob * kContractMaxCents_real)"

definition fair_value_estimate :: "pricing_fn \<Rightarrow> pricing_fn" where
  "fair_value_estimate model inp = model inp"

section \<open>The interface\<close>

locale pricing_model =
  fixes estimate :: pricing_fn
  assumes estimate_range: "1 \<le> estimate inp" "estimate inp \<le> 99"
begin

lemma rounded_estimate_valid: "is_valid_price (c_round (estimate inp))"
  using estimate_range [of inp] c_round_ge [of 1 "estimate inp"] c_round_le [of "estimate inp" 99]
  by (simp add: price_defs)

lemma engine_range: "1 \<le> fair_value_estimate estimate inp \<and> fair_value_estimate estimate inp \<le> 99"
  using estimate_range by (simp add: fair_value_estimate_def)

end

lemma clamp_valid_cents:
  "1 \<le> clamp x kMinValidCents kMaxValidCents" "clamp x kMinValidCents kMaxValidCents \<le> 99"
  using clamp_bounds [of kMinValidCents kMaxValidCents x] by (simp_all add: pricing_consts)

lemma debias_range: "kMinProb \<le> debias_probability p beta" "debias_probability p beta \<le> kMaxProb"
  using clamp_bounds [of kMinProb kMaxProb] by (simp_all add: debias_probability_def Let_def pricing_consts)

interpretation heuristic: pricing_model heuristic_estimate
  by unfold_locales (simp_all add: heuristic_estimate_def Let_def clamp_valid_cents)

interpretation clearing: pricing_model "clearing_price_estimate tape_weight" for tape_weight
  by unfold_locales (simp_all add: clearing_price_estimate_def clamp_valid_cents)

interpretation view_based: pricing_model "view_based_estimate beta" for beta
proof unfold_locales
  fix inp
  have "kMinProb \<le> clamp p kMinProb kMaxProb" "clamp p kMinProb kMaxProb \<le> kMaxProb" for p
    using clamp_bounds [of kMinProb kMaxProb p] by (simp_all add: pricing_consts)
  then show "1 \<le> view_based_estimate beta inp" "view_based_estimate beta inp \<le> 99"
    using debias_range [of "fv_mid_cents inp / kContractMaxCents_real" "view_based_beta beta"]
    by (auto simp: view_based_estimate_def Let_def pricing_consts field_simps split: option.splits)
qed

section \<open>Correctness of the models\<close>

lemma clamp_complement:
  fixes x lo hi :: real
  shows "lo \<le> hi \<Longrightarrow> clamp (lo + hi - x) lo hi = lo + hi - clamp x lo hi"
  by (auto simp: clamp_def)

text \<open>
  Every pricing model answers every input with a price the exchange accepts: the estimate
  lies between 1 and 99 cents and rounds to a valid whole-cent price.
\<close>

theorem pricing_models_valid:
  "\<forall>model \<in> {heuristic_estimate, clearing_price_estimate tape_weight, view_based_estimate beta}.
     1 \<le> fair_value_estimate model inp \<and> fair_value_estimate model inp \<le> 99
     \<and> is_valid_price (c_round (fair_value_estimate model inp))"
  using heuristic.engine_range clearing.engine_range view_based.engine_range
    heuristic.rounded_estimate_valid clearing.rounded_estimate_valid view_based.rounded_estimate_valid
  by (auto simp: fair_value_estimate_def)

theorem pricing_models_valid_witness:
  "is_valid_price (c_round (fair_value_estimate heuristic_estimate
     \<lparr>fv_mid_cents = 250, fv_time_to_close_hours = 0, fv_net_position = -4000,
      fv_external_prob = Some 3, fv_tape_vwap_cents = None\<rparr>))"
  using pricing_models_valid by blast

text \<open>
  The favorite-longshot correction is symmetric in the two outcomes, monotone in the market
  probability, and moves a probability away from one half: longshots down, favorites up (up to
  the clamp at 1 and 99 percent).
\<close>

theorem debias_shape:
  assumes "0 \<le> beta" and "beta < 1"
  shows "debias_probability (1 - p) beta = 1 - debias_probability p beta
    \<and> (p \<le> p' \<longrightarrow> debias_probability p beta \<le> debias_probability p' beta)
    \<and> (kMinProb \<le> p \<and> p \<le> 1/2 \<longrightarrow> debias_probability p beta \<le> p)
    \<and> (1/2 \<le> p \<and> p \<le> kMaxProb \<longrightarrow> p \<le> debias_probability p beta)"
proof -
  have b: "0 < 1 - beta" using assms by simp
  let ?d = "\<lambda>q. (q - beta / 2) / (1 - beta)"
  have "?d (1 - p) = kMinProb + kMaxProb - ?d p"
    using b by (simp add: kMinProb_def kMaxProb_def field_simps)
  then have sym: "debias_probability (1 - p) beta = 1 - debias_probability p beta"
    using clamp_complement [of kMinProb kMaxProb "?d p"]
    by (simp add: debias_probability_def Let_def) (simp add: kMinProb_def kMaxProb_def)
  have mono: "p \<le> p' \<Longrightarrow> debias_probability p beta \<le> debias_probability p' beta"
    using b by (simp add: debias_probability_def Let_def clamp_mono divide_right_mono kMinProb_def kMaxProb_def)
  have low: "?d p \<le> p" if "p \<le> 1/2"
  proof -
    have "beta * p \<le> beta * (1/2)" using that assms(1) by (intro mult_left_mono) auto
    then show ?thesis using b by (simp add: pos_divide_le_eq algebra_simps)
  qed
  have high: "p \<le> ?d p" if "1/2 \<le> p"
  proof -
    have "beta * (1/2) \<le> beta * p" using that assms(1) by (intro mult_left_mono) auto
    then show ?thesis using b by (simp add: pos_le_divide_eq algebra_simps)
  qed
  have "debias_probability p beta \<le> p" if "kMinProb \<le> p" "p \<le> 1/2"
    using clamp_mono [OF low, of kMinProb kMaxProb] that
    by (simp add: debias_probability_def Let_def) (simp add: kMinProb_def kMaxProb_def)
  moreover have "p \<le> debias_probability p beta" if "1/2 \<le> p" "p \<le> kMaxProb"
    using clamp_mono [OF high, of kMinProb kMaxProb] that
    by (simp add: debias_probability_def Let_def) (simp add: kMinProb_def kMaxProb_def)
  ultimately show ?thesis using sym mono by blast
qed

theorem debias_shape_witness:
  "debias_probability (1/10) kDefaultBeta \<le> 1/10 \<and> 9/10 \<le> debias_probability (9/10) kDefaultBeta"
  using debias_shape [of kDefaultBeta "1/10" "1/10"] debias_shape [of kDefaultBeta "9/10" "9/10"]
  by (simp add: kDefaultBeta_def kMinProb_def kMaxProb_def)

text \<open>
  The heuristic estimate leans the right way: it does not decrease with the mid or with the
  external probability and does not increase with the net position, when the time to close is
  not negative.
\<close>

theorem heuristic_monotone:
  assumes "0 \<le> fv_time_to_close_hours inp" and "mid \<le> mid'" and "pos' \<le> pos" and "prob \<le> prob'"
  shows "heuristic_estimate (inp\<lparr>fv_mid_cents := mid, fv_net_position := pos\<rparr>)
      \<le> heuristic_estimate (inp\<lparr>fv_mid_cents := mid', fv_net_position := pos'\<rparr>)
    \<and> heuristic_estimate (inp\<lparr>fv_external_prob := Some prob\<rparr>)
      \<le> heuristic_estimate (inp\<lparr>fv_external_prob := Some prob'\<rparr>)"
proof -
  let ?e = "exp (- fv_time_to_close_hours inp / kDecayTimeConstantHours)"
  have e: "?e \<le> 1" using assms(1) by (simp add: kDecayTimeConstantHours_def)
  have "0 \<le> (1 - ?e) * (mid' - mid)" using e assms(2) by simp
  then have "mid + (50 - mid) * ?e \<le> mid' + (50 - mid') * ?e" by (simp add: algebra_simps)
  moreover have "real_of_int pos' \<le> real_of_int pos" using assms(3) by simp
  ultimately show ?thesis
    using assms(4)
    by (auto simp: heuristic_estimate_def Let_def pricing_consts split: option.split intro!: clamp_mono)
qed

theorem heuristic_monotone_witness:
  "heuristic_estimate \<lparr>fv_mid_cents = 40, fv_time_to_close_hours = 5, fv_net_position = 10,
      fv_external_prob = None, fv_tape_vwap_cents = None\<rparr>
   \<le> heuristic_estimate \<lparr>fv_mid_cents = 60, fv_time_to_close_hours = 5, fv_net_position = -10,
      fv_external_prob = None, fv_tape_vwap_cents = None\<rparr>"
  using heuristic_monotone [of "\<lparr>fv_mid_cents = 40, fv_time_to_close_hours = 5, fv_net_position = 10,
      fv_external_prob = None, fv_tape_vwap_cents = None\<rparr>" 40 60 "-10" 10 0 0]
  by simp

end
