(* ===== verification/Flow_Imbalance.thy ===== *)
theory Flow_Imbalance
  imports Core_Types
begin

text \<open>
  \<open>FlowImbalanceGuard\<close> (\<open>source/engine/flow_imbalance.cpp\<close>): the bot's fills per market over a
  rolling window, and whether they lean to one side. Times are nanoseconds since the epoch.
\<close>

section \<open>State and operations\<close>

record flow_config =
  fc_window_seconds :: int
  fc_imbalance_ratio_threshold :: real
  fc_min_flow_volume :: int

definition default_flow_config :: flow_config where
  "default_flow_config = \<lparr>fc_window_seconds = 300, fc_imbalance_ratio_threshold = 2,
     fc_min_flow_volume = 20\<rparr>"

record flow_entry =
  fe_when :: time_ns
  fe_side :: side
  fe_quantity :: quantity

record flow_guard =
  fg_config :: flow_config
  fg_fills :: "ticker \<rightharpoonup> flow_entry list"

definition kMinRatioDenominator :: real where "kMinRatioDenominator = 1"

definition new_flow_guard :: "flow_config \<Rightarrow> flow_guard" where
  "new_flow_guard config = \<lparr>fg_config = config, fg_fills = Map.empty\<rparr>"

definition flow_cutoff :: "flow_guard \<Rightarrow> time_ns \<Rightarrow> time_ns" where
  "flow_cutoff g t = t - fc_window_seconds (fg_config g) * kNanosPerSecond"

definition flow_record_fill :: "ticker \<Rightarrow> side \<Rightarrow> quantity \<Rightarrow> time_ns \<Rightarrow> flow_guard \<Rightarrow> flow_guard" where
  "flow_record_fill tk sd qty when g =
     (let entries = lookup_or [] (fg_fills g) tk
            @ [\<lparr>fe_when = when, fe_side = sd, fe_quantity = qty\<rparr>]
      in g\<lparr>fg_fills := (fg_fills g)(tk \<mapsto>
             dropWhile (\<lambda>e. fe_when e < flow_cutoff g when) entries)\<rparr>)"

fun add_volumes :: "time_ns \<Rightarrow> flow_entry list \<Rightarrow> quantity \<times> quantity \<Rightarrow> quantity \<times> quantity" where
  "add_volumes cutoff [] vols = vols"
| "add_volumes cutoff (e # es) (yes_volume, no_volume) =
     (if fe_when e < cutoff then add_volumes cutoff es (yes_volume, no_volume)
      else if fe_side e = Yes then add_volumes cutoff es (yes_volume + fe_quantity e, no_volume)
      else add_volumes cutoff es (yes_volume, no_volume + fe_quantity e))"

definition windowed_volume :: "flow_guard \<Rightarrow> ticker \<Rightarrow> time_ns \<Rightarrow> quantity \<times> quantity" where
  "windowed_volume g tk now =
     (case fg_fills g tk of
        None \<Rightarrow> (0, 0)
      | Some entries \<Rightarrow> add_volumes (flow_cutoff g now) entries (0, 0))"

definition imbalance_ratio :: "flow_guard \<Rightarrow> ticker \<Rightarrow> time_ns \<Rightarrow> real" where
  "imbalance_ratio g tk now =
     (let (yes_volume, no_volume) = windowed_volume g tk now;
          high = max (contracts yes_volume) (contracts no_volume);
          low = min (contracts yes_volume) (contracts no_volume)
      in if high = 0 then 1 else high / max low kMinRatioDenominator)"

definition is_imbalanced :: "flow_guard \<Rightarrow> ticker \<Rightarrow> time_ns \<Rightarrow> bool" where
  "is_imbalanced g tk now =
     (let (yes_volume, no_volume) = windowed_volume g tk now
      in if yes_volume + no_volume < from_contracts (fc_min_flow_volume (fg_config g)) then False
         else
           let high = max (contracts yes_volume) (contracts no_volume);
               low = min (contracts yes_volume) (contracts no_volume);
               ratio = high / max low kMinRatioDenominator
           in fc_imbalance_ratio_threshold (fg_config g) < ratio)"

definition dominant_taker_side :: "flow_guard \<Rightarrow> ticker \<Rightarrow> time_ns \<Rightarrow> side option" where
  "dominant_taker_side g tk now =
     (if \<not> is_imbalanced g tk now then None
      else
        let (yes_volume, no_volume) = windowed_volume g tk now
        in Some (if no_volume < yes_volume then No else Yes))"

definition flow_reset :: "ticker \<Rightarrow> flow_guard \<Rightarrow> flow_guard" where
  "flow_reset tk g = g\<lparr>fg_fills := (fg_fills g)(tk := None)\<rparr>"

section \<open>The window\<close>

definition side_volume :: "time_ns \<Rightarrow> side \<Rightarrow> flow_entry list \<Rightarrow> quantity" where
  "side_volume cutoff sd entries =
     sum_list (map fe_quantity (filter (\<lambda>e. cutoff \<le> fe_when e \<and> fe_side e = sd) entries))"

lemma add_volumes_sum:
  "add_volumes cutoff es (y, n) = (y + side_volume cutoff Yes es, n + side_volume cutoff No es)"
proof (induction es arbitrary: y n)
  case (Cons e es)
  then show ?case by (cases "fe_side e") (auto simp: side_volume_def algebra_simps)
qed (simp add: side_volume_def)

lemma windowed_volume_sum:
  "windowed_volume g tk now =
     (side_volume (flow_cutoff g now) Yes (lookup_or [] (fg_fills g) tk),
      side_volume (flow_cutoff g now) No (lookup_or [] (fg_fills g) tk))"
  by (auto simp: windowed_volume_def add_volumes_sum lookup_or_def side_volume_def split: option.splits)

text \<open>A stream of fills, each with its market, side, size and time.\<close>

definition flow_run :: "(ticker \<times> side \<times> quantity \<times> time_ns) list \<Rightarrow> flow_guard \<Rightarrow> flow_guard" where
  "flow_run = fold (\<lambda>(tk, sd, qty, when). flow_record_fill tk sd qty when)"

definition entries_of :: "ticker \<Rightarrow> (ticker \<times> side \<times> quantity \<times> time_ns) list \<Rightarrow> flow_entry list" where
  "entries_of tk fs = map (\<lambda>(tk, sd, qty, when). \<lparr>fe_when = when, fe_side = sd, fe_quantity = qty\<rparr>)
     (filter (\<lambda>(tk', _). tk' = tk) fs)"

lemma flow_run_snoc: "flow_run (fs @ [(tk, sd, qty, when)]) g = flow_record_fill tk sd qty when (flow_run fs g)"
  by (simp add: flow_run_def)

lemma flow_run_config: "fg_config (flow_run fs g) = fg_config g"
proof (induction fs rule: rev_induct)
  case (snoc f fs)
  then show ?case by (cases f) (simp add: flow_run_snoc flow_record_fill_def Let_def)
qed (simp add: flow_run_def)

lemma flow_run_live:
  assumes "\<forall>(tk, sd, qty, when) \<in> set fs. when \<le> now"
  shows "filter (\<lambda>e. flow_cutoff (new_flow_guard config) now \<le> fe_when e)
       (lookup_or [] (fg_fills (flow_run fs (new_flow_guard config))) tk)
     = filter (\<lambda>e. flow_cutoff (new_flow_guard config) now \<le> fe_when e) (entries_of tk fs)"
  using assms
proof (induction fs rule: rev_induct)
  case (snoc f fs)
  obtain tk' sd qty t where f: "f = (tk', sd, qty, t)" by (cases f)
  let ?g = "flow_run fs (new_flow_guard config)"
  have cut: "flow_cutoff ?g t \<le> flow_cutoff (new_flow_guard config) now"
    using snoc.prems f by (simp add: flow_cutoff_def flow_run_config)
  show ?case
  proof (cases "tk' = tk")
    case True
    have "filter (\<lambda>e. flow_cutoff (new_flow_guard config) now \<le> fe_when e)
        (dropWhile (\<lambda>e. fe_when e < flow_cutoff ?g t) es)
      = filter (\<lambda>e. flow_cutoff (new_flow_guard config) now \<le> fe_when e) es" for es :: "flow_entry list"
      by (rule filter_dropWhile) (use cut in auto)
    then show ?thesis
      using snoc True by (simp add: f flow_run_snoc flow_record_fill_def Let_def entries_of_def)
  next
    case False
    then have "lookup_or [] (fg_fills (flow_record_fill tk' sd qty t ?g)) tk = lookup_or [] (fg_fills ?g) tk"
      by (simp add: flow_record_fill_def Let_def lookup_or_def)
    then show ?thesis
      using snoc False by (simp add: f flow_run_snoc entries_of_def)
  qed
qed (simp add: flow_run_def new_flow_guard_def entries_of_def)

lemma side_volume_filter:
  "side_volume cutoff sd es = sum_list (map fe_quantity (filter (\<lambda>e. fe_side e = sd)
     (filter (\<lambda>e. cutoff \<le> fe_when e) es)))"
  by (simp add: side_volume_def conj_commute)

text \<open>
  Eviction is invisible: after any stream of fills, in any order of their times and over any
  markets, a query no earlier than the fills sees for each side exactly the volume of the market's
  fills inside the window that ends at the query.
\<close>

theorem windowed_volume_exact:
  assumes "\<forall>(tk, sd, qty, when) \<in> set fs. when \<le> now"
  shows "windowed_volume (flow_run fs (new_flow_guard config)) tk now =
     (side_volume (now - fc_window_seconds config * kNanosPerSecond) Yes (entries_of tk fs),
      side_volume (now - fc_window_seconds config * kNanosPerSecond) No (entries_of tk fs))"
proof -
  have "flow_cutoff (flow_run fs (new_flow_guard config)) now = flow_cutoff (new_flow_guard config) now"
    by (simp add: flow_cutoff_def flow_run_config)
  then show ?thesis
    using flow_run_live [OF assms, of config tk]
    by (simp add: windowed_volume_sum side_volume_filter)
      (simp add: flow_cutoff_def new_flow_guard_def)
qed

theorem windowed_volume_exact_witness:
  "windowed_volume (flow_run [(''M'', Yes, from_centi 500, 0), (''M'', No, from_centi 200, 400000000000),
      (''N'', No, from_centi 100, 400000000000)] (new_flow_guard default_flow_config)) ''M'' 400000000000
     = (0, from_centi 200)"
  using windowed_volume_exact [of "[(''M'', Yes, from_centi 500, 0), (''M'', No, from_centi 200, 400000000000),
      (''N'', No, from_centi 100, 400000000000)]" 400000000000 default_flow_config "''M''"]
  by (simp add: default_flow_config_def entries_of_def side_volume_def kNanosPerSecond_def)

text \<open>
  An imbalance verdict is well founded: with a threshold of at least 1, a dominant taker side
  is reported only when the window holds at least the minimum flow and the bot's own fills lean
  strictly to the other side; and the side reported is the one the takers bought.
\<close>

theorem dominant_side_sound:
  assumes "1 \<le> fc_imbalance_ratio_threshold (fg_config g)"
    and "windowed_volume g tk now = (yes_volume, no_volume)"
    and "dominant_taker_side g tk now = Some sd"
  shows "from_contracts (fc_min_flow_volume (fg_config g)) \<le> yes_volume + no_volume
    \<and> (sd = No \<longrightarrow> no_volume < yes_volume) \<and> (sd = Yes \<longrightarrow> yes_volume < no_volume)"
proof -
  let ?h = "max (contracts yes_volume) (contracts no_volume)"
  let ?l = "min (contracts yes_volume) (contracts no_volume)"
  have im: "is_imbalanced g tk now" and sd: "sd = (if no_volume < yes_volume then No else Yes)"
    using assms(2,3) by (auto simp: dominant_taker_side_def split: if_splits)
  have min: "\<not> yes_volume + no_volume < from_contracts (fc_min_flow_volume (fg_config g))"
    and ratio: "fc_imbalance_ratio_threshold (fg_config g) < ?h / max ?l kMinRatioDenominator"
    using im assms(2) by (auto simp: is_imbalanced_def Let_def split: if_splits)
  have "1 < ?h / max ?l kMinRatioDenominator" using ratio assms(1) by linarith
  moreover have "0 < max ?l kMinRatioDenominator" by (simp add: kMinRatioDenominator_def less_max_iff_disj)
  ultimately have "max ?l kMinRatioDenominator < ?h" by (simp add: less_divide_eq)
  then have "centi yes_volume \<noteq> centi no_volume" by (auto simp: contracts_def)
  with min sd show ?thesis by auto
qed

definition leaning_guard :: flow_guard where
  "leaning_guard = flow_run [(''M'', No, from_centi 3000, 5), (''M'', Yes, from_centi 200, 7)]
     (new_flow_guard default_flow_config)"

lemma leaning_guard_facts:
  "windowed_volume leaning_guard ''M'' 10 = (from_centi 200, from_centi 3000)"
  "fg_config leaning_guard = default_flow_config" "dominant_taker_side leaning_guard ''M'' 10 = Some Yes"
proof -
  show w: "windowed_volume leaning_guard ''M'' 10 = (from_centi 200, from_centi 3000)"
    by (simp add: leaning_guard_def flow_run_def flow_record_fill_def new_flow_guard_def windowed_volume_def
      flow_cutoff_def default_flow_config_def kNanosPerSecond_def zero_quantity_def plus_quantity_def)
  show c: "fg_config leaning_guard = default_flow_config"
    by (simp add: leaning_guard_def flow_run_config new_flow_guard_def)
  show "dominant_taker_side leaning_guard ''M'' 10 = Some Yes"
    by (simp add: dominant_taker_side_def is_imbalanced_def w c Let_def default_flow_config_def
      contracts_def kCentiPerContract_def from_contracts_def kMinRatioDenominator_def)
qed

theorem dominant_side_sound_witness:
  "dominant_taker_side leaning_guard ''M'' 10 = Some Yes \<and> from_centi 200 < from_centi 3000"
  using dominant_side_sound [of leaning_guard "''M''" 10 "from_centi 200" "from_centi 3000" Yes]
  by (simp add: leaning_guard_facts default_flow_config_def)

text \<open>
  The denominator floor of one contract makes the ratio smaller than 1 when less than one contract
  was filled in all: half a contract on one side has ratio one half.
\<close>

lemma imbalance_ratio_below_one:
  "imbalance_ratio (flow_run [(''M'', Yes, from_centi 50, 0)] (new_flow_guard default_flow_config)) ''M'' 0 = 1/2"
  by (simp add: imbalance_ratio_def flow_run_def flow_record_fill_def new_flow_guard_def windowed_volume_def
    flow_cutoff_def default_flow_config_def kNanosPerSecond_def contracts_def kCentiPerContract_def
    kMinRatioDenominator_def Let_def zero_quantity_def plus_quantity_def)

end
