(* ===== verification/Trade_Tape.thy ===== *)
theory Trade_Tape
  imports Core_Types
begin

text \<open>
  \<open>TradeTape\<close> (\<open>source/engine/trade_tape.cpp\<close>): the rolling window of public prints per market,
  with the bot's own trades marked by their trade id. A half life is a positive number of seconds.
\<close>

section \<open>State and operations\<close>

record tape_config =
  tc_window_seconds :: int
  tc_own_fill_weight :: real

definition default_tape_config :: tape_config where
  "default_tape_config = \<lparr>tc_window_seconds = 300, tc_own_fill_weight = 0\<rparr>"

record trade_tape =
  tt_config :: tape_config
  prints_by_ticker :: "ticker \<rightharpoonup> public_trade list"
  own_trade_ids :: "string set"

definition new_trade_tape :: "tape_config \<Rightarrow> trade_tape" where
  "new_trade_tape config =
     \<lparr>tt_config = config, prints_by_ticker = Map.empty, own_trade_ids = {}\<rparr>"

definition tape_window_ns :: "trade_tape \<Rightarrow> int" where
  "tape_window_ns tape = tc_window_seconds (tt_config tape) * kNanosPerSecond"

definition record_trade :: "public_trade \<Rightarrow> trade_tape \<Rightarrow> trade_tape" where
  "record_trade trade tape =
     (let prints = lookup_or [] (prints_by_ticker tape) (pt_market_ticker trade) @ [trade];
          cutoff = pt_timestamp trade - tape_window_ns tape
      in tape\<lparr>prints_by_ticker := (prints_by_ticker tape)(pt_market_ticker trade \<mapsto>
           dropWhile (\<lambda>print. pt_timestamp print < cutoff) prints)\<rparr>)"

definition record_own_fill :: "string \<Rightarrow> trade_tape \<Rightarrow> trade_tape" where
  "record_own_fill trade_id tape =
     (if trade_id = [] then tape
      else tape\<lparr>own_trade_ids := insert trade_id (own_trade_ids tape)\<rparr>)"

definition is_in_window :: "trade_tape \<Rightarrow> public_trade \<Rightarrow> time_ns \<Rightarrow> bool" where
  "is_in_window tape print now =
     (let cutoff = now - tape_window_ns tape
      in cutoff \<le> pt_timestamp print \<and> pt_timestamp print \<le> now)"

definition is_countable :: "trade_tape \<Rightarrow> public_trade \<Rightarrow> time_ns \<Rightarrow> bool" where
  "is_countable tape print now =
     (is_in_window tape print now \<and> pt_trade_id print \<notin> own_trade_ids tape)"

definition print_weight :: "trade_tape \<Rightarrow> int \<Rightarrow> time_ns \<Rightarrow> public_trade \<Rightarrow> real" where
  "print_weight tape half_life now print =
     (let age_seconds = of_int (now - pt_timestamp print) / of_int kNanosPerSecond;
          half_lives_elapsed = age_seconds / of_int half_life;
          weight = contracts (pt_quantity print) * 2 powr (- half_lives_elapsed)
      in if pt_trade_id print \<in> own_trade_ids tape
         then weight * tc_own_fill_weight (tt_config tape) else weight)"

fun vwap_sums :: "trade_tape \<Rightarrow> int \<Rightarrow> time_ns \<Rightarrow> public_trade list \<Rightarrow> real \<times> real \<Rightarrow> real \<times> real" where
  "vwap_sums tape half_life now [] acc = acc"
| "vwap_sums tape half_life now (print # prints) (weighted_price_sum, weight_sum) =
     (if \<not> is_in_window tape print now
      then vwap_sums tape half_life now prints (weighted_price_sum, weight_sum)
      else
        let weight = print_weight tape half_life now print
        in vwap_sums tape half_life now prints
             (weighted_price_sum + weight * of_int (pt_yes_price_cents print), weight_sum + weight))"

definition vwap_cents :: "trade_tape \<Rightarrow> ticker \<Rightarrow> int \<Rightarrow> time_ns \<Rightarrow> real option" where
  "vwap_cents tape tk half_life now =
     (case prints_by_ticker tape tk of
        None \<Rightarrow> None
      | Some prints \<Rightarrow>
          (let (weighted_price_sum, weight_sum) = vwap_sums tape half_life now prints (0, 0)
           in if weight_sum \<le> 0 then None else Some (weighted_price_sum / weight_sum)))"

definition print_count :: "trade_tape \<Rightarrow> ticker \<Rightarrow> time_ns \<Rightarrow> int" where
  "print_count tape tk now =
     (case prints_by_ticker tape tk of
        None \<Rightarrow> 0
      | Some prints \<Rightarrow>
          foldl (\<lambda>cnt print. if is_countable tape print now then cnt + 1 else cnt) 0 prints)"

fun taker_volumes :: "trade_tape \<Rightarrow> time_ns \<Rightarrow> public_trade list \<Rightarrow> real \<times> real \<Rightarrow> real \<times> real" where
  "taker_volumes tape now [] vols = vols"
| "taker_volumes tape now (print # prints) (yes_volume, no_volume) =
     (if \<not> is_countable tape print now then taker_volumes tape now prints (yes_volume, no_volume)
      else if pt_taker_side print = Yes
        then taker_volumes tape now prints (yes_volume + contracts (pt_quantity print), no_volume)
        else taker_volumes tape now prints (yes_volume, no_volume + contracts (pt_quantity print)))"

definition minority_side_ratio :: "trade_tape \<Rightarrow> ticker \<Rightarrow> time_ns \<Rightarrow> real option" where
  "minority_side_ratio tape tk now =
     (case prints_by_ticker tape tk of
        None \<Rightarrow> None
      | Some prints \<Rightarrow>
          (let (yes_volume, no_volume) = taker_volumes tape now prints (0, 0);
               total_volume = yes_volume + no_volume
           in if total_volume \<le> 0 then None else Some (min yes_volume no_volume / total_volume)))"

section \<open>The queries as sums over the window\<close>

lemma vwap_sums_sum:
  "vwap_sums tape hl now ps (S, W) =
     (let live = filter (\<lambda>p. is_in_window tape p now) ps in
      (S + sum_list (map (\<lambda>p. print_weight tape hl now p * of_int (pt_yes_price_cents p)) live),
       W + sum_list (map (print_weight tape hl now) live)))"
  by (induction ps arbitrary: S W) (auto simp: Let_def)

lemma taker_volumes_sum:
  "taker_volumes tape now ps (y, n) =
     (let live = filter (\<lambda>p. is_countable tape p now) ps in
      (y + sum_list (map (contracts \<circ> pt_quantity) (filter (\<lambda>p. pt_taker_side p = Yes) live)),
       n + sum_list (map (contracts \<circ> pt_quantity) (filter (\<lambda>p. pt_taker_side p \<noteq> Yes) live))))"
  by (induction ps arbitrary: y n) (auto simp: Let_def)

lemma print_count_length:
  "foldl (\<lambda>cnt p. if is_countable tape p now then cnt + 1 else cnt) (k::int) ps
     = k + int (length (filter (\<lambda>p. is_countable tape p now) ps))"
  by (induction ps arbitrary: k) auto

lemma countable_filter:
  "filter (\<lambda>p. is_countable tape p now) ps =
     filter (\<lambda>p. pt_trade_id p \<notin> own_trade_ids tape) (filter (\<lambda>p. is_in_window tape p now) ps)"
  by (simp add: is_countable_def conj_commute)

text \<open>The queries read a tape only through the prints of the window.\<close>

lemma queries_cong:
  assumes "tt_config tape' = tt_config tape" "own_trade_ids tape' = own_trade_ids tape"
    and "filter (\<lambda>p. is_in_window tape p now) (lookup_or [] (prints_by_ticker tape') tk)
       = filter (\<lambda>p. is_in_window tape p now) (lookup_or [] (prints_by_ticker tape) tk)"
  shows "vwap_cents tape' tk hl now = vwap_cents tape tk hl now"
    "print_count tape' tk now = print_count tape tk now"
    "minority_side_ratio tape' tk now = minority_side_ratio tape tk now"
proof -
  have win: "is_in_window tape' = is_in_window tape" and cnt: "is_countable tape' = is_countable tape"
    and wt: "print_weight tape' = print_weight tape"
    using assms(1,2) by (simp_all add: is_in_window_def is_countable_def print_weight_def tape_window_ns_def fun_eq_iff Let_def)
  have v: "vwap_cents t tk hl now =
      (let (S, W) = vwap_sums t hl now (lookup_or [] (prints_by_ticker t) tk) (0, 0)
       in if W \<le> 0 then None else Some (S / W))" for t
    by (simp add: vwap_cents_def lookup_or_def split: option.splits)
  have c: "print_count t tk now =
      int (length (filter (\<lambda>p. is_countable t p now) (lookup_or [] (prints_by_ticker t) tk)))" for t
    by (simp add: print_count_def print_count_length lookup_or_def split: option.splits)
  have r: "minority_side_ratio t tk now =
      (let (y, n) = taker_volumes t now (lookup_or [] (prints_by_ticker t) tk) (0, 0)
       in if y + n \<le> 0 then None else Some (min y n / (y + n)))" for t
    by (simp add: minority_side_ratio_def lookup_or_def Let_def split: option.splits)
  show "vwap_cents tape' tk hl now = vwap_cents tape tk hl now"
    by (simp add: v vwap_sums_sum win wt assms(3))
  show "print_count tape' tk now = print_count tape tk now"
    using assms(3) by (simp only: c cnt countable_filter)
  show "minority_side_ratio tape' tk now = minority_side_ratio tape tk now"
    using assms(3) by (simp only: r cnt taker_volumes_sum countable_filter)
qed

section \<open>Streams of prints and fills\<close>

datatype tape_event = PrintEv public_trade | OwnFillEv string

fun tape_step :: "tape_event \<Rightarrow> trade_tape \<Rightarrow> trade_tape" where
  "tape_step (PrintEv trade) tape = record_trade trade tape"
| "tape_step (OwnFillEv trade_id) tape = record_own_fill trade_id tape"

text \<open>The reference: a tape that keeps every print and marks the fills up front.\<close>

definition full_tape :: "tape_config \<Rightarrow> tape_event list \<Rightarrow> trade_tape" where
  "full_tape config evs = \<lparr>tt_config = config,
     prints_by_ticker = (\<lambda>tk. Some (concat (map (\<lambda>ev. case ev of
        PrintEv trade \<Rightarrow> if pt_market_ticker trade = tk then [trade] else [] | _ \<Rightarrow> []) evs))),
     own_trade_ids = {tid. OwnFillEv tid \<in> set evs \<and> tid \<noteq> []}\<rparr>"

lemma tape_run_config:
  "tt_config (fold tape_step evs tape) = tt_config tape"
proof (induction evs arbitrary: tape)
  case (Cons ev evs)
  then show ?case by (cases ev) (simp_all add: record_trade_def record_own_fill_def Let_def)
qed simp

lemma tape_run_own:
  "own_trade_ids (fold tape_step evs (new_trade_tape config)) = own_trade_ids (full_tape config evs)"
proof (induction evs rule: rev_induct)
  case (snoc ev evs)
  then show ?case
    by (cases ev) (auto simp: record_trade_def record_own_fill_def full_tape_def Let_def)
qed (simp add: new_trade_tape_def full_tape_def)

lemma tape_run_live:
  assumes "\<forall>trade. PrintEv trade \<in> set evs \<longrightarrow> pt_timestamp trade \<le> now"
  shows "filter (\<lambda>p. is_in_window (full_tape config evs') p now)
      (lookup_or [] (prints_by_ticker (fold tape_step evs (new_trade_tape config))) tk)
    = filter (\<lambda>p. is_in_window (full_tape config evs') p now)
      (lookup_or [] (prints_by_ticker (full_tape config evs)) tk)"
  using assms
proof (induction evs rule: rev_induct)
  case (snoc ev evs)
  let ?t = "fold tape_step evs (new_trade_tape config)"
  let ?live = "\<lambda>p. is_in_window (full_tape config evs') p now"
  have IH: "filter ?live (lookup_or [] (prints_by_ticker ?t) tk)
      = filter ?live (lookup_or [] (prints_by_ticker (full_tape config evs)) tk)"
    using snoc by auto
  show ?case
  proof (cases ev)
    case (PrintEv trade)
    have "filter ?live (dropWhile (\<lambda>p. pt_timestamp p < pt_timestamp trade - tape_window_ns ?t) ps)
        = filter ?live ps" for ps :: "public_trade list"
      using snoc.prems PrintEv
      by (intro filter_dropWhile) (auto simp: is_in_window_def tape_window_ns_def tape_run_config
        new_trade_tape_def full_tape_def)
    then show ?thesis
      using IH by (cases "pt_market_ticker trade = tk")
        (simp_all add: PrintEv record_trade_def Let_def full_tape_def lookup_or_def)
  next
    case (OwnFillEv tid)
    then show ?thesis using IH by (simp add: record_own_fill_def full_tape_def lookup_or_def)
  qed
qed (simp add: new_trade_tape_def full_tape_def lookup_or_def)

text \<open>
  C40. The rolling tape answers as if it kept everything: after any interleaving of public prints
  and own fills, whichever arrives first, every query no earlier than the prints gives the same
  answer as a tape that never evicts and knows all own trade ids from the start.
\<close>

theorem tape_matches_full_history:
  assumes "\<forall>trade. PrintEv trade \<in> set evs \<longrightarrow> pt_timestamp trade \<le> now"
  shows "let tape = fold tape_step evs (new_trade_tape config); ref = full_tape config evs in
     vwap_cents tape tk half_life now = vwap_cents ref tk half_life now
     \<and> print_count tape tk now = print_count ref tk now
     \<and> minority_side_ratio tape tk now = minority_side_ratio ref tk now"
proof -
  have "tt_config (fold tape_step evs (new_trade_tape config)) = tt_config (full_tape config evs)"
    by (simp add: tape_run_config new_trade_tape_def full_tape_def)
  from queries_cong [OF this tape_run_own tape_run_live [OF assms]] show ?thesis by (simp add: Let_def)
qed

definition sample_print :: "string \<Rightarrow> int \<Rightarrow> int \<Rightarrow> side \<Rightarrow> time_ns \<Rightarrow> public_trade" where
  "sample_print tid price qty sd t = \<lparr>pt_trade_id = tid, pt_market_ticker = ''M'',
     pt_yes_price_cents = price, pt_quantity = from_centi qty, pt_taker_side = sd, pt_timestamp = t\<rparr>"

definition sample_events :: "tape_event list" where
  "sample_events = [PrintEv (sample_print ''a'' 40 100 Yes 0), PrintEv (sample_print ''b'' 60 200 No 5),
     OwnFillEv ''a'', PrintEv (sample_print ''c'' 50 100 Yes 400000000000)]"

theorem tape_matches_full_history_witness:
  "print_count (fold tape_step sample_events (new_trade_tape default_tape_config)) ''M'' 400000000000
     = print_count (full_tape default_tape_config sample_events) ''M'' 400000000000"
  using tape_matches_full_history [of sample_events 400000000000 default_tape_config "''M''" 1]
  by (simp add: Let_def sample_events_def sample_print_def)

section \<open>Bounds\<close>

lemma weighted_sum_bounds:
  fixes w v :: "'a \<Rightarrow> real"
  assumes "\<forall>x \<in> set xs. 0 \<le> w x \<and> lo \<le> v x \<and> v x \<le> hi"
  shows "lo * sum_list (map w xs) \<le> sum_list (map (\<lambda>x. w x * v x) xs)
    \<and> sum_list (map (\<lambda>x. w x * v x) xs) \<le> hi * sum_list (map w xs)"
  using assms
proof (induction xs)
  case (Cons x xs)
  have "w x * lo \<le> w x * v x" "w x * v x \<le> w x * hi" using Cons.prems by (auto intro: mult_left_mono)
  with Cons show ?case by (auto simp: algebra_simps)
qed simp

lemma print_weight_nonneg:
  "0 \<le> centi (pt_quantity p) \<Longrightarrow> 0 \<le> tc_own_fill_weight (tt_config tape) \<Longrightarrow> 0 \<le> print_weight tape hl now p"
  by (simp add: print_weight_def Let_def contracts_def kCentiPerContract_def)

lemma taker_sums_nonneg:
  "\<forall>p \<in> set ps. 0 \<le> centi (pt_quantity p) \<Longrightarrow> 0 \<le> sum_list (map (contracts \<circ> pt_quantity) (filter P ps))"
  by (rule sum_list_nonneg) (auto simp: contracts_def kCentiPerContract_def)

text \<open>
  The tape's answers are in range: when the sizes and the own-fill weight are not negative,
  the decayed average price lies between any bounds of the prices in the window, and the minority
  share of the taker flow lies between zero and one half.
\<close>

theorem tape_answers_bounded:
  assumes "\<forall>p \<in> set (lookup_or [] (prints_by_ticker tape) tk). 0 \<le> centi (pt_quantity p)"
    and "0 \<le> tc_own_fill_weight (tt_config tape)" and "0 < half_life"
    and "\<forall>p \<in> set (lookup_or [] (prints_by_ticker tape) tk).
       is_in_window tape p now \<longrightarrow> lo \<le> of_int (pt_yes_price_cents p) \<and> of_int (pt_yes_price_cents p) \<le> hi"
  shows "(case vwap_cents tape tk half_life now of None \<Rightarrow> True | Some v \<Rightarrow> lo \<le> v \<and> v \<le> hi)
    \<and> (case minority_side_ratio tape tk now of None \<Rightarrow> True | Some r \<Rightarrow> 0 \<le> r \<and> r \<le> 1/2)"
proof (cases "prints_by_ticker tape tk")
  case (Some ps)
  let ?live = "filter (\<lambda>p. is_in_window tape p now) ps"
  let ?W = "sum_list (map (print_weight tape half_life now) ?live)"
  let ?S = "sum_list (map (\<lambda>p. print_weight tape half_life now p * of_int (pt_yes_price_cents p)) ?live)"
  let ?count = "filter (\<lambda>p. is_countable tape p now) ps"
  let ?Y = "sum_list (map (contracts \<circ> pt_quantity) (filter (\<lambda>p. pt_taker_side p = Yes) ?count))"
  let ?N = "sum_list (map (contracts \<circ> pt_quantity) (filter (\<lambda>p. pt_taker_side p \<noteq> Yes) ?count))"
  have "lo * ?W \<le> ?S \<and> ?S \<le> hi * ?W"
    by (rule weighted_sum_bounds) (use assms Some in \<open>auto simp: print_weight_nonneg\<close>)
  then have "0 < ?W \<Longrightarrow> lo \<le> ?S / ?W \<and> ?S / ?W \<le> hi" by (simp add: pos_le_divide_eq pos_divide_le_eq)
  moreover have "vwap_cents tape tk half_life now = (if ?W \<le> 0 then None else Some (?S / ?W))"
    by (simp add: vwap_cents_def Some vwap_sums_sum Let_def)
  moreover have yn: "0 \<le> ?Y" "0 \<le> ?N" using assms(1) Some by (auto intro!: taker_sums_nonneg)
  then have "0 < ?Y + ?N \<Longrightarrow> 0 \<le> min ?Y ?N / (?Y + ?N) \<and> min ?Y ?N / (?Y + ?N) \<le> 1/2"
    by (simp add: divide_le_eq min_def)
  moreover have "minority_side_ratio tape tk now = (if ?Y + ?N \<le> 0 then None else Some (min ?Y ?N / (?Y + ?N)))"
    by (simp add: minority_side_ratio_def Some taker_volumes_sum Let_def)
  ultimately show ?thesis by simp
qed (simp add: vwap_cents_def minority_side_ratio_def)

theorem tape_answers_bounded_witness:
  "case vwap_cents (full_tape default_tape_config sample_events) ''M'' 60 10 of
     None \<Rightarrow> True | Some v \<Rightarrow> 40 \<le> v \<and> v \<le> 60"
  using tape_answers_bounded [of "full_tape default_tape_config sample_events" "''M''" 60 10 40 60]
  by (simp add: full_tape_def sample_events_def sample_print_def default_tape_config_def)

end
