(* ===== verification/Orderbook.thy ===== *)
theory Orderbook
  imports Core_Types
begin

text \<open>
  \<open>LocalOrderbook\<close> of \<open>source/engine/orderbook.hpp\<close> and \<open>orderbook.cpp\<close>: the in-memory mirror of
  one market's book, two ladders of price levels in descending order of price. The ladder
  operations are shown to implement a map from prices to resting sizes
  (locale \<open>price_ladder\<close>); the derived prices are shown to lie between the quotes they are
  computed from.
\<close>

section \<open>The ladder operations\<close>

definition find_level :: "level list \<Rightarrow> int \<Rightarrow> nat option" where
  "find_level levels price_cents =
     (let level_pos = lower_bound (\<lambda>lv. lv_price_cents lv > price_cents) levels in
      if level_pos \<noteq> length levels \<and> lv_price_cents (levels ! level_pos) = price_cents
      then Some level_pos else None)"

definition insertion_point :: "level list \<Rightarrow> int \<Rightarrow> nat" where
  "insertion_point levels price_cents = lower_bound (\<lambda>lv. lv_price_cents lv > price_cents) levels"

definition apply_delta_levels :: "level list \<Rightarrow> int \<Rightarrow> quantity \<Rightarrow> level list" where
  "apply_delta_levels levels price_cents delta =
     (case find_level levels price_cents of
        Some existing \<Rightarrow>
          (let quantity' = lv_quantity (levels ! existing) + delta in
           if quantity' \<le> 0 then take existing levels @ drop (Suc existing) levels
           else levels[existing := (levels ! existing)\<lparr>lv_quantity := quantity'\<rparr>])
      | None \<Rightarrow>
          if is_positive delta then
            (let insert_pos = insertion_point levels price_cents in
             take insert_pos levels @ [\<lparr>lv_price_cents = price_cents, lv_quantity = delta\<rparr>]
               @ drop insert_pos levels)
          else levels)"

definition apply_delta :: "orderbook \<Rightarrow> side \<Rightarrow> int \<Rightarrow> quantity \<Rightarrow> orderbook" where
  "apply_delta state sd price_cents delta =
     (case sd of
        Yes \<Rightarrow> state\<lparr>ob_yes := apply_delta_levels (ob_yes state) price_cents delta\<rparr>
      | No \<Rightarrow> state\<lparr>ob_no := apply_delta_levels (ob_no state) price_cents delta\<rparr>)"

definition apply_snapshot :: "orderbook \<Rightarrow> orderbook" where
  "apply_snapshot snap =
     snap\<lparr>ob_yes := sort_key (\<lambda>lv. - lv_price_cents lv) (ob_yes snap),
          ob_no := sort_key (\<lambda>lv. - lv_price_cents lv) (ob_no snap)\<rparr>"

definition empty_book :: orderbook where
  "empty_book = \<lparr>ob_ticker = [], ob_yes = [], ob_no = []\<rparr>"

section \<open>Prices derived from the book\<close>

definition best_bid :: "orderbook \<Rightarrow> level option" where
  "best_bid state = (case ob_yes state of [] \<Rightarrow> None | front # _ \<Rightarrow> Some front)"

definition best_ask :: "orderbook \<Rightarrow> level option" where
  "best_ask state = (case ob_no state of
      [] \<Rightarrow> None
    | best_no # _ \<Rightarrow> Some \<lparr>lv_price_cents = complement_price (lv_price_cents best_no),
                           lv_quantity = lv_quantity best_no\<rparr>)"

definition mid_price_cents :: "orderbook \<Rightarrow> real" where
  "mid_price_cents state = (case (best_bid state, best_ask state) of
      (Some bid, Some ask) \<Rightarrow>
        (of_int (lv_price_cents bid) + of_int (lv_price_cents ask)) / 2
    | _ \<Rightarrow> 0)"

definition micro_price_cents :: "orderbook \<Rightarrow> real" where
  "micro_price_cents state = (case (best_bid state, best_ask state) of
      (Some bid, Some ask) \<Rightarrow>
        (let bid_qty = contracts (lv_quantity bid); ask_qty = contracts (lv_quantity ask);
             total_qty = bid_qty + ask_qty in
         if total_qty \<le> 0 then mid_price_cents state
         else (of_int (lv_price_cents bid) * ask_qty + of_int (lv_price_cents ask) * bid_qty)
                / total_qty)
    | _ \<Rightarrow> 0)"

record depth_weighting =
  decay_per_cent :: real
  max_levels :: int

definition default_depth_weighting :: depth_weighting where
  "default_depth_weighting = \<lparr>decay_per_cent = 1, max_levels = 0\<rparr>"

text \<open>\<open>std::pow\<close> for a positive base (and \<open>pow(x, 0) = 1\<close>).\<close>

definition c_pow :: "real \<Rightarrow> real \<Rightarrow> real" where
  "c_pow x y = (if y = 0 then 1 else x powr y)"

text \<open>The body of the loop of \<open>accumulate_side\<close>: a level's price in the YES dimension and its weight.\<close>

definition level_price :: "bool \<Rightarrow> level \<Rightarrow> real" where
  "level_price bids lv =
     of_int (if bids then lv_price_cents lv else complement_price (lv_price_cents lv))"

definition level_weight :: "depth_weighting \<Rightarrow> real \<Rightarrow> bool \<Rightarrow> level \<Rightarrow> real" where
  "level_weight w mid bids lv =
     (let price = level_price bids lv;
          distance_cents = (if bids then mid - price else price - mid)
      in contracts (lv_quantity lv) * c_pow (decay_per_cent w) distance_cents)"

fun accumulate_side :: "depth_weighting \<Rightarrow> real \<Rightarrow> bool \<Rightarrow> int \<Rightarrow> level list \<Rightarrow> real \<times> real \<Rightarrow> real \<times> real" where
  "accumulate_side w mid bids levels_used [] depth = depth"
| "accumulate_side w mid bids levels_used (lv # rest) (weight_total, weighted_price_sum) =
     (if 0 < max_levels w \<and> max_levels w \<le> levels_used then (weight_total, weighted_price_sum)
      else accumulate_side w mid bids (levels_used + 1) rest
             (weight_total + level_weight w mid bids lv,
              weighted_price_sum + level_weight w mid bids lv * level_price bids lv))"

definition clearing_price_cents :: "orderbook \<Rightarrow> depth_weighting \<Rightarrow> real" where
  "clearing_price_cents state w =
     (if ob_yes state = [] \<or> ob_no state = [] then micro_price_cents state
      else
        let mid = mid_price_cents state;
            (bid_weight, bid_sum) = accumulate_side w mid True 0 (ob_yes state) (0, 0);
            (ask_weight, ask_sum) = accumulate_side w mid False 0 (ob_no state) (0, 0)
        in if bid_weight \<le> 0 \<or> ask_weight \<le> 0 then micro_price_cents state
           else
             let bid_avg_price = bid_sum / bid_weight; ask_avg_price = ask_sum / ask_weight
             in (bid_avg_price * ask_weight + ask_avg_price * bid_weight) / (bid_weight + ask_weight))"

definition spread_cents :: "orderbook \<Rightarrow> int" where
  "spread_cents state = (case (best_bid state, best_ask state) of
      (Some bid, Some ask) \<Rightarrow> lv_price_cents ask - lv_price_cents bid
    | _ \<Rightarrow> 0)"

section \<open>Ladder invariant and abstraction\<close>

definition ladder_sorted :: "level list \<Rightarrow> bool" where
  "ladder_sorted levels \<longleftrightarrow> sorted_wrt (\<lambda>x y. lv_price_cents x > lv_price_cents y) levels"

definition ladder_invar :: "level list \<Rightarrow> bool" where
  "ladder_invar levels \<longleftrightarrow> ladder_sorted levels \<and> (\<forall>lv \<in> set levels. 0 < centi (lv_quantity lv))"

definition book_invar :: "orderbook \<Rightarrow> bool" where
  "book_invar state \<longleftrightarrow> ladder_invar (ob_yes state) \<and> ladder_invar (ob_no state)"

fun resting :: "level list \<Rightarrow> int \<Rightarrow> quantity" where
  "resting [] price = 0"
| "resting (lv # rest) price = (if lv_price_cents lv = price then lv_quantity lv else resting rest price)"

definition book_depth :: "orderbook \<Rightarrow> side \<Rightarrow> int \<Rightarrow> quantity" where
  "book_depth state sd = (case sd of Yes \<Rightarrow> resting (ob_yes state) | No \<Rightarrow> resting (ob_no state))"

text \<open>What a signed increment does to the size at a price: it never goes below zero.\<close>

definition bump :: "(int \<Rightarrow> quantity) \<Rightarrow> int \<Rightarrow> quantity \<Rightarrow> int \<Rightarrow> quantity" where
  "bump depth price delta = depth(price := max 0 (depth price + delta))"

lemma ladder_partitioned: "ladder_sorted levels \<Longrightarrow> partitioned (\<lambda>lv. lv_price_cents lv > p) levels"
  unfolding ladder_sorted_def partitioned_def by (erule sorted_wrt_mono_rel [rotated]) simp

text \<open>A sorted ladder seen from a price: the better levels, then the level or the worse ones.\<close>

lemma ladder_split:
  assumes "ladder_sorted levels"
  obtains better rest where "levels = better @ rest"
    and "\<forall>lv \<in> set better. lv_price_cents lv > p"
    and "\<forall>lv \<in> set (tl rest). lv_price_cents lv < p"
    and "rest = [] \<or> lv_price_cents (hd rest) \<le> p"
proof
  let ?P = "\<lambda>lv :: level. lv_price_cents lv > p"
  let ?rest = "dropWhile ?P levels"
  show "levels = takeWhile ?P levels @ ?rest" by simp
  show "\<forall>lv \<in> set (takeWhile ?P levels). ?P lv" by (auto dest: set_takeWhileD)
  show hd: "?rest = [] \<or> lv_price_cents (hd ?rest) \<le> p"
    using hd_dropWhile [of ?P levels] by (metis not_less)
  have sorted: "sorted_wrt (\<lambda>x y. lv_price_cents x > lv_price_cents y) ?rest"
    using assms unfolding ladder_sorted_def dropWhile_eq_drop by (rule sorted_wrt_drop)
  show "\<forall>lv \<in> set (tl ?rest). lv_price_cents lv < p"
  proof (cases ?rest)
    case (Cons lv worse)
    with sorted hd show ?thesis unfolding Cons by fastforce
  next
    case Nil
    show ?thesis unfolding Nil by simp
  qed
qed

lemma resting_absent: "\<forall>lv \<in> set levels. lv_price_cents lv \<noteq> p \<Longrightarrow> resting levels p = 0"
  by (induction levels) auto

lemma resting_append:
  "resting (xs @ ys) p = (if \<exists>lv \<in> set xs. lv_price_cents lv = p then resting xs p else resting ys p)"
  by (induction xs) auto

text \<open>
  On a sorted ladder the binary-searching update is the single pass that rebuilds the level
  at the price.
\<close>

lemma apply_delta_levels_split:
  assumes "ladder_sorted (better @ rest)" "\<forall>lv \<in> set better. lv_price_cents lv > p"
    "rest = [] \<or> lv_price_cents (hd rest) \<le> p"
  shows "apply_delta_levels (better @ rest) p d =
     (case rest of
        lv # worse \<Rightarrow>
          if lv_price_cents lv = p then
            if lv_quantity lv + d \<le> 0 then better @ worse
            else better @ lv\<lparr>lv_quantity := lv_quantity lv + d\<rparr> # worse
          else if is_positive d then better @ \<lparr>lv_price_cents = p, lv_quantity = d\<rparr> # rest
          else better @ rest
      | [] \<Rightarrow> if is_positive d then better @ [\<lparr>lv_price_cents = p, lv_quantity = d\<rparr>] else better)"
proof -
  have "takeWhile (\<lambda>lv. lv_price_cents lv > p) (better @ rest) = better"
    using assms(2,3) by (cases rest) (simp_all add: takeWhile_append)
  then have pos: "lower_bound (\<lambda>lv. lv_price_cents lv > p) (better @ rest) = length better"
    by (simp add: lower_bound_takeWhile [OF ladder_partitioned [OF assms(1)]])
  show ?thesis
    using pos
    by (cases rest) (simp_all add: apply_delta_levels_def find_level_def insertion_point_def
      nth_append list_update_append Let_def)
qed

lemma apply_delta_levels_correct:
  assumes "ladder_invar levels"
  shows "ladder_invar (apply_delta_levels levels p d)"
    and "resting (apply_delta_levels levels p d) = bump (resting levels) p d"
proof -
  from assms have sorted: "ladder_sorted levels" by (simp add: ladder_invar_def)
  from sorted obtain better rest where levels: "levels = better @ rest"
    and b: "\<forall>lv \<in> set better. lv_price_cents lv > p"
    and w: "\<forall>lv \<in> set (tl rest). lv_price_cents lv < p"
    and r: "rest = [] \<or> lv_price_cents (hd rest) \<le> p"
    by (rule ladder_split [where p = p])
  note split = apply_delta_levels_split [OF sorted [unfolded levels] b r, of d]
  have absent: "resting better p = 0" "resting (tl rest) p = 0"
    using b w by (auto intro!: resting_absent)
  show "ladder_invar (apply_delta_levels levels p d)"
    using assms b r w unfolding levels split
    by (cases rest) (auto simp: ladder_invar_def ladder_sorted_def sorted_wrt_append)
  show "resting (apply_delta_levels levels p d) = bump (resting levels) p d"
  proof
    fix q
    show "resting (apply_delta_levels levels p d) q = bump (resting levels) p d q"
      using assms b r w absent unfolding levels split bump_def
      by (cases rest) (auto simp: resting_append resting_absent ladder_invar_def max_def intro!: quantity_eqI)
  qed
qed

lemma resting_positive_iff:
  "ladder_invar levels \<Longrightarrow> 0 < centi (resting levels p) \<longleftrightarrow> p \<in> lv_price_cents ` set levels"
  by (induction levels) (auto simp: ladder_invar_def ladder_sorted_def)

lemma ladder_ext:
  "ladder_invar xs \<Longrightarrow> ladder_invar ys \<Longrightarrow> resting xs = resting ys \<Longrightarrow> xs = ys"
proof (induction xs arbitrary: ys)
  case Nil
  then show ?case
    using resting_positive_iff [of ys] by (cases ys) (auto simp: fun_eq_iff dest: spec)
next
  case (Cons x xs)
  have pos: "p \<in> lv_price_cents ` set (x # xs) \<longleftrightarrow> p \<in> lv_price_cents ` set ys" for p
    using Cons.prems resting_positive_iff by metis
  then obtain y ys' where ys: "ys = y # ys'" by (cases ys) auto
  have bound: "lv_price_cents lv < lv_price_cents x" if "lv \<in> set xs" for lv
    using that Cons.prems(1) by (auto simp: ladder_invar_def ladder_sorted_def)
  have bound': "lv_price_cents lv < lv_price_cents y" if "lv \<in> set ys'" for lv
    using that Cons.prems(2) ys by (auto simp: ladder_invar_def ladder_sorted_def)
  have "lv_price_cents x \<in> lv_price_cents ` set ys" "lv_price_cents y \<in> lv_price_cents ` set (x # xs)"
    using pos [of "lv_price_cents x"] pos [of "lv_price_cents y"] ys by auto
  then have price: "lv_price_cents x = lv_price_cents y"
    using bound bound' ys by (auto dest!: bound bound')
  then have qty: "lv_quantity x = lv_quantity y"
    using fun_cong [OF Cons.prems(3), of "lv_price_cents x"] ys by simp
  have "resting xs p = resting ys' p" for p
  proof (cases "p = lv_price_cents x")
    case True
    then show ?thesis
      using bound bound' price by (metis less_irrefl resting_absent)
  next
    case False
    then show ?thesis using fun_cong [OF Cons.prems(3), of p] ys price by simp
  qed
  then have "xs = ys'"
    using Cons.IH Cons.prems ys by (auto simp: ladder_invar_def ladder_sorted_def)
  with price qty ys show ?case by (simp add: level.equality)
qed

text \<open>
  The contract of a ladder: an implementation of a map from prices to resting sizes, whose
  update is the clipped increment. What clients need follows from the contract alone.
\<close>

locale price_ladder =
  fixes empty :: "'l" and upd :: "'l \<Rightarrow> int \<Rightarrow> quantity \<Rightarrow> 'l"
    and depth :: "'l \<Rightarrow> int \<Rightarrow> quantity" and invar :: "'l \<Rightarrow> bool"
  assumes invar_empty: "invar empty"
    and depth_empty: "depth empty = (\<lambda>_. 0)"
    and invar_upd: "invar l \<Longrightarrow> invar (upd l p d)"
    and depth_upd: "invar l \<Longrightarrow> depth (upd l p d) = bump (depth l) p d"
    and depth_nonneg: "invar l \<Longrightarrow> 0 \<le> centi (depth l p)"
    and ext: "invar l \<Longrightarrow> invar l' \<Longrightarrow> depth l = depth l' \<Longrightarrow> l = l'"
begin

lemma upd_commute:
  "invar l \<Longrightarrow> p \<noteq> q \<Longrightarrow> upd (upd l p d) q e = upd (upd l q e) p d"
  by (rule ext) (auto simp: invar_upd depth_upd bump_def fun_eq_iff)

lemma upd_merge:
  "invar l \<Longrightarrow> 0 \<le> centi (depth l p + d) \<Longrightarrow> upd (upd l p d) p e = upd l p (d + e)"
  by (rule ext) (auto simp: invar_upd depth_upd bump_def fun_eq_iff max_def intro!: quantity_eqI)

lemma upd_zero: "invar l \<Longrightarrow> upd l p 0 = l"
  by (rule ext) (use depth_nonneg in \<open>auto simp: invar_upd depth_upd bump_def fun_eq_iff max_def
      intro!: quantity_eqI\<close>)

lemma upd_undo: "invar l \<Longrightarrow> 0 \<le> centi d \<Longrightarrow> upd (upd l p d) p (- d) = l"
  using depth_nonneg [of l p] by (simp add: upd_merge upd_zero)

lemma invar_foldl: "invar l \<Longrightarrow> invar (foldl (\<lambda>l (p, d). upd l p d) l ds)"
  by (induction ds arbitrary: l) (auto simp: invar_upd)

lemma depth_foldl:
  "invar l \<Longrightarrow> depth (foldl (\<lambda>l (p, d). upd l p d) l ds) = foldl (\<lambda>f (p, d). bump f p d) (depth l) ds"
  by (induction ds arbitrary: l) (auto simp: invar_upd depth_upd)

end

interpretation ladder: price_ladder "[]" apply_delta_levels resting ladder_invar
proof unfold_locales
  show "ladder_invar []" by (simp add: ladder_invar_def ladder_sorted_def)
  show "resting [] = (\<lambda>_. 0)" by auto
  show "ladder_invar (apply_delta_levels l p d)" if "ladder_invar l" for l p d
    using that by (rule apply_delta_levels_correct)
  show "resting (apply_delta_levels l p d) = bump (resting l) p d" if "ladder_invar l" for l p d
    using that by (rule apply_delta_levels_correct)
  show "0 \<le> centi (resting l p)" if "ladder_invar l" for l p
    using that by (induction l) (auto simp: ladder_invar_def ladder_sorted_def less_imp_le)
  show "l = l'" if "ladder_invar l" "ladder_invar l'" "resting l = resting l'" for l l'
    using that by (rule ladder_ext)
qed

section \<open>Snapshots\<close>

lemma sort_ladder_invar:
  assumes "distinct (map lv_price_cents levels)" and "\<forall>lv \<in> set levels. 0 < centi (lv_quantity lv)"
  shows "ladder_invar (sort_key (\<lambda>lv. - lv_price_cents lv) levels)"
proof -
  let ?s = "sort_key (\<lambda>lv. - lv_price_cents lv) levels"
  have "sorted (map (\<lambda>lv. - lv_price_cents lv) ?s)" by simp
  moreover have "distinct (map (\<lambda>lv. - lv_price_cents lv) ?s)"
    using assms(1) by (auto simp: distinct_map inj_on_def)
  ultimately have "sorted_wrt (<) (map (\<lambda>lv. - lv_price_cents lv) ?s)"
    by (simp add: strict_sorted_iff)
  with assms(2) show ?thesis
    by (simp add: ladder_invar_def ladder_sorted_def sorted_wrt_map)
qed

lemma resting_distinct:
  "distinct (map lv_price_cents levels) \<Longrightarrow> lv \<in> set levels \<Longrightarrow>
   resting levels (lv_price_cents lv) = lv_quantity lv"
  by (induction levels) force+

lemma resting_sort_key:
  assumes "distinct (map lv_price_cents levels)"
  shows "resting (sort_key (\<lambda>lv. - lv_price_cents lv) levels) = resting levels"
proof
  fix p
  let ?s = "sort_key (\<lambda>lv. - lv_price_cents lv) levels"
  have "distinct (map lv_price_cents ?s)" using assms by (simp add: distinct_map)
  then show "resting ?s p = resting levels p"
    using resting_distinct [OF assms] resting_distinct [of ?s] resting_absent
    by (metis (no_types, lifting) set_sort)
qed

section \<open>Bounds of the derived prices\<close>

definition valid_levels :: "level list \<Rightarrow> bool" where
  "valid_levels levels \<longleftrightarrow>
     (\<forall>lv \<in> set levels. is_valid_price (lv_price_cents lv) \<and> 0 < centi (lv_quantity lv))"

definition valid_book :: "orderbook \<Rightarrow> bool" where
  "valid_book state \<longleftrightarrow> valid_levels (ob_yes state) \<and> valid_levels (ob_no state)"

text \<open>A weighted mean lies between the bounds of what it averages.\<close>

lemma weighted_mean_bounds:
  fixes a b u v lo hi :: real
  assumes "lo \<le> a" "a \<le> hi" "lo \<le> b" "b \<le> hi" "0 \<le> u" "0 \<le> v" "0 < u + v"
  shows "lo \<le> (a * v + b * u) / (u + v)" and "(a * v + b * u) / (u + v) \<le> hi"
proof -
  have "lo * (u + v) \<le> a * v + b * u"
    using mult_right_mono [OF assms(1,6)] mult_right_mono [OF assms(3,5)]
    by (simp add: algebra_simps)
  then show "lo \<le> (a * v + b * u) / (u + v)" using assms(7) by (simp add: pos_le_divide_eq)
  have "a * v + b * u \<le> hi * (u + v)"
    using mult_right_mono [OF assms(2,6)] mult_right_mono [OF assms(4,5)]
    by (simp add: algebra_simps)
  then show "(a * v + b * u) / (u + v) \<le> hi" using assms(7) by (simp add: pos_divide_le_eq)
qed

lemma best_simps [simp]:
  "ob_yes b = [] \<Longrightarrow> best_bid b = None" "ob_yes b = lv # lvs \<Longrightarrow> best_bid b = Some lv"
  "ob_no b = [] \<Longrightarrow> best_ask b = None"
  "ob_no b = lv # lvs \<Longrightarrow> best_ask b =
     Some \<lparr>lv_price_cents = complement_price (lv_price_cents lv), lv_quantity = lv_quantity lv\<rparr>"
  by (simp_all add: best_bid_def best_ask_def)

lemma micro_between:
  assumes "best_bid b = Some bid" "best_ask b = Some ask" and "0 < centi (lv_quantity bid)"
    "0 < centi (lv_quantity ask)" "lv_price_cents bid \<le> lv_price_cents ask"
  shows "of_int (lv_price_cents bid) \<le> micro_price_cents b"
    "micro_price_cents b \<le> of_int (lv_price_cents ask)"
proof -
  let ?u = "contracts (lv_quantity bid)" and ?v = "contracts (lv_quantity ask)"
  have uv: "0 < ?u" "0 < ?v" using assms by simp_all
  have eq: "micro_price_cents b =
      (of_int (lv_price_cents bid) * ?v + of_int (lv_price_cents ask) * ?u) / (?u + ?v)"
    using assms uv by (simp add: micro_price_cents_def Let_def del: contracts_sign)
  show "of_int (lv_price_cents bid) \<le> micro_price_cents b"
    unfolding eq by (rule weighted_mean_bounds [where hi = "of_int (lv_price_cents ask)"])
      (use uv assms in \<open>simp_all del: contracts_sign\<close>)
  show "micro_price_cents b \<le> of_int (lv_price_cents ask)"
    unfolding eq by (rule weighted_mean_bounds [where lo = "of_int (lv_price_cents bid)"])
      (use uv assms in \<open>simp_all del: contracts_sign\<close>)
qed

lemma mid_between:
  assumes "best_bid b = Some bid" "best_ask b = Some ask" "lv_price_cents bid \<le> lv_price_cents ask"
  shows "of_int (lv_price_cents bid) \<le> mid_price_cents b"
    "mid_price_cents b \<le> of_int (lv_price_cents ask)"
  using assms by (simp_all add: mid_price_cents_def)

lemma c_pow_nonneg: "0 \<le> c_pow x y"
  by (simp add: c_pow_def)

lemma level_price_bounds:
  "is_valid_price (lv_price_cents lv) \<Longrightarrow> 1 \<le> level_price bids lv \<and> level_price bids lv \<le> 99"
  by (simp add: level_price_def price_defs)

lemma accumulate_side_bounds:
  assumes "valid_levels lvs" and "0 \<le> W0" "W0 \<le> S0" "S0 \<le> 99 * W0"
    and "accumulate_side w mid bids k lvs (W0, S0) = (W, S)"
  shows "0 \<le> W \<and> W \<le> S \<and> S \<le> 99 * W"
  using assms
proof (induction lvs arbitrary: k W0 S0)
  case (Cons lv rest)
  let ?w = "level_weight w mid bids lv" and ?p = "level_price bids lv"
  have price: "1 \<le> ?p" "?p \<le> 99"
    using Cons.prems(1) level_price_bounds by (auto simp: valid_levels_def)
  have weight: "0 \<le> ?w"
    using Cons.prems(1) by (simp add: level_weight_def Let_def c_pow_nonneg valid_levels_def)
  have wp: "?w \<le> ?w * ?p" "?w * ?p \<le> 99 * ?w"
    using mult_left_mono [OF price(1) weight] mult_left_mono [OF price(2) weight] by simp_all
  show ?case
  proof (cases "0 < max_levels w \<and> max_levels w \<le> k")
    case False
    then have "accumulate_side w mid bids (k + 1) rest (W0 + ?w, S0 + ?w * ?p) = (W, S)"
      using Cons.prems(5) by auto
    then show ?thesis
      by (rule Cons.IH [rotated -1]) (use Cons.prems weight wp in \<open>auto simp: valid_levels_def\<close>)
  qed (use Cons.prems in auto)
qed auto

lemma micro_price_valid:
  assumes "valid_book b" "ob_yes b \<noteq> []" "ob_no b \<noteq> []"
  shows "1 \<le> micro_price_cents b \<and> micro_price_cents b \<le> 99"
proof -
  from assms(2,3) obtain x xs y ys where lists: "ob_yes b = x # xs" "ob_no b = y # ys"
    by (auto simp: neq_Nil_conv)
  let ?u = "contracts (lv_quantity x)" and ?v = "contracts (lv_quantity y)"
  have uv: "0 < ?u" "0 < ?v" and valid: "is_valid_price (lv_price_cents x)" "is_valid_price (lv_price_cents y)"
    using assms lists by (auto simp: valid_book_def valid_levels_def)
  have eq: "micro_price_cents b = (level_price True x * ?v + level_price False y * ?u) / (?u + ?v)"
    using lists uv by (simp add: micro_price_cents_def Let_def level_price_def del: contracts_sign)
  show ?thesis
    unfolding eq
    by (rule conjI; rule weighted_mean_bounds [where lo = 1 and hi = 99])
      (use uv level_price_bounds [OF valid(1)] level_price_bounds [OF valid(2)]
        in \<open>simp_all del: contracts_sign\<close>)
qed

lemma clearing_price_valid:
  assumes "valid_book b" "ob_yes b \<noteq> []" "ob_no b \<noteq> []"
  shows "1 \<le> clearing_price_cents b w \<and> clearing_price_cents b w \<le> 99"
proof -
  obtain W S where bid: "accumulate_side w (mid_price_cents b) True 0 (ob_yes b) (0, 0) = (W, S)"
    by fastforce
  obtain W' S' where ask: "accumulate_side w (mid_price_cents b) False 0 (ob_no b) (0, 0) = (W', S')"
    by fastforce
  have bounds: "0 \<le> W \<and> W \<le> S \<and> S \<le> 99 * W" "0 \<le> W' \<and> W' \<le> S' \<and> S' \<le> 99 * W'"
    using accumulate_side_bounds [OF _ _ _ _ bid] accumulate_side_bounds [OF _ _ _ _ ask] assms(1)
    by (simp_all add: valid_book_def)
  show ?thesis
  proof (cases "W \<le> 0 \<or> W' \<le> 0")
    case True
    with assms bid ask show ?thesis
      using micro_price_valid [OF assms] by (simp add: clearing_price_cents_def Let_def)
  next
    case False
    then have "1 \<le> S / W \<and> S / W \<le> 99" "1 \<le> S' / W' \<and> S' / W' \<le> 99"
      using bounds by (simp_all add: pos_le_divide_eq pos_divide_le_eq)
    moreover have "clearing_price_cents b w = (S / W * W' + S' / W' * W) / (W + W')"
      using False assms bid ask by (simp add: clearing_price_cents_def Let_def)
    ultimately show ?thesis
      using False by (metis (no_types, lifting) add_pos_pos less_imp_le not_less weighted_mean_bounds)
  qed
qed

lemma clearing_single_level:
  assumes "ob_yes b = [x]" "ob_no b = [y]" "decay_per_cent w = 1"
    "0 < centi (lv_quantity x)" "0 < centi (lv_quantity y)"
  shows "clearing_price_cents b w = micro_price_cents b"
proof -
  have one: "c_pow 1 d = 1" for d by (simp add: c_pow_def)
  have uv: "0 < contracts (lv_quantity x)" "0 < contracts (lv_quantity y)" using assms by simp_all
  have acc: "accumulate_side w m True 0 [x] (0, 0) =
      (contracts (lv_quantity x), contracts (lv_quantity x) * level_price True x)"
    "accumulate_side w m False 0 [y] (0, 0) =
      (contracts (lv_quantity y), contracts (lv_quantity y) * level_price False y)" for m
    using assms(3) one by (auto simp: level_weight_def Let_def)
  show ?thesis
    using assms uv
    by (simp add: clearing_price_cents_def micro_price_cents_def acc Let_def level_price_def
        del: contracts_sign accumulate_side.simps)
qed

section \<open>Correctness of the mirror\<close>

text \<open>A stream of \<open>orderbook_delta\<close> messages.\<close>

definition apply_deltas :: "orderbook \<Rightarrow> (side \<times> int \<times> quantity) list \<Rightarrow> orderbook" where
  "apply_deltas b ds = foldl (\<lambda>b (sd, p, d). apply_delta b sd p d) b ds"

lemma apply_delta_sides:
  "ob_yes (apply_delta b sd p d) = (if sd = Yes then apply_delta_levels (ob_yes b) p d else ob_yes b)"
  "ob_no (apply_delta b sd p d) = (if sd = No then apply_delta_levels (ob_no b) p d else ob_no b)"
  "ob_ticker (apply_delta b sd p d) = ob_ticker b"
  by (cases sd; simp add: apply_delta_def)+

lemma apply_deltas_sides:
  "ob_yes (apply_deltas b ds) =
     foldl (\<lambda>l (p, d). apply_delta_levels l p d) (ob_yes b) (map snd (filter (\<lambda>(sd, _). sd = Yes) ds))"
  "ob_no (apply_deltas b ds) =
     foldl (\<lambda>l (p, d). apply_delta_levels l p d) (ob_no b) (map snd (filter (\<lambda>(sd, _). sd = No) ds))"
  unfolding apply_deltas_def
  by (induction ds arbitrary: b) (auto simp: apply_delta_sides)

text \<open>
  C12. The mirror follows the exchange: from a well-formed book, any stream of deltas leaves both
  ladders strictly sorted by price with positive sizes only, and the size resting at every price
  of either side is the one obtained by adding up that side's deltas, clipped at zero.
\<close>

theorem delta_stream_refines:
  assumes "book_invar b"
  shows "book_invar (apply_deltas b ds)
    \<and> book_depth (apply_deltas b ds) sd =
        foldl (\<lambda>depth (p, d). bump depth p d) (book_depth b sd)
          (map snd (filter (\<lambda>(sd', _). sd' = sd) ds))"
proof -
  have inv: "ladder_invar (ob_yes b)" "ladder_invar (ob_no b)"
    using assms by (simp_all add: book_invar_def)
  then have "book_invar (apply_deltas b ds)"
    by (simp add: book_invar_def apply_deltas_sides ladder.invar_foldl)
  then show ?thesis
    using inv by (cases sd) (simp_all add: book_depth_def apply_deltas_sides ladder.depth_foldl)
qed

definition small_book :: orderbook where
  "small_book = \<lparr>ob_ticker = ''M'',
     ob_yes = [\<lparr>lv_price_cents = 45, lv_quantity = from_centi 1000\<rparr>,
               \<lparr>lv_price_cents = 44, lv_quantity = from_centi 500\<rparr>],
     ob_no = [\<lparr>lv_price_cents = 50, lv_quantity = from_centi 3000\<rparr>]\<rparr>"

lemma small_book_ok: "book_invar small_book" "valid_book small_book"
  by (simp_all add: small_book_def book_invar_def valid_book_def valid_levels_def ladder_invar_def
    ladder_sorted_def price_defs)

theorem delta_stream_refines_witness:
  "book_depth (apply_deltas small_book [(Yes, 45, from_centi (-1000)), (No, 50, from_centi 100)]) No 50
     = from_centi 3100"
  using delta_stream_refines [OF small_book_ok(1), of "[(Yes, 45, from_centi (-1000)), (No, 50, from_centi 100)]" No]
  by (simp add: bump_def book_depth_def small_book_def max_def) (simp add: quantity_eqI)

text \<open>
  Deltas at different prices, or on different sides, commute, and adding a size and removing
  it again restores the book exactly: the ladders have one representation per depth.
\<close>

theorem delta_algebra:
  assumes "book_invar b"
  shows "((sd, p) \<noteq> (sd', p') \<longrightarrow>
      apply_delta (apply_delta b sd p d) sd' p' d' = apply_delta (apply_delta b sd' p' d') sd p d)
    \<and> (is_positive d \<longrightarrow> apply_delta (apply_delta b sd p d) sd p (- d) = b)"
proof -
  have inv: "ladder_invar (ob_yes b)" "ladder_invar (ob_no b)"
    using assms by (simp_all add: book_invar_def)
  have "p \<noteq> p' \<or> sd \<noteq> sd' \<Longrightarrow>
      apply_delta (apply_delta b sd p d) sd' p' d' = apply_delta (apply_delta b sd' p' d') sd p d"
    using ladder.upd_commute [OF inv(1), of p p' d d'] ladder.upd_commute [OF inv(2), of p p' d d']
    by (cases sd; cases sd') (auto simp: apply_delta_def)
  moreover have "is_positive d \<Longrightarrow> apply_delta (apply_delta b sd p d) sd p (- d) = b"
    using ladder.upd_undo [OF inv(1)] ladder.upd_undo [OF inv(2)]
    by (cases sd) (simp_all add: apply_delta_def)
  ultimately show ?thesis by auto
qed

theorem delta_algebra_witness:
  "apply_delta (apply_delta small_book Yes 46 (from_centi 700)) Yes 46 (- from_centi 700) = small_book"
  using delta_algebra [OF small_book_ok(1), of Yes 46 No 1 "from_centi 700" 0] by simp

text \<open>
  A snapshot installs exactly the levels it carries: if no price occurs twice on a side and
  every size is positive, the book is well formed and has the snapshot's size at every price.
\<close>

theorem snapshot_correct:
  assumes "distinct (map lv_price_cents (ob_yes snap))" "distinct (map lv_price_cents (ob_no snap))"
    and "\<forall>lv \<in> set (ob_yes snap) \<union> set (ob_no snap). 0 < centi (lv_quantity lv)"
  shows "book_invar (apply_snapshot snap) \<and> book_depth (apply_snapshot snap) sd = book_depth snap sd"
  using assms sort_ladder_invar [of "ob_yes snap"] sort_ladder_invar [of "ob_no snap"]
  by (cases sd) (simp_all add: book_invar_def apply_snapshot_def book_depth_def resting_sort_key)

theorem snapshot_correct_witness:
  "book_invar (apply_snapshot (small_book\<lparr>ob_yes := rev (ob_yes small_book)\<rparr>))"
  using snapshot_correct [of "small_book\<lparr>ob_yes := rev (ob_yes small_book)\<rparr>" Yes]
  by (simp add: small_book_def)

text \<open>
  The prices derived from an uncrossed book lie between its best bid and its best ask, and
  the depth-weighted clearing price of a book with valid levels on both sides is a valid price in
  the range from 1 to 99 cents for every positive decay and level limit.
\<close>

theorem derived_prices_bounded:
  assumes "valid_book b" and "ob_yes b = bid # bids" and "best_ask b = Some ask"
    and "lv_price_cents bid \<le> lv_price_cents ask" and "0 < decay_per_cent w"
  shows "of_int (lv_price_cents bid) \<le> mid_price_cents b \<and> mid_price_cents b \<le> of_int (lv_price_cents ask)
    \<and> of_int (lv_price_cents bid) \<le> micro_price_cents b \<and> micro_price_cents b \<le> of_int (lv_price_cents ask)
    \<and> 1 \<le> clearing_price_cents b w \<and> clearing_price_cents b w \<le> 99"
proof -
  from assms(3) obtain no nos where no: "ob_no b = no # nos" by (cases "ob_no b") auto
  have "0 < centi (lv_quantity bid)" "0 < centi (lv_quantity ask)"
    using assms no by (auto simp: valid_book_def valid_levels_def)
  then show ?thesis
    using assms no micro_between [of b bid ask] mid_between [of b bid ask] clearing_price_valid [of b w]
    by simp
qed

theorem derived_prices_bounded_witness:
  "1 \<le> clearing_price_cents small_book default_depth_weighting
   \<and> clearing_price_cents small_book default_depth_weighting \<le> 99"
  using derived_prices_bounded [OF small_book_ok(2), of "hd (ob_yes small_book)" "tl (ob_yes small_book)"
      "the (best_ask small_book)" default_depth_weighting]
  by (simp add: small_book_def price_defs default_depth_weighting_def)

end
