(* ===== verification/Fixed_Point.thy ===== *)
theory Fixed_Point
  imports Core_Types
begin

text \<open>
  The fixed-point text the exchange speaks: \<open>Quantity::to_fp_string\<close> and
  \<open>Quantity::from_fp_string\<close> (\<open>source/core/quantity.hpp\<close>) and the dollar conversions of
  \<open>source/exchange/rest_client.cpp\<close>. \<open>stod\<close> is the decimal grammar of \<open>std::stod\<close>: leading
  blanks, a sign, digits with an optional point, an optional decimal exponent, the rest of
  the string ignored, an exception when there is no digit. Hexadecimal, infinity and
  not-a-number spellings are left out (none of the producers emits them).
\<close>

section \<open>Decimal digits\<close>

definition digit_char :: "nat \<Rightarrow> char" where
  "digit_char d = char_of (48 + d)"

definition is_digit :: "char \<Rightarrow> bool" where
  "is_digit c \<longleftrightarrow> 48 \<le> (of_char c :: nat) \<and> (of_char c :: nat) \<le> 57"

definition digit_val :: "char \<Rightarrow> nat" where
  "digit_val c = of_char c - 48"

fun nat_to_string :: "nat \<Rightarrow> string" where
  "nat_to_string n =
     (if n < 10 then [digit_char n] else nat_to_string (n div 10) @ [digit_char (n mod 10)])"

declare nat_to_string.simps [simp del]

definition digits_val :: "string \<Rightarrow> nat" where
  "digits_val s = foldl (\<lambda>acc c. 10 * acc + digit_val c) 0 s"

lemma digit_char_props [simp]:
  "d < 10 \<Longrightarrow> is_digit (digit_char d)" "d < 10 \<Longrightarrow> digit_val (digit_char d) = d"
  by (simp_all add: digit_char_def is_digit_def digit_val_def)

lemma digits_val_snoc [simp]: "digits_val (s @ [c]) = 10 * digits_val s + digit_val c"
  by (simp add: digits_val_def)

lemma digits_val_Nil [simp]: "digits_val [] = 0"
  by (simp add: digits_val_def)

lemma nat_to_string_digits: "list_all is_digit (nat_to_string n)"
proof (induction n rule: nat_to_string.induct)
  case (1 n)
  then show ?case by (subst nat_to_string.simps) auto
qed

lemma nat_to_string_val [simp]: "digits_val (nat_to_string n) = n"
proof (induction n rule: nat_to_string.induct)
  case (1 n)
  show ?case
  proof (cases "n < 10")
    case True
    then show ?thesis
      using digits_val_snoc [of "[]" "digit_char n"] by (simp add: nat_to_string.simps)
  next
    case False
    with 1 show ?thesis by (subst nat_to_string.simps) simp
  qed
qed

lemma nat_to_string_nonempty [simp]: "nat_to_string n \<noteq> []"
  by (subst nat_to_string.simps) simp

lemma nat_to_string_inj: "nat_to_string m = nat_to_string n \<Longrightarrow> m = n"
  by (metis nat_to_string_val)

definition int_to_string :: "int \<Rightarrow> string" where
  "int_to_string k = (if k < 0 then ''-'' else '''') @ nat_to_string (nat \<bar>k\<bar>)"

section \<open>Parsing a decimal\<close>

definition is_space :: "char \<Rightarrow> bool" where
  "is_space c \<longleftrightarrow> (of_char c :: nat) \<in> {9, 10, 11, 12, 13, 32}"

definition parse_sign :: "string \<Rightarrow> int \<times> string" where
  "parse_sign s = (case s of
      c # r \<Rightarrow> if c = CHR ''-'' then (-1, r) else if c = CHR ''+'' then (1, r) else (1, s)
    | [] \<Rightarrow> (1, s))"

definition parse_exponent :: "string \<Rightarrow> int" where
  "parse_exponent s = (case s of
      c # r \<Rightarrow>
        if c = CHR ''e'' \<or> c = CHR ''E'' then
          let (sg, r') = parse_sign r in sg * int (digits_val (takeWhile is_digit r'))
        else 0
    | [] \<Rightarrow> 0)"

definition stod :: "string \<Rightarrow> exn + real" where
  "stod s =
     (let (sg, s1) = parse_sign (dropWhile is_space s);
          ip = takeWhile is_digit s1; s2 = dropWhile is_digit s1;
          (fp, s3) = (case s2 of
              c # r \<Rightarrow> if c = CHR ''.'' then (takeWhile is_digit r, dropWhile is_digit r) else ([], s2)
            | [] \<Rightarrow> ([], s2))
      in if ip = [] \<and> fp = [] then Inl (StdException ''stod'')
         else Inr (of_int sg * of_nat (digits_val (ip @ fp)) / 10 ^ length fp
                   * 10 powi parse_exponent s3))"

section \<open>Quantity as text\<close>

definition two_digits :: "nat \<Rightarrow> string" where
  "two_digits n = (if n < 10 then [digit_char 0] else []) @ nat_to_string n"

definition to_fp_string :: "quantity \<Rightarrow> string" where
  "to_fp_string q =
     (let magnitude = nat \<bar>centi q\<bar>; per = nat kCentiPerContract in
      (if centi q < 0 then ''-'' else '''') @ nat_to_string (magnitude div per) @ ''.''
        @ two_digits (magnitude mod per))"

definition from_fp_string :: "string \<Rightarrow> exn + quantity" where
  "from_fp_string fixed_point =
     (case stod fixed_point of
        Inl e \<Rightarrow> Inl e
      | Inr x \<Rightarrow> Inr (from_centi (c_round (x * of_int kCentiPerContract))))"

section \<open>Dollars and cents\<close>

definition kCentsPerDollar :: real where "kCentsPerDollar = 100"

definition parse_dollars_to_cents :: "string \<Rightarrow> exn + int" where
  "parse_dollars_to_cents dollars =
     (case stod dollars of
        Inl e \<Rightarrow> Inl e
      | Inr x \<Rightarrow> Inr (c_round (x * kCentsPerDollar)))"

text \<open>
  \<open>std::format("{:.4f}", cents / 100.0)\<close>: four decimals of a whole number of cents, so the
  last two are zero.
\<close>

definition format_dollars :: "int \<Rightarrow> string" where
  "format_dollars cents =
     (let magnitude = nat \<bar>cents\<bar> in
      (if cents < 0 then ''-'' else '''') @ nat_to_string (magnitude div 100) @ ''.''
        @ two_digits (magnitude mod 100) @ ''00'')"

section \<open>Round trips\<close>

lemma takeWhile_digits [simp]:
  "list_all is_digit ds \<Longrightarrow> \<not> is_digit c \<Longrightarrow> takeWhile is_digit (ds @ c # r) = ds"
  "list_all is_digit ds \<Longrightarrow> \<not> is_digit c \<Longrightarrow> dropWhile is_digit (ds @ c # r) = c # r"
  by (induction ds) auto

lemma takeWhile_digits_all [simp]:
  "list_all is_digit ds \<Longrightarrow> takeWhile is_digit ds = ds"
  "list_all is_digit ds \<Longrightarrow> dropWhile is_digit ds = []"
  by (induction ds) auto

lemma digits_val_append: "digits_val (s @ t) = digits_val s * 10 ^ length t + digits_val t"
  by (induction t rule: rev_induct) (simp_all flip: append_assoc add: algebra_simps)

lemma is_digit_props:
  "\<not> is_digit (CHR ''.'')" "\<not> is_space (CHR ''-'')"
  "is_digit c \<Longrightarrow> \<not> is_space c" "is_digit c \<Longrightarrow> c \<noteq> CHR ''-''" "is_digit c \<Longrightarrow> c \<noteq> CHR ''+''"
  by (auto simp: is_digit_def is_space_def)

lemma parse_sign_digits:
  assumes "list_all is_digit ip" and "ip \<noteq> []"
  shows "parse_sign (dropWhile is_space (ip @ r)) = (1, ip @ r)"
    and "parse_sign (dropWhile is_space (CHR ''-'' # ip @ r)) = (-1, ip @ r)"
  using assms by (cases ip; auto simp: parse_sign_def is_digit_props)+

lemma stod_decimal:
  assumes "list_all is_digit ip" and "ip \<noteq> []" and "list_all is_digit fp"
  shows "stod ((if neg then ''-'' else '''') @ ip @ ''.'' @ fp) =
     Inr ((if neg then -1 else 1) * of_nat (digits_val (ip @ fp)) / 10 ^ length fp)"
  using assms parse_sign_digits [OF assms(1,2), of "CHR ''.'' # fp"]
  by (simp add: stod_def is_digit_props parse_exponent_def)

lemma two_digits_props [simp]:
  "list_all is_digit (two_digits n)" "digits_val (two_digits n) = n"
  by (simp_all add: two_digits_def nat_to_string_digits digits_val_append)
    (simp add: digits_val_def)

lemma length_two_digits: "n < 100 \<Longrightarrow> length (two_digits n) = 2"
  by (auto simp: two_digits_def nat_to_string.simps [of n] nat_to_string.simps [of "n div 10"])

lemma stod_fixed_point:
  "stod ((if neg then ''-'' else '''') @ nat_to_string (m div 100) @ ''.'' @ two_digits (m mod 100) @ tail) =
     Inr ((if neg then -1 else 1) * of_nat m / 100)"
  if tail: "tail = [] \<or> tail = ''00''"
proof -
  let ?fp = "two_digits (m mod 100) @ tail"
  have zeros: "list_all is_digit ''00''" "digits_val ''00'' = 0"
    by (simp_all add: is_digit_def digits_val_def digit_val_def)
  have dig: "list_all is_digit ?fp" using tail zeros by auto
  have val: "real (digits_val (nat_to_string (m div 100) @ ?fp)) / 10 ^ length ?fp = of_nat m / 100"
  proof -
    have "digits_val (nat_to_string (m div 100) @ two_digits (m mod 100)) = m"
      by (simp add: digits_val_append length_two_digits)
    then have "digits_val (nat_to_string (m div 100) @ ?fp) = m * 10 ^ length tail"
      using tail zeros by (auto simp: digits_val_append [of "_ @ _" tail] simp flip: append_assoc)
    then show ?thesis using tail by (auto simp: length_two_digits)
  qed
  from stod_decimal [OF nat_to_string_digits nat_to_string_nonempty dig, of neg "m div 100"] val
  show ?thesis by (cases neg) simp_all
qed

lemma c_round_centi: "c_round ((if k < 0 then -1 else 1) * of_nat (nat \<bar>k\<bar>) / 100 * 100) = k"
proof -
  have "(if k < 0 then -1 else 1) * real (nat \<bar>k\<bar>) / 100 * 100 = of_int k" by simp
  then show ?thesis by (simp only: c_round_of_int)
qed

lemma fp_string_roundtrip_aux: "from_fp_string (to_fp_string q) = Inr q"
proof -
  have "stod (to_fp_string q) = Inr ((if centi q < 0 then -1 else 1) * of_nat (nat \<bar>centi q\<bar>) / 100)"
    using stod_fixed_point [of "[]" "centi q < 0" "nat \<bar>centi q\<bar>"]
    by (simp add: to_fp_string_def kCentiPerContract_def Let_def)
  then show ?thesis
    using c_round_centi [of "centi q"]
    by (simp add: from_fp_string_def kCentiPerContract_def del: times_divide_eq_left)
qed

lemma dollars_roundtrip_aux: "parse_dollars_to_cents (format_dollars c) = Inr c"
proof -
  have "stod (format_dollars c) = Inr ((if c < 0 then -1 else 1) * of_nat (nat \<bar>c\<bar>) / 100)"
    using stod_fixed_point [of "''00''" "c < 0" "nat \<bar>c\<bar>"]
    by (simp add: format_dollars_def Let_def)
  then show ?thesis
    using c_round_centi [of c]
    by (simp add: parse_dollars_to_cents_def kCentsPerDollar_def del: times_divide_eq_left)
qed

section \<open>Round trips\<close>

text \<open>
  Fixed-point quantities survive the wire: parsing the string printed for any quantity, of
  either sign, gives the quantity back.
\<close>

theorem fp_string_roundtrip: "from_fp_string (to_fp_string q) = Inr q"
  by (rule fp_string_roundtrip_aux)

text \<open>
  Prices survive the wire: parsing the dollar string printed for any number of cents gives
  the cents back.
\<close>

theorem dollars_roundtrip: "parse_dollars_to_cents (format_dollars c) = Inr c"
  by (rule dollars_roundtrip_aux)

end
