(* ===== verification/Order_Manager.thy ===== *)
theory Order_Manager
  imports Fixed_Point
begin

text \<open>
  \<open>OrderManager\<close> (\<open>source/exchange/order_manager.cpp\<close>), the single source of truth for open
  orders, positions and realized profit. Its calls into \<open>RestClient\<close> are the fields of
  \<open>rest_api\<close>, over a type \<open>'w\<close> of states of the outside world; the fill accounting is a
  FIFO match of each fill against the lots of the opposite side. The accounting is shown to
  simulate an abstract ledger of fills.
\<close>

section \<open>The REST operations the order manager calls\<close>

record 'w rest_api =
  api_place_order :: "ticker \<Rightarrow> side \<Rightarrow> int \<Rightarrow> quantity \<Rightarrow> order_type \<Rightarrow> 'w \<Rightarrow> (exn + order) \<times> 'w"
  api_cancel_order :: "string \<Rightarrow> 'w \<Rightarrow> (exn + bool) \<times> 'w"
  api_amend_order :: "string \<Rightarrow> ticker \<Rightarrow> side \<Rightarrow> int \<Rightarrow> quantity \<Rightarrow> 'w \<Rightarrow> (exn + string option) \<times> 'w"

section \<open>State\<close>

record lot =
  lot_price_cents :: int
  lot_remaining :: quantity

record order_manager =
  open_orders :: "(string \<times> order) list"
  net_position_map :: "ticker \<rightharpoonup> quantity"
  realized_spread_map :: "ticker \<rightharpoonup> real"
  fees_paid_map :: "ticker \<rightharpoonup> real"
  yes_lots :: "ticker \<rightharpoonup> lot list"
  no_lots :: "ticker \<rightharpoonup> lot list"
  seen_fills :: "string set"

definition new_order_manager :: order_manager where
  "new_order_manager = \<lparr>open_orders = [], net_position_map = Map.empty,
     realized_spread_map = Map.empty, fees_paid_map = Map.empty, yes_lots = Map.empty,
     no_lots = Map.empty, seen_fills = {}\<rparr>"

definition kContractMaxCents :: int where "kContractMaxCents = 100"

section \<open>Order lifecycle\<close>

definition place :: "'w rest_api \<Rightarrow> ticker \<Rightarrow> side \<Rightarrow> int \<Rightarrow> int \<Rightarrow> order_manager \<Rightarrow> 'w
    \<Rightarrow> (exn + order) \<times> order_manager \<times> 'w" where
  "place api tk sd price_cents qty om w =
     (if \<not> is_valid_price price_cents then (Inl (Abort ''order price outside [1,99]''), om, w)
      else if \<not> qty > 0 then (Inl (Abort ''order quantity must be positive''), om, w)
      else case api_place_order api tk sd price_cents (from_contracts qty) Limit w of
        (Inl e, w') \<Rightarrow> (Inl e, om, w')
      | (Inr ord, w') \<Rightarrow>
          (Inr ord, om\<lparr>open_orders := AList.update (o_id ord) ord (open_orders om)\<rparr>, w'))"

definition cancel :: "'w rest_api \<Rightarrow> string \<Rightarrow> order_manager \<Rightarrow> 'w
    \<Rightarrow> (exn + bool) \<times> order_manager \<times> 'w" where
  "cancel api order_id om w =
     (case api_cancel_order api order_id w of
        (Inl e, w') \<Rightarrow> (Inl e, om, w')
      | (Inr success, w') \<Rightarrow>
          (Inr success,
           if success then om\<lparr>open_orders := AList.delete order_id (open_orders om)\<rparr> else om, w'))"

text \<open>The best-effort loop of \<open>cancel_all\<close>: an exception from one cancel is logged and dropped.\<close>

fun cancel_each :: "'w rest_api \<Rightarrow> string list \<Rightarrow> order_manager \<Rightarrow> 'w
    \<Rightarrow> (exn + unit) \<times> order_manager \<times> 'w" where
  "cancel_each api [] om w = (Inr (), om, w)"
| "cancel_each api (order_id # rest) om w =
     (case cancel api order_id om w of
        (Inl (Abort what), om', w') \<Rightarrow> (Inl (Abort what), om', w')
      | (_, om', w') \<Rightarrow> cancel_each api rest om' w')"

definition orders_of :: "ticker \<Rightarrow> order_manager \<Rightarrow> string list" where
  "orders_of tk om = map fst (filter (\<lambda>(oid, ord). o_market_ticker ord = tk) (open_orders om))"

definition cancel_all :: "'w rest_api \<Rightarrow> ticker \<Rightarrow> order_manager \<Rightarrow> 'w
    \<Rightarrow> (exn + unit) \<times> order_manager \<times> 'w" where
  "cancel_all api tk om w = cancel_each api (orders_of tk om) om w"

definition amend :: "'w rest_api \<Rightarrow> string \<Rightarrow> ticker \<Rightarrow> side \<Rightarrow> int \<Rightarrow> quantity \<Rightarrow> order_manager \<Rightarrow> 'w
    \<Rightarrow> (exn + string option) \<times> order_manager \<times> 'w" where
  "amend api order_id tk sd new_price_cents cnt om w =
     (case api_amend_order api order_id tk sd new_price_cents cnt w of
        (Inl e, w') \<Rightarrow> (Inl e, om, w')
      | (Inr None, w') \<Rightarrow> (Inr None, om, w')
      | (Inr (Some new_id), w') \<Rightarrow>
          (Inr (Some new_id),
           (case map_of (open_orders om) order_id of
              None \<Rightarrow> om
            | Some ord \<Rightarrow>
                om\<lparr>open_orders :=
                  AList.update new_id (ord\<lparr>o_id := new_id, o_price_cents := new_price_cents\<rparr>)
                    (AList.delete order_id (open_orders om))\<rparr>), w'))"

section \<open>Fill accounting\<close>

definition fill_key :: "fill \<Rightarrow> string" where
  "fill_key f = (if f_trade_id f \<noteq> [] then f_trade_id f
     else f_order_id f @ ''@'' @ int_to_string (f_timestamp f))"

text \<open>
  The FIFO loop: \<open>remaining\<close> of the fill is matched against the oldest opposing lot, the pair's
  spread is realized, an exhausted lot is popped.
\<close>

function match_lots :: "ticker \<Rightarrow> int \<Rightarrow> quantity \<Rightarrow> lot list \<Rightarrow> (ticker \<rightharpoonup> real)
    \<Rightarrow> quantity \<times> lot list \<times> (ticker \<rightharpoonup> real)" where
  "match_lots tk price remaining [] spread = (remaining, [], spread)"
| "match_lots tk price remaining (front # rest) spread =
     (if \<not> is_positive remaining then (remaining, front # rest, spread)
      else
        let matched = min_quantity remaining (lot_remaining front);
            spread' = spread(tk \<mapsto> lookup_or 0 spread tk +
              of_int (kContractMaxCents - price - lot_price_cents front) * contracts matched);
            remaining' = remaining - matched;
            front' = front\<lparr>lot_remaining := lot_remaining front - matched\<rparr>
        in if is_zero (lot_remaining front') then match_lots tk price remaining' rest spread'
           else match_lots tk price remaining' (front' # rest) spread')"
  by pat_completeness auto
termination
  by (relation "measures [\<lambda>(tk, price, remaining, lots, spread). length lots,
        \<lambda>(tk, price, remaining, lots, spread). nat (centi remaining)]")
     (auto simp: min_quantity_def split: if_splits)

definition apply_to_order :: "fill \<Rightarrow> (string \<times> order) list \<Rightarrow> (string \<times> order) list" where
  "apply_to_order f orders =
     (case map_of orders (f_order_id f) of
        None \<Rightarrow> orders
      | Some ord \<Rightarrow>
          (let filled = o_filled_quantity ord + f_quantity f in
           if o_quantity ord \<le> filled then AList.delete (f_order_id f) orders
           else AList.update (f_order_id f)
                  (ord\<lparr>o_filled_quantity := filled, o_status := PartiallyFilled\<rparr>) orders))"

definition record_fill :: "fill \<Rightarrow> order_manager \<Rightarrow> (exn + bool) \<times> order_manager" where
  "record_fill f om =
     (if \<not> is_valid_price (f_price_cents f) then (Inl (Abort ''fill price outside [1,99]''), om)
      else if \<not> is_positive (f_quantity f) then (Inl (Abort ''fill quantity must be positive''), om)
      else if fill_key f \<in> seen_fills om then (Inr False, om)
      else
        let tk = f_market_ticker f;
            opposing = (case f_side f of Yes \<Rightarrow> lookup_or [] (no_lots om) tk
                                       | No \<Rightarrow> lookup_or [] (yes_lots om) tk);
            same = (case f_side f of Yes \<Rightarrow> lookup_or [] (yes_lots om) tk
                                   | No \<Rightarrow> lookup_or [] (no_lots om) tk);
            (remaining, opposing', spread') =
              match_lots tk (f_price_cents f) (f_quantity f) opposing (realized_spread_map om);
            same' = (if is_positive remaining
              then same @ [\<lparr>lot_price_cents = f_price_cents f, lot_remaining = remaining\<rparr>] else same);
            signed_qty = (case f_side f of Yes \<Rightarrow> f_quantity f | No \<Rightarrow> - f_quantity f)
        in (Inr True,
            om\<lparr>seen_fills := insert (fill_key f) (seen_fills om),
               yes_lots := (yes_lots om)(tk \<mapsto> (case f_side f of Yes \<Rightarrow> same' | No \<Rightarrow> opposing')),
               no_lots := (no_lots om)(tk \<mapsto> (case f_side f of Yes \<Rightarrow> opposing' | No \<Rightarrow> same')),
               realized_spread_map := spread',
               net_position_map := (net_position_map om)(tk \<mapsto>
                 lookup_or 0 (net_position_map om) tk + signed_qty),
               fees_paid_map := (fees_paid_map om)(tk \<mapsto>
                 lookup_or 0 (fees_paid_map om) tk + f_fee_cents f),
               open_orders := apply_to_order f (open_orders om)\<rparr>))"

section \<open>Views\<close>

definition net_position :: "order_manager \<Rightarrow> ticker \<Rightarrow> quantity" where
  "net_position om tk = lookup_or 0 (net_position_map om) tk"

definition fees_paid :: "order_manager \<Rightarrow> ticker \<Rightarrow> real" where
  "fees_paid om tk = lookup_or 0 (fees_paid_map om) tk"

definition realized_spread :: "order_manager \<Rightarrow> ticker \<Rightarrow> real" where
  "realized_spread om tk = lookup_or 0 (realized_spread_map om) tk"

definition realized_pnl :: "order_manager \<Rightarrow> ticker \<Rightarrow> real" where
  "realized_pnl om tk = realized_spread om tk - fees_paid om tk"

definition lots_value :: "int \<Rightarrow> lot list \<Rightarrow> real" where
  "lots_value mark lots =
     sum_list (map (\<lambda>l. of_int (mark - lot_price_cents l) * contracts (lot_remaining l)) lots)"

definition lots_cost :: "lot list \<Rightarrow> real" where
  "lots_cost lots = sum_list (map (\<lambda>l. of_int (lot_price_cents l) * contracts (lot_remaining l)) lots)"

definition lots_quantity :: "lot list \<Rightarrow> quantity" where
  "lots_quantity lots = sum_list (map lot_remaining lots)"

definition unrealized_pnl :: "order_manager \<Rightarrow> ticker \<Rightarrow> int \<Rightarrow> real" where
  "unrealized_pnl om tk yes_mid_cents =
     lots_value yes_mid_cents (lookup_or [] (yes_lots om) tk)
     + lots_value (kContractMaxCents - yes_mid_cents) (lookup_or [] (no_lots om) tk)"

definition position_cost :: "order_manager \<Rightarrow> ticker \<Rightarrow> real" where
  "position_cost om tk =
     lots_cost (lookup_or [] (yes_lots om) tk) + lots_cost (lookup_or [] (no_lots om) tk)"

record exposure =
  spread_capture_cents :: real
  net_inventory :: quantity
  e_win_cents :: real
  e_loss_cents :: real

definition exposure_decomposition :: "order_manager \<Rightarrow> ticker \<Rightarrow> exposure" where
  "exposure_decomposition om tk =
     (let yes = lookup_or [] (yes_lots om) tk; no = lookup_or [] (no_lots om) tk;
          yes_qty = lots_quantity yes; yes_cost = lots_cost yes;
          no_qty = lots_quantity no; no_cost = lots_cost no;
          held_qty = (if no_qty \<le> yes_qty then yes_qty else no_qty);
          held_cost = (if no_qty \<le> yes_qty then yes_cost else no_cost)
      in \<lparr>spread_capture_cents = realized_spread om tk, net_inventory = yes_qty - no_qty,
          e_win_cents = contracts held_qty * of_int kContractMaxCents - held_cost,
          e_loss_cents = - held_cost\<rparr>)"

lemmas om_views = net_position_def fees_paid_def realized_spread_def realized_pnl_def
  unrealized_pnl_def position_cost_def

section \<open>The abstract ledger\<close>

text \<open>
  What the accounting promises: it behaves as if it kept every accepted fill, once per key,
  and valued the list of fills.
\<close>

record ledger =
  lg_seen :: "string set"
  lg_fills :: "fill list"

definition ledger_record :: "fill \<Rightarrow> ledger \<Rightarrow> bool \<times> ledger" where
  "ledger_record f L =
     (if fill_key f \<in> lg_seen L then (False, L)
      else (True, L\<lparr>lg_seen := insert (fill_key f) (lg_seen L), lg_fills := lg_fills L @ [f]\<rparr>))"

definition fills_of :: "ticker \<Rightarrow> ledger \<Rightarrow> fill list" where
  "fills_of tk L = filter (\<lambda>f. f_market_ticker f = tk) (lg_fills L)"

definition signed_quantity :: "fill \<Rightarrow> quantity" where
  "signed_quantity f = (case f_side f of Yes \<Rightarrow> f_quantity f | No \<Rightarrow> - f_quantity f)"

text \<open>The value of a fill at a YES mark: a YES contract is worth the mark, a NO contract its complement.\<close>

definition fill_value :: "int \<Rightarrow> fill \<Rightarrow> real" where
  "fill_value mark f =
     of_int ((case f_side f of Yes \<Rightarrow> mark | No \<Rightarrow> kContractMaxCents - mark) - f_price_cents f)
     * contracts (f_quantity f)"

definition ledger_net :: "ledger \<Rightarrow> ticker \<Rightarrow> quantity" where
  "ledger_net L tk = sum_list (map signed_quantity (fills_of tk L))"

definition ledger_fees :: "ledger \<Rightarrow> ticker \<Rightarrow> real" where
  "ledger_fees L tk = sum_list (map f_fee_cents (fills_of tk L))"

definition ledger_value :: "ledger \<Rightarrow> ticker \<Rightarrow> int \<Rightarrow> real" where
  "ledger_value L tk mark = sum_list (map (fill_value mark) (fills_of tk L))"

definition fill_ok :: "fill \<Rightarrow> bool" where
  "fill_ok f \<longleftrightarrow> is_valid_price (f_price_cents f) \<and> is_positive (f_quantity f)"

definition lots_ok :: "lot list \<Rightarrow> bool" where
  "lots_ok lots \<longleftrightarrow> (\<forall>l \<in> set lots. 0 < centi (lot_remaining l) \<and> is_valid_price (lot_price_cents l))"

definition inventory_ok :: "order_manager \<Rightarrow> ticker \<Rightarrow> bool" where
  "inventory_ok om tk \<longleftrightarrow>
     (let yes = lookup_or [] (yes_lots om) tk; no = lookup_or [] (no_lots om) tk in
      lots_ok yes \<and> lots_ok no \<and> (yes = [] \<or> no = [])
      \<and> net_position om tk = lots_quantity yes - lots_quantity no)"

definition simulates :: "order_manager \<Rightarrow> ledger \<Rightarrow> bool" where
  "simulates om L \<longleftrightarrow> seen_fills om = lg_seen L \<and>
     (\<forall>tk. inventory_ok om tk \<and> net_position om tk = ledger_net L tk
        \<and> fees_paid om tk = ledger_fees L tk
        \<and> (\<forall>mark. realized_spread om tk + unrealized_pnl om tk mark = ledger_value L tk mark))"

section \<open>The FIFO match\<close>

lemma lots_sum_simps [simp]:
  "lots_value m [] = 0" "lots_value m (l # ls) =
     of_int (m - lot_price_cents l) * contracts (lot_remaining l) + lots_value m ls"
  "lots_cost [] = 0" "lots_cost (l # ls) =
     of_int (lot_price_cents l) * contracts (lot_remaining l) + lots_cost ls"
  "lots_quantity [] = 0" "lots_quantity (l # ls) = lot_remaining l + lots_quantity ls"
  by (simp_all add: lots_value_def lots_cost_def lots_quantity_def)

lemma lots_append_simps [simp]:
  "lots_value m (ls @ ls') = lots_value m ls + lots_value m ls'"
  "lots_quantity (ls @ ls') = lots_quantity ls + lots_quantity ls'"
  by (simp_all add: lots_value_def lots_quantity_def)

lemma lots_ok_simps [simp]:
  "lots_ok []"
  "lots_ok (l # ls) \<longleftrightarrow>
     0 < centi (lot_remaining l) \<and> is_valid_price (lot_price_cents l) \<and> lots_ok ls"
  "lots_ok (ls @ ls') \<longleftrightarrow> lots_ok ls \<and> lots_ok ls'"
  by (auto simp: lots_ok_def)

text \<open>
  What the loop leaves: well-formed lots, nothing unmatched while an opposing lot is left,
  quantities conserved, and every matched pair worth exactly what it locked in, at any mark.
\<close>

lemma match_lots_correct:
  assumes "lots_ok lots" and "0 \<le> centi rem" and "match_lots tk p rem lots sp = (rem', lots', sp')"
  shows "lots_ok lots' \<and> 0 \<le> centi rem' \<and> (rem' = 0 \<or> lots' = [])
    \<and> rem' - lots_quantity lots' = rem - lots_quantity lots
    \<and> (\<forall>k. k \<noteq> tk \<longrightarrow> sp' k = sp k)
    \<and> lookup_or 0 sp' tk + lots_value mark lots' =
        lookup_or 0 sp tk + lots_value mark lots
          + of_int (kContractMaxCents - mark - p) * contracts (rem - rem')"
  using assms
proof (induction tk p rem lots sp arbitrary: rem' lots' sp' rule: match_lots.induct)
  case (1 tk p rem sp)
  then show ?case by simp
next
  case (2 tk p rem front rest sp)
  show ?case
  proof (cases "0 < centi rem")
    case False
    then have "rem = 0" using 2(4) by (auto intro: quantity_eqI)
    with 2(3-5) False show ?thesis by auto
  next
    case True
    define matched where "matched = min_quantity rem (lot_remaining front)"
    define sp1 where "sp1 = sp(tk \<mapsto> lookup_or 0 sp tk +
       of_int (kContractMaxCents - p - lot_price_cents front) * contracts matched)"
    define front1 where "front1 = front\<lparr>lot_remaining := lot_remaining front - matched\<rparr>"
    have ok: "lots_ok rest" "0 < centi (lot_remaining front)" "is_valid_price (lot_price_cents front)"
      using 2(3) by auto
    have rem1: "0 \<le> centi (rem - matched)" by (simp add: matched_def min_def)
    have sp1: "\<forall>k. k \<noteq> tk \<longrightarrow> sp1 k = sp k" "lookup_or 0 sp1 tk = lookup_or 0 sp tk +
       of_int (kContractMaxCents - p - lot_price_cents front) * contracts matched"
      by (simp_all add: sp1_def)
    show ?thesis
    proof (cases "is_zero (lot_remaining front1)")
      case pop: True
      then have all: "matched = lot_remaining front" by (simp add: front1_def)
      have "match_lots tk p (rem - matched) rest sp1 = (rem', lots', sp')"
        using 2(5) True pop unfolding matched_def sp1_def front1_def by (simp add: Let_def)
      from 2(1) [OF _ matched_def sp1_def refl front1_def pop ok(1) rem1 this] True
      show ?thesis using sp1 all by (auto simp: algebra_simps)
    next
      case keep: False
      then have m: "matched = rem"
        using ok(2) True by (auto simp: front1_def matched_def min_quantity_def)
      have ok1: "lots_ok (front1 # rest)"
        using ok keep by (auto simp: front1_def matched_def min_def intro: quantity_eqI)
      have "match_lots tk p (rem - matched) (front1 # rest) sp1 = (rem', lots', sp')"
        using 2(5) True keep unfolding matched_def sp1_def front1_def by (simp add: Let_def)
      then have res: "rem' = 0" "lots' = front1 # rest" "sp' = sp1" by (simp_all add: m)
      show ?thesis
        unfolding res using ok1 sp1 m by (auto simp: front1_def algebra_simps)
    qed
  qed
qed

text \<open>One accepted fill, side by side with the ledger.\<close>

lemma record_fill_sim:
  assumes "fill_ok f" and "simulates om L"
  obtains b om' L' where "record_fill f om = (Inr b, om')" "ledger_record f L = (b, L')"
    "simulates om' L'"
proof (cases "fill_key f \<in> seen_fills om")
  case True
  then have "record_fill f om = (Inr False, om)" "ledger_record f L = (False, L)"
    using assms by (auto simp: record_fill_def ledger_record_def fill_ok_def simulates_def)
  then show ?thesis using assms(2) by (rule that)
next
  case False
  define tk where "tk = f_market_ticker f"
  define opp where "opp = (case f_side f of Yes \<Rightarrow> lookup_or [] (no_lots om) tk | No \<Rightarrow> lookup_or [] (yes_lots om) tk)"
  define same where "same = (case f_side f of Yes \<Rightarrow> lookup_or [] (yes_lots om) tk | No \<Rightarrow> lookup_or [] (no_lots om) tk)"
  obtain rem opp' sp' where m: "match_lots tk (f_price_cents f) (f_quantity f) opp (realized_spread_map om)
      = (rem, opp', sp')" by (metis prod_cases3)
  define same' where "same' = (if is_positive rem
     then same @ [\<lparr>lot_price_cents = f_price_cents f, lot_remaining = rem\<rparr>] else same)"
  define om' where "om' = snd (record_fill f om)"
  have rf: "record_fill f om = (Inr True, om')"
    and om': "seen_fills om' = insert (fill_key f) (seen_fills om)"
      "yes_lots om' = (yes_lots om)(tk \<mapsto> (case f_side f of Yes \<Rightarrow> same' | No \<Rightarrow> opp'))"
      "no_lots om' = (no_lots om)(tk \<mapsto> (case f_side f of Yes \<Rightarrow> opp' | No \<Rightarrow> same'))"
      "realized_spread_map om' = sp'"
      "net_position_map om' = (net_position_map om)(tk \<mapsto> net_position om tk + signed_quantity f)"
      "fees_paid_map om' = (fees_paid_map om)(tk \<mapsto> fees_paid om tk + f_fee_cents f)"
    using False assms(1) m [unfolded opp_def tk_def]
    by (cases "f_side f"; simp add: om'_def record_fill_def fill_ok_def Let_def tk_def same_def
      same'_def signed_quantity_def om_views)+
  define L' where "L' = L\<lparr>lg_seen := insert (fill_key f) (lg_seen L), lg_fills := lg_fills L @ [f]\<rparr>"
  have lr: "ledger_record f L = (True, L')"
    using False assms(2) by (simp add: ledger_record_def L'_def simulates_def)
  have inv: "inventory_ok om tk" using assms(2) by (simp add: simulates_def)
  have lots: "lots_ok opp" "lots_ok same" "opp = [] \<or> same = []"
    using inv by (auto simp: inventory_ok_def Let_def opp_def same_def split: side.splits)
  have q: "0 < centi (f_quantity f)" and p: "is_valid_price (f_price_cents f)"
    using assms(1) by (auto simp: fill_ok_def)
  note M = match_lots_correct [OF lots(1) less_imp_le [OF q] m]
  have single: "same = [] \<or> opp' = []"
  proof (cases "opp = []")
    case True
    with m show ?thesis by simp
  qed (use lots in simp)
  note M0 = M [of 0]
  have rem: "lots_ok opp'" "0 \<le> centi rem" "rem = 0 \<or> opp' = []"
    "rem - lots_quantity opp' = f_quantity f - lots_quantity opp"
    "\<forall>k. k \<noteq> tk \<longrightarrow> sp' k = realized_spread_map om k"
    using M0 by blast+
  have done0: "\<not> 0 < centi rem \<Longrightarrow> rem = 0" using rem(2) by (auto intro: quantity_eqI)
  have same': "lots_ok same'" "lots_quantity same' = lots_quantity same + rem"
    "lots_value mk same' = lots_value mk same + of_int (mk - f_price_cents f) * contracts rem" for mk
    using lots p done0 by (auto simp: same'_def)
  have one_side: "same' = [] \<or> opp' = []"
    using rem(3) single by (auto simp: same'_def)
  have others: "k \<noteq> tk \<Longrightarrow> inventory_ok om' k = inventory_ok om k \<and> net_position om' k = net_position om k
     \<and> fees_paid om' k = fees_paid om k \<and> realized_spread om' k = realized_spread om k
     \<and> unrealized_pnl om' k mk = unrealized_pnl om k mk \<and> fills_of k L' = fills_of k L" for k mk
    using rem(5) by (simp add: om_views om' inventory_ok_def L'_def fills_of_def tk_def lookup_or_def)
  have fills: "fills_of tk L' = fills_of tk L @ [f]" by (simp add: fills_of_def L'_def tk_def)
  have old: "net_position om tk = ledger_net L tk" "fees_paid om tk = ledger_fees L tk"
    "realized_spread om tk + unrealized_pnl om tk mk = ledger_value L tk mk"
    "net_position om tk = lots_quantity (lookup_or [] (yes_lots om) tk) - lots_quantity (lookup_or [] (no_lots om) tk)"
    for mk
  proof -
    have "inventory_ok om tk \<and> net_position om tk = ledger_net L tk \<and> fees_paid om tk = ledger_fees L tk
      \<and> (\<forall>mark. realized_spread om tk + unrealized_pnl om tk mark = ledger_value L tk mark)"
      using assms(2) unfolding simulates_def by blast
    then show "net_position om tk = ledger_net L tk" "fees_paid om tk = ledger_fees L tk"
      "realized_spread om tk + unrealized_pnl om tk mk = ledger_value L tk mk"
      "net_position om tk = lots_quantity (lookup_or [] (yes_lots om) tk) - lots_quantity (lookup_or [] (no_lots om) tk)"
      unfolding inventory_ok_def Let_def by blast+
  qed
  have "simulates om' L'"
  proof -
    have "net_position om' tk = ledger_net L' tk" "fees_paid om' tk = ledger_fees L' tk"
      using old by (simp_all add: ledger_net_def ledger_fees_def fills om_views om')
    moreover have "inventory_ok om' tk"
      using rem(1,4) same'(1,2) one_side old(4) by (cases "f_side f")
        (auto simp: inventory_ok_def Let_def om' om_views opp_def same_def signed_quantity_def
          algebra_simps intro!: quantity_eqI dest!: arg_cong [where f = centi])
    moreover have "realized_spread om' tk + unrealized_pnl om' tk mk = ledger_value L' tk mk" for mk
    proof (cases "f_side f")
      case Yes
      with match_lots_correct [OF lots(1) less_imp_le [OF q] m, of "kContractMaxCents - mk"] old(3) [of mk] same'(3) [of mk]
      show ?thesis
        by (simp add: om_views om' ledger_value_def fills fill_value_def opp_def same_def algebra_simps)
    next
      case No
      with match_lots_correct [OF lots(1) less_imp_le [OF q] m, of mk] old(3) [of mk] same'(3) [of "kContractMaxCents - mk"]
      show ?thesis
        by (simp add: om_views om' ledger_value_def fills fill_value_def opp_def same_def algebra_simps)
    qed
    ultimately show ?thesis
      using assms(2) others unfolding simulates_def
      by (auto simp: om' L'_def ledger_net_def ledger_fees_def ledger_value_def) (metis others)+
  qed
  with rf lr show ?thesis by (rule that)
qed

section \<open>Sequences of operations\<close>

text \<open>
  The operations as an alphabet: any interleaving of orders, cancels, amends and fills, as the
  callbacks of the trading session issue them. An operation that throws leaves the state it had
  reached; a fill the \<open>ensure\<close> checks reject leaves it unchanged.
\<close>

datatype om_event =
    PlaceEv ticker side int int
  | CancelEv string
  | CancelAllEv ticker
  | AmendEv string ticker side int quantity
  | FillEv fill

fun om_event_step :: "'w rest_api \<Rightarrow> om_event \<Rightarrow> order_manager \<times> 'w \<Rightarrow> order_manager \<times> 'w" where
  "om_event_step api (PlaceEv tk sd p q) (om, w) = snd (place api tk sd p q om w)"
| "om_event_step api (CancelEv oid) (om, w) = snd (cancel api oid om w)"
| "om_event_step api (CancelAllEv tk) (om, w) = snd (cancel_all api tk om w)"
| "om_event_step api (AmendEv oid tk sd p q) (om, w) = snd (amend api oid tk sd p q om w)"
| "om_event_step api (FillEv f) (om, w) = (snd (record_fill f om), w)"

definition om_run :: "'w rest_api \<Rightarrow> om_event list \<Rightarrow> 'w \<Rightarrow> order_manager" where
  "om_run api evs w = fst (fold (om_event_step api) evs (new_order_manager, w))"

definition new_ledger :: ledger where
  "new_ledger = \<lparr>lg_seen = {}, lg_fills = []\<rparr>"

fun ledger_event :: "om_event \<Rightarrow> ledger \<Rightarrow> ledger" where
  "ledger_event (FillEv f) L = (if fill_ok f then snd (ledger_record f L) else L)"
| "ledger_event _ L = L"

definition ledger_run :: "om_event list \<Rightarrow> ledger" where
  "ledger_run evs = fold ledger_event evs new_ledger"

text \<open>The accounting fields, which only \<open>record_fill\<close> writes; the open orders keep distinct ids.\<close>

definition same_accounts :: "order_manager \<Rightarrow> order_manager \<Rightarrow> bool" where
  "same_accounts om om' \<longleftrightarrow> om' = om\<lparr>open_orders := open_orders om'\<rparr>
     \<and> (keys_distinct (open_orders om) \<longrightarrow> keys_distinct (open_orders om'))"

lemma same_accounts_refl [simp, intro]: "same_accounts om om"
  by (simp add: same_accounts_def)

lemma same_accounts_open [simp]:
  "(keys_distinct (open_orders om) \<Longrightarrow> keys_distinct xs) \<Longrightarrow> same_accounts om (om\<lparr>open_orders := xs\<rparr>)"
  by (simp add: same_accounts_def)

lemma same_accounts_trans [trans]:
  "same_accounts a b \<Longrightarrow> same_accounts b c \<Longrightarrow> same_accounts a c"
  unfolding same_accounts_def by (cases a; cases b; cases c) simp

lemma place_accounts: "same_accounts om (fst (snd (place api tk sd p q om w)))"
  by (auto simp: place_def split: prod.splits sum.splits)

lemma cancel_accounts: "same_accounts om (fst (snd (cancel api oid om w)))"
  by (auto simp: cancel_def split: prod.splits sum.splits)

lemma amend_accounts: "same_accounts om (fst (snd (amend api oid tk sd p q om w)))"
  by (auto simp: amend_def split: prod.splits sum.splits option.splits)

lemma cancel_each_accounts: "same_accounts om (fst (snd (cancel_each api oids om w)))"
proof (induction oids arbitrary: om w)
  case (Cons oid rest)
  obtain r om' w' where c: "cancel api oid om w = (r, om', w')" by (metis prod_cases3)
  have "same_accounts om om'" using cancel_accounts [of om api oid w] c by simp
  with Cons.IH [of om' w'] show ?case
    by (auto simp: c split: sum.splits exn.splits intro: same_accounts_trans)
qed simp

lemma same_accounts_sim:
  assumes "same_accounts om om'" and "simulates om L"
  shows "simulates om' L"
proof -
  have "simulates (om\<lparr>open_orders := xs\<rparr>) L = simulates om L" for xs
    by (simp add: simulates_def inventory_ok_def om_views)
  with assms show ?thesis unfolding same_accounts_def by metis
qed

text \<open>A consistent order manager: the ledger's accounts and distinct open orders.\<close>

definition books_ok :: "order_manager \<Rightarrow> ledger \<Rightarrow> bool" where
  "books_ok om L \<longleftrightarrow> simulates om L \<and> keys_distinct (open_orders om)"

lemma same_accounts_books: "same_accounts om om' \<Longrightarrow> books_ok om L \<Longrightarrow> books_ok om' L"
  using same_accounts_sim by (auto simp: books_ok_def same_accounts_def)

lemma record_fill_keys: "keys_distinct (open_orders om) \<Longrightarrow> keys_distinct (open_orders (snd (record_fill f om)))"
  by (auto simp: record_fill_def apply_to_order_def Let_def split: option.splits prod.splits)

lemma record_fill_rejects: "\<not> fill_ok f \<Longrightarrow> snd (record_fill f om) = om"
  by (auto simp: record_fill_def fill_ok_def)

lemma om_event_sim:
  assumes "simulates om L"
  shows "simulates (fst (om_event_step api ev (om, w))) (ledger_event ev L)"
proof (cases ev)
  case (FillEv f)
  show ?thesis
  proof (cases "fill_ok f")
    case True
    from record_fill_sim [OF this assms] show ?thesis using True FillEv by (metis fst_conv
      ledger_event.simps(1) om_event_step.simps(5) snd_conv)
  qed (use FillEv assms in \<open>simp add: record_fill_rejects\<close>)
qed (use assms in \<open>auto simp: cancel_all_def intro: same_accounts_sim [OF place_accounts]
  same_accounts_sim [OF cancel_accounts] same_accounts_sim [OF amend_accounts]
  same_accounts_sim [OF cancel_each_accounts]\<close>)

lemma om_run_sim: "simulates (om_run api evs w) (ledger_run evs)"
proof -
  have "simulates om L \<Longrightarrow> simulates (fst (fold (om_event_step api) evs (om, w))) (fold ledger_event evs L)"
    for om L
  proof (induction evs arbitrary: om w L)
    case (Cons ev evs)
    then show ?case using om_event_sim [OF Cons.prems, of api ev w]
      by (cases "om_event_step api ev (om, w)") simp
  qed simp
  moreover have "simulates new_order_manager new_ledger"
    by (simp add: simulates_def new_order_manager_def new_ledger_def inventory_ok_def om_views
      ledger_net_def ledger_fees_def ledger_value_def fills_of_def)
  ultimately show ?thesis by (simp add: om_run_def ledger_run_def)
qed

lemma om_run_views:
  "net_position (om_run api evs w) tk = ledger_net (ledger_run evs) tk"
  "fees_paid (om_run api evs w) tk = ledger_fees (ledger_run evs) tk"
  "realized_spread (om_run api evs w) tk + unrealized_pnl (om_run api evs w) tk mark
     = ledger_value (ledger_run evs) tk mark"
  "inventory_ok (om_run api evs w) tk"
  "seen_fills (om_run api evs w) = lg_seen (ledger_run evs)"
  using om_run_sim [of api evs w] unfolding simulates_def by blast+

text \<open>The fills of a sequence that pass the \<open>ensure\<close> checks of \<open>record_fill\<close>.\<close>

definition accepted_fills :: "om_event list \<Rightarrow> fill set" where
  "accepted_fills evs = {f. FillEv f \<in> set evs \<and> fill_ok f}"

lemma ledger_run_snoc: "ledger_run (evs @ [ev]) = ledger_event ev (ledger_run evs)"
  by (simp add: ledger_run_def)

lemma accepted_fills_snoc:
  "accepted_fills (evs @ [ev]) =
     (case ev of FillEv f \<Rightarrow> (if fill_ok f then insert f (accepted_fills evs) else accepted_fills evs)
      | _ \<Rightarrow> accepted_fills evs)"
  by (auto simp: accepted_fills_def split: om_event.splits)



section \<open>Correctness of the accounting\<close>

text \<open>
  C4. The order manager refines the abstract ledger: after any sequence of orders, cancels, amends
  and fills, whatever the exchange answered, its duplicate set is the ledger's, and for every
  market the net position and the fees are those of the recorded fills, the spread realized by the
  FIFO matching plus the mark-to-market of the remaining lots is the value of the recorded fills
  at every mark, and the lots are well formed and sit on one side only.
\<close>

theorem order_manager_refines_ledger:
  "simulates (om_run api evs w) (ledger_run evs)"
  by (rule om_run_sim)


text \<open>
  Concrete data for the worked examples: an exchange that accepts every request and numbers the
  orders it creates, and two fills that close two of three contracts.
\<close>

definition accepting_api :: "nat rest_api" where
  "accepting_api = \<lparr>
     api_place_order = (\<lambda>tk sd p q ty n. (Inr \<lparr>o_id = replicate n (CHR ''o''), o_market_ticker = tk,
       o_side = sd, o_price_cents = p, o_quantity = q, o_filled_quantity = 0, o_status = Open,
       o_type = ty, o_created_at = 0, o_average_fill_price_cents = 0\<rparr>, Suc n)),
     api_cancel_order = (\<lambda>oid n. (Inr True, n)),
     api_amend_order = (\<lambda>oid tk sd p q n. (Inr (Some (replicate n (CHR ''o''))), Suc n))\<rparr>"

definition yes_fill :: fill where
  "yes_fill = \<lparr>f_trade_id = ''t1'', f_order_id = ''a'', f_market_ticker = ''M'', f_side = Yes,
     f_price_cents = 40, f_quantity = from_centi 300, f_fee_cents = 2, f_is_taker = False, f_timestamp = 0\<rparr>"

definition no_fill :: fill where
  "no_fill = \<lparr>f_trade_id = ''t2'', f_order_id = ''b'', f_market_ticker = ''M'', f_side = No,
     f_price_cents = 55, f_quantity = from_centi 200, f_fee_cents = 1, f_is_taker = False, f_timestamp = 0\<rparr>"

lemma example_fills_ok: "accepted_fills [FillEv yes_fill, FillEv no_fill] = {yes_fill, no_fill}"
  "fill_key yes_fill \<noteq> fill_key no_fill" "yes_fill \<noteq> no_fill"
  "{f. (f = yes_fill \<or> f = no_fill) \<and> f_market_ticker f = ''M''} = {yes_fill, no_fill}"
  by (auto simp: accepted_fills_def fill_ok_def yes_fill_def no_fill_def price_defs fill_key_def)

lemma example_fill_values [simp]:
  "fill_value mark yes_fill = 3 * of_int (mark - 40)" "fill_value mark no_fill = 2 * of_int (45 - mark)"
  "f_fee_cents yes_fill = 2" "f_fee_cents no_fill = 1"
  by (simp_all add: yes_fill_def no_fill_def fill_value_def kContractMaxCents_def contracts_def
    kCentiPerContract_def field_simps)


lemma seen_fills_accepted:
  "f \<in> accepted_fills evs \<Longrightarrow> fill_key f \<in> seen_fills (om_run api evs w)"
proof (induction evs rule: rev_induct)
  case (snoc ev evs)
  then show ?case
    by (cases ev) (auto simp: om_run_views ledger_run_snoc accepted_fills_snoc ledger_record_def
      split: if_splits)
qed (simp add: accepted_fills_def)

lemma replay_state:
  "(\<forall>f \<in> set fs. fill_ok f \<and> fill_key f \<in> seen_fills om) \<Longrightarrow>
     fold (om_event_step api) (map FillEv fs) (om, w) = (om, w)"
  by (induction fs) (auto simp: record_fill_def fill_ok_def)

text \<open>
  Replaying fills is harmless: after any sequence of operations, a further stream of fills
  each of which was accepted before (as after a reconnect) leaves the whole state of the order
  manager unchanged.
\<close>

theorem replay_is_noop:
  assumes "set fs \<subseteq> accepted_fills evs"
  shows "om_run api (evs @ map FillEv fs) w = om_run api evs w"
proof -
  obtain om w' where run: "fold (om_event_step api) evs (new_order_manager, w) = (om, w')" by force
  then have "om = om_run api evs w" by (simp add: om_run_def)
  with assms have "\<forall>f \<in> set fs. fill_ok f \<and> fill_key f \<in> seen_fills om"
    using seen_fills_accepted by (fastforce simp: accepted_fills_def)
  from replay_state [OF this, of api w'] run show ?thesis by (simp add: om_run_def)
qed

theorem replay_is_noop_witness:
  "om_run accepting_api [FillEv yes_fill, FillEv no_fill, FillEv no_fill, FillEv yes_fill] 0
     = om_run accepting_api [FillEv yes_fill, FillEv no_fill] 0"
  using replay_is_noop [of "[no_fill, yes_fill]" "[FillEv yes_fill, FillEv no_fill]" accepting_api 0]
  by (simp add: example_fills_ok)

section \<open>Exposure\<close>

lemma lots_value_cost: "lots_value mark lots = of_int mark * contracts (lots_quantity lots) - lots_cost lots"
  by (induction lots) (simp_all add: algebra_simps)

lemma lots_quantity_nonneg: "lots_ok lots \<Longrightarrow> 0 \<le> centi (lots_quantity lots)"
  by (induction lots) auto

lemma lots_quantity_zero: "lots_ok lots \<Longrightarrow> centi (lots_quantity lots) = 0 \<Longrightarrow> lots = []"
  by (cases lots) (auto dest: lots_quantity_nonneg)

lemma exposure_inventory:
  assumes "inventory_ok om tk" and "0 \<le> mark" and "mark \<le> 100"
  defines "ex \<equiv> exposure_decomposition om tk"
  shows "e_loss_cents ex \<le> unrealized_pnl om tk mark" "unrealized_pnl om tk mark \<le> e_win_cents ex"
    "net_inventory ex = net_position om tk"
    "e_win_cents ex = max (unrealized_pnl om tk 0) (unrealized_pnl om tk 100)"
    "e_loss_cents ex = min (unrealized_pnl om tk 0) (unrealized_pnl om tk 100)"
    "- e_loss_cents ex = position_cost om tk"
proof -
  define yes no where "yes = lookup_or [] (yes_lots om) tk" and "no = lookup_or [] (no_lots om) tk"
  have inv: "lots_ok yes" "lots_ok no" "yes = [] \<or> no = []"
      "net_position om tk = lots_quantity yes - lots_quantity no"
    using assms(1) by (simp_all add: inventory_ok_def Let_def yes_def no_def)
  have nn: "0 \<le> contracts (lots_quantity yes)" "0 \<le> contracts (lots_quantity no)"
    using lots_quantity_nonneg [OF inv(1)] lots_quantity_nonneg [OF inv(2)]
    by (simp_all add: contracts_def kCentiPerContract_def)
  have le: "of_int m * contracts (lots_quantity l) \<le> 100 * contracts (lots_quantity l)"
    "0 \<le> of_int m * contracts (lots_quantity l)"
    if "0 \<le> contracts (lots_quantity l)" "0 \<le> m" "m \<le> 100" for l and m :: int
    using that by (auto intro!: mult_right_mono)
  have vals: "unrealized_pnl om tk m = of_int m * contracts (lots_quantity yes) - lots_cost yes
      + (of_int (100 - m) * contracts (lots_quantity no) - lots_cost no)" for m
    by (simp add: unrealized_pnl_def lots_value_cost yes_def no_def kContractMaxCents_def)
  note facts = inv le [OF nn(1) assms(2,3)] le [OF nn(2), of "100 - mark"] assms(2,3) nn
    lots_quantity_nonneg [OF inv(1)] lots_quantity_nonneg [OF inv(2)]
  show "e_loss_cents ex \<le> unrealized_pnl om tk mark" "unrealized_pnl om tk mark \<le> e_win_cents ex"
    "net_inventory ex = net_position om tk"
    "e_win_cents ex = max (unrealized_pnl om tk 0) (unrealized_pnl om tk 100)"
    "e_loss_cents ex = min (unrealized_pnl om tk 0) (unrealized_pnl om tk 100)"
    "- e_loss_cents ex = position_cost om tk"
    unfolding vals using facts
    by (auto simp: ex_def exposure_decomposition_def Let_def position_cost_def kContractMaxCents_def
      min_def max_def simp flip: yes_def no_def dest: lots_quantity_zero)
qed

text \<open>
  C26. The exposure decomposition is a sharp bound: for every state the operations reach, the
  profit on the open inventory at any mark between 0 and 100 lies between \<open>e_loss\<close> and \<open>e_win\<close>,
  these two are the values at the worse and the better settlement, the decomposition's net
  inventory is the net position, and what can be lost is exactly the cost of the inventory.
\<close>

theorem exposure_sharp:
  assumes "0 \<le> mark" and "mark \<le> 100"
  shows "let om = om_run api evs w; ex = exposure_decomposition om tk in
    e_loss_cents ex \<le> unrealized_pnl om tk mark \<and> unrealized_pnl om tk mark \<le> e_win_cents ex
    \<and> e_win_cents ex = max (unrealized_pnl om tk 0) (unrealized_pnl om tk 100)
    \<and> e_loss_cents ex = min (unrealized_pnl om tk 0) (unrealized_pnl om tk 100)
    \<and> net_inventory ex = net_position om tk \<and> - e_loss_cents ex = position_cost om tk"
  using exposure_inventory [OF om_run_views(4) assms, of api evs w tk] by (simp add: Let_def)

theorem exposure_sharp_witness:
  "unrealized_pnl (om_run accepting_api [FillEv yes_fill, FillEv no_fill] 0) ''M'' 50
     \<le> e_win_cents (exposure_decomposition (om_run accepting_api [FillEv yes_fill, FillEv no_fill] 0) ''M'')"
  using exposure_sharp [of 50 accepting_api "[FillEv yes_fill, FillEv no_fill]" 0 "''M''"]
  by (simp add: Let_def)

section \<open>Cancelling every order of a market\<close>

definition raises_only_exceptions :: "'w rest_api \<Rightarrow> bool" where
  "raises_only_exceptions api \<longleftrightarrow> (\<forall>oid w what. fst (api_cancel_order api oid w) \<noteq> Inl (Abort what))"

lemma cancel_frame:
  assumes "cancel api oid om w = (r, om', w')"
  shows "open_orders om' = open_orders om \<or> open_orders om' = AList.delete oid (open_orders om)"
    "fst (api_cancel_order api oid w) = Inr True \<Longrightarrow> open_orders om' = AList.delete oid (open_orders om)"
    "raises_only_exceptions api \<Longrightarrow> r \<noteq> Inl (Abort what)"
  using assms by (auto simp: cancel_def raises_only_exceptions_def split: prod.splits sum.splits if_splits)
    (metis fst_conv)+

lemma cancel_each_frame:
  assumes "raises_only_exceptions api" and "keys_distinct (open_orders om)"
    and "cancel_each api oids om w = (r, om', w')"
  shows "r = Inr () \<and> keys_distinct (open_orders om')
    \<and> (\<forall>oid. map_of (open_orders om') oid = map_of (open_orders om) oid
         \<or> oid \<in> set oids \<and> map_of (open_orders om') oid = None)
    \<and> ((\<forall>oid w. fst (api_cancel_order api oid w) = Inr True) \<longrightarrow>
        (\<forall>oid \<in> set oids. map_of (open_orders om') oid = None))"
  using assms
proof (induction oids arbitrary: om w)
  case (Cons oid rest)
  obtain r1 om1 w1 where c: "cancel api oid om w = (r1, om1, w1)" by (metis prod_cases3)
  note fr = cancel_frame [OF c]
  have dist1: "keys_distinct (open_orders om1)" using fr(1) Cons.prems(2) by auto
  have "cancel_each api rest om1 w1 = (r, om', w')"
    using Cons.prems(3) c fr(3) [OF Cons.prems(1)] by (auto split: sum.splits exn.splits)
  note IH = Cons.IH [OF Cons.prems(1) dist1 this]
  have one: "map_of (open_orders om1) k = map_of (open_orders om) k
     \<or> k = oid \<and> map_of (open_orders om1) k = None" for k
    using fr(1) by (auto split: if_splits)
  have gone: "(\<forall>oid w. fst (api_cancel_order api oid w) = Inr True) \<Longrightarrow> map_of (open_orders om1) oid = None"
    using fr(2) by simp
  show ?case
  proof (intro conjI allI impI ballI)
    fix k
    show "map_of (open_orders om') k = map_of (open_orders om) k
       \<or> k \<in> set (oid # rest) \<and> map_of (open_orders om') k = None"
      using IH one [of k] by (metis list.set_intros)
  next
    fix k assume "\<forall>oid w. fst (api_cancel_order api oid w) = Inr True" "k \<in> set (oid # rest)"
    then show "map_of (open_orders om') k = None" using IH gone by (metis set_ConsD)
  qed (use IH in blast)+
qed simp

lemma cancel_all_frame:
  assumes "raises_only_exceptions api" and "keys_distinct (open_orders om)"
    and "cancel_all api tk om w = (r, om', w')"
  shows "r = Inr () \<and> same_accounts om om'
    \<and> (\<forall>oid ord. map_of (open_orders om) oid = Some ord \<and> o_market_ticker ord \<noteq> tk
         \<longrightarrow> map_of (open_orders om') oid = Some ord)
    \<and> (\<forall>oid ord. map_of (open_orders om') oid = Some ord \<longrightarrow> map_of (open_orders om) oid = Some ord)
    \<and> ((\<forall>oid w. fst (api_cancel_order api oid w) = Inr True) \<longrightarrow> orders_of tk om' = [])"
proof -
  have each: "cancel_each api (orders_of tk om) om w = (r, om', w')"
    using assms(3) by (simp add: cancel_all_def)
  note fr = cancel_each_frame [OF assms(1,2) each]
  have mem: "oid \<in> set (orders_of tk m) \<longleftrightarrow>
      (\<exists>ord. map_of (open_orders m) oid = Some ord \<and> o_market_ticker ord = tk)"
    if "keys_distinct (open_orders m)" for oid m
    using in_set_map_of [OF that] by (force simp: orders_of_def)
  have keep: "map_of (open_orders om') oid = Some ord \<Longrightarrow> map_of (open_orders om) oid = Some ord" for oid ord
    using fr by (metis option.distinct(1))
  have other: "map_of (open_orders om') oid = Some ord"
    if "map_of (open_orders om) oid = Some ord" "o_market_ticker ord \<noteq> tk" for oid ord
    using fr that mem [OF assms(2), of oid] by (metis option.inject)
  have all: "orders_of tk om' = []" if "\<forall>oid w. fst (api_cancel_order api oid w) = Inr True"
  proof -
    have "oid \<notin> set (orders_of tk om')" for oid
    proof
      assume "oid \<in> set (orders_of tk om')"
      then obtain ord where ord: "map_of (open_orders om') oid = Some ord" "o_market_ticker ord = tk"
        using mem [of om'] fr by blast
      then have "oid \<in> set (orders_of tk om)" using mem [OF assms(2)] keep by blast
      then show False using fr that ord by (metis option.distinct(1))
    qed
    then have "set (orders_of tk om') = {}" using equals0I by metis
    then show ?thesis by simp
  qed
  have "r = Inr ()" using fr by blast
  moreover have "same_accounts om om'"
    using cancel_each_accounts [of om api "orders_of tk om" w] by (simp add: each)
  ultimately show ?thesis using keep other all by blast
qed

text \<open>
  C27. \<open>cancel_all\<close> never throws while the client's cancel raises only standard exceptions; it
  removes no order of another market and leaves positions and profit alone; and when every
  cancel succeeds, no order of the market is left.
\<close>

theorem cancel_all_best_effort:
  assumes "raises_only_exceptions api" and "keys_distinct (open_orders om)"
    and "cancel_all api tk om w = (r, om', w')"
  shows "r = Inr () \<and> same_accounts om om'
    \<and> (\<forall>oid ord. map_of (open_orders om) oid = Some ord \<and> o_market_ticker ord \<noteq> tk
         \<longrightarrow> map_of (open_orders om') oid = Some ord)
    \<and> (\<forall>oid ord. map_of (open_orders om') oid = Some ord \<longrightarrow> map_of (open_orders om) oid = Some ord)
    \<and> ((\<forall>oid w. fst (api_cancel_order api oid w) = Inr True) \<longrightarrow> orders_of tk om' = [])"
  by (rule cancel_all_frame [OF assms])

definition two_orders :: order_manager where
  "two_orders = fst (fold (om_event_step accepting_api)
     [PlaceEv ''M'' Yes 40 1, PlaceEv ''N'' No 30 2] (new_order_manager, 1))"

lemma two_orders_open:
  "orders_of ''M'' two_orders = [''o'']" "orders_of ''N'' two_orders = [''oo'']"
  "keys_distinct (open_orders two_orders)" "raises_only_exceptions accepting_api"
  "fst (api_cancel_order accepting_api oid n) = Inr True"
  by (simp_all add: two_orders_def orders_of_def place_def accepting_api_def price_defs
    new_order_manager_def raises_only_exceptions_def numeral_2_eq_2)

theorem cancel_all_best_effort_witness:
  "orders_of ''M'' two_orders \<noteq> [] \<and>
   orders_of ''M'' (fst (snd (cancel_all accepting_api ''M'' two_orders 3))) = []"
  using cancel_all_best_effort [of accepting_api two_orders "''M''" 3
      "fst (cancel_all accepting_api ''M'' two_orders 3)" "fst (snd (cancel_all accepting_api ''M'' two_orders 3))"
      "snd (snd (cancel_all accepting_api ''M'' two_orders 3))"]
  by (simp add: two_orders_open)

end
