(* ===== verification/Portfolio.thy ===== *)
theory Portfolio
  imports Order_Manager "HOL-Library.List_Lexorder" "HOL-Library.Char_ord"
begin

text \<open>
  The read models over the order manager (\<open>source/engine/portfolio.cpp\<close>): the roll-up of markets
  into events and the reconciliation against the exchange's positions. The hash maps that are
  iterated are association lists; \<open>std::sort\<close> leaves the order of equal keys open, and what is
  proved of the sorted results does not depend on it.
\<close>

section \<open>Event tickers\<close>

text \<open>\<open>rfind('-')\<close>, then the prefix.\<close>

definition event_ticker_of :: "ticker \<Rightarrow> ticker" where
  "event_ticker_of market_ticker =
     (if CHR ''-'' \<notin> set market_ticker then market_ticker
      else rev (tl (dropWhile (\<lambda>c. c \<noteq> CHR ''-'') (rev market_ticker))))"

section \<open>Snapshots\<close>

type_synonym mark_map = "ticker \<rightharpoonup> int"

record event_exposure =
  ev_event_ticker :: ticker
  ev_realized_pnl_cents :: real
  ev_unrealized_pnl_cents :: real
  ev_notional_cost_cents :: real
  ev_market_count :: int

definition new_event_exposure :: event_exposure where
  "new_event_exposure = \<lparr>ev_event_ticker = [], ev_realized_pnl_cents = 0, ev_unrealized_pnl_cents = 0,
     ev_notional_cost_cents = 0, ev_market_count = 0\<rparr>"

definition ev_total_pnl_cents :: "event_exposure \<Rightarrow> real" where
  "ev_total_pnl_cents e = ev_realized_pnl_cents e + ev_unrealized_pnl_cents e"

record portfolio_snapshot =
  total_realized_cents :: real
  total_unrealized_cents :: real
  total_notional_cents :: real
  by_event :: "event_exposure list"

definition total_pnl_cents :: "portfolio_snapshot \<Rightarrow> real" where
  "total_pnl_cents snap = total_realized_cents snap + total_unrealized_cents snap"

definition marked_unrealized :: "order_manager \<Rightarrow> mark_map \<Rightarrow> ticker \<Rightarrow> real" where
  "marked_unrealized om marks tk =
     (case marks tk of None \<Rightarrow> 0 | Some mark \<Rightarrow> unrealized_pnl om tk mark)"

text \<open>The body of the loop: the totals, then the event's entry.\<close>

fun snapshot_step :: "order_manager \<Rightarrow> mark_map \<Rightarrow> ticker
    \<Rightarrow> portfolio_snapshot \<times> (ticker \<times> event_exposure) list
    \<Rightarrow> portfolio_snapshot \<times> (ticker \<times> event_exposure) list" where
  "snapshot_step om marks tk (snap, events) =
     (let realized = realized_pnl om tk; notional = position_cost om tk;
          unrealized = marked_unrealized om marks tk;
          snap' = snap\<lparr>total_realized_cents := total_realized_cents snap + realized,
                       total_unrealized_cents := total_unrealized_cents snap + unrealized,
                       total_notional_cents := total_notional_cents snap + notional\<rparr>;
          event = (case map_of events (event_ticker_of tk) of
              None \<Rightarrow> new_event_exposure | Some e \<Rightarrow> e);
          event' = event\<lparr>ev_realized_pnl_cents := ev_realized_pnl_cents event + realized,
                         ev_unrealized_pnl_cents := ev_unrealized_pnl_cents event + unrealized,
                         ev_notional_cost_cents := ev_notional_cost_cents event + notional,
                         ev_market_count := ev_market_count event + 1\<rparr>
      in (snap', AList.update (event_ticker_of tk) event' events))"

definition new_snapshot :: portfolio_snapshot where
  "new_snapshot = \<lparr>total_realized_cents = 0, total_unrealized_cents = 0, total_notional_cents = 0,
     by_event = []\<rparr>"

definition snapshot :: "order_manager \<Rightarrow> ticker list \<Rightarrow> mark_map \<Rightarrow> portfolio_snapshot" where
  "snapshot om tickers marks =
     (let (snap, events) = fold (snapshot_step om marks) tickers (new_snapshot, [])
      in snap\<lparr>by_event := sort_key (\<lambda>e. - ev_notional_cost_cents e)
           (map (\<lambda>(event_ticker, e). e\<lparr>ev_event_ticker := event_ticker\<rparr>) events)\<rparr>)"

section \<open>Reconciliation\<close>

record position_diff =
  pd_ticker :: ticker
  pd_local_position :: quantity
  pd_exchange_position :: quantity
  pd_baseline_position :: quantity

record reconciliation =
  in_sync :: bool
  diffs :: "position_diff list"

definition exchange_map :: "market_position list \<Rightarrow> ticker \<rightharpoonup> quantity" where
  "exchange_map positions = fold (\<lambda>p m. m(mp_ticker p \<mapsto> mp_position p)) positions Map.empty"

definition baseline_map :: "ticker list \<Rightarrow> market_position list \<Rightarrow> (ticker \<times> quantity) list" where
  "baseline_map tickers positions =
     fold (\<lambda>p m. if \<not> is_zero (mp_position p) \<and> mp_ticker p \<notin> set tickers
                 then AList.update (mp_ticker p) (mp_position p) m else m) positions []"

definition tickers_to_check :: "ticker list \<Rightarrow> market_position list \<Rightarrow> (ticker \<times> quantity) list \<Rightarrow> ticker list" where
  "tickers_to_check tickers exchange_positions baseline =
     remdups (tickers @ map mp_ticker (filter (\<lambda>p. \<not> is_zero (mp_position p)) exchange_positions)
              @ map fst baseline)"

definition reconcile :: "order_manager \<Rightarrow> ticker list \<Rightarrow> market_position list \<Rightarrow> market_position list
    \<Rightarrow> reconciliation" where
  "reconcile om tickers exchange_positions baseline_positions =
     (let exchange_by_ticker = exchange_map exchange_positions;
          baseline_by_ticker = baseline_map tickers baseline_positions;
          to_check = tickers_to_check tickers exchange_positions baseline_by_ticker;
          all_diffs = concat (map (\<lambda>tk.
            let loc = net_position om tk;
                exch = lookup_or 0 exchange_by_ticker tk;
                base = lookup_or 0 (map_of baseline_by_ticker) tk
            in if loc + base \<noteq> exch
               then [\<lparr>pd_ticker = tk, pd_local_position = loc, pd_exchange_position = exch,
                      pd_baseline_position = base\<rparr>]
               else []) to_check);
          sorted_diffs = sort_key pd_ticker all_diffs
      in \<lparr>in_sync = (sorted_diffs = []), diffs = sorted_diffs\<rparr>)"

section \<open>Event tickers strip the last segment\<close>

text \<open>
  The event ticker is the market ticker without its last hyphen-separated segment: a strike
  without hyphens appended to any event gives the event back, and a ticker without hyphens is
  its own event.
\<close>

theorem event_ticker_strips_strike:
  "CHR ''-'' \<notin> set strike \<Longrightarrow>
     event_ticker_of (event @ ''-'' @ strike) = event \<and> event_ticker_of strike = strike"
proof -
  assume a: "CHR ''-'' \<notin> set strike"
  have "dropWhile (\<lambda>c. c \<noteq> CHR ''-'') (rev strike @ CHR ''-'' # rev event) = CHR ''-'' # rev event"
    using a by (subst dropWhile_append2) auto
  then show ?thesis using a by (simp add: event_ticker_of_def)
qed

theorem event_ticker_strips_strike_witness:
  "event_ticker_of ''KXFED-26SEP-T3.00'' = ''KXFED-26SEP''"
  using event_ticker_strips_strike [of "''T3.00''" "''KXFED-26SEP''"] by simp

section \<open>The roll-up\<close>

definition event_sum :: "(ticker \<Rightarrow> real) \<Rightarrow> ticker \<Rightarrow> ticker list \<Rightarrow> real" where
  "event_sum f ev tickers = sum_list (map f (filter (\<lambda>tk. event_ticker_of tk = ev) tickers))"

definition rolled_up :: "order_manager \<Rightarrow> mark_map \<Rightarrow> ticker list \<Rightarrow> ticker \<Rightarrow> event_exposure \<Rightarrow> bool" where
  "rolled_up om marks tickers ev e \<longleftrightarrow>
     ev_realized_pnl_cents e = event_sum (realized_pnl om) ev tickers
     \<and> ev_unrealized_pnl_cents e = event_sum (marked_unrealized om marks) ev tickers
     \<and> ev_notional_cost_cents e = event_sum (position_cost om) ev tickers
     \<and> ev_market_count e = int (length (filter (\<lambda>tk. event_ticker_of tk = ev) tickers))"

lemma rolled_up_other: "event_ticker_of tk \<noteq> ev \<Longrightarrow> rolled_up om marks (tks @ [tk]) ev e = rolled_up om marks tks ev e"
  by (simp add: rolled_up_def event_sum_def)

lemma snapshot_fold:
  assumes "fold (snapshot_step om marks) tickers (new_snapshot, []) = (snap, events)"
  shows "total_realized_cents snap = sum_list (map (realized_pnl om) tickers)
    \<and> total_unrealized_cents snap = sum_list (map (marked_unrealized om marks) tickers)
    \<and> total_notional_cents snap = sum_list (map (position_cost om) tickers)
    \<and> keys_distinct events \<and> fst ` set events = event_ticker_of ` set tickers
    \<and> (\<forall>ev e. map_of events ev = Some e \<longrightarrow> rolled_up om marks tickers ev e)"
  using assms
proof (induction tickers arbitrary: snap events rule: rev_induct)
  case Nil
  then show ?case by (auto simp: new_snapshot_def)
next
  case (snoc tk tks)
  obtain snap0 events0 where st: "fold (snapshot_step om marks) tks (new_snapshot, []) = (snap0, events0)"
    by force
  note IH = snoc.IH [OF st]
  define e0 where "e0 = (case map_of events0 (event_ticker_of tk) of None \<Rightarrow> new_event_exposure | Some e \<Rightarrow> e)"
  have e0: "rolled_up om marks tks (event_ticker_of tk) e0"
  proof (cases "map_of events0 (event_ticker_of tk)")
    case None
    then have "event_ticker_of tk \<notin> event_ticker_of ` set tks"
      using IH by (metis map_of_eq_None_iff)
    then have "filter (\<lambda>t. event_ticker_of t = event_ticker_of tk) tks = []"
      by (metis (mono_tags, lifting) filter_False imageI)
    then show ?thesis by (simp add: e0_def None rolled_up_def event_sum_def new_event_exposure_def)
  next
    case (Some e)
    then show ?thesis using IH by (simp add: e0_def)
  qed
  define e1 where "e1 = e0\<lparr>ev_realized_pnl_cents := ev_realized_pnl_cents e0 + realized_pnl om tk,
       ev_unrealized_pnl_cents := ev_unrealized_pnl_cents e0 + marked_unrealized om marks tk,
       ev_notional_cost_cents := ev_notional_cost_cents e0 + position_cost om tk,
       ev_market_count := ev_market_count e0 + 1\<rparr>"
  have e1: "rolled_up om marks (tks @ [tk]) (event_ticker_of tk) e1"
    using e0 by (simp add: e1_def rolled_up_def event_sum_def)
  have upd: "events = AList.update (event_ticker_of tk) e1 events0"
    and snap: "snap = snap0\<lparr>total_realized_cents := total_realized_cents snap0 + realized_pnl om tk,
       total_unrealized_cents := total_unrealized_cents snap0 + marked_unrealized om marks tk,
       total_notional_cents := total_notional_cents snap0 + position_cost om tk\<rparr>"
    using snoc.prems st by (simp_all add: Let_def e1_def e0_def)
  have "map_of events ev = Some e \<Longrightarrow> rolled_up om marks (tks @ [tk]) ev e" for ev e
    using IH e1 rolled_up_other [of tk ev] by (auto simp: upd split: if_splits)
  moreover have "fst ` set events = event_ticker_of ` set (tks @ [tk])"
    using IH by (simp add: upd dom_update)
  moreover have "keys_distinct events" using IH by (simp add: upd)
  ultimately show ?case using IH by (simp add: snap)
qed

lemma event_sum_total:
  "finite E \<Longrightarrow> event_ticker_of ` set tks \<subseteq> E \<Longrightarrow> (\<Sum>ev \<in> E. event_sum f ev tks) = sum_list (map f tks)"
proof (induction tks)
  case (Cons tk tks)
  have "event_sum f ev (tk # tks) = (if ev = event_ticker_of tk then f tk else 0) + event_sum f ev tks" for ev
    by (simp add: event_sum_def)
  then show ?case using Cons by (simp add: sum.distrib sum.delta)
qed (simp add: event_sum_def)

text \<open>
  The portfolio roll-up conserves money: the snapshot's totals are the sums over the markets,
  the events are exactly the distinct events of the markets, each with the sums and the count of
  its own markets, the totals are the sums over the events, and the events are sorted by capital
  at risk, largest first.
\<close>

theorem snapshot_conserves:
  "let snap = snapshot om tickers marks in
    total_realized_cents snap = sum_list (map (realized_pnl om) tickers)
    \<and> total_unrealized_cents snap = sum_list (map (marked_unrealized om marks) tickers)
    \<and> total_notional_cents snap = sum_list (map (position_cost om) tickers)
    \<and> distinct (map ev_event_ticker (by_event snap))
    \<and> ev_event_ticker ` set (by_event snap) = event_ticker_of ` set tickers
    \<and> (\<forall>e \<in> set (by_event snap). rolled_up om marks tickers (ev_event_ticker e) e)
    \<and> total_pnl_cents snap = sum_list (map ev_total_pnl_cents (by_event snap))
    \<and> total_notional_cents snap = sum_list (map ev_notional_cost_cents (by_event snap))
    \<and> sorted_wrt (\<lambda>e e'. ev_notional_cost_cents e \<ge> ev_notional_cost_cents e') (by_event snap)"
proof -
  obtain snap0 evs where st: "fold (snapshot_step om marks) tickers (new_snapshot, []) = (snap0, evs)" by force
  note F = snapshot_fold [OF st]
  define named where "named = map (\<lambda>(t, e). e\<lparr>ev_event_ticker := t\<rparr>) evs"
  define bs where "bs = sort_key (\<lambda>e. - ev_notional_cost_cents e) named"
  have snap: "snapshot om tickers marks = snap0\<lparr>by_event := bs\<rparr>"
    by (simp add: snapshot_def st bs_def named_def)
  have keys: "map ev_event_ticker named = map fst evs" by (simp add: named_def case_prod_beta)
  then have dn: "distinct (map ev_event_ticker named)" using F by simp
  then have dist: "distinct (map ev_event_ticker bs)" by (simp add: bs_def distinct_map)
  have set: "set bs = set named" by (simp add: bs_def)
  have tick: "ev_event_ticker ` set bs = event_ticker_of ` set tickers"
    using F keys set by (metis list.set_map)
  have roll: "rolled_up om marks tickers (ev_event_ticker e) e" if "e \<in> set bs" for e
  proof -
    from that set obtain t e' where e: "(t, e') \<in> set evs" "e = e'\<lparr>ev_event_ticker := t\<rparr>"
      by (auto simp: named_def)
    then have "rolled_up om marks tickers t e'" using F by auto
    then show ?thesis by (simp add: e rolled_up_def)
  qed
  have total: "sum_list (map g bs) = sum_list (map f tickers)"
    if "\<And>e. e \<in> set bs \<Longrightarrow> g e = event_sum f (ev_event_ticker e) tickers" for f and g :: "event_exposure \<Rightarrow> real"
  proof -
    have "map g bs = map (\<lambda>ev. event_sum f ev tickers) (map ev_event_ticker bs)" using that by simp
    then have "sum_list (map g bs) = (\<Sum>ev \<in> ev_event_ticker ` set bs. event_sum f ev tickers)"
      using dist by (metis list.set_map sum_list_distinct_conv_sum_set)
    then show ?thesis by (simp add: tick event_sum_total)
  qed
  have pnl: "sum_list (map ev_total_pnl_cents bs) =
      sum_list (map (\<lambda>tk. realized_pnl om tk + marked_unrealized om marks tk) tickers)"
    by (rule total) (use roll in \<open>auto simp: ev_total_pnl_cents_def rolled_up_def event_sum_def sum_list_addf\<close>)
  have notional: "sum_list (map ev_notional_cost_cents bs) = sum_list (map (position_cost om) tickers)"
    by (rule total) (use roll in \<open>auto simp: rolled_up_def\<close>)
  have "sorted (map (\<lambda>e. - ev_notional_cost_cents e) bs)" by (simp add: bs_def)
  then have "sorted_wrt (\<lambda>e e'. ev_notional_cost_cents e \<ge> ev_notional_cost_cents e') bs"
    by (simp add: sorted_map)
  then show ?thesis
    using F dist tick roll pnl notional by (simp add: snap Let_def total_pnl_cents_def sum_list_addf)
qed

definition strike_marks :: mark_map where
  "strike_marks = [''E-1'' \<mapsto> 50, ''E-2'' \<mapsto> 20]"

theorem snapshot_conserves_witness:
  "total_notional_cents (snapshot (om_run accepting_api [FillEv yes_fill] 0) [''E-1'', ''M'', ''E-2''] strike_marks)
     = sum_list (map (position_cost (om_run accepting_api [FillEv yes_fill] 0)) [''E-1'', ''M'', ''E-2''])"
  using snapshot_conserves [of "om_run accepting_api [FillEv yes_fill] 0" "[''E-1'', ''M'', ''E-2'']" strike_marks]
  unfolding Let_def by blast

section \<open>What a reconciliation says\<close>

text \<open>The position a ticker is expected to have on the exchange.\<close>

definition expected_position :: "order_manager \<Rightarrow> ticker list \<Rightarrow> market_position list \<Rightarrow> ticker \<Rightarrow> quantity" where
  "expected_position om tickers baseline_positions tk =
     net_position om tk + lookup_or 0 (map_of (baseline_map tickers baseline_positions)) tk"

lemma baseline_map_keys:
  "keys_distinct (baseline_map tickers ps) \<and> fst ` set (baseline_map tickers ps) \<inter> set tickers = {}"
proof -
  have "keys_distinct m \<and> fst ` set m \<inter> set tickers = {} \<Longrightarrow>
     keys_distinct (fold (\<lambda>p m. if \<not> is_zero (mp_position p) \<and> mp_ticker p \<notin> set tickers
       then AList.update (mp_ticker p) (mp_position p) m else m) ps m)
     \<and> fst ` set (fold (\<lambda>p m. if \<not> is_zero (mp_position p) \<and> mp_ticker p \<notin> set tickers
       then AList.update (mp_ticker p) (mp_position p) m else m) ps m) \<inter> set tickers = {}" for m
    by (induction ps arbitrary: m) (auto simp: dom_update)
  then show ?thesis by (simp add: baseline_map_def)
qed

lemma sort_key_Nil_iff: "sort_key f xs = [] \<longleftrightarrow> xs = []"
  by (metis length_0_conv length_sort)

text \<open>
  A reconciliation is in sync exactly when every ticker it checks, the tracked ones and those
  where the exchange or the baseline reports a position, has the expected position on the
  exchange; its differences list exactly the other tickers, once each and in order; and the
  baseline never excuses a tracked ticker.
\<close>

theorem reconcile_exact:
  "let r = reconcile om tickers exchange_positions baseline_positions;
     expected = expected_position om tickers baseline_positions;
     actual = lookup_or 0 (exchange_map exchange_positions);
     checked = set (tickers_to_check tickers exchange_positions (baseline_map tickers baseline_positions))
   in (in_sync r \<longleftrightarrow> (\<forall>tk \<in> checked. expected tk = actual tk))
    \<and> pd_ticker ` set (diffs r) = {tk \<in> checked. expected tk \<noteq> actual tk}
    \<and> distinct (map pd_ticker (diffs r)) \<and> sorted (map pd_ticker (diffs r))
    \<and> set tickers \<subseteq> checked \<and> (\<forall>tk \<in> set tickers. expected tk = net_position om tk)"
proof -
  define expected actual checked where "expected = expected_position om tickers baseline_positions"
    and "actual = lookup_or 0 (exchange_map exchange_positions)"
    and "checked = set (tickers_to_check tickers exchange_positions (baseline_map tickers baseline_positions))"
  let ?tc = "tickers_to_check tickers exchange_positions (baseline_map tickers baseline_positions)"
  let ?base = "map_of (baseline_map tickers baseline_positions)"
  let ?d = "\<lambda>tk. \<lparr>pd_ticker = tk, pd_local_position = net_position om tk, pd_exchange_position = actual tk,
                   pd_baseline_position = lookup_or 0 ?base tk\<rparr>"
  let ?all = "map ?d (filter (\<lambda>tk. expected tk \<noteq> actual tk) ?tc)"
  have concat: "concat (map (\<lambda>tk. if P tk then [g tk] else []) xs) = map g (filter P xs)"
    for P and g :: "ticker \<Rightarrow> position_diff" and xs
    by (induction xs) auto
  have r: "reconcile om tickers exchange_positions baseline_positions =
      \<lparr>in_sync = (sort_key pd_ticker ?all = []), diffs = sort_key pd_ticker ?all\<rparr>"
    by (simp add: reconcile_def Let_def concat expected_def actual_def expected_position_def)
  have "distinct ?tc" by (simp add: tickers_to_check_def)
  then have dist: "distinct (map pd_ticker (sort_key pd_ticker ?all))"
    by (simp add: distinct_map inj_on_def)
  have tracked: "expected tk = net_position om tk" if "tk \<in> set tickers" for tk
  proof -
    have "?base tk = None" using baseline_map_keys [of tickers baseline_positions] that
      by (metis disjoint_iff map_of_eq_None_iff)
    then show ?thesis by (simp add: expected_def expected_position_def lookup_or_def)
  qed
  have "sort_key pd_ticker ?all = [] \<longleftrightarrow> ?all = []" by (rule sort_key_Nil_iff)
  also have "\<dots> \<longleftrightarrow> (\<forall>tk \<in> checked. expected tk = actual tk)"
    by (simp add: checked_def filter_empty_conv)
  finally have "sort_key pd_ticker ?all = [] \<longleftrightarrow> (\<forall>tk \<in> checked. expected tk = actual tk)" .
  moreover have "pd_ticker ` set (sort_key pd_ticker ?all) = {tk \<in> checked. expected tk \<noteq> actual tk}"
    by (auto simp: checked_def image_iff)
  moreover have "set tickers \<subseteq> checked" by (auto simp: checked_def tickers_to_check_def)
  ultimately show ?thesis using dist tracked
    unfolding Let_def expected_def [symmetric] actual_def [symmetric] checked_def [symmetric] r by simp
qed

definition exchange_flat :: "market_position list" where
  "exchange_flat = [\<lparr>mp_ticker = ''M'', mp_position = from_centi 300, mp_realized_pnl_cents = 0,
     mp_market_exposure_cents = 0, mp_resting_orders_count = 0\<rparr>]"

theorem reconcile_exact_witness:
  "\<not> in_sync (reconcile new_order_manager [''M''] exchange_flat [])"
  using reconcile_exact [of new_order_manager "[''M'']" exchange_flat "[]"]
  by (simp add: Let_def exchange_flat_def tickers_to_check_def baseline_map_def expected_position_def
    net_position_def new_order_manager_def exchange_map_def) (simp add: zero_quantity_def)

end
