(* ===== verification/Risk_Manager.thy ===== *)
theory Risk_Manager
  imports Portfolio "HOL-Library.Word"
begin

unbundle bit_operations_syntax

text \<open>
  \<open>RiskManager\<close> (\<open>source/engine/risk_manager.cpp\<close>): the pre-trade check of every order and the
  constraint bits that halt trading. The bit set is an 11-bit word. Amounts are reals, always
  finite, so the two \<open>isfinite\<close> guards of \<open>update_portfolio\<close> never fire.
\<close>

section \<open>Limits and constraints\<close>

record risk_limits =
  max_position_per_market :: int
  max_open_orders_per_market :: int
  max_order_size :: int
  daily_loss_limit :: real
  max_total_exposure_dollars :: real
  max_total_loss_dollars :: real
  min_quote_price_cents :: int
  max_quote_price_cents :: int
  max_drawdown_dollars :: real

definition default_risk_limits :: risk_limits where
  "default_risk_limits = \<lparr>max_position_per_market = 100, max_open_orders_per_market = 4,
     max_order_size = 25, daily_loss_limit = -500, max_total_exposure_dollars = 10000,
     max_total_loss_dollars = -1000, min_quote_price_cents = 10, max_quote_price_cents = 90,
     max_drawdown_dollars = 500\<rparr>"

datatype constr = kPnLLimit | kPositionLimit | kOpenOrders | kHighFillRate | kStaleBook
  | kModelDiverge | kManualHalt | kConnectivity | kOverExposure | kPortfolioLoss | kDrawdown

fun constraint_index :: "constr \<Rightarrow> nat" where
  "constraint_index kPnLLimit = 0" | "constraint_index kPositionLimit = 1"
| "constraint_index kOpenOrders = 2" | "constraint_index kHighFillRate = 3"
| "constraint_index kStaleBook = 4" | "constraint_index kModelDiverge = 5"
| "constraint_index kManualHalt = 6" | "constraint_index kConnectivity = 7"
| "constraint_index kOverExposure = 8" | "constraint_index kPortfolioLoss = 9"
| "constraint_index kDrawdown = 10"

definition kConstraintNames :: "string list" where
  "kConstraintNames = [''kPnLLimit'', ''kPositionLimit'', ''kOpenOrders'', ''kHighFillRate'',
     ''kStaleBook'', ''kModelDiverge'', ''kManualHalt'', ''kConnectivity'', ''kOverExposure'',
     ''kPortfolioLoss'', ''kDrawdown'']"

definition kNumConstraints :: nat where "kNumConstraints = 11"
definition kCentsToDollars :: real where "kCentsToDollars = 100"

text \<open>\<open>numeric_limits<double>::lowest()\<close>.\<close>

definition double_lowest :: real where "double_lowest = - ((2 - 1 / 2 ^ 52) * 2 ^ 1023)"

record risk_manager =
  rm_limits :: risk_limits
  constraints :: "11 word"
  cached_position :: "ticker \<rightharpoonup> quantity"
  cached_open_order_count :: "ticker \<rightharpoonup> int"
  cached_total_pnl_cents :: real
  peak_total_pnl_cents :: real

definition new_risk_manager :: "risk_limits \<Rightarrow> risk_manager" where
  "new_risk_manager limits = \<lparr>rm_limits = limits, constraints = 0, cached_position = Map.empty,
     cached_open_order_count = Map.empty, cached_total_pnl_cents = 0, peak_total_pnl_cents = 0\<rparr>"

section \<open>Constraint bits\<close>

definition set_constraint :: "constr \<Rightarrow> risk_manager \<Rightarrow> risk_manager" where
  "set_constraint b rm = rm\<lparr>constraints := set_bit (constraint_index b) (constraints rm)\<rparr>"

definition clear_constraint :: "constr \<Rightarrow> risk_manager \<Rightarrow> risk_manager" where
  "clear_constraint b rm = rm\<lparr>constraints := unset_bit (constraint_index b) (constraints rm)\<rparr>"

definition is_set :: "risk_manager \<Rightarrow> constr \<Rightarrow> bool" where
  "is_set rm b = bit (constraints rm) (constraint_index b)"

definition is_halted :: "risk_manager \<Rightarrow> bool" where
  "is_halted rm \<longleftrightarrow> constraints rm \<noteq> 0"

definition halt :: "risk_manager \<Rightarrow> risk_manager" where
  "halt rm = set_constraint kManualHalt rm"

definition resume :: "risk_manager \<Rightarrow> risk_manager" where
  "resume rm = rm\<lparr>constraints := 0, peak_total_pnl_cents := double_lowest\<rparr>"

definition active_constraints :: "risk_manager \<Rightarrow> string" where
  "active_constraints rm =
     foldl (\<lambda>result idx. if bit (constraints rm) idx
              then (if result \<noteq> [] then result @ '' '' else result) @ kConstraintNames ! idx
              else result) [] [0..<kNumConstraints]"

section \<open>The pre-trade check\<close>

definition check_order :: "risk_manager \<Rightarrow> ticker \<Rightarrow> side \<Rightarrow> int \<Rightarrow> int \<Rightarrow> bool" where
  "check_order rm tk sd price_cents qty =
     (if constraints rm \<noteq> 0 then False
      else if qty > max_order_size (rm_limits rm) then False
      else if price_cents < min_quote_price_cents (rm_limits rm)
            \<or> price_cents > max_quote_price_cents (rm_limits rm) then False
      else if lookup_or 0 (cached_open_order_count rm) tk \<ge> max_open_orders_per_market (rm_limits rm)
      then False
      else
        let current_pos = lookup_or 0 (cached_position rm) tk;
            delta = from_contracts (if sd = Yes then qty else - qty)
        in abs_quantity (current_pos + delta) \<le> from_contracts (max_position_per_market (rm_limits rm)))"

section \<open>Updates\<close>

definition count_orders :: "(string \<times> order) list \<Rightarrow> ticker \<rightharpoonup> int" where
  "count_orders orders = fold (\<lambda>(_, ord) m. m(o_market_ticker ord \<mapsto>
     lookup_or 0 m (o_market_ticker ord) + 1)) orders Map.empty"

definition risk_update :: "order_manager \<Rightarrow> ticker list \<Rightarrow> risk_manager \<Rightarrow> risk_manager" where
  "risk_update om tickers rm =
     (let positions = fold (\<lambda>tk m. m(tk \<mapsto> net_position om tk)) tickers Map.empty;
          pnl = foldl (\<lambda>acc tk. acc + realized_pnl om tk) 0 tickers;
          rm' = rm\<lparr>cached_position := positions,
                   cached_open_order_count := count_orders (open_orders om),
                   cached_total_pnl_cents := pnl\<rparr>
      in if pnl / kCentsToDollars < daily_loss_limit (rm_limits rm)
         then set_constraint kPnLLimit rm' else rm')"

definition update_portfolio :: "portfolio_snapshot \<Rightarrow> risk_manager \<Rightarrow> risk_manager" where
  "update_portfolio snap rm =
     (let rm1 = (if total_notional_cents snap / kCentsToDollars > max_total_exposure_dollars (rm_limits rm)
                 then set_constraint kOverExposure rm else rm);
          pnl = total_pnl_cents snap;
          rm2 = (if pnl / kCentsToDollars < max_total_loss_dollars (rm_limits rm)
                 then set_constraint kPortfolioLoss rm1 else rm1);
          peak = max (peak_total_pnl_cents rm2) pnl;
          rm3 = rm2\<lparr>peak_total_pnl_cents := peak\<rparr>;
          drawdown_cents = peak - pnl
      in if drawdown_cents / kCentsToDollars > max_drawdown_dollars (rm_limits rm)
         then set_constraint kDrawdown rm3 else rm3)"

section \<open>Facts about the bits\<close>

lemma constraint_index_less: "constraint_index b < 11"
  by (cases b) auto

lemma constraint_index_inj [simp]: "constraint_index b = constraint_index b' \<longleftrightarrow> b = b'"
  by (cases b; cases b') auto

lemma constraint_index_surj: "n < 11 \<Longrightarrow> \<exists>b. constraint_index b = n"
proof -
  assume "n < 11"
  then have "n \<in> {0, 1, 2, 3, 4, 5, 6, 7, 8, 9, 10}" unfolding insert_iff empty_iff by presburger
  then show ?thesis by (metis constraint_index.simps insertE empty_iff)
qed

lemma is_set_set [simp]: "is_set (set_constraint b rm) c \<longleftrightarrow> c = b \<or> is_set rm c"
  using constraint_index_less [of b] by (auto simp: is_set_def set_constraint_def bit_set_bit_iff)

lemma is_set_clear [simp]: "is_set (clear_constraint b rm) c \<longleftrightarrow> c \<noteq> b \<and> is_set rm c"
  using constraint_index_less [of c] by (auto simp: is_set_def clear_constraint_def bit_unset_bit_iff)

lemma is_set_resume [simp]: "\<not> is_set (resume rm) c"
  by (simp add: is_set_def resume_def)

lemma is_set_new [simp]: "\<not> is_set (new_risk_manager limits) c"
  by (simp add: is_set_def new_risk_manager_def)

lemma is_set_fields [simp]:
  "is_set (rm\<lparr>peak_total_pnl_cents := p\<rparr>) c = is_set rm c"
  "is_set (rm\<lparr>cached_position := m, cached_open_order_count := k, cached_total_pnl_cents := t\<rparr>) c = is_set rm c"
  by (simp_all add: is_set_def)

lemma halted_iff: "is_halted rm \<longleftrightarrow> (\<exists>b. is_set rm b)"
proof
  assume "is_halted rm"
  then obtain n where n: "n < 11" "bit (constraints rm) n"
    by (auto simp: is_halted_def bit_eq_iff dest: bit_imp_le_length)
  then show "\<exists>b. is_set rm b" using constraint_index_surj [OF n(1)] by (auto simp: is_set_def)
next
  assume "\<exists>b. is_set rm b"
  then show "is_halted rm" by (auto simp: is_halted_def is_set_def)
qed

lemma set_constraint_fields [simp]:
  "rm_limits (set_constraint b rm) = rm_limits rm"
  "cached_position (set_constraint b rm) = cached_position rm"
  "cached_open_order_count (set_constraint b rm) = cached_open_order_count rm"
  "peak_total_pnl_cents (set_constraint b rm) = peak_total_pnl_cents rm"
  by (simp_all add: set_constraint_def)

lemma update_portfolio_effect:
  "is_set (update_portfolio snap rm) c \<longleftrightarrow> is_set rm c
    \<or> c = kOverExposure \<and> total_notional_cents snap / kCentsToDollars > max_total_exposure_dollars (rm_limits rm)
    \<or> c = kPortfolioLoss \<and> total_pnl_cents snap / kCentsToDollars < max_total_loss_dollars (rm_limits rm)
    \<or> c = kDrawdown \<and> (max (peak_total_pnl_cents rm) (total_pnl_cents snap) - total_pnl_cents snap)
          / kCentsToDollars > max_drawdown_dollars (rm_limits rm)"
  "peak_total_pnl_cents (update_portfolio snap rm) = max (peak_total_pnl_cents rm) (total_pnl_cents snap)"
  "rm_limits (update_portfolio snap rm) = rm_limits rm"
  by (auto simp: update_portfolio_def Let_def)

lemma risk_update_effect:
  "is_set (risk_update om tickers rm) c \<longleftrightarrow> is_set rm c
    \<or> c = kPnLLimit \<and> foldl (\<lambda>acc tk. acc + realized_pnl om tk) 0 tickers / kCentsToDollars
        < daily_loss_limit (rm_limits rm)"
  "rm_limits (risk_update om tickers rm) = rm_limits rm"
  "cached_position (risk_update om tickers rm) = fold (\<lambda>tk m. m(tk \<mapsto> net_position om tk)) tickers Map.empty"
  "cached_open_order_count (risk_update om tickers rm) = count_orders (open_orders om)"
  by (auto simp: risk_update_def Let_def)

section \<open>What the gate guarantees\<close>

lemma cached_positions_lookup:
  "fold (\<lambda>tk m. m(tk \<mapsto> f tk)) tickers m0 tk = (if tk \<in> set tickers then Some (f tk) else m0 tk)"
  by (induction tickers arbitrary: m0) auto

lemma count_orders_lookup:
  "lookup_or 0 (count_orders orders) tk = int (length (filter (\<lambda>(_, ord). o_market_ticker ord = tk) orders))"
proof -
  have "lookup_or 0 (fold (\<lambda>(_, ord) m. m(o_market_ticker ord \<mapsto> lookup_or 0 m (o_market_ticker ord) + 1)) orders m0) tk
      = lookup_or 0 m0 tk + int (length (filter (\<lambda>(_, ord). o_market_ticker ord = tk) orders))" for m0
  proof (induction orders arbitrary: m0)
    case (Cons x xs)
    then show ?case by (cases x) (simp add: lookup_or_def)
  qed simp
  from this [of Map.empty] show ?thesis by (simp add: count_orders_def)
qed

lemma check_order_iff:
  "check_order rm tk sd p q \<longleftrightarrow> \<not> is_halted rm \<and> q \<le> max_order_size (rm_limits rm)
     \<and> min_quote_price_cents (rm_limits rm) \<le> p \<and> p \<le> max_quote_price_cents (rm_limits rm)
     \<and> lookup_or 0 (cached_open_order_count rm) tk < max_open_orders_per_market (rm_limits rm)
     \<and> abs_quantity (lookup_or 0 (cached_position rm) tk + from_contracts (if sd = Yes then q else - q))
         \<le> from_contracts (max_position_per_market (rm_limits rm))"
  by (auto simp: check_order_def is_halted_def Let_def)

lemma length_orders_update:
  "length (filter P (AList.update k v xs)) \<le> Suc (length (filter P xs))"
  by (induction xs) auto

lemma place_order_count:
  assumes "place api tk sd p q om w = (Inr ord, om', w')"
  shows "length (orders_of tk' om') \<le> Suc (length (orders_of tk' om))"
  using assms length_orders_update
  by (auto simp: place_def orders_of_def split: if_splits prod.splits sum.splits)

lemma record_fill_net:
  assumes "record_fill f om = (Inr True, om')"
  shows "net_position om' (f_market_ticker f) = net_position om (f_market_ticker f) + signed_quantity f"
  using assms by (auto simp: record_fill_def net_position_def signed_quantity_def Let_def
    split: if_splits prod.splits)

text \<open>
  C15. The risk gate protects the book: if an order is approved against limits that were just
  refreshed from the order manager for a tracked market, then trading is not halted, the order
  has a permitted size and price, placing it leaves no more open orders in the market than
  allowed, and if it fills completely the market's net position is within the limit.
\<close>

theorem risk_gate_sound:
  assumes "tk \<in> set tickers" and "check_order (risk_update om tickers rm) tk sd p q"
  shows "\<not> is_halted rm \<and> q \<le> max_order_size (rm_limits rm)
    \<and> min_quote_price_cents (rm_limits rm) \<le> p \<and> p \<le> max_quote_price_cents (rm_limits rm)
    \<and> (\<forall>api w ord om' w'. place api tk sd p q om w = (Inr ord, om', w') \<longrightarrow>
         int (length (orders_of tk om')) \<le> max_open_orders_per_market (rm_limits rm))
    \<and> (\<forall>f om'. f_market_ticker f = tk \<and> f_side f = sd \<and> f_quantity f = from_contracts q
         \<and> record_fill f om = (Inr True, om') \<longrightarrow>
         abs_quantity (net_position om' tk) \<le> from_contracts (max_position_per_market (rm_limits rm)))"
proof -
  note chk = assms(2) [unfolded check_order_iff risk_update_effect]
  have "\<not> is_halted rm" using chk by (auto simp: halted_iff risk_update_effect)
  moreover have "int (length (orders_of tk om')) \<le> max_open_orders_per_market (rm_limits rm)"
    if "place api tk sd p q om w = (Inr ord, om', w')" for api :: "'a rest_api" and w ord om' w'
    using place_order_count [OF that, of tk] chk by (simp add: count_orders_lookup orders_of_def)
  moreover have "abs_quantity (net_position om' tk) \<le> from_contracts (max_position_per_market (rm_limits rm))"
    if f: "f_market_ticker f = tk" "f_side f = sd" "f_quantity f = from_contracts q"
      and r: "record_fill f om = (Inr True, om')" for f om'
  proof -
    have "signed_quantity f = from_contracts (if sd = Yes then q else - q)"
      using f by (cases sd) (auto simp: signed_quantity_def from_contracts_def intro: quantity_eqI)
    moreover have "lookup_or 0 (fold (\<lambda>tk m. m(tk \<mapsto> net_position om tk)) tickers Map.empty) tk = net_position om tk"
      using assms(1) by (simp add: cached_positions_lookup lookup_or_def)
    ultimately show ?thesis using record_fill_net [OF r] chk f(1) by simp
  qed
  ultimately show ?thesis using chk by blast
qed

theorem risk_gate_sound_witness:
  "check_order (risk_update new_order_manager [''M''] (new_risk_manager default_risk_limits)) ''M'' Yes 40 10
   \<and> \<not> is_halted (new_risk_manager default_risk_limits)"
proof -
  have "check_order (risk_update new_order_manager [''M''] (new_risk_manager default_risk_limits)) ''M'' Yes 40 10"
    by (simp add: check_order_def risk_update_def new_risk_manager_def default_risk_limits_def Let_def
      new_order_manager_def count_orders_def om_views kCentsToDollars_def abs_quantity_def from_contracts_def
      kCentiPerContract_def)
  with risk_gate_sound [OF _ this, THEN conjunct1] show ?thesis by simp
qed

section \<open>Bits are sticky\<close>

datatype risk_event = RiskUpdateEv order_manager "ticker list" | PortfolioEv portfolio_snapshot
  | SetEv constr | ClearEv constr | HaltEv | ResumeEv

fun risk_step :: "risk_event \<Rightarrow> risk_manager \<Rightarrow> risk_manager" where
  "risk_step (RiskUpdateEv om tickers) rm = risk_update om tickers rm"
| "risk_step (PortfolioEv snap) rm = update_portfolio snap rm"
| "risk_step (SetEv b) rm = set_constraint b rm"
| "risk_step (ClearEv b) rm = clear_constraint b rm"
| "risk_step HaltEv rm = halt rm"
| "risk_step ResumeEv rm = resume rm"

lemma risk_step_keeps:
  "is_set rm b \<Longrightarrow> ev \<noteq> ResumeEv \<Longrightarrow> ev \<noteq> ClearEv b \<Longrightarrow> is_set (risk_step ev rm) b"
  by (cases ev) (auto simp: risk_update_effect update_portfolio_effect halt_def)

text \<open>
  C16. A halt is sticky: once a constraint is set, no sequence of updates, portfolio updates, sets,
  halts and clears of other constraints removes it, and every order is refused throughout, until
  the constraint itself is cleared or trading is resumed.
\<close>

theorem constraint_sticky:
  assumes "is_set rm b" and "ResumeEv \<notin> set evs" and "ClearEv b \<notin> set evs"
  shows "is_set (fold risk_step evs rm) b \<and> is_halted (fold risk_step evs rm)
    \<and> \<not> check_order (fold risk_step evs rm) tk sd p q"
proof -
  have "is_set (fold risk_step evs rm) b"
    using assms by (induction evs arbitrary: rm) (auto simp: risk_step_keeps)
  then show ?thesis by (auto simp: halted_iff check_order_iff)
qed

theorem constraint_sticky_witness:
  "\<not> check_order (fold risk_step [RiskUpdateEv new_order_manager [''M''], ClearEv kStaleBook]
       (halt (new_risk_manager default_risk_limits))) ''M'' Yes 50 1"
  using constraint_sticky [of "halt (new_risk_manager default_risk_limits)" kManualHalt
      "[RiskUpdateEv new_order_manager [''M''], ClearEv kStaleBook]" "''M''" Yes 50 1]
  by (simp add: halt_def)

section \<open>The drawdown switch\<close>

lemma portfolio_run_limits: "rm_limits (fold update_portfolio snaps rm) = rm_limits rm"
  by (induction snaps arbitrary: rm) (auto simp: update_portfolio_effect)

lemma ex_prefix_snoc:
  "(\<exists>i < length (xs @ [x]). P (take (Suc i) (xs @ [x])) ((xs @ [x]) ! i)) \<longleftrightarrow>
     (\<exists>i < length xs. P (take (Suc i) xs) (xs ! i)) \<or> P (xs @ [x]) x"
proof -
  let ?Q = "\<lambda>i. P (take (Suc i) (xs @ [x])) ((xs @ [x]) ! i)"
  have "(\<exists>i < Suc (length xs). ?Q i) \<longleftrightarrow> (\<exists>i < length xs. ?Q i) \<or> ?Q (length xs)"
    using less_Suc_eq by metis
  moreover have "?Q i \<longleftrightarrow> P (take (Suc i) xs) (xs ! i)" if "i < length xs" for i
    using that by (simp add: nth_append)
  ultimately show ?thesis by (auto)
qed

text \<open>
  The drawdown switch is exact: after any sequence of portfolio observations on a fresh risk
  manager, the high-water mark is the largest of break-even and all observed profits, and the
  drawdown constraint is set exactly if some observation was below the high-water mark up to it
  by more than the limit.
\<close>

theorem drawdown_exact:
  "peak_total_pnl_cents (fold update_portfolio snaps (new_risk_manager limits))
     = Max (insert 0 (total_pnl_cents ` set snaps))
   \<and> (is_set (fold update_portfolio snaps (new_risk_manager limits)) kDrawdown \<longleftrightarrow>
      (\<exists>i < length snaps. (Max (insert 0 (total_pnl_cents ` set (take (Suc i) snaps)))
          - total_pnl_cents (snaps ! i)) / kCentsToDollars > max_drawdown_dollars limits))"
proof (induction snaps rule: rev_induct)
  case Nil
  show ?case by (simp add: new_risk_manager_def [of limits]) (simp add: is_set_def)
next
  case (snoc snap snaps)
  let ?rm = "fold update_portfolio snaps (new_risk_manager limits)"
  have lim: "rm_limits ?rm = limits" using portfolio_run_limits by (simp add: new_risk_manager_def)
  have peak: "max (peak_total_pnl_cents ?rm) (total_pnl_cents snap)
      = Max (insert 0 (total_pnl_cents ` set (snaps @ [snap])))"
  proof -
    have "insert 0 (total_pnl_cents ` set (snaps @ [snap]))
        = insert (total_pnl_cents snap) (insert 0 (total_pnl_cents ` set snaps))" by auto
    then have "Max (insert 0 (total_pnl_cents ` set (snaps @ [snap])))
        = max (total_pnl_cents snap) (Max (insert 0 (total_pnl_cents ` set snaps)))"
      by (simp only:) (rule Max_insert, simp_all)
    then show ?thesis unfolding snoc.IH [THEN conjunct1] by (simp only: max.commute)
  qed
  have run: "fold update_portfolio (snaps @ [snap]) (new_risk_manager limits) = update_portfolio snap ?rm"
    by simp
  note split = ex_prefix_snoc [where P = "\<lambda>ss s. (Max (insert 0 (total_pnl_cents ` set ss))
      - total_pnl_cents s) / kCentsToDollars > max_drawdown_dollars limits"]
  show ?case
    unfolding run split update_portfolio_effect(1,2) lim peak using snoc.IH by blast
qed

text \<open>
  Resuming re-anchors the high-water mark: with a limit that is not negative and a profit no
  smaller than the least double, the first observation after a resume does not trip the drawdown
  switch, and the mark becomes that observation.
\<close>

theorem resume_reanchors:
  assumes "0 \<le> max_drawdown_dollars (rm_limits rm)" and "double_lowest \<le> total_pnl_cents snap"
  shows "\<not> is_halted (resume rm) \<and> \<not> is_set (update_portfolio snap (resume rm)) kDrawdown
    \<and> peak_total_pnl_cents (update_portfolio snap (resume rm)) = total_pnl_cents snap"
  using assms
  by (simp add: halted_iff update_portfolio_effect) (simp add: resume_def max_def)

theorem resume_reanchors_witness:
  "\<not> is_set (update_portfolio (new_snapshot\<lparr>total_realized_cents := -70000\<rparr>)
       (resume (halt (new_risk_manager default_risk_limits)))) kDrawdown"
proof -
  have "(1::real) \<le> 2 ^ 1006" "(1::real) \<le> 2 - 1 / 2 ^ 52" by (rule one_le_power) simp_all
  then have "(1::real) * 1 \<le> (2 - 1 / 2 ^ 52) * 2 ^ 1006" by (intro mult_mono) auto
  then have "(1::real) * 2 ^ 17 \<le> (2 - 1 / 2 ^ 52) * 2 ^ 1006 * 2 ^ 17" by (intro mult_right_mono) auto
  also have "\<dots> = (2 - 1 / 2 ^ 52) * 2 ^ 1023" by (simp only: mult.assoc power_add [symmetric]) simp
  finally have "double_lowest \<le> - 70000" by (simp add: double_lowest_def)
  then show ?thesis
    using resume_reanchors [of "halt (new_risk_manager default_risk_limits)" "new_snapshot\<lparr>total_realized_cents := -70000\<rparr>"]
    by (simp add: halt_def new_risk_manager_def default_risk_limits_def total_pnl_cents_def new_snapshot_def)
qed

end
