(* ===== verification/Quoter.thy ===== *)
theory Quoter
  imports Pricing Flow_Imbalance Trade_Tape Orderbook Risk_Manager
begin

text \<open>
  The market-making strategy (\<open>source/strategy/quoter.cpp\<close>): one bid and one ask per market,
  priced from the visible book and moved under hysteresis. Clocks and the exchange are the fields
  of \<open>env\<close> over a type \<open>'w\<close> of states of the world, so that every read of a clock and every
  request may change it. The analytics tap only prints and is left out.
\<close>

section \<open>Environment and state\<close>

record 'w env =
  env_api :: "'w rest_api"
  steady_now :: "'w \<Rightarrow> time_ns \<times> 'w"
  system_now :: "'w \<Rightarrow> time_ns \<times> 'w"

record quoter_config =
  target_spread_cents :: int
  reprice_threshold_cents :: int
  quote_size :: int
  imbalance_spread_cents :: int
  min_spread_cents :: int
  min_rest_ms :: int
  theo_jump_cents :: int
  fade_rest_ms :: int
  longshot_price_threshold_cents :: int
  longshot_edge_cents :: int
  fv_ema_alpha :: real
  winddown_seconds :: int
  flow_lean_cents :: real
  use_clearing_pricing :: bool
  clearing_tape_weight :: real
  tape_half_life_seconds :: int
  inventory_cap_lots :: int
  unwind_edge_cents :: real
  use_view_based_pricing :: bool
  view_debias_beta :: real
  maker_fee_rate :: real

definition default_quoter_config :: quoter_config where
  "default_quoter_config = \<lparr>target_spread_cents = 4, reprice_threshold_cents = 1, quote_size = 10,
     imbalance_spread_cents = 2, min_spread_cents = 3, min_rest_ms = 3000, theo_jump_cents = 3,
     fade_rest_ms = 500, longshot_price_threshold_cents = 40, longshot_edge_cents = 1,
     fv_ema_alpha = 1 / 5, winddown_seconds = 45, flow_lean_cents = 1, use_clearing_pricing = False,
     clearing_tape_weight = 1 / 2, tape_half_life_seconds = 30, inventory_cap_lots = 2,
     unwind_edge_cents = 0, use_view_based_pricing = False, view_debias_beta = kDefaultBeta,
     maker_fee_rate = 0\<rparr>"

record own_quote =
  bid_order_id :: string
  ask_order_id :: string
  quoted_bid_cents :: int
  quoted_ask_cents :: int
  bid_placed_at :: time_ns
  ask_placed_at :: time_ns
  bid_fade_pending :: bool
  ask_fade_pending :: bool

definition new_own_quote :: own_quote where
  "new_own_quote = \<lparr>bid_order_id = [], ask_order_id = [], quoted_bid_cents = 0, quoted_ask_cents = 0,
     bid_placed_at = 0, ask_placed_at = 0, bid_fade_pending = False, ask_fade_pending = False\<rparr>"

record quoter =
  q_config :: quoter_config
  q_model :: pricing_fn
  inventory_b :: "real option"
  fv_ema :: "ticker \<rightharpoonup> real"
  reduce_only :: bool
  own_quotes :: "ticker \<rightharpoonup> own_quote"

definition kDefaultTimeToCloseHours :: real where "kDefaultTimeToCloseHours = 1000"
definition kBidMinCents :: int where "kBidMinCents = 1"
definition kBidMaxCents :: int where "kBidMaxCents = 98"
definition kAskMinCents :: int where "kAskMinCents = 2"
definition kAskMaxCents :: int where "kAskMaxCents = 99"
definition kHalfSpreadMin :: int where "kHalfSpreadMin = 1"
definition kMinBPerQuoteLot :: real where "kMinBPerQuoteLot = 25"

lemmas quote_limits = kBidMinCents_def kBidMaxCents_def kAskMinCents_def kAskMaxCents_def
  kHalfSpreadMin_def

section \<open>Inventory skew\<close>

text \<open>An infinite liquidity parameter is \<open>None\<close>.\<close>

definition lmsr_b_from_risk :: "int \<Rightarrow> int \<Rightarrow> real option" where
  "lmsr_b_from_risk max_position_contracts max_quote_price =
     (let upper = of_int max_quote_price in
      if max_position_contracts \<le> 0 \<or> upper \<le> kContractMaxCents_real / 2 \<or> upper \<ge> kContractMaxCents_real
      then None
      else Some (of_int max_position_contracts / ln (upper / (kContractMaxCents_real - upper))))"

text \<open>
  The skewed value, \<open>None\<close> when it is not finite. Division by zero follows the floating-point
  rules: a fair value of zero has infinite opposing odds, a zero \<open>b\<close> an infinite exponent.
\<close>

definition lmsr_skewed_fair_value :: "real \<Rightarrow> real \<Rightarrow> real option \<Rightarrow> real option" where
  "lmsr_skewed_fair_value fv_cents net_inv b_contracts =
     (case b_contracts of
        None \<Rightarrow> Some fv_cents
      | Some b \<Rightarrow>
          if net_inv = 0 then Some fv_cents
          else if b = 0 then
            (if net_inv > 0 then if fv_cents = kContractMaxCents_real then None else Some 0
             else if fv_cents = 0 then None else Some kContractMaxCents_real)
          else if fv_cents = 0 then Some 0
          else
            let opposing_odds = kContractMaxCents_real / fv_cents - 1;
                shifted_odds = opposing_odds * exp (net_inv / b)
            in if 1 + shifted_odds = 0 then None else Some (kContractMaxCents_real / (1 + shifted_odds)))"

definition max_b :: "real option \<Rightarrow> real \<Rightarrow> real option" where
  "max_b b floor_b = (case b of None \<Rightarrow> None | Some x \<Rightarrow> Some (max x floor_b))"

definition new_quoter :: "quoter_config \<Rightarrow> pricing_fn \<Rightarrow> risk_limits \<Rightarrow> quoter" where
  "new_quoter config model limits = \<lparr>q_config = config, q_model = model,
     inventory_b = max_b (lmsr_b_from_risk (max_position_per_market limits) (max_quote_price_cents limits))
       (kMinBPerQuoteLot * of_int (quote_size config)),
     fv_ema = Map.empty, reduce_only = False, own_quotes = Map.empty\<rparr>"

section \<open>Prices\<close>

definition compute_quotes :: "real \<Rightarrow> int \<Rightarrow> int \<times> int" where
  "compute_quotes fv_cents half_spread =
     (let bid_val = \<lfloor>fv_cents - of_int half_spread\<rfloor>; ask_val = \<lceil>fv_cents + of_int half_spread\<rceil>
      in (clamp bid_val kBidMinCents kBidMaxCents, clamp ask_val kAskMinCents kAskMaxCents))"

definition passive_bid :: "int \<Rightarrow> int \<Rightarrow> int option" where
  "passive_bid desired_bid market_ask_cents =
     (let max_passive = market_ask_cents - 1 in
      if max_passive < kBidMinCents then None else Some (min desired_bid max_passive))"

definition passive_ask :: "int \<Rightarrow> int \<Rightarrow> int option" where
  "passive_ask desired_ask market_bid_cents =
     (let min_passive = market_bid_cents + 1 in
      if min_passive > kAskMaxCents then None else Some (max desired_ask min_passive))"

text \<open>The half-spread: target, floor and imbalance premium, then the maker fee.\<close>

definition half_spread_cents :: "quoter_config \<Rightarrow> real \<Rightarrow> bool \<Rightarrow> int" where
  "half_spread_cents cfg fair_val imbalanced =
     (let target_spread = target_spread_cents cfg + (if imbalanced then imbalance_spread_cents cfg else 0);
          base_half_spread = max kHalfSpreadMin
            (max (target_spread sdiv 2) ((min_spread_cents cfg + 1) sdiv 2));
          fee_cents = (if maker_fee_rate cfg > 0 then
              let prob = fair_val / kContractMaxCents_real
              in c_round (maker_fee_rate cfg * prob * (1 - prob) * kContractMaxCents_real)
            else 0)
      in base_half_spread + fee_cents)"

definition leaned_value :: "quoter_config \<Rightarrow> real \<Rightarrow> side option \<Rightarrow> real" where
  "leaned_value cfg fair_val taker_side =
     (case taker_side of
        None \<Rightarrow> fair_val
      | Some sd \<Rightarrow> fair_val + (if sd = Yes then flow_lean_cents cfg else - flow_lean_cents cfg))"

text \<open>From the reservation price to the raw bid and ask: longshot edge, then unwind pricing.\<close>

definition raw_quotes :: "quoter_config \<Rightarrow> real \<Rightarrow> int \<Rightarrow> real \<Rightarrow> int \<times> int" where
  "raw_quotes cfg reservation_val half_spread inventory =
     (let (bid0, ask0) = compute_quotes reservation_val half_spread;
          bid1 = (if bid0 < longshot_price_threshold_cents cfg
                  then max kBidMinCents (bid0 - longshot_edge_cents cfg) else bid0);
          ask1 = (if complement_price ask0 < longshot_price_threshold_cents cfg
                  then min kAskMaxCents (ask0 + longshot_edge_cents cfg) else ask0)
      in if inventory > 0 then (bid1, max (bid1 + 1) \<lceil>reservation_val + unwind_edge_cents cfg\<rceil>)
         else if inventory < 0 then (min (ask1 - 1) \<lfloor>reservation_val - unwind_edge_cents cfg\<rfloor>, ask1)
         else (bid1, ask1))"

section \<open>Moving the quotes\<close>

definition resting_too_young :: "time_ns \<Rightarrow> time_ns \<Rightarrow> int \<Rightarrow> bool" where
  "resting_too_young placed_at now rest_ms = (now - placed_at < rest_ms * kNanosPerMilli)"

definition release_order :: "'w rest_api \<Rightarrow> string \<Rightarrow> order_manager \<Rightarrow> 'w
    \<Rightarrow> (exn + bool) \<times> order_manager \<times> 'w" where
  "release_order api order_id om w =
     (case cancel api order_id om w of
        (Inl e, om', w') \<Rightarrow> (Inl e, om', w')
      | (Inr True, om', w') \<Rightarrow> (Inr True, om', w')
      | (Inr False, om', w') \<Rightarrow> (Inr (map_of (open_orders om') order_id = None), om', w'))"

definition place_bid :: "'w rest_api \<Rightarrow> quoter_config \<Rightarrow> ticker \<Rightarrow> int \<Rightarrow> time_ns
    \<Rightarrow> own_quote \<Rightarrow> order_manager \<Rightarrow> 'w \<Rightarrow> (exn + unit) \<times> own_quote \<times> order_manager \<times> 'w" where
  "place_bid api cfg tk desired_bid now own om w =
     (case place api tk Yes desired_bid (quote_size cfg) om w of
        (Inl e, om', w') \<Rightarrow> (Inl e, own, om', w')
      | (Inr ord, om', w') \<Rightarrow>
          (Inr (), own\<lparr>bid_order_id := o_id ord, quoted_bid_cents := desired_bid, bid_placed_at := now\<rparr>, om', w'))"

definition reenter_bid :: "'w rest_api \<Rightarrow> quoter_config \<Rightarrow> risk_manager \<Rightarrow> ticker \<Rightarrow> bool \<Rightarrow> int \<Rightarrow> time_ns
    \<Rightarrow> own_quote \<Rightarrow> order_manager \<Rightarrow> 'w \<Rightarrow> (exn + unit) \<times> own_quote \<times> order_manager \<times> 'w" where
  "reenter_bid api cfg rm tk would_cross desired_bid now own om w =
     (case release_order api (bid_order_id own) om w of
        (Inl e, om', w') \<Rightarrow> (Inl e, own, om', w')
      | (Inr False, om', w') \<Rightarrow> (Inr (), own, om', w')
      | (Inr True, om', w') \<Rightarrow>
          (let own' = own\<lparr>bid_order_id := []\<rparr> in
           if would_cross then (Inr (), own', om', w')
           else if \<not> check_order rm tk Yes desired_bid (quote_size cfg) then (Inr (), own', om', w')
           else place_bid api cfg tk desired_bid now own' om' w'))"

definition refresh_bid :: "'w rest_api \<Rightarrow> quoter_config \<Rightarrow> risk_manager \<Rightarrow> ticker \<Rightarrow> int \<Rightarrow> time_ns
    \<Rightarrow> own_quote \<Rightarrow> order_manager \<Rightarrow> 'w \<Rightarrow> (exn + unit) \<times> own_quote \<times> order_manager \<times> 'w" where
  "refresh_bid api cfg rm tk desired_bid now own om w =
     (if bid_order_id own = [] then
        if ask_order_id own \<noteq> [] \<and> desired_bid \<ge> quoted_ask_cents own then (Inr (), own, om, w)
        else if \<not> check_order rm tk Yes desired_bid (quote_size cfg) then (Inr (), own, om, w)
        else place_bid api cfg tk desired_bid now own om w
      else if \<bar>quoted_bid_cents own - desired_bid\<bar> > reprice_threshold_cents cfg then
        let adverse_jump = (quoted_bid_cents own - desired_bid \<ge> theo_jump_cents cfg) in
        if adverse_jump \<and> \<not> bid_fade_pending own then (Inr (), own\<lparr>bid_fade_pending := True\<rparr>, om, w)
        else
          let own1 = (if \<not> adverse_jump then own\<lparr>bid_fade_pending := False\<rparr> else own);
              rest_ms = (if adverse_jump then fade_rest_ms cfg else min_rest_ms cfg)
          in if resting_too_young (bid_placed_at own1) now rest_ms then (Inr (), own1, om, w)
          else
            let own2 = (if adverse_jump then own1\<lparr>bid_fade_pending := False\<rparr> else own1);
                would_cross = (ask_order_id own2 \<noteq> [] \<and> desired_bid \<ge> quoted_ask_cents own2)
            in if \<not> would_cross \<and> check_order rm tk Yes desired_bid (quote_size cfg) then
                 (case amend api (bid_order_id own2) tk Yes desired_bid (from_contracts (quote_size cfg)) om w of
                    (Inl e, om', w') \<Rightarrow> (Inl e, own2, om', w')
                  | (Inr (Some amended_id), om', w') \<Rightarrow>
                      (Inr (), own2\<lparr>bid_order_id := amended_id, quoted_bid_cents := desired_bid,
                                    bid_placed_at := now\<rparr>, om', w')
                  | (Inr None, om', w') \<Rightarrow> reenter_bid api cfg rm tk would_cross desired_bid now own2 om' w')
               else reenter_bid api cfg rm tk would_cross desired_bid now own2 om w
      else (Inr (), own, om, w))"

definition place_ask :: "'w rest_api \<Rightarrow> quoter_config \<Rightarrow> ticker \<Rightarrow> int \<Rightarrow> time_ns
    \<Rightarrow> own_quote \<Rightarrow> order_manager \<Rightarrow> 'w \<Rightarrow> (exn + unit) \<times> own_quote \<times> order_manager \<times> 'w" where
  "place_ask api cfg tk desired_ask now own om w =
     (case place api tk No (complement_price desired_ask) (quote_size cfg) om w of
        (Inl e, om', w') \<Rightarrow> (Inl e, own, om', w')
      | (Inr ord, om', w') \<Rightarrow>
          (Inr (), own\<lparr>ask_order_id := o_id ord, quoted_ask_cents := desired_ask, ask_placed_at := now\<rparr>, om', w'))"

definition reenter_ask :: "'w rest_api \<Rightarrow> quoter_config \<Rightarrow> risk_manager \<Rightarrow> ticker \<Rightarrow> bool \<Rightarrow> int \<Rightarrow> time_ns
    \<Rightarrow> own_quote \<Rightarrow> order_manager \<Rightarrow> 'w \<Rightarrow> (exn + unit) \<times> own_quote \<times> order_manager \<times> 'w" where
  "reenter_ask api cfg rm tk would_cross desired_ask now own om w =
     (case release_order api (ask_order_id own) om w of
        (Inl e, om', w') \<Rightarrow> (Inl e, own, om', w')
      | (Inr False, om', w') \<Rightarrow> (Inr (), own, om', w')
      | (Inr True, om', w') \<Rightarrow>
          (let own' = own\<lparr>ask_order_id := []\<rparr> in
           if would_cross then (Inr (), own', om', w')
           else if \<not> check_order rm tk No (complement_price desired_ask) (quote_size cfg)
           then (Inr (), own', om', w')
           else place_ask api cfg tk desired_ask now own' om' w'))"

definition refresh_ask :: "'w rest_api \<Rightarrow> quoter_config \<Rightarrow> risk_manager \<Rightarrow> ticker \<Rightarrow> int \<Rightarrow> time_ns
    \<Rightarrow> own_quote \<Rightarrow> order_manager \<Rightarrow> 'w \<Rightarrow> (exn + unit) \<times> own_quote \<times> order_manager \<times> 'w" where
  "refresh_ask api cfg rm tk desired_ask now own om w =
     (let no_price = complement_price desired_ask in
      if ask_order_id own = [] then
        if bid_order_id own \<noteq> [] \<and> desired_ask \<le> quoted_bid_cents own then (Inr (), own, om, w)
        else if \<not> check_order rm tk No no_price (quote_size cfg) then (Inr (), own, om, w)
        else place_ask api cfg tk desired_ask now own om w
      else if \<bar>quoted_ask_cents own - desired_ask\<bar> > reprice_threshold_cents cfg then
        let adverse_jump = (desired_ask - quoted_ask_cents own \<ge> theo_jump_cents cfg) in
        if adverse_jump \<and> \<not> ask_fade_pending own then (Inr (), own\<lparr>ask_fade_pending := True\<rparr>, om, w)
        else
          let own1 = (if \<not> adverse_jump then own\<lparr>ask_fade_pending := False\<rparr> else own);
              rest_ms = (if adverse_jump then fade_rest_ms cfg else min_rest_ms cfg)
          in if resting_too_young (ask_placed_at own1) now rest_ms then (Inr (), own1, om, w)
          else
            let own2 = (if adverse_jump then own1\<lparr>ask_fade_pending := False\<rparr> else own1);
                would_cross = (bid_order_id own2 \<noteq> [] \<and> desired_ask \<le> quoted_bid_cents own2)
            in if \<not> would_cross \<and> check_order rm tk No no_price (quote_size cfg) then
                 (case amend api (ask_order_id own2) tk No no_price (from_contracts (quote_size cfg)) om w of
                    (Inl e, om', w') \<Rightarrow> (Inl e, own2, om', w')
                  | (Inr (Some amended_id), om', w') \<Rightarrow>
                      (Inr (), own2\<lparr>ask_order_id := amended_id, quoted_ask_cents := desired_ask,
                                    ask_placed_at := now\<rparr>, om', w')
                  | (Inr None, om', w') \<Rightarrow> reenter_ask api cfg rm tk would_cross desired_ask now own2 om' w')
               else reenter_ask api cfg rm tk would_cross desired_ask now own2 om w
      else (Inr (), own, om, w))"

section \<open>One update\<close>

definition book_without_own_quotes :: "own_quote \<Rightarrow> order_manager \<Rightarrow> orderbook \<Rightarrow> orderbook" where
  "book_without_own_quotes own om book =
     (if bid_order_id own = [] \<and> ask_order_id own = [] then book
      else
        let scratch = (if bid_order_id own \<noteq> [] then
              (case map_of (open_orders om) (bid_order_id own) of
                 None \<Rightarrow> book
               | Some ord \<Rightarrow> apply_delta book Yes (quoted_bid_cents own) (- remaining_quantity ord))
              else book)
        in if ask_order_id own \<noteq> [] then
             (case map_of (open_orders om) (ask_order_id own) of
                None \<Rightarrow> scratch
              | Some ord \<Rightarrow> apply_delta scratch No (complement_price (quoted_ask_cents own))
                              (- remaining_quantity ord))
           else scratch)"

definition release_bid_if :: "'w rest_api \<Rightarrow> bool \<Rightarrow> own_quote \<times> order_manager \<times> 'w
    \<Rightarrow> (exn + unit) \<times> own_quote \<times> order_manager \<times> 'w" where
  "release_bid_if api suppress s = (case s of (own, om, w) \<Rightarrow>
     if suppress \<and> bid_order_id own \<noteq> [] then
       (case release_order api (bid_order_id own) om w of
          (Inl e, om', w') \<Rightarrow> (Inl e, own, om', w')
        | (Inr released, om', w') \<Rightarrow>
            (Inr (), if released then own\<lparr>bid_order_id := []\<rparr> else own, om', w'))
     else (Inr (), own, om, w))"

definition release_ask_if :: "'w rest_api \<Rightarrow> bool \<Rightarrow> own_quote \<times> order_manager \<times> 'w
    \<Rightarrow> (exn + unit) \<times> own_quote \<times> order_manager \<times> 'w" where
  "release_ask_if api suppress s = (case s of (own, om, w) \<Rightarrow>
     if suppress \<and> ask_order_id own \<noteq> [] then
       (case release_order api (ask_order_id own) om w of
          (Inl e, om', w') \<Rightarrow> (Inl e, own, om', w')
        | (Inr released, om', w') \<Rightarrow>
            (Inr (), if released then own\<lparr>ask_order_id := []\<rparr> else own, om', w'))
     else (Inr (), own, om, w))"

definition suppress_side :: "quoter \<Rightarrow> order_manager \<Rightarrow> ticker \<Rightarrow> side \<Rightarrow> bool" where
  "suppress_side q om tk sd =
     (let inventory = contracts (net_position om tk);
          inventory_cap = of_int (inventory_cap_lots (q_config q)) * of_int (quote_size (q_config q))
      in case sd of
           Yes \<Rightarrow> (reduce_only q \<and> inventory \<ge> 0) \<or> inventory \<ge> inventory_cap
         | No \<Rightarrow> (reduce_only q \<and> inventory \<le> 0) \<or> inventory \<le> - inventory_cap)"

text \<open>The tail of \<open>update\<close>: drop the suppressed sides, then refresh the others.\<close>

definition requote :: "'w rest_api \<Rightarrow> quoter_config \<Rightarrow> risk_manager \<Rightarrow> ticker \<Rightarrow> bool \<Rightarrow> bool
    \<Rightarrow> int option \<Rightarrow> int option \<Rightarrow> time_ns \<Rightarrow> own_quote \<times> order_manager \<times> 'w
    \<Rightarrow> (exn + unit) \<times> own_quote \<times> order_manager \<times> 'w" where
  "requote api cfg rm tk suppress_bid suppress_ask desired_bid desired_ask now s =
     and_then (release_bid_if api suppress_bid s) (\<lambda>s.
     and_then (release_ask_if api suppress_ask s) (\<lambda>s.
     and_then (case desired_bid of
         Some d \<Rightarrow> if suppress_bid then (Inr (), s)
                   else (case s of (own, om, w) \<Rightarrow> refresh_bid api cfg rm tk d now own om w)
       | None \<Rightarrow> (Inr (), s)) (\<lambda>s.
       case desired_ask of
         Some d \<Rightarrow> if suppress_ask then (Inr (), s)
                   else (case s of (own, om, w) \<Rightarrow> refresh_ask api cfg rm tk d now own om w)
       | None \<Rightarrow> (Inr (), s))))"

definition read_tape :: "'w env \<Rightarrow> quoter_config \<Rightarrow> trade_tape option \<Rightarrow> ticker \<Rightarrow> 'w \<Rightarrow> real option \<times> 'w" where
  "read_tape env cfg tape tk w =
     (case tape of
        None \<Rightarrow> (None, w)
      | Some tp \<Rightarrow> (let (t, w') = system_now env w in (vwap_cents tp tk (tape_half_life_seconds cfg) t, w')))"

text \<open>Whether flow is imbalanced; if so the ratio is read once more, for the log.\<close>

definition read_flow :: "'w env \<Rightarrow> flow_guard option \<Rightarrow> ticker \<Rightarrow> 'w \<Rightarrow> bool \<times> 'w" where
  "read_flow env flow tk w =
     (case flow of
        None \<Rightarrow> (False, w)
      | Some g \<Rightarrow>
          (let (t, w1) = system_now env w; imbalanced = is_imbalanced g tk t
           in (imbalanced, if imbalanced then snd (system_now env w1) else w1)))"

definition read_taker_side :: "'w env \<Rightarrow> flow_guard option \<Rightarrow> bool \<Rightarrow> ticker \<Rightarrow> 'w \<Rightarrow> side option \<times> 'w" where
  "read_taker_side env flow imbalanced tk w =
     (case flow of
        Some g \<Rightarrow> if imbalanced then (let (t, w') = system_now env w in (dominant_taker_side g tk t, w'))
                  else (None, w)
      | None \<Rightarrow> (None, w))"

definition smooth_micro :: "quoter \<Rightarrow> ticker \<Rightarrow> real \<Rightarrow> real" where
  "smooth_micro q tk micro =
     (case fv_ema q tk of
        None \<Rightarrow> micro
      | Some prev \<Rightarrow> fv_ema_alpha (q_config q) * micro + (1 - fv_ema_alpha (q_config q)) * prev)"

text \<open>
  The whole handler. A reservation price that is not finite has no conversion to a whole number
  of cents; the model stops there.
\<close>

definition quoter_update :: "'w env \<Rightarrow> risk_manager \<Rightarrow> flow_guard option \<Rightarrow> trade_tape option \<Rightarrow> ticker
    \<Rightarrow> orderbook \<Rightarrow> quoter \<Rightarrow> order_manager \<Rightarrow> 'w \<Rightarrow> (exn + unit) \<times> quoter \<times> order_manager \<times> 'w" where
  "quoter_update env rm flow tape tk book q om w =
     (let own = lookup_or new_own_quote (own_quotes q) tk;
          q0 = q\<lparr>own_quotes := (own_quotes q)(tk \<mapsto> own)\<rparr>;
          visible = book_without_own_quotes own om book
      in case (best_bid visible, best_ask visible) of
        (Some bid, Some ask) \<Rightarrow>
          if lv_price_cents bid \<ge> lv_price_cents ask then (Inr (), q0, om, w)
          else
            let cfg = q_config q;
                smoothed_micro = smooth_micro q tk (micro_price_cents visible);
                q1 = q0\<lparr>fv_ema := (fv_ema q0)(tk \<mapsto> smoothed_micro)\<rparr>;
                (tape_vwap, w1) = read_tape env cfg tape tk w;
                fair_val = fair_value_estimate (q_model q)
                  \<lparr>fv_mid_cents = smoothed_micro, fv_time_to_close_hours = kDefaultTimeToCloseHours,
                   fv_net_position = 0, fv_external_prob = None, fv_tape_vwap_cents = tape_vwap\<rparr>;
                (imbalanced, w2) = read_flow env flow tk w1;
                half_spread = half_spread_cents cfg fair_val imbalanced;
                inventory = contracts (net_position om tk);
                (taker_side, w3) = read_taker_side env flow imbalanced tk w2
            in (case lmsr_skewed_fair_value (leaned_value cfg fair_val taker_side) inventory (inventory_b q) of
                  None \<Rightarrow> (Inl (Abort ''reservation price is not finite''), q1, om, w3)
                | Some reservation_val \<Rightarrow>
                    (let (raw_bid, raw_ask) = raw_quotes cfg reservation_val half_spread inventory;
                         desired_bid = passive_bid raw_bid (lv_price_cents ask);
                         desired_ask = passive_ask raw_ask (lv_price_cents bid);
                         (now, w4) = steady_now env w3;
                         (res, own', om', w') = requote (env_api env) cfg rm tk
                           (suppress_side q om tk Yes) (suppress_side q om tk No)
                           desired_bid desired_ask now (own, om, w4)
                     in (res, q1\<lparr>own_quotes := (own_quotes q1)(tk \<mapsto> own')\<rparr>, om', w')))
      | _ \<Rightarrow> (Inr (), q0, om, w))"

section \<open>Lifecycle notifications\<close>

definition set_reduce_only :: "bool \<Rightarrow> quoter \<Rightarrow> quoter" where
  "set_reduce_only b q = q\<lparr>reduce_only := b\<rparr>"

definition reset_quotes :: "quoter \<Rightarrow> quoter" where
  "reset_quotes q = q\<lparr>own_quotes := Map.empty, fv_ema := Map.empty\<rparr>"

definition forget_ticker :: "ticker \<Rightarrow> quoter \<Rightarrow> quoter" where
  "forget_ticker tk q = q\<lparr>own_quotes := (own_quotes q)(tk := None)\<rparr>"

definition forget_order :: "ticker \<Rightarrow> string \<Rightarrow> quoter \<Rightarrow> quoter" where
  "forget_order tk order_id q =
     (case own_quotes q tk of
        None \<Rightarrow> q
      | Some own \<Rightarrow>
          (let own1 = (if bid_order_id own = order_id then own\<lparr>bid_order_id := []\<rparr> else own);
               own2 = (if ask_order_id own1 = order_id then own1\<lparr>ask_order_id := []\<rparr> else own1)
           in q\<lparr>own_quotes := (own_quotes q)(tk \<mapsto> own2)\<rparr>))"

end
