(* ===== verification/Quoter_Correct.thy ===== *)
theory Quoter_Correct
  imports Quoter
begin

text \<open>
  What the quoter promises: its prices are passive and uncrossed, its own bid and ask never cross
  each other, it asks the exchange only for orders the risk manager approves and only on sides
  that are not suppressed, it never trips an invariant check, and it reads the book without the
  echo of its own orders.
\<close>

section \<open>Prices\<close>

lemma compute_quotes_range:
  assumes "compute_quotes r h = (b, a)" and "1 \<le> h"
  shows "1 \<le> b" "b \<le> 98" "2 \<le> a" "a \<le> 99" "b < a"
proof -
  have "\<lfloor>r - of_int h\<rfloor> < \<lceil>r + of_int h\<rceil>" using assms(2) by linarith
  then show "1 \<le> b" "b \<le> 98" "2 \<le> a" "a \<le> 99" "b < a"
    using assms(1) by (auto simp: compute_quotes_def clamp_def quote_limits Let_def split: if_splits)
qed

lemma half_spread_ge_1:
  assumes "0 \<le> fair_val" and "fair_val \<le> 100"
  shows "1 \<le> half_spread_cents cfg fair_val imbalanced"
proof -
  have "0 \<le> maker_fee_rate cfg * (fair_val / 100) * (1 - fair_val / 100) * 100" if "0 < maker_fee_rate cfg"
    using that assms by (intro mult_nonneg_nonneg) auto
  then have "0 < maker_fee_rate cfg \<Longrightarrow>
      0 \<le> c_round (maker_fee_rate cfg * (fair_val / 100) * (1 - fair_val / 100) * 100)"
    by (intro c_round_ge) simp
  then show ?thesis
    by (auto simp: half_spread_cents_def Let_def kHalfSpreadMin_def kContractMaxCents_real_def)
qed

lemma raw_quotes_uncrossed:
  assumes "raw_quotes cfg r h held = (b, a)" and "1 \<le> h" and "0 \<le> longshot_edge_cents cfg"
  shows "b < a"
proof -
  obtain b0 a0 where c: "compute_quotes r h = (b0, a0)" by force
  note range = compute_quotes_range [OF c assms(2)]
  show ?thesis
    using assms(1,3) range by (auto simp: raw_quotes_def c quote_limits Let_def split: if_splits)
qed

text \<open>
  C28. Quotes are passive and uncrossed: with a fair value between 0 and 100 and a longshot edge
  that is not negative, whatever the spreads, fees, inventory and reservation price, the bid the
  quoter wants is below the market's ask, the ask it wants is above the market's bid, and the bid
  is below the ask.
\<close>

theorem quotes_passive_uncrossed:
  assumes "0 \<le> fair_val" and "fair_val \<le> 100" and "0 \<le> longshot_edge_cents cfg"
    and "raw_quotes cfg reservation_val (half_spread_cents cfg fair_val imbalanced) held = (raw_bid, raw_ask)"
    and "passive_bid raw_bid market_ask = Some bid" and "passive_ask raw_ask market_bid = Some ask"
  shows "bid < market_ask \<and> market_bid < ask \<and> bid < ask"
  using raw_quotes_uncrossed [OF assms(4) half_spread_ge_1 [OF assms(1,2)] assms(3)] assms(5,6)
  by (auto simp: passive_bid_def passive_ask_def Let_def split: if_splits)

theorem quotes_passive_uncrossed_witness:
  "raw_quotes default_quoter_config 50 (half_spread_cents default_quoter_config 50 False) 0 = (48, 52)
   \<and> passive_bid 48 48 = Some 47 \<and> passive_ask 52 46 = Some 52 \<and> (47::int) < 48 \<and> (46::int) < 52"
proof -
  have r: "raw_quotes default_quoter_config 50 (half_spread_cents default_quoter_config 50 False) 0 = (48, 52)"
    by (simp add: raw_quotes_def half_spread_cents_def default_quoter_config_def compute_quotes_def clamp_def
      quote_limits price_defs Let_def signed_divide_int_def)
  have p: "passive_bid 48 48 = Some 47" "passive_ask 52 46 = Some 52"
    by (simp_all add: passive_bid_def passive_ask_def quote_limits)
  show ?thesis
    using quotes_passive_uncrossed [OF _ _ _ r p] r p by (simp add: default_quoter_config_def)
qed

section \<open>The inventory skew\<close>

lemma lmsr_value:
  assumes "0 < b" and "0 < fv"
  shows "lmsr_skewed_fair_value fv held (Some b) = Some (100 / (1 + (100 / fv - 1) * exp (held / b)))
    \<or> fv > 100"
proof (cases "fv > 100")
  case False
  then have "0 \<le> (100 / fv - 1) * exp (held / b)" using assms by (simp add: le_divide_eq)
  then have "1 + (100 / fv - 1) * exp (held / b) \<noteq> 0" by linarith
  then show ?thesis
    using assms by (auto simp: lmsr_skewed_fair_value_def kContractMaxCents_real_def Let_def)
qed simp

text \<open>
  The inventory skew stays in range, leans against the inventory and is calibrated: for a fair
  value strictly between 0 and 100 the reservation price is too, it falls as inventory grows and
  equals the fair value when flat; and holding the maximal position moves a fair value of 50
  exactly to the edge of the quote band.
\<close>

theorem lmsr_skew_correct:
  assumes "0 < b" and "0 < fv" and "fv < 100" and "held < held'"
    and "0 < max_pos" and "50 < edge" and "edge < 100"
  shows "(\<exists>r r'. lmsr_skewed_fair_value fv held (Some b) = Some r \<and> lmsr_skewed_fair_value fv held' (Some b) = Some r'
      \<and> 0 < r' \<and> r' < r \<and> r < 100)
    \<and> lmsr_skewed_fair_value fv 0 (Some b) = Some fv
    \<and> lmsr_skewed_fair_value 50 (of_int max_pos) (lmsr_b_from_risk max_pos edge) = Some (of_int (100 - edge))"
proof -
  let ?o = "100 / fv - 1"
  let ?r = "\<lambda>i. 100 / (1 + ?o * exp (i / b))"
  have o: "0 < ?o" using assms by (simp add: less_divide_eq)
  have val: "lmsr_skewed_fair_value fv i (Some b) = Some (?r i)" for i
    using lmsr_value [OF assms(1,2), of i] assms(3) by simp
  have pos: "0 < ?o * exp (i / b)" for i using o by simp
  have "?o * exp (held / b) < ?o * exp (held' / b)"
    using o assms(1,4) by (intro mult_strict_left_mono) (auto simp: divide_strict_right_mono)
  then have "?r held' < ?r held" using pos [of held] pos [of held']
    by (intro divide_strict_left_mono mult_pos_pos add_strict_left_mono) linarith+
  moreover have "0 < ?r held'" using pos [of held'] by (intro divide_pos_pos) auto
  moreover have "?r held < 100" using pos [of held] by (simp add: divide_less_eq)
  moreover have "?r 0 = fv" using assms by simp
  moreover have "lmsr_skewed_fair_value 50 (of_int max_pos) (lmsr_b_from_risk max_pos edge)
      = Some (of_int (100 - edge))"
  proof -
    have e: "50 < real_of_int edge" "real_of_int edge < 100" using assms(6,7) by simp_all
    let ?q = "real_of_int edge / (100 - of_int edge)"
    have q: "1 < ?q" using e by (simp add: less_divide_eq)
    have b: "lmsr_b_from_risk max_pos edge = Some (of_int max_pos / ln ?q)"
      using assms(5) e by (simp add: lmsr_b_from_risk_def kContractMaxCents_real_def Let_def)
    have bpos: "0 < of_int max_pos / ln ?q" using assms(5) q by simp
    have "exp (of_int max_pos / (of_int max_pos / ln ?q)) = ?q" using assms(5) q by simp
    then have "lmsr_skewed_fair_value 50 (of_int max_pos) (Some (of_int max_pos / ln ?q)) = Some (100 / (1 + ?q))"
      using lmsr_value [OF bpos, of 50 "of_int max_pos"] by simp
    moreover have "100 / (1 + ?q) = of_int (100 - edge)" using e by (simp add: field_simps)
    ultimately show ?thesis by (simp add: b)
  qed
  ultimately show ?thesis using val by (metis)
qed

theorem lmsr_skew_correct_witness:
  "lmsr_skewed_fair_value 50 100 (lmsr_b_from_risk 100 90) = Some 10"
  using lmsr_skew_correct [of 1 50 0 1 100 90] by simp

section \<open>The own quotes never cross\<close>

definition own_uncrossed :: "own_quote \<Rightarrow> bool" where
  "own_uncrossed own \<longleftrightarrow>
     (bid_order_id own \<noteq> [] \<and> ask_order_id own \<noteq> [] \<longrightarrow> quoted_bid_cents own < quoted_ask_cents own)"

definition quotes_uncrossed :: "quoter \<Rightarrow> bool" where
  "quotes_uncrossed q \<longleftrightarrow> (\<forall>tk own. own_quotes q tk = Some own \<longrightarrow> own_uncrossed own)"

lemma own_uncrossed_simps [simp]:
  "own_uncrossed new_own_quote"
  "own_uncrossed own \<Longrightarrow> own_uncrossed (own\<lparr>bid_order_id := []\<rparr>)"
  "own_uncrossed own \<Longrightarrow> own_uncrossed (own\<lparr>ask_order_id := []\<rparr>)"
  "own_uncrossed (own\<lparr>bid_fade_pending := b\<rparr>) = own_uncrossed own"
  "own_uncrossed (own\<lparr>ask_fade_pending := b\<rparr>) = own_uncrossed own"
  by (auto simp: own_uncrossed_def new_own_quote_def)

lemma quotes_uncrossed_simps [simp]:
  "quotes_uncrossed (q\<lparr>fv_ema := m\<rparr>) = quotes_uncrossed q"
  "quotes_uncrossed (q\<lparr>reduce_only := b\<rparr>) = quotes_uncrossed q"
  by (simp_all add: quotes_uncrossed_def)

lemma place_bid_uncrossed:
  assumes "own_uncrossed own" and "\<not> (ask_order_id own \<noteq> [] \<and> d \<ge> quoted_ask_cents own)"
  shows "own_uncrossed (fst (snd (place_bid api cfg tk d now own om w)))"
  using assms by (auto simp: place_bid_def own_uncrossed_def split: prod.splits sum.splits)

lemma reenter_bid_uncrossed:
  assumes "own_uncrossed own" and "\<not> x \<Longrightarrow> \<not> (ask_order_id own \<noteq> [] \<and> d \<ge> quoted_ask_cents own)"
  shows "own_uncrossed (fst (snd (reenter_bid api cfg rm tk x d now own om w)))"
proof -
  have "own_uncrossed (fst (snd (place_bid api cfg tk d now (own\<lparr>bid_order_id := []\<rparr>) om' w')))"
    if "\<not> x" for om' w'
    using assms that by (intro place_bid_uncrossed) auto
  then show ?thesis
    using assms(1) by (auto simp: reenter_bid_def Let_def split: prod.splits sum.splits bool.splits)
qed

lemma refresh_bid_uncrossed:
  assumes "own_uncrossed own"
  shows "own_uncrossed (fst (snd (refresh_bid api cfg rm tk d now own om w)))"
proof -
  let ?f = "\<lambda>b. own\<lparr>bid_fade_pending := b\<rparr>"
  have "own_uncrossed (fst (snd (place_bid api cfg tk d now own om w)))"
    if "\<not> (ask_order_id own \<noteq> [] \<and> d \<ge> quoted_ask_cents own)" for om w
    using assms that by (rule place_bid_uncrossed)
  moreover have "own_uncrossed (fst (snd (reenter_bid api cfg rm tk
      (ask_order_id own \<noteq> [] \<and> d \<ge> quoted_ask_cents own) d now (?f b) om w)))" for b om w
    using assms by (intro reenter_bid_uncrossed) auto
  ultimately show ?thesis
    using assms
    by (auto simp: refresh_bid_def Let_def own_uncrossed_def split: prod.splits sum.splits option.splits)
qed

lemma place_ask_uncrossed:
  assumes "own_uncrossed own" and "\<not> (bid_order_id own \<noteq> [] \<and> d \<le> quoted_bid_cents own)"
  shows "own_uncrossed (fst (snd (place_ask api cfg tk d now own om w)))"
  using assms by (auto simp: place_ask_def own_uncrossed_def split: prod.splits sum.splits)

lemma reenter_ask_uncrossed:
  assumes "own_uncrossed own" and "\<not> x \<Longrightarrow> \<not> (bid_order_id own \<noteq> [] \<and> d \<le> quoted_bid_cents own)"
  shows "own_uncrossed (fst (snd (reenter_ask api cfg rm tk x d now own om w)))"
proof -
  have "own_uncrossed (fst (snd (place_ask api cfg tk d now (own\<lparr>ask_order_id := []\<rparr>) om' w')))"
    if "\<not> x" for om' w'
    using assms that by (intro place_ask_uncrossed) auto
  then show ?thesis
    using assms(1) by (auto simp: reenter_ask_def Let_def split: prod.splits sum.splits bool.splits)
qed

lemma refresh_ask_uncrossed:
  assumes "own_uncrossed own"
  shows "own_uncrossed (fst (snd (refresh_ask api cfg rm tk d now own om w)))"
proof -
  let ?f = "\<lambda>b. own\<lparr>ask_fade_pending := b\<rparr>"
  have "own_uncrossed (fst (snd (place_ask api cfg tk d now own om w)))"
    if "\<not> (bid_order_id own \<noteq> [] \<and> d \<le> quoted_bid_cents own)" for om w
    using assms that by (rule place_ask_uncrossed)
  moreover have "own_uncrossed (fst (snd (reenter_ask api cfg rm tk
      (bid_order_id own \<noteq> [] \<and> d \<le> quoted_bid_cents own) d now (?f b) om w)))" for b om w
    using assms by (intro reenter_ask_uncrossed) auto
  ultimately show ?thesis
    using assms
    by (auto simp: refresh_ask_def Let_def own_uncrossed_def split: prod.splits sum.splits option.splits)
qed

lemma release_if_uncrossed:
  "own_uncrossed (fst s) \<Longrightarrow> own_uncrossed (fst (snd (release_bid_if api b s)))"
  "own_uncrossed (fst s) \<Longrightarrow> own_uncrossed (fst (snd (release_ask_if api b s)))"
  by (auto simp: release_bid_if_def release_ask_if_def split: prod.splits sum.splits)

lemma requote_uncrossed:
  assumes "own_uncrossed (fst s)"
  shows "own_uncrossed (fst (snd (requote api cfg rm tk sb sa db da now s)))"
  unfolding requote_def
  by (intro and_then_invar [where P = "\<lambda>s. own_uncrossed (fst s)"])
    (auto intro!: release_if_uncrossed assms simp: refresh_bid_uncrossed refresh_ask_uncrossed
      split: option.splits prod.splits)

lemma quoter_update_uncrossed:
  assumes "quotes_uncrossed q"
  shows "quotes_uncrossed (fst (snd (quoter_update env rm flow tape tk book q om w)))"
proof -
  have own: "own_uncrossed (lookup_or new_own_quote (own_quotes q) tk)"
    using assms by (auto simp: quotes_uncrossed_def lookup_or_def split: option.splits)
  have upd: "quotes_uncrossed (q'\<lparr>own_quotes := (own_quotes q)(tk \<mapsto> own')\<rparr>)" if "own_uncrossed own'" for q' own'
    using assms that by (auto simp: quotes_uncrossed_def)
  have re: "quotes_uncrossed (q'\<lparr>own_quotes := (own_quotes q)(tk \<mapsto>
      fst (snd (requote api cfg rm tk sb sa db da now (lookup_or new_own_quote (own_quotes q) tk, om, w'))))\<rparr>)"
    for q' api cfg sb sa db da now w'
    by (rule upd, rule requote_uncrossed) (simp add: own)
  show ?thesis
    using upd [OF own] re
    by (auto simp: quoter_update_def Let_def case_prod_beta split: option.splits)
qed

text \<open>
  Everything that can happen to the quoter: a book update under any state of the risk manager and
  the flow and tape it reads, the notifications, and the order manager's own events in between.
\<close>

datatype quoter_event =
    UpdateEv risk_manager "flow_guard option" "trade_tape option" ticker orderbook
  | ForgetOrderEv ticker string
  | ForgetTickerEv ticker
  | ResetQuotesEv
  | ReduceOnlyEv bool
  | OrderEv om_event

fun quoter_step :: "'w env \<Rightarrow> quoter_event \<Rightarrow> quoter \<times> order_manager \<times> 'w \<Rightarrow> quoter \<times> order_manager \<times> 'w" where
  "quoter_step env (UpdateEv rm flow tape tk book) (q, om, w) = snd (quoter_update env rm flow tape tk book q om w)"
| "quoter_step env (ForgetOrderEv tk oid) (q, om, w) = (forget_order tk oid q, om, w)"
| "quoter_step env (ForgetTickerEv tk) (q, om, w) = (forget_ticker tk q, om, w)"
| "quoter_step env ResetQuotesEv (q, om, w) = (reset_quotes q, om, w)"
| "quoter_step env (ReduceOnlyEv b) (q, om, w) = (set_reduce_only b q, om, w)"
| "quoter_step env (OrderEv ev) (q, om, w) = (q, om_event_step (env_api env) ev (om, w))"

lemma quoter_step_uncrossed:
  assumes "quotes_uncrossed (fst s)"
  shows "quotes_uncrossed (fst (quoter_step env ev s))"
proof -
  obtain q om w where s: "s = (q, om, w)" by (cases s)
  have q: "quotes_uncrossed q" using assms s by simp
  have "own_uncrossed own" if "own_quotes q tk = Some own" for tk own
    using q that by (simp add: quotes_uncrossed_def)
  then have f: "quotes_uncrossed (forget_order tk oid q)" for tk oid
    using q by (auto simp: forget_order_def Let_def quotes_uncrossed_def split: option.splits)
  show ?thesis
  proof (cases ev)
    case (UpdateEv rm flow tape tk book)
    then show ?thesis using quoter_update_uncrossed [OF q] s by simp
  qed (use q f s in \<open>auto simp: quotes_uncrossed_def forget_ticker_def reset_quotes_def
      set_reduce_only_def split: if_splits\<close>)
qed

text \<open>A worked update: an empty quoter on a book with a bid of 45 and an ask of 50 quotes 44 and 49.\<close>

definition ticking_env :: "nat env" where
  "ticking_env = \<lparr>env_api = accepting_api, steady_now = (\<lambda>n. (int n, n)), system_now = (\<lambda>n. (int n, n))\<rparr>"

definition first_update :: "quoter \<times> order_manager \<times> nat" where
  "first_update = fold (quoter_step ticking_env)
     [UpdateEv (new_risk_manager default_risk_limits) None None ''M'' small_book]
     (new_quoter default_quoter_config (clearing_price_estimate 0) default_risk_limits, new_order_manager, 1)"

definition own_after_first :: own_quote where
  "own_after_first = new_own_quote\<lparr>bid_order_id := ''o'', quoted_bid_cents := 44, bid_placed_at := 1,
     ask_order_id := ''oo'', quoted_ask_cents := 49, ask_placed_at := 1\<rparr>"

lemma small_book_prices:
  "best_bid small_book = Some \<lparr>lv_price_cents = 45, lv_quantity = from_centi 1000\<rparr>"
  "best_ask small_book = Some \<lparr>lv_price_cents = 50, lv_quantity = from_centi 3000\<rparr>"
  "micro_price_cents small_book = 185 / 4"
  by (simp_all add: small_book_def price_defs micro_price_cents_def Let_def contracts_def kCentiPerContract_def)

lemma default_quotes:
  "raw_quotes default_quoter_config (185/4) 2 0 = (44, 49)"
  "half_spread_cents default_quoter_config x False = 2"
  "quote_size default_quoter_config = 10" "inventory_cap_lots default_quoter_config = 2"
  by (simp_all add: raw_quotes_def half_spread_cents_def default_quoter_config_def compute_quotes_def clamp_def
      quote_limits price_defs Let_def signed_divide_int_def)

lemma fresh_risk_approves:
  "check_order (new_risk_manager default_risk_limits) ''M'' Yes 44 10"
  "check_order (new_risk_manager default_risk_limits) ''M'' No 51 10"
  by (simp_all add: check_order_def new_risk_manager_def default_risk_limits_def Let_def abs_quantity_def
    from_contracts_def kCentiPerContract_def)

lemma lmsr_flat [simp]: "lmsr_skewed_fair_value fv 0 b = Some fv"
  by (simp add: lmsr_skewed_fair_value_def split: option.split)

lemmas first_update_eval = first_update_def quoter_update_def new_quoter_def book_without_own_quotes_def
   new_own_quote_def Let_def smooth_micro_def read_tape_def read_flow_def read_taker_side_def
   fair_value_estimate_def clearing_price_estimate_def kMinValidCents_def kMaxValidCents_def
   leaned_value_def net_position_def new_order_manager_def small_book_prices default_quotes
   passive_bid_def passive_ask_def quote_limits ticking_env_def
   requote_def suppress_side_def release_bid_if_def release_ask_if_def refresh_bid_def refresh_ask_def
   place_bid_def place_ask_def place_def accepting_api_def price_defs own_after_first_def
   fresh_risk_approves numeral_2_eq_2

lemma first_update_own: "own_quotes (fst first_update) ''M'' = Some own_after_first"
  by (simp add: first_update_eval)

lemma first_update_orders:
  "map_option remaining_quantity (map_of (open_orders (fst (snd first_update))) ''o'') = Some (from_centi 1000)"
  "map_option remaining_quantity (map_of (open_orders (fst (snd first_update))) ''oo'') = Some (from_centi 1000)"
  by (simp_all add: first_update_eval remaining_quantity_def from_contracts_def kCentiPerContract_def)

text \<open>
  C9. The bot never trades with itself: whatever book updates, risk states, fills, cancels,
  exchange answers (failures included) and notifications occur, in any order, whenever the quoter
  tracks both a bid and an ask on a market, the quoted bid is below the quoted ask.
\<close>

theorem own_quotes_never_cross:
  assumes "own_quotes (fst (fold (quoter_step env) evs (new_quoter cfg model limits, om, w))) tk = Some own"
    and "bid_order_id own \<noteq> []" and "ask_order_id own \<noteq> []"
  shows "quoted_bid_cents own < quoted_ask_cents own"
proof -
  have "quotes_uncrossed (fst s) \<Longrightarrow> quotes_uncrossed (fst (fold (quoter_step env) evs s))" for s
    by (induction evs arbitrary: s) (auto simp: quoter_step_uncrossed)
  moreover have "quotes_uncrossed (new_quoter cfg model limits)"
    by (simp add: quotes_uncrossed_def new_quoter_def)
  ultimately show ?thesis using assms by (auto simp: quotes_uncrossed_def own_uncrossed_def)
qed

theorem own_quotes_never_cross_witness:
  "own_quotes (fst first_update) ''M'' = Some own_after_first
   \<and> quoted_bid_cents own_after_first < quoted_ask_cents own_after_first"
  using own_quotes_never_cross [OF first_update_own [unfolded first_update_def]] first_update_own
  by (simp add: own_after_first_def)

section \<open>Only approved orders\<close>

text \<open>
  Two exchanges that agree on cancels and on the requests a predicate allows for a market. A
  function that gives the same result on any two of them makes no other request.
\<close>

definition agree_on :: "(side \<Rightarrow> int \<Rightarrow> bool) \<Rightarrow> quantity \<Rightarrow> ticker \<Rightarrow> 'w rest_api \<Rightarrow> 'w rest_api \<Rightarrow> bool" where
  "agree_on allowed qty tk api api' \<longleftrightarrow> api_cancel_order api = api_cancel_order api'
     \<and> (\<forall>sd p. allowed sd p \<longrightarrow> api_place_order api tk sd p qty Limit = api_place_order api' tk sd p qty Limit
          \<and> (\<forall>oid. api_amend_order api oid tk sd p qty = api_amend_order api' oid tk sd p qty))"

lemma agree_release:
  assumes "agree_on allowed qty tk api api'"
  shows "release_order api = release_order api'"
  using assms by (simp add: fun_eq_iff release_order_def cancel_def agree_on_def)

lemma agree_place:
  assumes "agree_on allowed (from_contracts q) tk api api'" and "allowed sd p"
  shows "place api tk sd p q om w = place api' tk sd p q om w"
  using assms by (simp add: place_def agree_on_def)

lemma agree_amend:
  assumes "agree_on allowed qty tk api api'" and "allowed sd p"
  shows "amend api oid tk sd p qty om w = amend api' oid tk sd p qty om w"
  using assms by (simp add: amend_def agree_on_def)

lemma agree_refresh_bid:
  assumes "agree_on allowed (from_contracts (quote_size cfg)) tk api api'"
    and "check_order rm tk Yes d (quote_size cfg) \<Longrightarrow> allowed Yes d"
  shows "refresh_bid api cfg rm tk d now own om w = refresh_bid api' cfg rm tk d now own om w"
proof (cases "check_order rm tk Yes d (quote_size cfg)")
  case True
  then have ok: "allowed Yes d" by (rule assms(2))
  have pl: "place_bid api cfg tk d = place_bid api' cfg tk d"
    by (intro ext) (simp only: place_bid_def agree_place [OF assms(1) ok])
  have am: "amend api oid tk Yes d (from_contracts (quote_size cfg))
      = amend api' oid tk Yes d (from_contracts (quote_size cfg))" for oid
    by (intro ext) (rule agree_amend [OF assms(1) ok])
  have re: "reenter_bid api cfg rm tk x d = reenter_bid api' cfg rm tk x d" for x
    by (intro ext) (simp only: reenter_bid_def agree_release [OF assms(1)] pl)
  show ?thesis unfolding refresh_bid_def Let_def pl am re ..
next
  case False
  then have nc: "check_order rm tk Yes d (quote_size cfg) = False" by simp
  have re: "reenter_bid api cfg rm tk x d now own om w = reenter_bid api' cfg rm tk x d now own om w"
    for x now own om w
    unfolding reenter_bid_def Let_def agree_release [OF assms(1)] nc not_False_eq_True if_True ..
  show ?thesis unfolding refresh_bid_def Let_def re nc not_False_eq_True if_True HOL.simp_thms if_False ..
qed

lemma agree_refresh_ask:
  assumes "agree_on allowed (from_contracts (quote_size cfg)) tk api api'"
    and "check_order rm tk No (complement_price d) (quote_size cfg) \<Longrightarrow> allowed No (complement_price d)"
  shows "refresh_ask api cfg rm tk d now own om w = refresh_ask api' cfg rm tk d now own om w"
proof (cases "check_order rm tk No (complement_price d) (quote_size cfg)")
  case True
  then have ok: "allowed No (complement_price d)" by (rule assms(2))
  have pl: "place_ask api cfg tk d = place_ask api' cfg tk d"
    by (intro ext) (simp only: place_ask_def agree_place [OF assms(1) ok])
  have am: "amend api oid tk No (complement_price d) (from_contracts (quote_size cfg))
      = amend api' oid tk No (complement_price d) (from_contracts (quote_size cfg))" for oid
    by (intro ext) (rule agree_amend [OF assms(1) ok])
  have re: "reenter_ask api cfg rm tk x d = reenter_ask api' cfg rm tk x d" for x
    by (intro ext) (simp only: reenter_ask_def agree_release [OF assms(1)] pl)
  show ?thesis unfolding refresh_ask_def Let_def pl am re ..
next
  case False
  then have nc: "check_order rm tk No (complement_price d) (quote_size cfg) = False" by simp
  have re: "reenter_ask api cfg rm tk x d now own om w = reenter_ask api' cfg rm tk x d now own om w"
    for x now own om w
    unfolding reenter_ask_def Let_def agree_release [OF assms(1)] nc not_False_eq_True if_True ..
  show ?thesis unfolding refresh_ask_def Let_def re nc not_False_eq_True if_True HOL.simp_thms if_False ..
qed

lemma agree_requote:
  assumes "agree_on allowed (from_contracts (quote_size cfg)) tk api api'"
    and "\<And>d. \<not> sb \<Longrightarrow> check_order rm tk Yes d (quote_size cfg) \<Longrightarrow> allowed Yes d"
    and "\<And>d. \<not> sa \<Longrightarrow> check_order rm tk No d (quote_size cfg) \<Longrightarrow> allowed No d"
  shows "requote api cfg rm tk sb sa db da now s = requote api' cfg rm tk sb sa db da now s"
proof -
  have rel: "release_bid_if api = release_bid_if api'" "release_ask_if api = release_ask_if api'"
    by (rule ext, rule ext, simp only: release_bid_if_def release_ask_if_def agree_release [OF assms(1)])+
  have bid: "\<not> sb \<Longrightarrow> refresh_bid api cfg rm tk d now = refresh_bid api' cfg rm tk d now" for d
    using agree_refresh_bid [OF assms(1)] assms(2) by (simp add: fun_eq_iff)
  have ask: "\<not> sa \<Longrightarrow> refresh_ask api cfg rm tk d now = refresh_ask api' cfg rm tk d now" for d
    using agree_refresh_ask [OF assms(1)] assms(3) by (simp add: fun_eq_iff)
  show ?thesis
    by (cases sb; cases sa; cases db; cases da) (simp_all add: requote_def rel bid ask)
qed

text \<open>What the quoter may ask for: what the risk manager approves, on a side that is not suppressed.\<close>

definition may_quote :: "quoter \<Rightarrow> risk_manager \<Rightarrow> order_manager \<Rightarrow> ticker \<Rightarrow> side \<Rightarrow> int \<Rightarrow> bool" where
  "may_quote q rm om tk sd p \<longleftrightarrow>
     check_order rm tk sd p (quote_size (q_config q)) \<and> \<not> suppress_side q om tk sd"

text \<open>
  C10. Every request the quoter makes passed the risk gate: an update gives the same result on any
  two exchanges that agree on cancels and on quote-sized limit orders and amends, in the updated
  market, that the risk manager approves and whose side is neither at its inventory cap nor
  excluded by reduce-only mode; what the exchange would answer to anything else has no influence.
  In particular a halted quoter only cancels.
\<close>

theorem quoter_requests_approved:
  assumes "agree_on (may_quote q rm om tk) (from_contracts (quote_size (q_config q))) tk (env_api env) api'"
  shows "quoter_update env rm flow tape tk book q om w
     = quoter_update (env\<lparr>env_api := api'\<rparr>) rm flow tape tk book q om w"
proof -
  let ?env' = "env\<lparr>env_api := api'\<rparr>"
  have req: "requote (env_api env) (q_config q) rm tk (suppress_side q om tk Yes) (suppress_side q om tk No)
      = requote (env_api ?env') (q_config q) rm tk (suppress_side q om tk Yes) (suppress_side q om tk No)"
    by (intro ext, simp, rule agree_requote [OF assms]) (simp_all add: may_quote_def)
  have sys: "system_now ?env' = system_now env" by simp
  have reads: "read_tape env = read_tape ?env'" "read_flow env = read_flow ?env'"
    "read_taker_side env = read_taker_side ?env'" "steady_now env = steady_now ?env'"
    by (intro ext, simp only: read_tape_def read_flow_def read_taker_side_def sys)+ simp
  show ?thesis unfolding quoter_update_def Let_def req reads ..
qed

definition silent_api :: "nat rest_api" where
  "silent_api = accepting_api\<lparr>api_place_order := (\<lambda>_ _ _ _ _ n. (Inl (StdException ''refused''), n)),
     api_amend_order := (\<lambda>_ _ _ _ _ n. (Inl (StdException ''refused''), n))\<rparr>"

theorem quoter_requests_approved_witness:
  "quoter_update ticking_env (halt (new_risk_manager default_risk_limits)) None None ''M'' small_book
      (fst first_update) (fst (snd first_update)) 3
   = quoter_update (ticking_env\<lparr>env_api := silent_api\<rparr>) (halt (new_risk_manager default_risk_limits)) None None
      ''M'' small_book (fst first_update) (fst (snd first_update)) 3"
proof (rule quoter_requests_approved)
  have "\<not> check_order (halt (new_risk_manager default_risk_limits)) tk sd p q" for tk sd p q
    by (simp add: check_order_iff halted_iff halt_def)
  then show "agree_on (may_quote (fst first_update) (halt (new_risk_manager default_risk_limits))
      (fst (snd first_update)) ''M'') (from_contracts (quote_size (q_config (fst first_update)))) ''M''
      (env_api ticking_env) silent_api"
    by (simp add: agree_on_def may_quote_def ticking_env_def silent_api_def)
qed

section \<open>No invariant check fails\<close>

definition no_abort :: "(exn + 'a) \<times> 's \<Rightarrow> bool" where
  "no_abort r \<longleftrightarrow> (\<forall>what. fst r \<noteq> Inl (Abort what))"

definition api_no_abort :: "'w rest_api \<Rightarrow> bool" where
  "api_no_abort api \<longleftrightarrow> (\<forall>tk sd p q ty w. no_abort (api_place_order api tk sd p q ty w))
     \<and> (\<forall>oid w. no_abort (api_cancel_order api oid w))
     \<and> (\<forall>oid tk sd p q w. no_abort (api_amend_order api oid tk sd p q w))"

lemma no_abort_simps [simp]: "no_abort (Inr x, s)" "no_abort (Inl (StdException m), s)" "\<not> no_abort (Inl (Abort m), s)"
  by (simp_all add: no_abort_def)

lemma no_abort_and_then: "no_abort r \<Longrightarrow> (\<And>s. no_abort (f s)) \<Longrightarrow> no_abort (and_then r f)"
  by (cases r) (auto simp: and_then_def no_abort_def split: sum.splits)

lemma api_no_abortD:
  assumes "api_no_abort api"
  shows "api_place_order api tk sd p q ty w \<noteq> (Inl (Abort m), w')"
    "api_cancel_order api oid w \<noteq> (Inl (Abort m), w')"
    "api_amend_order api oid tk sd p q w \<noteq> (Inl (Abort m), w')"
  using assms unfolding api_no_abort_def no_abort_def by (metis fst_conv)+

lemma release_no_abort: "api_no_abort api \<Longrightarrow> no_abort (release_order api oid om w)"
  by (auto simp: release_order_def cancel_def no_abort_def api_no_abortD
    split: prod.splits sum.splits bool.splits if_splits)

lemma place_no_abort:
  "api_no_abort api \<Longrightarrow> is_valid_price p \<Longrightarrow> 0 < q \<Longrightarrow> no_abort (place api tk sd p q om w)"
  by (auto simp: place_def no_abort_def api_no_abortD split: prod.splits sum.splits)

lemma amend_no_abort: "api_no_abort api \<Longrightarrow> no_abort (amend api oid tk sd p q om w)"
  by (auto simp: amend_def no_abort_def api_no_abortD split: prod.splits sum.splits option.splits)

lemma amend_raises:
  "api_no_abort api \<Longrightarrow> amend api oid tk sd p q om w = (Inl e, om', w') \<Longrightarrow> no_abort (Inl e, s)"
  using amend_no_abort [of api oid tk sd p q om w] by (simp add: no_abort_def)

definition band_valid :: "risk_manager \<Rightarrow> bool" where
  "band_valid rm \<longleftrightarrow> 1 \<le> min_quote_price_cents (rm_limits rm) \<and> max_quote_price_cents (rm_limits rm) \<le> 99"

lemma approved_price_valid: "band_valid rm \<Longrightarrow> check_order rm tk sd p q \<Longrightarrow> is_valid_price p"
  by (simp add: check_order_iff band_valid_def price_defs)

lemma reenter_no_abort:
  assumes "api_no_abort api" and "band_valid rm" and "0 < quote_size cfg"
  shows "no_abort (reenter_bid api cfg rm tk x d now own om w)" "no_abort (reenter_ask api cfg rm tk x d now own om w)"
proof -
  have bid: "no_abort (place_bid api cfg tk d now own om w)" if "check_order rm tk Yes d (quote_size cfg)" for own om w
    using place_no_abort [OF assms(1) approved_price_valid [OF assms(2) that] assms(3), of tk Yes om w]
    by (auto simp: place_bid_def no_abort_def split: prod.splits sum.splits)
  have ask: "no_abort (place_ask api cfg tk d now own om w)"
    if "check_order rm tk No (complement_price d) (quote_size cfg)" for own om w
    using place_no_abort [OF assms(1) approved_price_valid [OF assms(2) that] assms(3), of tk No om w]
    by (auto simp: place_ask_def no_abort_def split: prod.splits sum.splits)
  show "no_abort (reenter_bid api cfg rm tk x d now own om w)"
    using release_no_abort [OF assms(1), of "bid_order_id own" om w] bid
    by (auto simp: reenter_bid_def no_abort_def Let_def split: prod.splits sum.splits bool.splits)
  show "no_abort (reenter_ask api cfg rm tk x d now own om w)"
    using release_no_abort [OF assms(1), of "ask_order_id own" om w] ask
    by (auto simp: reenter_ask_def no_abort_def Let_def split: prod.splits sum.splits bool.splits)
qed

lemma refresh_no_abort:
  assumes "api_no_abort api" and "band_valid rm" and "0 < quote_size cfg"
  shows "no_abort (refresh_bid api cfg rm tk d now own om w)" "no_abort (refresh_ask api cfg rm tk d now own om w)"
proof -
  have bid: "no_abort (place_bid api cfg tk d now own om w)" if "check_order rm tk Yes d (quote_size cfg)"
    using place_no_abort [OF assms(1) approved_price_valid [OF assms(2) that] assms(3), of tk Yes om w]
    by (auto simp: place_bid_def no_abort_def split: prod.splits sum.splits)
  have ask: "no_abort (place_ask api cfg tk d now own om w)"
    if "check_order rm tk No (complement_price d) (quote_size cfg)"
    using place_no_abort [OF assms(1) approved_price_valid [OF assms(2) that] assms(3), of tk No om w]
    by (auto simp: place_ask_def no_abort_def split: prod.splits sum.splits)
  show "no_abort (refresh_bid api cfg rm tk d now own om w)"
    using bid reenter_no_abort(1) [OF assms]
    by (auto simp: refresh_bid_def Let_def split: prod.splits sum.splits option.splits
      intro: amend_raises [OF assms(1)])
  show "no_abort (refresh_ask api cfg rm tk d now own om w)"
    using ask reenter_no_abort(2) [OF assms]
    by (auto simp: refresh_ask_def Let_def split: prod.splits sum.splits option.splits
      intro: amend_raises [OF assms(1)])
qed

lemma release_if_no_abort:
  assumes "api_no_abort api"
  shows "no_abort (release_bid_if api b s)" "no_abort (release_ask_if api b s)"
  using release_no_abort [OF assms]
  by (auto simp: release_bid_if_def release_ask_if_def no_abort_def split: prod.splits sum.splits) (metis fst_conv)+

lemma requote_no_abort:
  assumes "api_no_abort api" and "band_valid rm" and "0 < quote_size cfg"
  shows "no_abort (requote api cfg rm tk sb sa db da now s)"
  unfolding requote_def
  by (intro no_abort_and_then release_if_no_abort assms)
    (auto simp: refresh_no_abort [OF assms] split: option.splits prod.splits)

definition positive_b :: "real option \<Rightarrow> bool" where
  "positive_b b \<longleftrightarrow> (case b of None \<Rightarrow> True | Some x \<Rightarrow> 0 < x)"

lemma lmsr_finite:
  assumes "positive_b b" and "0 \<le> fv" and "fv \<le> 100"
  shows "lmsr_skewed_fair_value fv held b \<noteq> None"
proof (cases b)
  case (Some x)
  then have x: "0 < x" using assms(1) by (simp add: positive_b_def)
  have "0 \<le> (100 / fv - 1) * exp (held / x)" if "0 < fv"
    using that assms(3) by (simp add: le_divide_eq)
  then have "0 < fv \<Longrightarrow> 1 + (100 / fv - 1) * exp (held / x) \<noteq> 0" by fastforce
  then show ?thesis
    using assms x Some by (auto simp: lmsr_skewed_fair_value_def kContractMaxCents_real_def Let_def)
qed (simp add: lmsr_skewed_fair_value_def)

lemma new_quoter_b: "0 < quote_size cfg \<Longrightarrow> positive_b (inventory_b (new_quoter cfg model limits))"
  by (auto simp: positive_b_def new_quoter_def max_b_def kMinBPerQuoteLot_def less_max_iff_disj split: option.splits)

text \<open>With any model that keeps its contract the reservation price is finite.\<close>

context pricing_model
begin

lemma reservation_finite:
  assumes "positive_b b" and "\<bar>flow_lean_cents cfg\<bar> \<le> 1"
  shows "lmsr_skewed_fair_value (leaned_value cfg (fair_value_estimate estimate inp) taker) held b \<noteq> None"
  using engine_range [of inp] assms(2)
  by (intro lmsr_finite [OF assms(1)]) (auto simp: leaned_value_def split: option.split)

lemma update_no_abort:
  assumes "q_model q = estimate" and "api_no_abort (env_api env)" and "band_valid rm"
    and "0 < quote_size (q_config q)" and "\<bar>flow_lean_cents (q_config q)\<bar> \<le> 1" and "positive_b (inventory_b q)"
  shows "no_abort (quoter_update env rm flow tape tk book q om w)"
proof -
  have fin: "(lmsr_skewed_fair_value (leaned_value (q_config q) (fair_value_estimate (q_model q) inp) taker) held
      (inventory_b q) = None) = False" for inp taker held
    unfolding assms(1) using reservation_finite [OF assms(6,5)] by simp
  have "fst (requote (env_api env) (q_config q) rm tk sb sa db da now s) \<noteq> Inl (Abort what)" for sb sa db da now s what
    using requote_no_abort [OF assms(2-4)] by (simp add: no_abort_def)
  then show ?thesis
    by (auto simp: quoter_update_def no_abort_def Let_def case_prod_beta fin split: option.splits)
qed

end

text \<open>
  The condition on the quote size is needed, and nothing checks it: the configuration takes any number,
  and the first approved quote with a size that is not positive fails the check of the order manager.
\<close>

lemma empty_quote_aborts:
  assumes "bid_order_id own = []" and "ask_order_id own = []" and "check_order rm tk Yes d (quote_size cfg)" and "is_valid_price d"
    and "quote_size cfg \<le> 0"
  shows "refresh_bid api cfg rm tk d now own om w = (Inl (Abort ''order quantity must be positive''), own, om, w)"
  using assms by (simp add: refresh_bid_def place_bid_def place_def)

text \<open>
  C22. The quoter never trips an invariant check: with any of the three pricing models, the inventory
  scale that the quoter's constructor computes, a flow lean of at most one cent, a positive quote size and a risk band inside 1 to 99 cents (none of which
  \<open>load_config\<close> checks), no update on any book, in any state of the quoter's quotes and of the order
  manager, fails an \<open>ensure\<close> or meets a price that is not finite, as long as the exchange client itself
  does not.
\<close>

theorem quoter_never_aborts:
  assumes "q_model q \<in> {heuristic_estimate, clearing_price_estimate tape_weight, view_based_estimate beta}"
    and "inventory_b q = inventory_b (new_quoter (q_config q) (q_model q) limits)"
    and "api_no_abort (env_api env)" and "band_valid rm"
    and "0 < quote_size (q_config q)" and "\<bar>flow_lean_cents (q_config q)\<bar> \<le> 1"
  shows "no_abort (quoter_update env rm flow tape tk book q om w)"
proof -
  have b: "positive_b (inventory_b q)" using new_quoter_b [OF assms(5)] assms(2) by simp
  from assms(1) consider "q_model q = heuristic_estimate" | "q_model q = clearing_price_estimate tape_weight"
    | "q_model q = view_based_estimate beta" by blast
  then show ?thesis
    using heuristic.update_no_abort [OF _ assms(3-6) b] clearing.update_no_abort [OF _ assms(3-6) b]
      view_based.update_no_abort [OF _ assms(3-6) b] by cases blast+
qed

theorem quoter_never_aborts_witness:
  "no_abort (quoter_update ticking_env (new_risk_manager default_risk_limits) None None ''M'' small_book
     (new_quoter default_quoter_config heuristic_estimate default_risk_limits) new_order_manager 1)"
  by (rule quoter_never_aborts [where limits = default_risk_limits and tape_weight = 0 and beta = 0])
    (simp_all add: new_quoter_def default_quoter_config_def ticking_env_def accepting_api_def api_no_abort_def
      band_valid_def new_risk_manager_def default_risk_limits_def)

section \<open>The book without the echo\<close>

lemma delta_undo:
  assumes "book_invar b" and "0 \<le> centi d"
  shows "apply_delta (apply_delta b sd p d) sd p (- d) = b"
  using assms ladder.upd_undo [of "ob_yes b" d p] ladder.upd_undo [of "ob_no b" d p]
  by (cases sd) (simp_all add: apply_delta_def book_invar_def)

lemma delta_yes_no_commute:
  "apply_delta (apply_delta b Yes p d) No p' d' = apply_delta (apply_delta b No p' d') Yes p d"
  by (simp add: apply_delta_def)

lemma delta_invar: "book_invar b \<Longrightarrow> book_invar (apply_delta b sd p d)"
  by (cases sd) (simp_all add: book_invar_def apply_delta_def apply_delta_levels_correct)

text \<open>
  What is left to fill of a tracked order, when there is a tracked order and it is open, and a book
  with what is left of the quoter's own bid and own ask at their quoted prices.
\<close>

definition own_remaining :: "order_manager \<Rightarrow> string \<Rightarrow> quantity option" where
  "own_remaining om oid = (if oid = [] then None else map_option remaining_quantity (map_of (open_orders om) oid))"

definition with_own_quotes :: "own_quote \<Rightarrow> order_manager \<Rightarrow> orderbook \<Rightarrow> orderbook" where
  "with_own_quotes own om others =
     (let with_bid = (case own_remaining om (bid_order_id own) of
            None \<Rightarrow> others | Some rest \<Rightarrow> apply_delta others Yes (quoted_bid_cents own) rest)
      in case own_remaining om (ask_order_id own) of
           None \<Rightarrow> with_bid | Some rest \<Rightarrow> apply_delta with_bid No (complement_price (quoted_ask_cents own)) rest)"

text \<open>
  C29. The quoter prices off the others' book: whether it has a bid and an ask, only one of them or
  none, tracked and open or no longer open, if the mirrored book is a well-formed book with what is
  left of these orders added at their quoted prices, then what the quoter looks at is that
  well-formed book, exactly. What is left of an order must not be negative.
\<close>

theorem own_echo_removed:
  assumes "book_invar others"
    and "\<forall>rest. own_remaining om (bid_order_id own) = Some rest \<longrightarrow> 0 \<le> centi rest"
    and "\<forall>rest. own_remaining om (ask_order_id own) = Some rest \<longrightarrow> 0 \<le> centi rest"
  shows "book_without_own_quotes own om (with_own_quotes own om others) = others"
proof -
  let ?bid = "own_remaining om (bid_order_id own)" and ?ask = "own_remaining om (ask_order_id own)"
  let ?minus = "\<lambda>sd p rest b. case rest of None \<Rightarrow> b | Some d \<Rightarrow> apply_delta b sd p (- d)"
  have look: "book_without_own_quotes own om b
      = ?minus No (complement_price (quoted_ask_cents own)) ?ask (?minus Yes (quoted_bid_cents own) ?bid b)" for b
    by (auto simp: book_without_own_quotes_def own_remaining_def Let_def split: option.splits)
  show ?thesis
    using assms delta_undo [OF assms(1)] delta_undo [OF delta_invar [OF assms(1)]]
    by (cases ?bid; cases ?ask) (simp_all add: look with_own_quotes_def delta_yes_no_commute)
qed

theorem own_echo_removed_witness:
  "book_without_own_quotes own_after_first (fst (snd first_update))
     (apply_delta (apply_delta small_book Yes 44 (from_centi 1000)) No 51 (from_centi 1000)) = small_book
   \<and> book_without_own_quotes (own_after_first\<lparr>ask_order_id := []\<rparr>) (fst (snd first_update))
     (apply_delta small_book Yes 44 (from_centi 1000)) = small_book"
proof -
  let ?om = "fst (snd first_update)" and ?bid_only = "own_after_first\<lparr>ask_order_id := []\<rparr>"
  have rest: "own_remaining ?om ''o'' = Some (from_centi 1000)" "own_remaining ?om ''oo'' = Some (from_centi 1000)" "own_remaining ?om [] = None"
    using first_update_orders by (auto simp: own_remaining_def map_option_eq_Some)
  have "with_own_quotes own_after_first ?om small_book = apply_delta (apply_delta small_book Yes 44 (from_centi 1000)) No 51 (from_centi 1000)"
    "with_own_quotes ?bid_only ?om small_book = apply_delta small_book Yes 44 (from_centi 1000)"
    by (simp_all add: with_own_quotes_def own_after_first_def rest price_defs)
  then show ?thesis
    using own_echo_removed [OF small_book_ok(1), of ?om own_after_first] own_echo_removed [OF small_book_ok(1), of ?om ?bid_only]
    by (simp add: own_after_first_def rest)
qed

section \<open>Hysteresis\<close>

text \<open>
  Resting quotes are left in place: a tracked bid or ask that has rested for less than both
  the fade time and the minimal rest time is neither cancelled, amended nor replaced, whatever
  the new desired price; no request reaches the exchange.
\<close>

theorem young_quotes_rest:
  assumes "bid_order_id own \<noteq> []" and "ask_order_id own \<noteq> []"
    and "resting_too_young (bid_placed_at own) now (min_rest_ms cfg)" "resting_too_young (bid_placed_at own) now (fade_rest_ms cfg)"
    and "resting_too_young (ask_placed_at own) now (min_rest_ms cfg)" "resting_too_young (ask_placed_at own) now (fade_rest_ms cfg)"
  shows "\<exists>b a. requote api cfg rm tk False False desired_bid desired_ask now (own, om, w)
     = (Inr (), own\<lparr>bid_fade_pending := b, ask_fade_pending := a\<rparr>, om, w)"
proof -
  have self: "\<exists>b. own = own\<lparr>bid_fade_pending := b\<rparr>"
    "\<exists>a. own\<lparr>bid_fade_pending := b\<rparr> = own\<lparr>bid_fade_pending := b, ask_fade_pending := a\<rparr>" for b
    by (rule exI [of _ "bid_fade_pending own"], simp) (rule exI [of _ "ask_fade_pending own"], simp)
  have bid: "\<exists>b. refresh_bid api cfg rm tk d now own om w = (Inr (), own\<lparr>bid_fade_pending := b\<rparr>, om, w)" for d
    using assms self(1) by (auto simp: refresh_bid_def Let_def)
  have ask: "\<exists>a. refresh_ask api cfg rm tk d now (own\<lparr>bid_fade_pending := b\<rparr>) om w
      = (Inr (), own\<lparr>bid_fade_pending := b, ask_fade_pending := a\<rparr>, om, w)" for d b
    using assms self(2) [of b] by (auto simp: refresh_ask_def Let_def)
  have rel: "release_bid_if api False s = (Inr (), s)" "release_ask_if api False s = (Inr (), s)"
    for s :: "own_quote \<times> order_manager \<times> 'a"
    by (simp_all add: release_bid_if_def release_ask_if_def split: prod.splits)
  obtain b where b: "(case desired_bid of None \<Rightarrow> (Inr (), own, om, w) | Some d \<Rightarrow> refresh_bid api cfg rm tk d now own om w)
      = (Inr (), own\<lparr>bid_fade_pending := b\<rparr>, om, w)"
    using bid self(1) by (cases desired_bid) auto
  obtain a where "(case desired_ask of None \<Rightarrow> (Inr (), own\<lparr>bid_fade_pending := b\<rparr>, om, w)
      | Some d \<Rightarrow> refresh_ask api cfg rm tk d now (own\<lparr>bid_fade_pending := b\<rparr>) om w)
      = (Inr (), own\<lparr>bid_fade_pending := b, ask_fade_pending := a\<rparr>, om, w)"
    using ask [of _ b] self(2) [of b] by (cases desired_ask) auto
  with b have "requote api cfg rm tk False False desired_bid desired_ask now (own, om, w)
      = (Inr (), own\<lparr>bid_fade_pending := b, ask_fade_pending := a\<rparr>, om, w)"
    by (cases desired_bid; cases desired_ask) (auto simp: requote_def rel)
  then show ?thesis by blast
qed

theorem young_quotes_rest_witness:
  "\<exists>b a. requote accepting_api default_quoter_config (new_risk_manager default_risk_limits) ''M'' False False
       (Some 20) (Some 80) 100 (own_after_first, new_order_manager, 3)
     = (Inr (), own_after_first\<lparr>bid_fade_pending := b, ask_fade_pending := a\<rparr>, new_order_manager, 3)"
  by (rule young_quotes_rest) (simp_all add: own_after_first_def resting_too_young_def default_quoter_config_def
    kNanosPerMilli_def)

end
