(* ===== verification/Trading_Session.thy ===== *)
theory Trading_Session
  imports Quoter_Correct
begin

text \<open>
  \<open>TradingSession\<close> (\<open>source/engine/trading_session.cpp\<close>): the reactions of the market-making loop
  to book messages, fills and timers. The session record holds the components the class refers to
  (order manager, risk manager, quoter, flow guard, tape) next to its own fields; what the PnL
  listener is told is appended to \<open>pnl_published\<close>. A \<open>catch (const std::exception &)\<close> stops a
  \<open>StdException\<close>, never an \<open>Abort\<close>. Logging and the analytics tap are left out.
\<close>

section \<open>State\<close>

type_synonym pnl_map = "ticker \<rightharpoonup> real"

record session =
  ts_tickers :: "ticker list"
  ts_om :: order_manager
  ts_rm :: risk_manager
  ts_quoter :: quoter
  ts_flow :: "flow_guard option"
  ts_tape :: "trade_tape option"
  error_cooldown_ms :: int
  cooldown_until :: "ticker \<rightharpoonup> time_ns"
  last_book_update :: "ticker \<rightharpoonup> time_ns"
  seeded_at :: "ticker \<rightharpoonup> time_ns"
  feed_dead :: "ticker set"
  ob_map :: "(ticker \<times> orderbook) list"
  prior_pnl :: pnl_map
  pnl_published :: "pnl_map list"

definition kDefaultErrorCooldown :: int where "kDefaultErrorCooldown = 500"
definition kFeedConfirmGrace :: int where "kFeedConfirmGrace = 30"

definition new_session :: "ticker list \<Rightarrow> order_manager \<Rightarrow> risk_manager \<Rightarrow> quoter
    \<Rightarrow> flow_guard option \<Rightarrow> trade_tape option \<Rightarrow> pnl_map \<Rightarrow> session" where
  "new_session tickers om rm q flow tape prior = \<lparr>ts_tickers = tickers, ts_om = om, ts_rm = rm,
     ts_quoter = q, ts_flow = flow, ts_tape = tape, error_cooldown_ms = kDefaultErrorCooldown,
     cooldown_until = Map.empty, last_book_update = Map.empty, seeded_at = Map.empty, feed_dead = {},
     ob_map = [], prior_pnl = prior, pnl_published = []\<rparr>"

definition is_tracked :: "session \<Rightarrow> ticker \<Rightarrow> bool" where
  "is_tracked s tk = (tk \<in> set (ts_tickers s))"

definition prior_pnl_for :: "pnl_map \<Rightarrow> ticker \<Rightarrow> real" where
  "prior_pnl_for prior tk = (case prior tk of None \<Rightarrow> 0 | Some x \<Rightarrow> x)"

section \<open>The strategy, called and guarded\<close>

definition run_strategy :: "'w env \<Rightarrow> ticker \<Rightarrow> orderbook \<Rightarrow> session \<Rightarrow> 'w \<Rightarrow> (exn + unit) \<times> session \<times> 'w" where
  "run_strategy env tk book s w =
     (let (res, q', om', w') = quoter_update env (ts_rm s) (ts_flow s) (ts_tape s) tk book (ts_quoter s) (ts_om s) w
      in (res, s\<lparr>ts_quoter := q', ts_om := om'\<rparr>, w'))"

text \<open>The \<open>try\<close> block of \<open>on_delta\<close> and \<open>requote_idle_markets\<close>: a failure cools the market down.\<close>

definition quote_or_cool_down :: "'w env \<Rightarrow> ticker \<Rightarrow> orderbook \<Rightarrow> session \<Rightarrow> 'w
    \<Rightarrow> (exn + unit) \<times> session \<times> 'w" where
  "quote_or_cool_down env tk book s w =
     (case run_strategy env tk book s w of
        (Inl (StdException what), s', w') \<Rightarrow>
          (let (t, w'') = steady_now env w'
           in (Inr (), s'\<lparr>cooldown_until := (cooldown_until s')(tk \<mapsto> t + error_cooldown_ms s' * kNanosPerMilli)\<rparr>, w''))
      | (res, s', w') \<Rightarrow> (res, s', w'))"

text \<open>Whether the market is cooling down; the clock is read only if it has an entry.\<close>

definition cooling_down :: "'w env \<Rightarrow> ticker \<Rightarrow> session \<Rightarrow> 'w \<Rightarrow> bool \<times> 'w" where
  "cooling_down env tk s w =
     (case cooldown_until s tk of
        None \<Rightarrow> (False, w)
      | Some until \<Rightarrow> (let (t, w') = steady_now env w in (t < until, w')))"

section \<open>Book messages\<close>

definition book_of :: "session \<Rightarrow> ticker \<Rightarrow> orderbook" where
  "book_of s tk = lookup_or empty_book (map_of (ob_map s)) tk"

definition on_snapshot :: "'w env \<Rightarrow> orderbook \<Rightarrow> session \<Rightarrow> 'w \<Rightarrow> (exn + unit) \<times> session \<times> 'w" where
  "on_snapshot env snap s w =
     (let tk = ob_ticker snap; (t, w') = steady_now env w
      in (Inr (), s\<lparr>ob_map := AList.update tk (apply_snapshot snap) (ob_map s),
                    last_book_update := (last_book_update s)(tk \<mapsto> t),
                    feed_dead := feed_dead s - {tk}\<rparr>, w'))"

definition on_delta :: "'w env \<Rightarrow> ticker \<Rightarrow> side \<Rightarrow> int \<Rightarrow> quantity \<Rightarrow> session \<Rightarrow> 'w
    \<Rightarrow> (exn + unit) \<times> session \<times> 'w" where
  "on_delta env tk sd price_cents qty s w =
     (let book = apply_delta (book_of s tk) sd price_cents qty;
          (t, w1) = steady_now env w;
          s1 = s\<lparr>ob_map := AList.update tk book (ob_map s),
                 last_book_update := (last_book_update s)(tk \<mapsto> t),
                 feed_dead := feed_dead s - {tk}\<rparr>
      in if \<not> is_tracked s1 tk then (Inr (), s1, w1)
         else
           let (cooling, w2) = cooling_down env tk s1 w1
           in if cooling then (Inr (), s1, w2)
              else quote_or_cool_down env tk book s1 w2)"

section \<open>Fills and prints\<close>

definition carried_totals :: "session \<Rightarrow> pnl_map" where
  "carried_totals s =
     fold (\<lambda>tk totals.
       let session_pnl = realized_pnl (ts_om s) tk in
       if session_pnl \<noteq> 0 \<or> totals tk \<noteq> None
       then totals(tk \<mapsto> prior_pnl_for (prior_pnl s) tk + session_pnl) else totals)
     (ts_tickers s) (prior_pnl s)"

definition publish_pnl :: "session \<Rightarrow> session" where
  "publish_pnl s = s\<lparr>pnl_published := pnl_published s @ [carried_totals s]\<rparr>"

definition on_fill :: "fill \<Rightarrow> session \<Rightarrow> (exn + bool) \<times> session" where
  "on_fill f s0 =
     (let s = s0\<lparr>ts_tape := map_option (record_own_fill (f_trade_id f)) (ts_tape s0)\<rparr> in
      if \<not> is_tracked s (f_market_ticker f) then (Inr False, s)
      else case record_fill f (ts_om s) of
        (Inl e, om') \<Rightarrow> (Inl e, s\<lparr>ts_om := om'\<rparr>)
      | (Inr False, om') \<Rightarrow> (Inr False, s\<lparr>ts_om := om'\<rparr>)
      | (Inr True, om') \<Rightarrow>
          (let s1 = s\<lparr>ts_om := om'\<rparr>;
               s2 = (if map_of (open_orders om') (f_order_id f) = None
                     then s1\<lparr>ts_quoter := forget_order (f_market_ticker f) (f_order_id f) (ts_quoter s1)\<rparr> else s1);
               s3 = s2\<lparr>ts_rm := risk_update om' (ts_tickers s2) (ts_rm s2)\<rparr>;
               s4 = s3\<lparr>ts_flow := map_option (flow_record_fill (f_market_ticker f) (f_side f) (f_quantity f)
                        (f_timestamp f)) (ts_flow s3)\<rparr>
           in (Inr True, publish_pnl s4)))"

definition on_trade :: "public_trade \<Rightarrow> session \<Rightarrow> session" where
  "on_trade trade s = s\<lparr>ts_tape := map_option (record_trade trade) (ts_tape s)\<rparr>"

definition flatten_fill :: "order \<Rightarrow> fill" where
  "flatten_fill ord = \<lparr>f_trade_id = [], f_order_id = o_id ord, f_market_ticker = o_market_ticker ord,
     f_side = o_side ord,
     f_price_cents = (if o_average_fill_price_cents ord \<noteq> 0 then o_average_fill_price_cents ord
                      else o_price_cents ord),
     f_quantity = o_filled_quantity ord, f_fee_cents = 0, f_is_taker = True, f_timestamp = o_created_at ord\<rparr>"

definition record_flatten :: "order \<Rightarrow> session \<Rightarrow> (exn + unit) \<times> session" where
  "record_flatten ord s =
     (if \<not> is_positive (o_filled_quantity ord) then (Inr (), s)
      else case record_fill (flatten_fill ord) (ts_om s) of
        (Inl e, om') \<Rightarrow> (Inl e, s\<lparr>ts_om := om'\<rparr>)
      | (Inr _, om') \<Rightarrow> (Inr (), publish_pnl (s\<lparr>ts_om := om'\<rparr>)))"

section \<open>Cancelling\<close>

text \<open>The guarded loop over tickers: \<open>cancel_all\<close> each, an exception of one is logged and dropped.\<close>

fun cancel_tickers :: "'w rest_api \<Rightarrow> ticker list \<Rightarrow> order_manager \<Rightarrow> 'w
    \<Rightarrow> (exn + unit) \<times> order_manager \<times> 'w" where
  "cancel_tickers api [] om w = (Inr (), om, w)"
| "cancel_tickers api (tk # tks) om w =
     (case cancel_all api tk om w of
        (Inl (Abort what), om', w') \<Rightarrow> (Inl (Abort what), om', w')
      | (_, om', w') \<Rightarrow> cancel_tickers api tks om' w')"

definition cancel_all_quotes :: "'w env \<Rightarrow> session \<Rightarrow> 'w \<Rightarrow> (exn + unit) \<times> session \<times> 'w" where
  "cancel_all_quotes env s w =
     (let (res, om', w') = (if open_orders (ts_om s) \<noteq> [] then cancel_tickers (env_api env) (ts_tickers s) (ts_om s) w
                            else (Inr (), ts_om s, w))
      in case res of
           Inl e \<Rightarrow> (Inl e, s\<lparr>ts_om := om'\<rparr>, w')
         | Inr _ \<Rightarrow> (Inr (), s\<lparr>ts_om := om', ts_quoter := reset_quotes (ts_quoter s)\<rparr>, w'))"

definition on_disconnect :: "'w env \<Rightarrow> session \<Rightarrow> 'w \<Rightarrow> (exn + unit) \<times> session \<times> 'w" where
  "on_disconnect env s w = cancel_all_quotes env s w"

fun cancel_preexisting_orders :: "'w env \<Rightarrow> order list \<Rightarrow> session \<Rightarrow> 'w \<Rightarrow> (exn + unit) \<times> session \<times> 'w" where
  "cancel_preexisting_orders env [] s w = (Inr (), s, w)"
| "cancel_preexisting_orders env (ord # rest) s w =
     (case cancel (env_api env) (o_id ord) (ts_om s) w of
        (Inl (Abort what), om', w') \<Rightarrow> (Inl (Abort what), s\<lparr>ts_om := om'\<rparr>, w')
      | (_, om', w') \<Rightarrow> cancel_preexisting_orders env rest (s\<lparr>ts_om := om'\<rparr>) w')"

section \<open>Feed liveness and periodic work\<close>

definition feed_confirmed :: "'w env \<Rightarrow> ticker \<Rightarrow> session \<Rightarrow> 'w \<Rightarrow> bool \<times> 'w" where
  "feed_confirmed env tk s w =
     (if last_book_update s tk \<noteq> None then (True, w)
      else case seeded_at s tk of
        None \<Rightarrow> (True, w)
      | Some seeded \<Rightarrow> (let (t, w') = steady_now env w in (t - seeded \<le> kFeedConfirmGrace * kNanosPerSecond, w')))"

definition has_resting_order :: "order_manager \<Rightarrow> ticker \<Rightarrow> bool" where
  "has_resting_order om tk = (\<exists>e \<in> set (open_orders om). o_market_ticker (snd e) = tk)"

fun requote_each :: "'w env \<Rightarrow> (ticker \<times> orderbook) list \<Rightarrow> session \<Rightarrow> 'w \<Rightarrow> (exn + unit) \<times> session \<times> 'w" where
  "requote_each env [] s w = (Inr (), s, w)"
| "requote_each env ((tk, book) # rest) s w =
     (let (confirmed, w1) = feed_confirmed env tk s w in
      if \<not> confirmed then requote_each env rest s w1
      else if has_resting_order (ts_om s) tk then requote_each env rest s w1
      else
        let (cooling, w2) = cooling_down env tk s w1 in
        if cooling then requote_each env rest s w2
        else case quote_or_cool_down env tk book s w2 of
          (Inl e, s', w') \<Rightarrow> (Inl e, s', w')
        | (Inr _, s', w') \<Rightarrow> requote_each env rest s' w')"

definition requote_idle_markets :: "'w env \<Rightarrow> session \<Rightarrow> 'w \<Rightarrow> (exn + unit) \<times> session \<times> 'w" where
  "requote_idle_markets env s w =
     (if is_halted (ts_rm s) then (Inr (), s, w) else requote_each env (ob_map s) s w)"

fun kill_dead_feeds :: "'w env \<Rightarrow> ticker list \<Rightarrow> session \<Rightarrow> 'w \<Rightarrow> (exn + unit) \<times> session \<times> 'w" where
  "kill_dead_feeds env [] s w = (Inr (), s, w)"
| "kill_dead_feeds env (tk # tks) s w =
     (let (confirmed, w1) = feed_confirmed env tk s w in
      if confirmed \<or> tk \<in> feed_dead s then kill_dead_feeds env tks s w1
      else
        let s1 = s\<lparr>feed_dead := insert tk (feed_dead s)\<rparr> in
        case cancel_all (env_api env) tk (ts_om s1) w1 of
          (Inl (Abort what), om', w') \<Rightarrow> (Inl (Abort what), s1\<lparr>ts_om := om'\<rparr>, w')
        | (_, om', w') \<Rightarrow>
            kill_dead_feeds env tks
              (s1\<lparr>ts_om := om', ts_quoter := forget_ticker tk (ts_quoter s1)\<rparr>) w')"

definition enforce_quote_safety :: "'w env \<Rightarrow> session \<Rightarrow> 'w \<Rightarrow> (exn + unit) \<times> session \<times> 'w" where
  "enforce_quote_safety env s w =
     (if is_halted (ts_rm s) then cancel_all_quotes env s w else kill_dead_feeds env (ts_tickers s) s w)"

section \<open>Seeding and rotation\<close>

definition seed_orderbook :: "'w env \<Rightarrow> orderbook \<Rightarrow> session \<Rightarrow> 'w \<Rightarrow> (exn + unit) \<times> session \<times> 'w" where
  "seed_orderbook env snap s w =
     (let tk = ob_ticker snap; book = apply_snapshot snap; (t, w1) = steady_now env w;
          s1 = s\<lparr>ob_map := AList.update tk book (ob_map s), seeded_at := (seeded_at s)(tk \<mapsto> t),
                 feed_dead := feed_dead s - {tk}\<rparr>
      in case run_strategy env tk book s1 w1 of
           (Inl (StdException what), s', w') \<Rightarrow> (Inr (), s', w')
         | (res, s', w') \<Rightarrow> (res, s', w'))"

definition add_market :: "'w env \<Rightarrow> orderbook \<Rightarrow> session \<Rightarrow> 'w \<Rightarrow> (exn + unit) \<times> session \<times> 'w" where
  "add_market env snap s w =
     seed_orderbook env snap
       (if \<not> is_tracked s (ob_ticker snap) then s\<lparr>ts_tickers := ts_tickers s @ [ob_ticker snap]\<rparr> else s) w"

definition remove_market_if_idle :: "ticker \<Rightarrow> session \<Rightarrow> bool \<times> session" where
  "remove_market_if_idle tk s =
     (if \<not> is_tracked s tk then (False, s)
      else if \<not> is_zero (net_position (ts_om s) tk) then (False, s)
      else if has_resting_order (ts_om s) tk then (False, s)
      else (True, s\<lparr>ts_tickers := filter (\<lambda>t. t \<noteq> tk) (ts_tickers s), ob_map := AList.delete tk (ob_map s),
                    last_book_update := (last_book_update s)(tk := None)\<rparr>))"

section \<open>Portfolio risk and read models\<close>

definition book_age :: "'w env \<Rightarrow> ticker \<Rightarrow> session \<Rightarrow> 'w \<Rightarrow> int option \<times> 'w" where
  "book_age env tk s w =
     (case last_book_update s tk of
        None \<Rightarrow> (None, w)
      | Some t0 \<Rightarrow> (let (t, w') = steady_now env w in (Some ((t - t0) sdiv kNanosPerSecond), w')))"

definition build_marks :: "session \<Rightarrow> mark_map" where
  "build_marks s =
     fold (\<lambda>tk marks.
       case map_of (ob_map s) tk of
         None \<Rightarrow> marks
       | Some book \<Rightarrow>
           (let mid = mid_price_cents book in if mid > 0 then marks(tk \<mapsto> c_round mid) else marks))
     (ts_tickers s) Map.empty"

definition session_snapshot :: "session \<Rightarrow> portfolio_snapshot" where
  "session_snapshot s = snapshot (ts_om s) (ts_tickers s) (build_marks s)"

definition run_portfolio_risk :: "session \<Rightarrow> session" where
  "run_portfolio_risk s = s\<lparr>ts_rm := update_portfolio (session_snapshot s) (ts_rm s)\<rparr>"

end
