(* ===== verification/Session_Correct.thy ===== *)
theory Session_Correct
  imports Trading_Session
begin

text \<open>
  What the trading session promises: whatever the sequence of messages and timers, the accounting
  refines the ledger of the fills it was given and the own quotes stay uncrossed; no handler lets
  an exception escape; a halt takes the quotes down; exposure is never rotated away.
\<close>

section \<open>Strategies keep the accounts\<close>

lemma release_accounts: "same_accounts om (fst (snd (release_order api oid om w)))"
  using cancel_accounts [of om api oid w]
  by (auto simp: release_order_def split: prod.splits sum.splits bool.splits)

lemma place_own_accounts:
  "same_accounts om (fst (snd (snd (place_bid api cfg tk d now own om w))))"
  "same_accounts om (fst (snd (snd (place_ask api cfg tk d now own om w))))"
  using place_accounts [of om api tk Yes d "quote_size cfg" w]
    place_accounts [of om api tk No "complement_price d" "quote_size cfg" w]
  by (auto simp: place_bid_def place_ask_def split: prod.splits sum.splits)

lemma reenter_accounts:
  "same_accounts om (fst (snd (snd (reenter_bid api cfg rm tk x d now own om w))))"
  "same_accounts om (fst (snd (snd (reenter_ask api cfg rm tk x d now own om w))))"
  using release_accounts [of om api "bid_order_id own" w] release_accounts [of om api "ask_order_id own" w]
  by (auto simp: reenter_bid_def reenter_ask_def Let_def split: prod.splits sum.splits bool.splits
    intro: same_accounts_trans place_own_accounts)

lemma amend_accounts_eq: "amend api oid tk sd p q om w = (r, om', w') \<Longrightarrow> same_accounts om om'"
  using amend_accounts [of om api oid tk sd p q w] by simp

lemma refresh_accounts:
  "same_accounts om (fst (snd (snd (refresh_bid api cfg rm tk d now own om w))))"
  "same_accounts om (fst (snd (snd (refresh_ask api cfg rm tk d now own om w))))"
  by (auto simp: refresh_bid_def refresh_ask_def Let_def place_own_accounts reenter_accounts
    split: prod.splits sum.splits option.splits
    intro: amend_accounts_eq same_accounts_trans [OF amend_accounts_eq reenter_accounts(1)]
      same_accounts_trans [OF amend_accounts_eq reenter_accounts(2)])

lemma release_accounts_eq: "release_order api oid om w = (r, om', w') \<Longrightarrow> same_accounts om om'"
  using release_accounts [of om api oid w] by simp

lemma release_if_accounts:
  "same_accounts (fst (snd s)) (fst (snd (snd (release_bid_if api b s))))"
  "same_accounts (fst (snd s)) (fst (snd (snd (release_ask_if api b s))))"
  by (auto simp: release_bid_if_def release_ask_if_def split: prod.splits sum.splits intro: release_accounts_eq)

lemma requote_accounts: "same_accounts (fst (snd s)) (fst (snd (snd (requote api cfg rm tk sb sa db da now s))))"
  unfolding requote_def
  by (intro and_then_invar [where P = "\<lambda>s'. same_accounts (fst (snd s)) (fst (snd s'))"] release_if_accounts)
    (auto intro: same_accounts_trans release_if_accounts refresh_accounts split: option.splits prod.splits)

lemma quoter_update_accounts:
  "same_accounts om (fst (snd (snd (quoter_update env rm flow tape tk book q om w))))"
proof -
  have "same_accounts om (fst (snd (snd (requote api cfg rm tk sb sa db da now (own, om, w)))))"
    for api :: "'a rest_api" and cfg sb sa db da now own w
    using requote_accounts [of "(own, om, w)"] by simp
  then show ?thesis by (auto simp: quoter_update_def Let_def case_prod_beta split: option.splits)
qed

lemma quoter_update_frame:
  "q_config (fst (snd (quoter_update env rm flow tape tk book q om w))) = q_config q"
  "q_model (fst (snd (quoter_update env rm flow tape tk book q om w))) = q_model q"
  "inventory_b (fst (snd (quoter_update env rm flow tape tk book q om w))) = inventory_b q"
  by (auto simp: quoter_update_def Let_def case_prod_beta split: option.splits)

text \<open>
  The contract of \<open>IStrategy::update\<close> the session relies on: a strategy trades through the order
  manager without touching its accounts, and keeps an invariant of its own.
\<close>

locale strategy =
  fixes upd :: "'q \<Rightarrow> order_manager \<Rightarrow> 'w \<Rightarrow> (exn + unit) \<times> 'q \<times> order_manager \<times> 'w"
    and invar :: "'q \<Rightarrow> bool"
  assumes upd_accounts: "same_accounts om (fst (snd (snd (upd q om w))))"
    and upd_invar: "invar q \<Longrightarrow> invar (fst (snd (upd q om w)))"
begin

lemma upd_sim: "simulates om L \<Longrightarrow> simulates (fst (snd (snd (upd q om w)))) L"
  by (rule same_accounts_sim [OF upd_accounts])

lemma upd_views:
  "net_position (fst (snd (snd (upd q om w)))) = net_position om"
  "realized_pnl (fst (snd (snd (upd q om w)))) = realized_pnl om"
proof -
  obtain xs where "fst (snd (snd (upd q om w))) = om\<lparr>open_orders := xs\<rparr>"
    using upd_accounts [of om q w] by (auto simp: same_accounts_def)
  then show "net_position (fst (snd (snd (upd q om w)))) = net_position om"
    "realized_pnl (fst (snd (snd (upd q om w)))) = realized_pnl om"
    by (simp_all add: fun_eq_iff om_views)
qed

end

interpretation quoting: strategy "quoter_update env rm flow tape tk book" quotes_uncrossed
  for env rm flow tape tk book
  by unfold_locales (rule quoter_update_accounts, rule quoter_update_uncrossed)

section \<open>Sequences of events\<close>

text \<open>Everything that drives the session: messages, timers, rotation, and the operator's risk controls.\<close>

datatype session_event =
    SnapshotEv orderbook
  | DeltaEv ticker side int quantity
  | TradeFillEv fill
  | PublicTradeEv public_trade
  | FlattenEv order
  | DisconnectEv
  | SafetyEv
  | RequoteEv
  | SeedEv orderbook
  | AddMarketEv orderbook
  | RemoveMarketEv ticker
  | PreexistingEv "order list"
  | PortfolioRiskEv
  | RiskEv risk_event
  | WindDownEv bool

fun session_step :: "'w env \<Rightarrow> session_event \<Rightarrow> session \<times> 'w \<Rightarrow> session \<times> 'w" where
  "session_step env (SnapshotEv snap) (s, w) = snd (on_snapshot env snap s w)"
| "session_step env (DeltaEv tk sd p d) (s, w) = snd (on_delta env tk sd p d s w)"
| "session_step env (TradeFillEv f) (s, w) = (snd (on_fill f s), w)"
| "session_step env (PublicTradeEv t) (s, w) = (on_trade t s, w)"
| "session_step env (FlattenEv ord) (s, w) = (snd (record_flatten ord s), w)"
| "session_step env DisconnectEv (s, w) = snd (on_disconnect env s w)"
| "session_step env SafetyEv (s, w) = snd (enforce_quote_safety env s w)"
| "session_step env RequoteEv (s, w) = snd (requote_idle_markets env s w)"
| "session_step env (SeedEv snap) (s, w) = snd (seed_orderbook env snap s w)"
| "session_step env (AddMarketEv snap) (s, w) = snd (add_market env snap s w)"
| "session_step env (RemoveMarketEv tk) (s, w) = (snd (remove_market_if_idle tk s), w)"
| "session_step env (PreexistingEv ords) (s, w) = snd (cancel_preexisting_orders env ords s w)"
| "session_step env PortfolioRiskEv (s, w) = (run_portfolio_risk s, w)"
| "session_step env (RiskEv ev) (s, w) = (s\<lparr>ts_rm := risk_step ev (ts_rm s)\<rparr>, w)"
| "session_step env (WindDownEv b) (s, w) = (s\<lparr>ts_quoter := set_reduce_only b (ts_quoter s)\<rparr>, w)"

text \<open>What an event adds to the ledger: the fills of tracked markets and the flatten executions.\<close>

fun session_ledger :: "session_event \<Rightarrow> session \<Rightarrow> ledger \<Rightarrow> ledger" where
  "session_ledger (TradeFillEv f) s L = (if is_tracked s (f_market_ticker f) then ledger_event (FillEv f) L else L)"
| "session_ledger (FlattenEv ord) s L =
     (if is_positive (o_filled_quantity ord) then ledger_event (FillEv (flatten_fill ord)) L else L)"
| "session_ledger _ s L = L"

fun session_run :: "'w env \<Rightarrow> session_event list \<Rightarrow> session \<times> 'w \<Rightarrow> ledger \<Rightarrow> (session \<times> 'w) \<times> ledger" where
  "session_run env [] sw L = (sw, L)"
| "session_run env (ev # evs) sw L = session_run env evs (session_step env ev sw) (session_ledger ev (fst sw) L)"

text \<open>The invariant of a session beside its ledger.\<close>

definition session_ok :: "session \<Rightarrow> ledger \<Rightarrow> bool" where
  "session_ok s L \<longleftrightarrow> books_ok (ts_om s) L \<and> quotes_uncrossed (ts_quoter s)"

lemma session_ok_update [intro]:
  "session_ok s L \<Longrightarrow> same_accounts (ts_om s) om' \<Longrightarrow> quotes_uncrossed q' \<Longrightarrow>
     session_ok (s\<lparr>ts_quoter := q', ts_om := om'\<rparr>) L"
  by (auto simp: session_ok_def intro: same_accounts_books)

lemma session_ok_cong:
  "ts_om s' = ts_om s \<Longrightarrow> ts_quoter s' = ts_quoter s \<Longrightarrow> session_ok s' L = session_ok s L"
  by (simp add: session_ok_def)

lemma session_ok_om:
  "session_ok s L \<Longrightarrow> same_accounts (ts_om s) om' \<Longrightarrow> session_ok (s\<lparr>ts_om := om'\<rparr>) L"
  by (auto simp: session_ok_def intro: same_accounts_books)

lemma forget_uncrossed:
  assumes "quotes_uncrossed q"
  shows "quotes_uncrossed (forget_order tk oid q)" "quotes_uncrossed (forget_ticker tk q)"
    "quotes_uncrossed (reset_quotes q)" "quotes_uncrossed (set_reduce_only b q)"
  using quoter_step_uncrossed [of "(q, undefined, undefined)" undefined "ForgetOrderEv tk oid"]
    quoter_step_uncrossed [of "(q, undefined, undefined)" undefined "ForgetTickerEv tk"]
    quoter_step_uncrossed [of "(q, undefined, undefined)" undefined ResetQuotesEv]
    quoter_step_uncrossed [of "(q, undefined, undefined)" undefined "ReduceOnlyEv b"] assms by simp_all

lemma run_strategy_ok:
  assumes "session_ok s L"
  shows "session_ok (fst (snd (run_strategy env tk book s w))) L"
  using assms quoting.upd_accounts [of "ts_om s" env "ts_rm s" "ts_flow s" "ts_tape s" tk book "ts_quoter s" w]
    quoting.upd_invar [of "ts_quoter s" env "ts_rm s" "ts_flow s" "ts_tape s" tk book "ts_om s" w]
  by (auto simp: run_strategy_def case_prod_beta Let_def session_ok_def intro: same_accounts_books)

lemma quote_or_cool_down_ok:
  assumes "session_ok s L"
  shows "session_ok (fst (snd (quote_or_cool_down env tk book s w))) L"
  using run_strategy_ok [OF assms, of env tk book w]
  by (auto simp: quote_or_cool_down_def Let_def session_ok_def split: prod.splits sum.splits exn.splits)

lemma cancel_all_accounts: "same_accounts om (fst (snd (cancel_all api tk om w)))"
  by (simp add: cancel_all_def cancel_each_accounts)

lemma cancel_all_accounts_eq: "cancel_all api tk om w = (r, om', w') \<Longrightarrow> same_accounts om om'"
  using cancel_all_accounts [of om api tk w] by simp

lemma cancel_tickers_accounts: "same_accounts om (fst (snd (cancel_tickers api tks om w)))"
proof (induction tks arbitrary: om w)
  case (Cons tk tks)
  obtain r om' w' where c: "cancel_all api tk om w = (r, om', w')" by (metis prod_cases3)
  show ?case
    using cancel_all_accounts_eq [OF c] Cons.IH [of om' w']
    by (auto simp: c split: sum.splits exn.splits intro: same_accounts_trans)
qed simp

lemma cancel_all_quotes_ok:
  assumes "session_ok s L"
  shows "session_ok (fst (snd (cancel_all_quotes env s w))) L"
proof -
  have "same_accounts (ts_om s) om'"
    if "cancel_tickers (env_api env) (ts_tickers s) (ts_om s) w = (r, om', w')" for r om' w'
    using cancel_tickers_accounts [of "ts_om s" "env_api env" "ts_tickers s" w] that by simp
  then show ?thesis
    using assms forget_uncrossed(3) [of "ts_quoter s"]
    by (auto simp: cancel_all_quotes_def session_ok_def split: prod.splits sum.splits intro: same_accounts_books)
qed

lemma requote_each_ok:
  "session_ok s L \<Longrightarrow> session_ok (fst (snd (requote_each env books s w))) L"
proof (induction books arbitrary: s w)
  case (Cons x books)
  obtain tk book where x: "x = (tk, book)" by (cases x)
  have step: "session_ok s' L" if "quote_or_cool_down env tk book s w2 = (r, s', w')" for w2 r s' w'
    using quote_or_cool_down_ok [OF Cons.prems, of env tk book w2] that by simp
  show ?case
    using Cons by (auto simp: x Let_def split: prod.splits sum.splits intro: step)
qed simp

lemma kill_dead_feeds_ok:
  "session_ok s L \<Longrightarrow> session_ok (fst (snd (kill_dead_feeds env tks s w))) L"
proof (induction tks arbitrary: s w)
  case (Cons tk tks)
  have step: "session_ok (s\<lparr>feed_dead := D, ts_om := om'\<rparr>) L"
    "session_ok (s\<lparr>feed_dead := D, ts_om := om', ts_quoter := forget_ticker tk (ts_quoter s)\<rparr>) L"
    if "cancel_all (env_api env) tk (ts_om s) w1 = (r, om', w')" for D r om' w1 w'
    using Cons.prems cancel_all_accounts_eq [OF that] forget_uncrossed(2)
    by (auto simp: session_ok_def intro: same_accounts_books)
  show ?case
    using Cons.prems
    by (auto simp: Let_def split: prod.splits sum.splits exn.splits intro: Cons.IH step)
qed simp

lemma cancel_preexisting_ok:
  "session_ok s L \<Longrightarrow> session_ok (fst (snd (cancel_preexisting_orders env ords s w))) L"
proof (induction ords arbitrary: s w)
  case (Cons ord ords)
  have step: "session_ok (s\<lparr>ts_om := om'\<rparr>) L" if "cancel (env_api env) (o_id ord) (ts_om s) w = (r, om', w')" for r om' w'
    using Cons.prems cancel_accounts [of "ts_om s" "env_api env" "o_id ord" w] that by (auto intro: session_ok_om)
  show ?case
    using Cons.prems by (auto split: prod.splits sum.splits exn.splits intro: Cons.IH step)
qed simp

lemma record_fill_ok:
  "books_ok om L \<Longrightarrow> books_ok (snd (record_fill f om)) (ledger_event (FillEv f) L)"
  using om_event_sim [of om L undefined "FillEv f" undefined] record_fill_keys [of om f] by (simp add: books_ok_def)

lemma on_fill_ok:
  assumes "session_ok s L"
  shows "session_ok (snd (on_fill f s)) (session_ledger (TradeFillEv f) s L)"
  using assms record_fill_ok [of "ts_om s" L f] forget_uncrossed(1) [of "ts_quoter s"]
  by (auto simp: on_fill_def Let_def session_ok_def is_tracked_def publish_pnl_def split: prod.splits sum.splits bool.splits)

lemma record_flatten_ok:
  assumes "session_ok s L"
  shows "session_ok (snd (record_flatten ord s)) (session_ledger (FlattenEv ord) s L)"
  using assms record_fill_ok [of "ts_om s" L "flatten_fill ord"]
  by (auto simp: record_flatten_def session_ok_def publish_pnl_def split: prod.splits sum.splits)

lemma seed_ok: "session_ok s L \<Longrightarrow> session_ok (fst (snd (seed_orderbook env snap s w))) L"
proof -
  assume ok: "session_ok s L"
  have "session_ok (fst (snd (run_strategy env tk book (s\<lparr>ob_map := m, seeded_at := a, feed_dead := D\<rparr>) w1))) L"
    for tk book m a D w1
    by (rule run_strategy_ok) (use ok in \<open>simp add: session_ok_def\<close>)
  then show ?thesis
    by (auto simp: seed_orderbook_def Let_def split: prod.splits sum.splits exn.splits) (metis fst_conv snd_conv)+
qed

lemma on_delta_ok: "session_ok s L \<Longrightarrow> session_ok (fst (snd (on_delta env tk sd p d s w))) L"
proof -
  assume ok: "session_ok s L"
  have s1: "session_ok (s\<lparr>ob_map := m, last_book_update := a, feed_dead := D\<rparr>) L" for m a D
    using ok by (simp add: session_ok_def)
  show ?thesis
    using s1 quote_or_cool_down_ok [OF s1]
    by (auto simp: on_delta_def Let_def case_prod_beta)
qed

lemma session_step_ok:
  assumes "session_ok s L"
  shows "session_ok (fst (session_step env ev (s, w))) (session_ledger ev s L)"
proof (cases ev)
  case (AddMarketEv snap)
  have "session_ok (if \<not> is_tracked s (ob_ticker snap) then s\<lparr>ts_tickers := ts_tickers s @ [ob_ticker snap]\<rparr> else s) L"
    using assms by (simp add: session_ok_def)
  from seed_ok [OF this] show ?thesis
    unfolding AddMarketEv session_step.simps add_market_def session_ledger.simps .
next
  case RequoteEv
  then show ?thesis using assms by (simp add: requote_idle_markets_def requote_each_ok)
next
  case SafetyEv
  then show ?thesis using assms by (simp add: enforce_quote_safety_def cancel_all_quotes_ok kill_dead_feeds_ok)
next
  case (WindDownEv b)
  then show ?thesis using assms forget_uncrossed(4) by (simp add: session_ok_def)
qed (use assms on_fill_ok [OF assms] record_flatten_ok [OF assms] on_delta_ok [OF assms, of env] cancel_all_quotes_ok [OF assms, of env]
    seed_ok [OF assms, of env] cancel_preexisting_ok [OF assms, of env] in
  \<open>auto simp: session_ok_def on_snapshot_def on_trade_def on_disconnect_def remove_market_if_idle_def
     run_portfolio_risk_def Let_def split: prod.splits\<close>)

lemma new_session_ok:
  "session_ok (new_session tickers new_order_manager rm (new_quoter cfg model limits) flow tape prior) new_ledger"
  using om_run_sim [of undefined "[]" undefined]
  by (simp add: session_ok_def books_ok_def new_session_def om_run_def ledger_run_def quotes_uncrossed_def new_quoter_def)
    (simp add: new_order_manager_def)

text \<open>
  C5. The whole session keeps the books: from a fresh order manager and quoter, after any sequence
  of snapshots, deltas, fills, prints, disconnects, safety and requote timers, seedings, market
  rotations, flattens, risk events and wind-downs, whatever the exchange and the clocks answer,
  the order manager simulates the ledger of the tracked fills and flatten executions it was given,
  and no market's own bid and ask are crossed.
\<close>

theorem session_refines_ledger:
  "case session_run env evs (new_session tickers new_order_manager rm (new_quoter cfg model limits) flow tape prior, w) new_ledger of
     ((s, w'), L) \<Rightarrow> simulates (ts_om s) L \<and> quotes_uncrossed (ts_quoter s)"
proof -
  have run: "session_ok s L \<Longrightarrow> session_run env evs (s, w) L = ((s', w'), L') \<Longrightarrow> session_ok s' L'"
    for s L s' w' L'
  proof (induction evs arbitrary: s w L)
    case (Cons ev evs)
    obtain s1 w1 where st: "session_step env ev (s, w) = (s1, w1)" by force
    have "session_ok s1 (session_ledger ev s L)" using session_step_ok [OF Cons.prems(1), of env ev w] st by simp
    from Cons.IH [OF this] show ?case using Cons.prems(2) st by simp
  qed simp
  from run [OF new_session_ok] show ?thesis by (auto simp: session_ok_def books_ok_def split: prod.splits)
qed

section \<open>No exception escapes\<close>

text \<open>
  The configuration the quoter's guarantee needs, for the session and the exchange client it uses.
\<close>

definition good_session :: "'w env \<Rightarrow> session \<Rightarrow> bool" where
  "good_session env s \<longleftrightarrow> api_no_abort (env_api env) \<and> band_valid (ts_rm s)
     \<and> 0 < quote_size (q_config (ts_quoter s)) \<and> \<bar>flow_lean_cents (q_config (ts_quoter s))\<bar> \<le> 1
     \<and> positive_b (inventory_b (ts_quoter s))
     \<and> (q_model (ts_quoter s) = heuristic_estimate \<or> (\<exists>wt. q_model (ts_quoter s) = clearing_price_estimate wt)
        \<or> (\<exists>beta. q_model (ts_quoter s) = view_based_estimate beta))"

lemma good_session_update:
  assumes "good_session env s"
  shows "no_abort (quoter_update env (ts_rm s) flow tape tk book (ts_quoter s) om w)"
  using assms heuristic.update_no_abort clearing.update_no_abort view_based.update_no_abort
  unfolding good_session_def by metis

lemma good_session_cong:
  "good_session env s \<Longrightarrow> ts_rm s' = ts_rm s \<Longrightarrow> q_config (ts_quoter s') = q_config (ts_quoter s) \<Longrightarrow>
   q_model (ts_quoter s') = q_model (ts_quoter s) \<Longrightarrow> inventory_b (ts_quoter s') = inventory_b (ts_quoter s) \<Longrightarrow>
   good_session env s'"
  by (simp add: good_session_def)

lemma run_strategy_good:
  assumes "good_session env s" and "run_strategy env tk book s w = (r, s', w')"
  shows "good_session env s'" "r \<noteq> Inl (Abort what)"
proof -
  let ?u = "quoter_update env (ts_rm s) (ts_flow s) (ts_tape s) tk book (ts_quoter s) (ts_om s) w"
  have r: "r = fst ?u" and s': "s' = s\<lparr>ts_quoter := fst (snd ?u), ts_om := fst (snd (snd ?u))\<rparr>"
    using assms(2) by (auto simp: run_strategy_def case_prod_beta Let_def)
  show "good_session env s'"
    by (rule good_session_cong [OF assms(1)]) (simp_all add: s' quoter_update_frame)
  show "r \<noteq> Inl (Abort what)" using good_session_update [OF assms(1)] by (simp add: r no_abort_def)
qed

lemma quote_or_cool_down_good:
  assumes "good_session env s" and "quote_or_cool_down env tk book s w = (r, s', w')"
  shows "good_session env s'" "r = Inr ()"
proof -
  obtain r0 s0 w0 where rs: "run_strategy env tk book s w = (r0, s0, w0)" by (metis prod_cases3)
  note good = run_strategy_good [OF assms(1) rs]
  have cool: "good_session env (s0\<lparr>cooldown_until := c\<rparr>)" for c
    by (rule good_session_cong [OF good(1)]) simp_all
  show "good_session env s'" "r = Inr ()"
    using assms(2) good cool
    by (auto simp: quote_or_cool_down_def rs Let_def split: prod.splits sum.splits exn.splits)
qed

lemma quote_or_cool_down_total: "good_session env s \<Longrightarrow> fst (quote_or_cool_down env tk book s w) = Inr ()"
  using quote_or_cool_down_good(2) by (metis prod.collapse)

lemma requote_each_good: "good_session env s \<Longrightarrow> fst (requote_each env books s w) = Inr ()"
proof (induction books arbitrary: s w)
  case (Cons x books)
  obtain tk book where x: "x = (tk, book)" by (cases x)
  show ?case
    using Cons by (auto simp: x Let_def split: prod.splits sum.splits dest: quote_or_cool_down_good)
qed simp

lemma cancel_each_total: "api_no_abort api \<Longrightarrow> fst (cancel_each api oids om w) = Inr ()"
proof (induction oids arbitrary: om w)
  case (Cons oid oids)
  have "cancel api oid om w \<noteq> (Inl (Abort m), om', w')" for m om' w'
    using api_no_abortD(2) [OF Cons.prems] by (auto simp: cancel_def split: prod.splits sum.splits)
  then show ?case using Cons by (auto split: prod.splits sum.splits exn.splits)
qed simp

lemma cancel_all_total: "api_no_abort api \<Longrightarrow> fst (cancel_all api tk om w) = Inr ()"
  by (simp add: cancel_all_def cancel_each_total)

lemma cancel_tickers_total: "api_no_abort api \<Longrightarrow> fst (cancel_tickers api tks om w) = Inr ()"
proof (induction tks arbitrary: om w)
  case (Cons tk tks)
  obtain r om' w' where c: "cancel_all api tk om w = (r, om', w')" by (metis prod_cases3)
  then have "r = Inr ()" using cancel_all_total [OF Cons.prems, of tk om w] by simp
  then show ?case using Cons c by simp
qed simp

lemma cancel_all_quotes_total: "api_no_abort (env_api env) \<Longrightarrow> fst (cancel_all_quotes env s w) = Inr ()"
  using cancel_tickers_total [of "env_api env" "ts_tickers s" "ts_om s" w]
  by (auto simp: cancel_all_quotes_def split: prod.splits sum.splits)

lemma kill_dead_feeds_total: "api_no_abort (env_api env) \<Longrightarrow> fst (kill_dead_feeds env tks s w) = Inr ()"
proof (induction tks arbitrary: s w)
  case (Cons tk tks)
  have "cancel_all (env_api env) tk om w \<noteq> (Inl e, om', w')" for om w e om' w'
    using cancel_all_total [OF Cons.prems, of tk om w] by auto
  then show ?case using Cons by (auto simp: Let_def split: prod.splits sum.splits exn.splits)
qed simp

lemma cancel_preexisting_total:
  "api_no_abort (env_api env) \<Longrightarrow> fst (cancel_preexisting_orders env ords s w) = Inr ()"
proof (induction ords arbitrary: s w)
  case (Cons ord ords)
  have "cancel (env_api env) (o_id ord) om w \<noteq> (Inl (Abort m), om', w')" for om w m om' w'
    using api_no_abortD(2) [OF Cons.prems] by (auto simp: cancel_def split: prod.splits sum.splits)
  then show ?case using Cons by (auto split: prod.splits sum.splits exn.splits)
qed simp

lemma seed_total: "good_session env s \<Longrightarrow> fst (seed_orderbook env snap s w) = Inr ()"
proof -
  assume good: "good_session env s"
  have "good_session env (s\<lparr>ob_map := m, seeded_at := a, feed_dead := D\<rparr>)" for m a D
    by (rule good_session_cong [OF good]) simp_all
  then show ?thesis
    by (auto simp: seed_orderbook_def Let_def split: prod.splits sum.splits exn.splits dest: run_strategy_good)
qed

lemma handler_total:
  assumes "good_session env s"
  shows "fst (on_snapshot env snap s w) = Inr ()" "fst (on_delta env tk sd p d s w) = Inr ()"
    "fst (seed_orderbook env snap s w) = Inr ()" "fst (add_market env snap s w) = Inr ()"
    "fst (requote_idle_markets env s w) = Inr ()" "fst (enforce_quote_safety env s w) = Inr ()"
    "fst (on_disconnect env s w) = Inr ()" "fst (cancel_preexisting_orders env ords s w) = Inr ()"
proof -
  have api: "api_no_abort (env_api env)" using assms by (simp add: good_session_def)
  have "good_session env (s\<lparr>ob_map := m, last_book_update := a, feed_dead := D\<rparr>)" for m a D
    by (rule good_session_cong [OF assms]) simp_all
  then show "fst (on_delta env tk sd p d s w) = Inr ()"
    by (auto simp: on_delta_def Let_def split: prod.splits intro: quote_or_cool_down_total)
  have "good_session env (s\<lparr>ts_tickers := ts\<rparr>)" for ts
    by (rule good_session_cong [OF assms]) simp_all
  then show "fst (add_market env snap s w) = Inr ()" using assms by (simp add: add_market_def seed_total)
qed (use assms requote_each_good [OF assms] seed_total [OF assms] in \<open>simp_all add: good_session_def on_snapshot_def Let_def case_prod_beta requote_idle_markets_def
  enforce_quote_safety_def cancel_all_quotes_total kill_dead_feeds_total on_disconnect_def cancel_preexisting_total\<close>)

text \<open>
  C13. The loop survives every failure of the exchange: with a pricing model of the library, a
  positive quote size, a lean of at most a cent, a risk band inside 1 to 99 cents and a client
  that only raises standard exceptions, no book message, seeding, adoption of a market, requote
  timer, safety check, disconnect or startup cancel ever lets an exception escape.
\<close>

theorem handlers_never_raise:
  assumes "good_session env s"
  shows "fst (on_snapshot env snap s w) = Inr () \<and> fst (on_delta env tk sd p d s w) = Inr ()
    \<and> fst (seed_orderbook env snap s w) = Inr () \<and> fst (add_market env snap s w) = Inr ()
    \<and> fst (requote_idle_markets env s w) = Inr () \<and> fst (enforce_quote_safety env s w) = Inr ()
    \<and> fst (on_disconnect env s w) = Inr () \<and> fst (cancel_preexisting_orders env ords s w) = Inr ()"
  by (intro conjI handler_total assms)

definition demo_session :: "ticker list \<Rightarrow> session" where
  "demo_session tickers = new_session tickers new_order_manager (new_risk_manager default_risk_limits)
     (new_quoter default_quoter_config (clearing_price_estimate 0) default_risk_limits) None None Map.empty"

lemma demo_session_good: "good_session ticking_env (demo_session tickers)"
  using new_quoter_b [of default_quoter_config "clearing_price_estimate 0" default_risk_limits]
  by (auto simp: good_session_def demo_session_def new_session_def new_quoter_def default_quoter_config_def
    ticking_env_def accepting_api_def api_no_abort_def band_valid_def new_risk_manager_def default_risk_limits_def)

theorem handlers_never_raise_witness:
  "fst (on_delta ticking_env ''M'' Yes 45 (from_centi 100) (demo_session [''M'']) 1) = Inr ()"
  using handlers_never_raise [OF demo_session_good] by blast

section \<open>A halt takes the quotes down\<close>

lemma orders_of_mono:
  assumes "keys_distinct (open_orders om)" and "keys_distinct (open_orders om')"
    and "\<And>oid ord. map_of (open_orders om') oid = Some ord \<Longrightarrow> map_of (open_orders om) oid = Some ord"
    and "orders_of tk om = []"
  shows "orders_of tk om' = []"
proof -
  have "o_market_ticker ord \<noteq> tk" if "(oid, ord) \<in> set (open_orders om')" for oid ord
  proof -
    have "(oid, ord) \<in> set (open_orders om)"
      using assms(3) in_set_map_of [OF assms(1)] in_set_map_of [OF assms(2)] that by blast
    then show ?thesis using assms(4) by (fastforce simp: orders_of_def filter_empty_conv)
  qed
  then show ?thesis by (fastforce simp: orders_of_def filter_empty_conv)
qed

lemma cancel_all_keys:
  assumes "raises_only_exceptions api" and "keys_distinct (open_orders om)" and "cancel_all api tk om w = (r, om', w')"
  shows "keys_distinct (open_orders om')"
  using cancel_each_frame [OF assms(1,2)] assms(3) unfolding cancel_all_def by blast

lemma cancel_tickers_clear:
  assumes "raises_only_exceptions api" and "\<forall>oid w. fst (api_cancel_order api oid w) = Inr True"
    and "keys_distinct (open_orders om)" and "cancel_tickers api tks om w = (r, om', w')"
  shows "r = Inr () \<and> (\<forall>tk. tk \<in> set tks \<or> orders_of tk om = [] \<longrightarrow> orders_of tk om' = [])"
  using assms(3,4)
proof (induction tks arbitrary: om w)
  case (Cons tk tks)
  obtain r1 om1 w1 where c: "cancel_all api tk om w = (r1, om1, w1)" by (metis prod_cases3)
  note fr = cancel_all_frame [OF assms(1) Cons.prems(1) c] and keys = cancel_all_keys [OF assms(1) Cons.prems(1) c]
  have "orders_of tk om1 = []" using fr assms(2) by blast
  moreover have "orders_of t om1 = []" if "orders_of t om = []" for t
    by (rule orders_of_mono [OF Cons.prems(1) keys _ that]) (use fr in blast)
  moreover have "cancel_tickers api tks om1 w1 = (r, om', w')"
    using Cons.prems(2) fr by (simp add: c)
  ultimately show ?case using Cons.IH [OF keys, of w1] by auto
qed simp

lemma cancel_all_quotes_clears:
  assumes "raises_only_exceptions (env_api env)" and "\<forall>oid w. fst (api_cancel_order (env_api env) oid w) = Inr True"
    and "keys_distinct (open_orders (ts_om s))" and "cancel_all_quotes env s w = (r, s', w')"
  shows "r = Inr ()" "\<And>tk. is_tracked s tk \<Longrightarrow> orders_of tk (ts_om s') = []" "own_quotes (ts_quoter s') = Map.empty"
    "same_accounts (ts_om s) (ts_om s')" "ts_rm s' = ts_rm s" "ts_tickers s' = ts_tickers s"
proof -
  obtain r1 om1 w1 where c: "cancel_tickers (env_api env) (ts_tickers s) (ts_om s) w = (r1, om1, w1)" by (metis prod_cases3)
  note clear = cancel_tickers_clear [OF assms(1,2,3) c]
  have "same_accounts (ts_om s) om1"
    using cancel_tickers_accounts [of "ts_om s" "env_api env" "ts_tickers s" w] c by simp
  then show "r = Inr ()" "\<And>tk. is_tracked s tk \<Longrightarrow> orders_of tk (ts_om s') = []" "own_quotes (ts_quoter s') = Map.empty"
    "same_accounts (ts_om s) (ts_om s')" "ts_rm s' = ts_rm s" "ts_tickers s' = ts_tickers s"
    using assms(4) clear c by (auto simp: cancel_all_quotes_def reset_quotes_def is_tracked_def orders_of_def split: if_splits)
qed

text \<open>
  A halt takes the quotes down: when the risk manager is halted and the exchange accepts the
  cancels, one safety check leaves no order of any tracked market open, the quoter tracks no
  quotes, positions and profit are untouched, trading stays halted, and the requote timer places
  nothing.
\<close>

theorem halt_takes_quotes_down:
  assumes "is_halted (ts_rm s)" and "keys_distinct (open_orders (ts_om s))"
    and "raises_only_exceptions (env_api env)"
    and "\<forall>oid w. fst (api_cancel_order (env_api env) oid w) = Inr True"
    and "enforce_quote_safety env s w = (r, s', w')"
  shows "r = Inr () \<and> (\<forall>tk. is_tracked s tk \<longrightarrow> orders_of tk (ts_om s') = [])
    \<and> own_quotes (ts_quoter s') = Map.empty \<and> same_accounts (ts_om s) (ts_om s')
    \<and> is_halted (ts_rm s') \<and> requote_idle_markets env s' w' = (Inr (), s', w')"
proof -
  have caq: "cancel_all_quotes env s w = (r, s', w')" using assms(1,5) by (simp add: enforce_quote_safety_def)
  note clears = cancel_all_quotes_clears [OF assms(3,4,2) caq]
  show ?thesis using clears assms(1) by (simp add: requote_idle_markets_def)
qed

theorem halt_takes_quotes_down_witness:
  "orders_of ''M'' (ts_om (fst (snd (enforce_quote_safety ticking_env
      ((demo_session [''M''])\<lparr>ts_om := two_orders, ts_rm := halt (new_risk_manager default_risk_limits)\<rparr>) 3)))) = []"
proof -
  let ?s = "(demo_session [''M''])\<lparr>ts_om := two_orders, ts_rm := halt (new_risk_manager default_risk_limits)\<rparr>"
  let ?r = "enforce_quote_safety ticking_env ?s 3"
  have "is_halted (ts_rm ?s)" "keys_distinct (open_orders (ts_om ?s))" "raises_only_exceptions (env_api ticking_env)"
    "\<forall>oid w. fst (api_cancel_order (env_api ticking_env) oid w) = Inr True" "is_tracked ?s ''M''"
    by (simp_all add: halted_iff halt_def two_orders_open ticking_env_def is_tracked_def demo_session_def new_session_def)
  then show ?thesis using halt_takes_quotes_down [of ?s ticking_env 3 "fst ?r" "fst (snd ?r)" "snd (snd ?r)"] by simp
qed

section \<open>Fills release their quotes\<close>

text \<open>
  A side does not go dark after a fill: when a newly recorded fill leaves its order no longer
  open, the quoter stops tracking that order on either side, so that the next update can place a
  new one; and the risk manager has just been refreshed from the order manager.
\<close>

theorem fill_releases_quote:
  assumes "on_fill f s = (Inr True, s')" and "f_order_id f \<noteq> []"
    and "map_of (open_orders (ts_om s')) (f_order_id f) = None"
    and "own_quotes (ts_quoter s') (f_market_ticker f) = Some own"
  shows "bid_order_id own \<noteq> f_order_id f \<and> ask_order_id own \<noteq> f_order_id f
    \<and> cached_open_order_count (ts_rm s') = count_orders (open_orders (ts_om s'))
    \<and> (\<forall>tk \<in> set (ts_tickers s'). cached_position (ts_rm s') tk = Some (net_position (ts_om s') tk))"
proof -
  obtain om' where om': "ts_om s' = om'" "ts_tickers s' = ts_tickers s"
      "ts_rm s' = risk_update om' (ts_tickers s) (ts_rm s)"
      "map_of (open_orders om') (f_order_id f) = None \<Longrightarrow>
         ts_quoter s' = forget_order (f_market_ticker f) (f_order_id f) (ts_quoter s)"
    using assms(1)
    by (auto simp: on_fill_def Let_def publish_pnl_def split: if_splits prod.splits sum.splits bool.splits)
  then have "own_quotes (forget_order (f_market_ticker f) (f_order_id f) (ts_quoter s)) (f_market_ticker f) = Some own"
    using assms(3,4) by simp
  then have "bid_order_id own \<noteq> f_order_id f \<and> ask_order_id own \<noteq> f_order_id f"
    using assms(2) by (auto simp: forget_order_def Let_def split: option.splits if_splits)
  then show ?thesis
    using om' by (simp add: risk_update_effect cached_positions_lookup)
qed

definition quoted_session :: session where
  "quoted_session = (demo_session [''M''])\<lparr>ts_om := two_orders,
     ts_quoter := (ts_quoter (demo_session [''M'']))\<lparr>own_quotes := [''M'' \<mapsto> new_own_quote\<lparr>bid_order_id := ''o''\<rparr>]\<rparr>\<rparr>"

definition closing_fill :: fill where
  "closing_fill = \<lparr>f_trade_id = ''t9'', f_order_id = ''o'', f_market_ticker = ''M'', f_side = Yes,
     f_price_cents = 44, f_quantity = from_centi 1000, f_fee_cents = 0, f_is_taker = False, f_timestamp = 0\<rparr>"

lemma closing_fill_effect:
  "fst (on_fill closing_fill quoted_session) = Inr True"
  "map_of (open_orders (ts_om (snd (on_fill closing_fill quoted_session)))) ''o'' = None"
  "own_quotes (ts_quoter (snd (on_fill closing_fill quoted_session))) ''M'' = Some new_own_quote"
  "ts_tickers (snd (on_fill closing_fill quoted_session)) = [''M'']"
  by (simp_all add: on_fill_def closing_fill_def quoted_session_def demo_session_def new_session_def
    is_tracked_def Let_def record_fill_def two_orders_def place_def accepting_api_def price_defs
    new_order_manager_def fill_key_def from_contracts_def kCentiPerContract_def publish_pnl_def
    forget_order_def new_own_quote_def apply_to_order_def AList.delete_eq)

lemma closing_fill_fields: "f_order_id closing_fill = ''o''" "f_market_ticker closing_fill = ''M''"
  by (simp_all add: closing_fill_def)

theorem fill_releases_quote_witness:
  "bid_order_id new_own_quote \<noteq> ''o''
   \<and> cached_position (ts_rm (snd (on_fill closing_fill quoted_session))) ''M''
     = Some (net_position (ts_om (snd (on_fill closing_fill quoted_session))) ''M'')"
proof -
  let ?r = "on_fill closing_fill quoted_session"
  show ?thesis
    using fill_releases_quote [of closing_fill quoted_session "snd ?r" new_own_quote] closing_fill_effect
    by (cases ?r) (simp add: closing_fill_fields)
qed

section \<open>Rotation\<close>

text \<open>
  Exposure is never rotated away: a market leaves the session exactly when it is tracked, flat
  and has no resting order, and otherwise the session is unchanged; rotating one out touches no
  order, position or profit and no other market, and a later book message for it sends nothing to
  the exchange.
\<close>

theorem rotation_safe:
  "case remove_market_if_idle tk s of (removed, s') \<Rightarrow>
     (removed \<longleftrightarrow> is_tracked s tk \<and> net_position (ts_om s) tk = 0 \<and> orders_of tk (ts_om s) = [])
     \<and> ts_om s' = ts_om s
     \<and> (if removed
        then \<not> is_tracked s' tk \<and> book_of s' tk = empty_book
          \<and> ts_om (fst (snd (on_delta env tk sd p d s' w))) = ts_om s
          \<and> (\<forall>t. t = tk \<or> (is_tracked s' t \<longleftrightarrow> is_tracked s t) \<and> book_of s' t = book_of s t)
        else s' = s)"
proof -
  have "has_resting_order (ts_om s) tk \<longleftrightarrow> orders_of tk (ts_om s) \<noteq> []"
    by (fastforce simp: has_resting_order_def orders_of_def filter_empty_conv split_def)
  moreover have "is_zero q \<longleftrightarrow> q = 0" for q :: quantity by (simp add: is_zero_def)
  ultimately show ?thesis
    by (auto simp: remove_market_if_idle_def is_tracked_def book_of_def lookup_or_def on_delta_def Let_def
      case_prod_beta)
qed

text \<open>
  Rotation drops what the market earned: once a market has been rotated out, its total in the
  persisted carry falls back to what earlier sessions left, and the profit the loss limit is
  compared with no longer contains its realized profit or loss.
\<close>

theorem rotation_forgets_pnl:
  assumes "remove_market_if_idle tk s = (True, s')" and "distinct (ts_tickers s)"
  shows "carried_totals s' tk = prior_pnl s tk
    \<and> cached_total_pnl_cents (risk_update (ts_om s') (ts_tickers s') (ts_rm s'))
      = cached_total_pnl_cents (risk_update (ts_om s) (ts_tickers s) (ts_rm s)) - realized_pnl (ts_om s) tk"
proof -
  have s': "ts_om s' = ts_om s" "ts_tickers s' = remove1 tk (ts_tickers s)" "prior_pnl s' = prior_pnl s"
    "tk \<in> set (ts_tickers s)" "tk \<notin> set (ts_tickers s')"
    using assms by (auto simp: remove_market_if_idle_def is_tracked_def distinct_remove1_removeAll removeAll_filter_not_eq
      split: if_splits intro!: filter_cong)
  have "fold (\<lambda>tk totals.
       let session_pnl = realized_pnl (ts_om s') tk in
       if session_pnl \<noteq> 0 \<or> totals tk \<noteq> None
       then totals(tk \<mapsto> prior_pnl_for (prior_pnl s') tk + session_pnl) else totals) tks m tk = m tk"
    if "tk \<notin> set tks" for tks m
    using that by (induction tks arbitrary: m) (auto simp: Let_def)
  then have "carried_totals s' tk = prior_pnl s tk" using s' by (simp add: carried_totals_def)
  moreover have "cached_total_pnl_cents (risk_update om tks rm) = sum_list (map (realized_pnl om) tks)" for om tks rm
  proof -
    have "foldl (\<lambda>acc tk. acc + realized_pnl om tk) a tks = a + sum_list (map (realized_pnl om) tks)" for a
      by (induction tks arbitrary: a) auto
    then show ?thesis by (simp add: risk_update_def Let_def set_constraint_def)
  qed
  ultimately show ?thesis using s' by (simp add: sum_list_map_remove1 [of tk "ts_tickers s"])
qed

definition losing_fill :: "string \<Rightarrow> side \<Rightarrow> fill" where
  "losing_fill trade sd = \<lparr>f_trade_id = trade, f_order_id = ''x'', f_market_ticker = ''M'', f_side = sd,
     f_price_cents = 60, f_quantity = from_centi 100, f_fee_cents = 0, f_is_taker = False, f_timestamp = 0\<rparr>"

definition flat_at_a_loss :: session where
  "flat_at_a_loss = (demo_session [''M''])\<lparr>ts_om :=
     snd (record_fill (losing_fill ''t2'' No) (snd (record_fill (losing_fill ''t1'' Yes) new_order_manager)))\<rparr>"

lemma flat_at_a_loss_eval:
  "realized_pnl (ts_om flat_at_a_loss) ''M'' = - 20" "fst (remove_market_if_idle ''M'' flat_at_a_loss)"
  "distinct (ts_tickers flat_at_a_loss)" "prior_pnl flat_at_a_loss = Map.empty"
  by (simp_all add: flat_at_a_loss_def demo_session_def new_session_def losing_fill_def record_fill_def
    new_order_manager_def fill_key_def om_views price_defs Let_def lookup_or_def remove_market_if_idle_def
    is_tracked_def is_zero_def has_resting_order_def apply_to_order_def match_lots.simps contracts_def
    kCentiPerContract_def min_quantity_def kContractMaxCents_def)

theorem rotation_forgets_pnl_witness:
  "realized_pnl (ts_om flat_at_a_loss) ''M'' = - 20
   \<and> carried_totals (snd (remove_market_if_idle ''M'' flat_at_a_loss)) ''M'' = None"
  using rotation_forgets_pnl [of "''M''" flat_at_a_loss "snd (remove_market_if_idle ''M'' flat_at_a_loss)"]
    flat_at_a_loss_eval by (cases "remove_market_if_idle ''M'' flat_at_a_loss") simp

text \<open>
  The requote timer quotes markets the session does not track: a snapshot of a market that was
  never adopted stores its book, the timer then rests a bid and an ask on it, a disconnect leaves
  both open because only tracked markets are cancelled, and a fill on them changes no position.
\<close>

theorem untracked_market_quoted:
  "let s = fst (session_step ticking_env DisconnectEv (session_step ticking_env RequoteEv
             (session_step ticking_env (SnapshotEv small_book) (demo_session [], 1))))
   in \<not> is_tracked s ''M'' \<and> orders_of ''M'' (ts_om s) = [''o'', ''oo'']
     \<and> on_fill closing_fill s = (Inr False, s)"
proof -
  have "apply_snapshot small_book = small_book" "ob_ticker small_book = ''M''"
    by (simp_all add: apply_snapshot_def small_book_def)
  then show ?thesis
    by (simp add: Let_def on_snapshot_def on_disconnect_def cancel_all_quotes_def requote_idle_markets_def
      feed_confirmed_def has_resting_order_def cooling_down_def quote_or_cool_down_def run_strategy_def
      demo_session_def new_session_def first_update_eval on_fill_def is_tracked_def orders_of_def halted_iff
      closing_fill_def)
qed

end
