(* ===== verification/Exchange_Interface.thy ===== *)
theory Exchange_Interface
  imports Fixed_Point
begin

text \<open>
  What the exchange clients are built on: effects that may raise, the JSON library, the HTTP
  transport interface (\<open>source/net/http_transport.hpp\<close>), request signing
  (\<open>source/net/auth.cpp\<close>) and the timestamps of the wire (\<open>parse_iso8601\<close> of
  \<open>source/exchange/rest_client.cpp\<close>). The JSON library (nlohmann), OpenSSL's signature and the
  transport are third-party code or the network: they are parameters, with the documented
  behaviour the clients rely on stated as predicates. \<open>'j\<close> is the type of JSON values, \<open>'t\<close> of
  message texts, \<open>'w\<close> of states of the world.
\<close>

section \<open>Effects that may raise\<close>

type_synonym ('a, 'w) io = "'w \<Rightarrow> (exn + 'a) \<times> 'w"

definition return_io :: "'a \<Rightarrow> ('a, 'w) io" where
  "return_io x w = (Inr x, w)"

definition bind_io :: "('a, 'w) io \<Rightarrow> ('a \<Rightarrow> ('b, 'w) io) \<Rightarrow> ('b, 'w) io" where
  "bind_io m f w = (case m w of (Inl e, w') \<Rightarrow> (Inl e, w') | (Inr x, w') \<Rightarrow> f x w')"

definition lift_result :: "exn + 'a \<Rightarrow> ('a, 'w) io" where
  "lift_result r w = (r, w)"

definition lift_read :: "('w \<Rightarrow> 'a \<times> 'w) \<Rightarrow> ('a, 'w) io" where
  "lift_read f w = (let (x, w') = f w in (Inr x, w'))"

text \<open>\<open>catch (const std::exception &)\<close>.\<close>

definition catch_io :: "('a, 'w) io \<Rightarrow> (string \<Rightarrow> ('a, 'w) io) \<Rightarrow> ('a, 'w) io" where
  "catch_io m h w = (case m w of (Inl (StdException what), w') \<Rightarrow> h what w' | (r, w') \<Rightarrow> (r, w'))"

lemma bind_io_simps [simp]:
  "m w = (Inl e, w') \<Longrightarrow> bind_io m f w = (Inl e, w')"
  "m w = (Inr x, w') \<Longrightarrow> bind_io m f w = f x w'"
  "bind_io (return_io x) f w = f x w" "bind_io (lift_result (Inr x)) f w = f x w"
  "bind_io (lift_result (Inl e)) f w = (Inl e, w)"
  by (simp_all add: bind_io_def return_io_def lift_result_def)

text \<open>Effects that never abort the process.\<close>

definition raises_std :: "('a, 'w) io \<Rightarrow> bool" where
  "raises_std m \<longleftrightarrow> (\<forall>w what w'. m w \<noteq> (Inl (Abort what), w'))"

definition std_result :: "exn + 'a \<Rightarrow> bool" where
  "std_result r \<longleftrightarrow> (\<forall>what. r \<noteq> Inl (Abort what))"

named_theorems raises_std_intros

lemma std_result_simps [simp]: "std_result (Inr x)" "std_result (Inl (StdException what))"
  by (simp_all add: std_result_def)

lemma std_result_bindE [raises_std_intros]: "std_result r \<Longrightarrow> (\<And>x. std_result (f x)) \<Longrightarrow> std_result (bindE r f)"
  by (cases r) (auto simp: std_result_def)

lemma raises_std_return [raises_std_intros]: "raises_std (return_io x)"
  by (simp add: raises_std_def return_io_def)

lemma raises_std_bind [raises_std_intros]:
  "raises_std m \<Longrightarrow> (\<And>x. raises_std (f x)) \<Longrightarrow> raises_std (bind_io m f)"
  unfolding raises_std_def bind_io_def by (force split: prod.splits sum.splits)

lemma raises_std_lift [raises_std_intros]: "std_result r \<Longrightarrow> raises_std (lift_result r)"
  by (auto simp: raises_std_def std_result_def lift_result_def)

lemma raises_std_read [raises_std_intros]: "raises_std (lift_read f)"
  by (auto simp: raises_std_def lift_read_def split: prod.splits)

lemma raises_std_catch [raises_std_intros]:
  "raises_std m \<Longrightarrow> (\<And>what. raises_std (h what)) \<Longrightarrow> raises_std (catch_io m h)"
  unfolding raises_std_def catch_io_def by (force split: prod.splits sum.splits exn.splits)

lemma raises_std_if [raises_std_intros]: "raises_std a \<Longrightarrow> raises_std b \<Longrightarrow> raises_std (if c then a else b)"
  by simp

fun map_result :: "('a \<Rightarrow> exn + 'b) \<Rightarrow> 'a list \<Rightarrow> exn + 'b list" where
  "map_result f [] = Inr []"
| "map_result f (x # xs) = bindE (f x) (\<lambda>y. bindE (map_result f xs) (\<lambda>ys. Inr (y # ys)))"

lemma map_result_Inr: "(\<And>x. x \<in> set xs \<Longrightarrow> f x = Inr (g x)) \<Longrightarrow> map_result f xs = Inr (map g xs)"
  by (induction xs) auto

lemma std_result_map_result [raises_std_intros]: "(\<And>x. std_result (f x)) \<Longrightarrow> std_result (map_result f xs)"
  by (induction xs) (auto intro!: std_result_bindE)

section \<open>The JSON library\<close>

record ('j, 't) json_ops =
  js_parse :: "'t \<Rightarrow> exn + 'j"
  js_dump :: "'j \<Rightarrow> 't"
  js_literal :: "string \<Rightarrow> 't"
  js_at :: "'j \<Rightarrow> string \<Rightarrow> exn + 'j"
  js_value :: "'j \<Rightarrow> string \<Rightarrow> exn + 'j option"
  js_find :: "'j \<Rightarrow> string \<Rightarrow> 'j option"
  js_index :: "'j \<Rightarrow> nat \<Rightarrow> exn + 'j"
  js_elements :: "'j \<Rightarrow> 'j list"
  js_get_string :: "'j \<Rightarrow> exn + string"
  js_get_int :: "'j \<Rightarrow> exn + int"
  js_get_real :: "'j \<Rightarrow> exn + real"
  js_get_bool :: "'j \<Rightarrow> exn + bool"
  js_is_integer :: "'j \<Rightarrow> bool"
  js_is_number :: "'j \<Rightarrow> bool"
  js_is_string :: "'j \<Rightarrow> bool"
  js_is_null :: "'j \<Rightarrow> bool"
  js_object :: "(string \<times> 'j) list \<Rightarrow> 'j"
  js_array :: "'j list \<Rightarrow> 'j"
  js_string :: "string \<Rightarrow> 'j"
  js_int :: "int \<Rightarrow> 'j"
  js_bool :: "bool \<Rightarrow> 'j"
  js_real :: "real \<Rightarrow> 'j"
  js_is_array :: "'j \<Rightarrow> bool"
  js_items :: "'j \<Rightarrow> (string \<times> 'j) list"
  js_dump_indent :: "int \<Rightarrow> 'j \<Rightarrow> 't"

text \<open>
  \<open>js_at\<close> is \<open>at\<close> with a key; \<open>js_value\<close> is what \<open>value\<close> finds before it falls back on its default;
  \<open>js_find\<close> is \<open>find\<close> and \<open>contains\<close>; \<open>js_items\<close> is \<open>items\<close>, \<open>js_dump_indent\<close> is \<open>dump\<close> with an
  indentation. The library raises only its own exceptions, which are
  standard ones, and reads back what it was given.
\<close>

definition json_raises_std :: "('j, 't) json_ops \<Rightarrow> bool" where
  "json_raises_std js \<longleftrightarrow> (\<forall>t. std_result (js_parse js t)) \<and> (\<forall>j k. std_result (js_at js j k))
     \<and> (\<forall>j k. std_result (js_value js j k)) \<and> (\<forall>j i. std_result (js_index js j i))
     \<and> (\<forall>j. std_result (js_get_string js j)) \<and> (\<forall>j. std_result (js_get_int js j))
     \<and> (\<forall>j. std_result (js_get_real js j)) \<and> (\<forall>j. std_result (js_get_bool js j))"

definition json_reads_back :: "('j, 't) json_ops \<Rightarrow> bool" where
  "json_reads_back js \<longleftrightarrow> (\<forall>j. js_parse js (js_dump js j) = Inr j)
     \<and> (\<forall>kvs k v. map_of kvs k = Some v \<longrightarrow> js_at js (js_object js kvs) k = Inr v)
     \<and> (\<forall>kvs k. js_value js (js_object js kvs) k = Inr (map_of kvs k))
     \<and> (\<forall>kvs k. js_find js (js_object js kvs) k = map_of kvs k)
     \<and> (\<forall>xs. js_elements js (js_array js xs) = xs)
     \<and> (\<forall>s. js_get_string js (js_string js s) = Inr s)
     \<and> (\<forall>n. js_get_int js (js_int js n) = Inr n) \<and> (\<forall>b. js_get_bool js (js_bool js b) = Inr b)
     \<and> (\<forall>n. js_is_integer js (js_int js n))
     \<and> (\<forall>n j. js_parse js (js_dump_indent js n j) = Inr j) \<and> (\<forall>x. js_get_real js (js_real js x) = Inr x)
     \<and> (\<forall>xs. js_is_array js (js_array js xs))
     \<and> (\<forall>kvs. map_of (js_items js (js_object js kvs)) = map_of kvs)
     \<and> (\<forall>kvs. distinct (map fst (js_items js (js_object js kvs))))"

definition get_str :: "('j, 't) json_ops \<Rightarrow> 'j \<Rightarrow> string \<Rightarrow> exn + string" where
  "get_str js j k = bindE (js_at js j k) (js_get_string js)"

definition get_int :: "('j, 't) json_ops \<Rightarrow> 'j \<Rightarrow> string \<Rightarrow> exn + int" where
  "get_int js j k = bindE (js_at js j k) (js_get_int js)"

definition get_bool :: "('j, 't) json_ops \<Rightarrow> 'j \<Rightarrow> string \<Rightarrow> exn + bool" where
  "get_bool js j k = bindE (js_at js j k) (js_get_bool js)"

text \<open>\<open>value(key, fallback)\<close>, with the conversion the fallback's type asks for.\<close>

definition value_or :: "('j, 't) json_ops \<Rightarrow> ('j \<Rightarrow> exn + 'a) \<Rightarrow> 'j \<Rightarrow> string \<Rightarrow> 'a \<Rightarrow> exn + 'a" where
  "value_or js get j k fallback =
     bindE (js_value js j k) (\<lambda>found. case found of None \<Rightarrow> Inr fallback | Some v \<Rightarrow> get v)"

lemma json_raises_stdD [raises_std_intros]:
  assumes "json_raises_std js"
  shows "std_result (js_parse js t)" "std_result (js_at js j k)" "std_result (js_value js j k)"
    "std_result (js_index js j i)" "std_result (js_get_string js j)" "std_result (js_get_int js j)"
    "std_result (js_get_real js j)" "std_result (js_get_bool js j)"
  using assms by (simp_all add: json_raises_std_def)

lemma std_result_get [raises_std_intros]:
  assumes "json_raises_std js"
  shows "std_result (get_str js j k)" "std_result (get_int js j k)" "std_result (get_bool js j k)"
    "(\<And>v. std_result (get v)) \<Longrightarrow> std_result (value_or js get j k fallback)"
  unfolding get_str_def get_int_def get_bool_def value_or_def
  by (intro std_result_bindE json_raises_stdD assms; auto split: option.splits)+

lemma json_reads_backD:
  assumes "json_reads_back js"
  shows "js_parse js (js_dump js j) = Inr j"
    and "js_value js (js_object js kvs) k = Inr (map_of kvs k)" and "js_find js (js_object js kvs) k = map_of kvs k"
    and "js_elements js (js_array js xs) = xs" and "js_get_string js (js_string js s) = Inr s"
    and "js_get_int js (js_int js n) = Inr n" and "js_get_bool js (js_bool js b) = Inr b" and "js_is_integer js (js_int js n)"
    and "map_of kvs k = Some v \<Longrightarrow> js_at js (js_object js kvs) k = Inr v"
    and "js_parse js (js_dump_indent js i j) = Inr j" and "js_get_real js (js_real js x) = Inr x"
    and "js_is_array js (js_array js xs)" and "map_of (js_items js (js_object js kvs)) = map_of kvs"
    and "distinct (map fst (js_items js (js_object js kvs)))"
  using assms unfolding json_reads_back_def by blast+

lemma get_reads_back:
  assumes "json_reads_back js"
  shows "map_of kvs k = Some (js_string js s) \<Longrightarrow> get_str js (js_object js kvs) k = Inr s"
    and "map_of kvs k = Some (js_int js n) \<Longrightarrow> get_int js (js_object js kvs) k = Inr n"
    and "map_of kvs k = Some (js_bool js b) \<Longrightarrow> get_bool js (js_object js kvs) k = Inr b"
    and "map_of kvs k = Some (js_string js s) \<Longrightarrow> value_or js (js_get_string js) (js_object js kvs) k d = Inr s"
    and "map_of kvs k = None \<Longrightarrow> value_or js g (js_object js kvs) k d' = Inr d'"
  using json_reads_backD [OF assms]
  by (simp_all add: get_str_def get_int_def get_bool_def value_or_def)

text \<open>A library of this kind: JSON trees, with the tree itself as the text.\<close>

datatype json = JNull | JBool bool | JInt int | JReal real | JString string | JArray "json list" | JObject "(string \<times> json) list"

definition tree_json :: "(json, json) json_ops" where
  "tree_json = \<lparr>js_parse = Inr, js_dump = id, js_literal = (\<lambda>_. JObject []),
     js_at = (\<lambda>j k. case j of JObject kvs \<Rightarrow> (case map_of kvs k of Some v \<Rightarrow> Inr v | None \<Rightarrow> Inl (StdException ''out_of_range''))
        | _ \<Rightarrow> Inl (StdException ''type_error'')),
     js_value = (\<lambda>j k. case j of JObject kvs \<Rightarrow> Inr (map_of kvs k) | _ \<Rightarrow> Inl (StdException ''type_error'')),
     js_find = (\<lambda>j k. case j of JObject kvs \<Rightarrow> map_of kvs k | _ \<Rightarrow> None),
     js_index = (\<lambda>j i. case j of JArray xs \<Rightarrow> vector_at xs i | _ \<Rightarrow> Inl (StdException ''type_error'')),
     js_elements = (\<lambda>j. case j of JArray xs \<Rightarrow> xs | JObject kvs \<Rightarrow> map snd kvs | JNull \<Rightarrow> [] | _ \<Rightarrow> [j]),
     js_get_string = (\<lambda>j. case j of JString s \<Rightarrow> Inr s | _ \<Rightarrow> Inl (StdException ''type_error'')),
     js_get_int = (\<lambda>j. case j of JInt n \<Rightarrow> Inr n | JReal x \<Rightarrow> Inr (c_trunc x) | _ \<Rightarrow> Inl (StdException ''type_error'')),
     js_get_real = (\<lambda>j. case j of JInt n \<Rightarrow> Inr (of_int n) | JReal x \<Rightarrow> Inr x | _ \<Rightarrow> Inl (StdException ''type_error'')),
     js_get_bool = (\<lambda>j. case j of JBool b \<Rightarrow> Inr b | _ \<Rightarrow> Inl (StdException ''type_error'')),
     js_is_integer = (\<lambda>j. case j of JInt _ \<Rightarrow> True | _ \<Rightarrow> False), js_is_number = (\<lambda>j. case j of JInt _ \<Rightarrow> True | JReal _ \<Rightarrow> True | _ \<Rightarrow> False),
     js_is_string = (\<lambda>j. case j of JString _ \<Rightarrow> True | _ \<Rightarrow> False), js_is_null = (\<lambda>j. j = JNull),
     js_object = JObject, js_array = JArray, js_string = JString, js_int = JInt, js_bool = JBool,
     js_real = JReal, js_is_array = (\<lambda>j. case j of JArray _ \<Rightarrow> True | _ \<Rightarrow> False),
     js_items = (\<lambda>j. case j of JObject kvs \<Rightarrow> AList.clearjunk kvs | _ \<Rightarrow> []), js_dump_indent = (\<lambda>_. id)\<rparr>"

lemma tree_json_ok: "json_raises_std tree_json" "json_reads_back tree_json"
  by (auto simp: json_raises_std_def json_reads_back_def tree_json_def vector_at_def map_of_clearjunk distinct_clearjunk split: json.splits option.splits)

section \<open>Transport and signing\<close>

record 't http_response =
  status_code :: int
  body :: 't

type_synonym headers = "string \<rightharpoonup> string"

record ('t, 'w) http_transport =
  http_get :: "string \<Rightarrow> headers \<Rightarrow> ('t http_response, 'w) io"
  http_post :: "string \<Rightarrow> headers \<Rightarrow> 't \<Rightarrow> ('t http_response, 'w) io"
  http_delete :: "string \<Rightarrow> headers \<Rightarrow> ('t http_response, 'w) io"

definition transport_raises_std :: "('t, 'w) http_transport \<Rightarrow> bool" where
  "transport_raises_std tr \<longleftrightarrow> (\<forall>url h. raises_std (http_get tr url h))
     \<and> (\<forall>url h b. raises_std (http_post tr url h b)) \<and> (\<forall>url h. raises_std (http_delete tr url h))"

lemma transport_raises_stdD [raises_std_intros]:
  assumes "transport_raises_std tr"
  shows "raises_std (http_get tr url h)" "raises_std (http_post tr url h b)" "raises_std (http_delete tr url h)"
  using assms by (simp_all add: transport_raises_std_def)

record auth =
  api_key :: string
  pem_private_key :: string

text \<open>
  \<open>Auth::sign\<close> for the current time: the RSA-PSS signature of the message, which may raise, is a
  parameter.
\<close>

definition sign :: "(string \<Rightarrow> string \<Rightarrow> exn + string) \<Rightarrow> ('w \<Rightarrow> time_ns \<times> 'w) \<Rightarrow> auth \<Rightarrow> string \<Rightarrow> string
    \<Rightarrow> (headers, 'w) io" where
  "sign rsa_pss_sha256_sign system_now au http_method path =
     bind_io (lift_read system_now) (\<lambda>now.
       let ts_str = int_to_string (now sdiv kNanosPerMilli);
           message = ts_str @ http_method @ path
       in bind_io (lift_result (rsa_pss_sha256_sign (pem_private_key au) message)) (\<lambda>signature.
            return_io [''Kalshi-Access-Key'' \<mapsto> api_key au, ''Kalshi-Access-Timestamp'' \<mapsto> ts_str,
                       ''Kalshi-Access-Signature'' \<mapsto> signature]))"

lemma raises_std_sign [raises_std_intros]:
  "(\<And>k m. std_result (rsa k m)) \<Longrightarrow> raises_std (sign rsa now au meth path)"
  unfolding sign_def Let_def by (intro raises_std_intros) auto

section \<open>Timestamps\<close>

text \<open>
  \<open>strptime\<close> with \<open>"%Y-%m-%dT%H:%M:%S"\<close>: every field skips blanks, needs a digit, reads at most its
  width and as long as another digit could still be in range, and must end in range; text after
  the last field is ignored.
\<close>

fun read_digits :: "nat \<Rightarrow> nat \<Rightarrow> nat \<Rightarrow> string \<Rightarrow> nat \<times> string" where
  "read_digits hi 0 val s = (val, s)"
| "read_digits hi (Suc n) val [] = (val, [])"
| "read_digits hi (Suc n) val (c # s) =
     (if val * 10 \<le> hi \<and> is_digit c then read_digits hi n (val * 10 + digit_val c) s else (val, c # s))"

definition get_number :: "nat \<Rightarrow> nat \<Rightarrow> nat \<Rightarrow> string \<Rightarrow> (nat \<times> string) option" where
  "get_number lo hi n s0 =
     (case dropWhile is_space s0 of
        [] \<Rightarrow> None
      | c # s \<Rightarrow>
          if \<not> is_digit c then None
          else let (val, rest) = read_digits hi (n - 1) (digit_val c) s
               in if lo \<le> val \<and> val \<le> hi then Some (val, rest) else None)"

definition skip_char :: "char \<Rightarrow> string \<Rightarrow> string option" where
  "skip_char c s = (case s of [] \<Rightarrow> None | c' # r \<Rightarrow> if c' = c then Some r else None)"

definition strptime :: "string \<Rightarrow> (nat \<times> nat \<times> nat \<times> nat \<times> nat \<times> nat) option" where
  "strptime s0 =
     Option.bind (get_number 0 9999 4 s0) (\<lambda>(year, s).
     Option.bind (skip_char (CHR ''-'') s) (\<lambda>s.
     Option.bind (get_number 1 12 2 s) (\<lambda>(month, s).
     Option.bind (skip_char (CHR ''-'') s) (\<lambda>s.
     Option.bind (get_number 1 31 2 s) (\<lambda>(day, s).
     Option.bind (skip_char (CHR ''T'') s) (\<lambda>s.
     Option.bind (get_number 0 23 2 s) (\<lambda>(hour, s).
     Option.bind (skip_char (CHR '':'') s) (\<lambda>s.
     Option.bind (get_number 0 59 2 s) (\<lambda>(minute, s).
     Option.bind (skip_char (CHR '':'') s) (\<lambda>s.
     Option.bind (get_number 0 61 2 s) (\<lambda>(second, s).
       Some (year, month, day, hour, minute, second))))))))))))"

text \<open>The proleptic Gregorian calendar: days before a year and a month, counted from 1970.\<close>

definition is_leap :: "int \<Rightarrow> bool" where
  "is_leap y \<longleftrightarrow> y mod 4 = 0 \<and> (y mod 100 \<noteq> 0 \<or> y mod 400 = 0)"

definition year_days :: "int \<Rightarrow> int" where
  "year_days y = (if is_leap y then 366 else 365)"

definition month_days :: "int \<Rightarrow> nat \<Rightarrow> int" where
  "month_days y m = (if m = 2 then (if is_leap y then 29 else 28) else if m \<in> {4, 6, 9, 11} then 30 else 31)"

definition days_before_year :: "int \<Rightarrow> int" where
  "days_before_year y = 365 * (y - 1970) + ((y - 1) div 4 - 492) - ((y - 1) div 100 - 19) + ((y - 1) div 400 - 4)"

definition days_before_month :: "int \<Rightarrow> nat \<Rightarrow> int" where
  "days_before_month y m = sum_list (map (month_days y) [1..<m])"

text \<open>\<open>timegm\<close>: an excess of days or seconds carries over.\<close>

definition timegm :: "nat \<times> nat \<times> nat \<times> nat \<times> nat \<times> nat \<Rightarrow> int" where
  "timegm t = (case t of (year, month, day, hour, minute, second) \<Rightarrow>
     86400 * (days_before_year (int year) + days_before_month (int year) month + int day - 1)
       + 3600 * int hour + 60 * int minute + int second)"

definition parse_iso8601 :: "string \<Rightarrow> exn + time_ns" where
  "parse_iso8601 time_str =
     (case strptime time_str of
        None \<Rightarrow> Inl (StdException (''Failed to parse timestamp: '' @ time_str))
      | Some t \<Rightarrow> Inr (timegm t * kNanosPerSecond))"

lemma div_pred:
  assumes "0 < k" shows "(y::int) div k = (y - 1) div k + (if k dvd y then 1 else 0)"
proof (cases "k dvd y")
  case True
  then have "y - 1 = k * (y div k - 1) + (k - 1)" by (simp add: algebra_simps)
  from int_div_pos_eq [OF this] show ?thesis using True assms by simp
next
  case False
  then have "0 < y mod k" using assms by (simp add: dvd_eq_mod_eq_0 order_less_le)
  moreover have "y - 1 = k * (y div k) + (y mod k - 1)" by (simp add: algebra_simps)
  moreover have "y mod k - 1 < k" using assms pos_mod_bound [of k y] by linarith
  ultimately show ?thesis using False int_div_pos_eq [of "y - 1" k "y div k" "y mod k - 1"] by simp
qed

lemma days_before_year_Suc: "days_before_year (y + 1) = days_before_year y + year_days y"
proof -
  have lin: "365 * (y + 1 - 1970) + (a' - 492) - (b' - 19) + (c' - 4)
      = 365 * (y - 1970) + (a - 492) - (b - 19) + (c - 4) + (365 + p - q + r)"
    if "a' = a + p" "b' = b + q" "c' = c + r" for a' a b' b c' c p q r :: int
    using that by simp
  have step: "days_before_year (y + 1) = days_before_year y
      + (365 + (if 4 dvd y then 1 else 0) - (if 100 dvd y then 1 else 0) + (if 400 dvd y then 1 else 0))"
    unfolding days_before_year_def add_diff_cancel_right' by (intro lin div_pred) simp_all
  have "(100::int) dvd 400" "(4::int) dvd 100" by simp_all
  then have dvds: "400 dvd y \<longrightarrow> 100 dvd y" "100 dvd y \<longrightarrow> 4 dvd y" by (blast intro: dvd_trans)+
  have "365 + (if P then 1 else 0) - (if Q then 1 else 0) + (if R then 1 else 0) = (if P \<and> (\<not> Q \<or> R) then 366 else (365::int))"
    if "R \<longrightarrow> Q" "Q \<longrightarrow> P" for P Q R :: bool using that by (cases P; cases Q; cases R) simp_all
  from this [OF dvds] show ?thesis unfolding step year_days_def is_leap_def dvd_eq_mod_eq_0 by (rule arg_cong)
qed

lemma parse_iso8601_std [raises_std_intros]: "std_result (parse_iso8601 s)"
  by (simp add: parse_iso8601_def split: option.split)

lemma stod_std [raises_std_intros]: "std_result (stod s)"
  by (simp add: stod_def Let_def case_prod_beta)

lemma from_fp_string_std [raises_std_intros]: "std_result (from_fp_string s)"
  using stod_std [of s] by (auto simp: from_fp_string_def std_result_def split: sum.splits)

lemma parse_dollars_std [raises_std_intros]: "std_result (parse_dollars_to_cents s)"
  using stod_std [of s] by (auto simp: parse_dollars_to_cents_def std_result_def split: sum.splits)

lemma read_digits_numeral [simp]:
  "read_digits hi (numeral k) val [] = (val, [])"
  "read_digits hi (numeral k) val (c # s) =
     (if val * 10 \<le> hi \<and> is_digit c then read_digits hi (pred_numeral k) (val * 10 + digit_val c) s else (val, c # s))"
  by (simp_all add: numeral_eq_Suc)

lemma parse_iso8601_example: "parse_iso8601 ''2025-01-01T00:00:00Z'' = Inr (1735689600 * kNanosPerSecond)"
  by (simp add: parse_iso8601_def strptime_def get_number_def skip_char_def is_digit_def is_space_def digit_val_def timegm_def
    days_before_year_def days_before_month_def)

end
