(* ===== verification/Rate_Limiter.thy ===== *)
theory Rate_Limiter
  imports Prelude
begin

text \<open>
  \<open>RateLimiter\<close> (\<open>source/core/rate_limiter.cpp\<close>): the token bucket that keeps the REST client
  within the exchange's write budget. The time read from the clock is an argument of
  \<open>acquire\<close>; the wait it returns is in whole milliseconds.
\<close>

section \<open>State and operations\<close>

record rate_limiter =
  rl_rate :: real
  rl_capacity :: real
  rl_tokens :: real
  rl_last_refill :: time_ns

definition new_rate_limiter :: "real \<Rightarrow> real \<Rightarrow> time_ns \<Rightarrow> rate_limiter" where
  "new_rate_limiter tokens_per_second capacity now =
     \<lparr>rl_rate = tokens_per_second, rl_capacity = capacity, rl_tokens = capacity, rl_last_refill = now\<rparr>"

definition kMillisPerSecond :: int where "kMillisPerSecond = 1000"

definition acquire :: "real \<Rightarrow> time_ns \<Rightarrow> rate_limiter \<Rightarrow> int \<times> rate_limiter" where
  "acquire cost now rl =
     (let elapsed_seconds = of_int (now - rl_last_refill rl) / of_int kNanosPerSecond;
          tokens = min (rl_capacity rl) (rl_tokens rl + elapsed_seconds * rl_rate rl);
          deficit = cost - tokens;
          rl' = rl\<lparr>rl_tokens := tokens - cost, rl_last_refill := now\<rparr>
      in if deficit \<le> 0 \<or> rl_rate rl \<le> 0 then (0, rl')
         else (c_trunc (deficit / rl_rate rl * of_int kMillisPerSecond), rl'))"

section \<open>Conformance to the budget\<close>

text \<open>A run of requests, each with the time it is made and its cost; the last wait is kept.\<close>

fun acquire_run :: "(time_ns \<times> real) list \<Rightarrow> rate_limiter \<Rightarrow> int \<times> rate_limiter" where
  "acquire_run [] rl = (0, rl)"
| "acquire_run [(t, c)] rl = acquire c t rl"
| "acquire_run ((t, c) # reqs) rl = acquire_run reqs (snd (acquire c t rl))"

definition limiter_ok :: "rate_limiter \<Rightarrow> bool" where
  "limiter_ok rl \<longleftrightarrow> 0 < rl_rate rl \<and> rl_tokens rl \<le> rl_capacity rl"

text \<open>What the bucket holds once refilled, and the two results in terms of it.\<close>

definition refilled :: "time_ns \<Rightarrow> rate_limiter \<Rightarrow> real" where
  "refilled t rl = min (rl_capacity rl) (rl_tokens rl + rl_rate rl * of_int (t - rl_last_refill rl) / of_int kNanosPerSecond)"

lemma acquire_refilled:
  "snd (acquire c t rl) = rl\<lparr>rl_tokens := refilled t rl - c, rl_last_refill := t\<rparr>"
  "c \<le> refilled t rl \<Longrightarrow> fst (acquire c t rl) = 0"
  "refilled t rl < c \<Longrightarrow> 0 < rl_rate rl \<Longrightarrow>
     fst (acquire c t rl) = \<lfloor>(c - refilled t rl) / rl_rate rl * of_int kMillisPerSecond\<rfloor>"
proof -
  have eq: "refilled t rl = min (rl_capacity rl) (rl_tokens rl + of_int (t - rl_last_refill rl) / of_int kNanosPerSecond * rl_rate rl)"
    by (simp add: refilled_def mult.commute)
  show "snd (acquire c t rl) = rl\<lparr>rl_tokens := refilled t rl - c, rl_last_refill := t\<rparr>"
    unfolding eq by (simp add: acquire_def Let_def)
  show "c \<le> refilled t rl \<Longrightarrow> fst (acquire c t rl) = 0" unfolding eq by (simp add: acquire_def Let_def)
  show "fst (acquire c t rl) = \<lfloor>(c - refilled t rl) / rl_rate rl * of_int kMillisPerSecond\<rfloor>"
    if "refilled t rl < c" "0 < rl_rate rl"
  proof -
    have "0 \<le> (c - refilled t rl) / rl_rate rl * of_int kMillisPerSecond" using that by (simp add: kMillisPerSecond_def)
    then show ?thesis using that unfolding eq by (auto simp: acquire_def Let_def c_trunc_def not_less not_le)
  qed
qed

lemma acquire_frame [simp]:
  "rl_rate (snd (acquire c t rl)) = rl_rate rl"
  "rl_capacity (snd (acquire c t rl)) = rl_capacity rl"
  "rl_last_refill (snd (acquire c t rl)) = t"
  "rl_tokens (snd (acquire c t rl)) = refilled t rl - c"
  by (simp_all add: acquire_refilled)

lemma refilled_le:
  "refilled t rl \<le> rl_capacity rl"
  "refilled t rl \<le> rl_tokens rl + rl_rate rl * of_int (t - rl_last_refill rl) / of_int kNanosPerSecond"
  by (simp_all add: refilled_def)

lemma acquire_ok: "limiter_ok rl \<Longrightarrow> 0 \<le> c \<Longrightarrow> limiter_ok (snd (acquire c t rl))"
  using refilled_le(1) [of t rl] by (simp add: limiter_ok_def)

text \<open>Whoever waits as told has paid off the debt, up to the millisecond the cast drops.\<close>

lemma acquire_debt:
  assumes "0 < rl_rate rl"
  shows "c - refilled t rl \<le> rl_rate rl * (of_int (fst (acquire c t rl)) + 1) / of_int kMillisPerSecond"
    and "rl_rate rl * of_int (fst (acquire c t rl)) / of_int kMillisPerSecond \<le> max 0 (c - refilled t rl)"
proof -
  let ?d = "c - refilled t rl" and ?w = "fst (acquire c t rl)"
  have "?d \<le> rl_rate rl * (of_int ?w + 1) / of_int kMillisPerSecond
      \<and> rl_rate rl * of_int ?w / of_int kMillisPerSecond \<le> max 0 ?d"
  proof (cases "c \<le> refilled t rl")
    case True
    moreover have "0 \<le> rl_rate rl / of_int kMillisPerSecond" using assms by (simp add: kMillisPerSecond_def)
    ultimately show ?thesis by (simp add: acquire_refilled(2))
  next
    case False
    then have "?w = \<lfloor>?d / rl_rate rl * 1000\<rfloor>" using assms by (simp add: acquire_refilled(3) kMillisPerSecond_def)
    then have "of_int ?w \<le> ?d / rl_rate rl * 1000" "?d / rl_rate rl * 1000 \<le> of_int ?w + 1" by linarith+
    then show ?thesis using assms False by (simp add: kMillisPerSecond_def field_simps)
  qed
  then show "?d \<le> rl_rate rl * (of_int ?w + 1) / of_int kMillisPerSecond"
    and "rl_rate rl * of_int ?w / of_int kMillisPerSecond \<le> max 0 ?d" by simp_all
qed

lemma acquire_run_debt:
  assumes "limiter_ok rl" and "reqs \<noteq> []" and "\<forall>(t, c) \<in> set reqs. 0 \<le> c"
  shows "- rl_tokens (snd (acquire_run reqs rl)) \<le> rl_rate rl * (of_int (fst (acquire_run reqs rl)) + 1) / of_int kMillisPerSecond"
  using assms
proof (induction reqs rl rule: acquire_run.induct)
  case (2 t c rl)
  then show ?case using acquire_debt(1) [of rl c t] by (simp add: limiter_ok_def)
next
  case (3 t c r reqs rl)
  then show ?case using acquire_ok [of rl c t] by auto
qed simp

text \<open>What is left in the bucket after a run, against what the run spent.\<close>

lemma acquire_run_tokens:
  assumes "0 < rl_rate rl"
  shows "rl_tokens (snd (acquire_run reqs rl)) + sum_list (map snd reqs)
     \<le> rl_tokens rl + rl_rate rl * of_int (last (rl_last_refill rl # map fst reqs) - rl_last_refill rl) / of_int kNanosPerSecond"
  using assms
proof (induction reqs rl rule: acquire_run.induct)
  case (2 t c rl)
  show ?case using refilled_le(2) [of t rl] by simp
next
  case (3 t c r reqs rl)
  let ?rl' = "snd (acquire c t rl)"
  have "rl_tokens ?rl' + c \<le> rl_tokens rl + rl_rate rl * of_int (t - rl_last_refill rl) / of_int kNanosPerSecond"
    using refilled_le(2) [of t rl] by simp
  moreover have "rl_tokens (snd (acquire_run (r # reqs) ?rl')) + sum_list (map snd (r # reqs))
      \<le> rl_tokens ?rl' + rl_rate rl * of_int (last (t # map fst (r # reqs)) - t) / of_int kNanosPerSecond"
    using 3 by simp
  moreover have "rl_rate rl * of_int (last (t # map fst (r # reqs)) - rl_last_refill rl) / of_int kNanosPerSecond
      = rl_rate rl * of_int (t - rl_last_refill rl) / of_int kNanosPerSecond
        + rl_rate rl * of_int (last (t # map fst (r # reqs)) - t) / of_int kNanosPerSecond"
    by (simp add: add_divide_distrib [symmetric] distrib_left [symmetric] del: last.simps)
  ultimately show ?case by simp
qed simp

text \<open>
  The client stays within its write budget: over any run of requests that starts with a bucket
  no fuller than its capacity, what is spent up to the moment the last request may be sent is at
  most the capacity plus what the rate yields from the first request until then, up to the
  millisecond that truncating the wait gives away. As the bucket may start anywhere below its
  capacity, the bound holds for every window of a longer run.
\<close>

theorem budget_respected:
  assumes "limiter_ok rl" and "\<forall>(t, c) \<in> set ((t0, c0) # reqs). 0 \<le> c"
    and "acquire_run ((t0, c0) # reqs) rl = (wait_ms, rl')"
  shows "c0 + sum_list (map snd reqs) \<le> rl_capacity rl
     + rl_rate rl * (of_int (last (t0 # map fst reqs) - t0) / of_int kNanosPerSecond + (of_int wait_ms + 1) / of_int kMillisPerSecond)"
proof -
  let ?rl1 = "snd (acquire c0 t0 rl)"
  have ok: "limiter_ok ?rl1" and rate: "0 < rl_rate rl" using assms(1,2) acquire_ok [of rl c0 t0] by (auto simp: limiter_ok_def)
  have debt: "- rl_tokens rl' \<le> rl_rate rl * (of_int wait_ms + 1) / of_int kMillisPerSecond"
    using acquire_run_debt [OF assms(1) _ assms(2)] assms(3) by simp
  have "rl_tokens rl' + sum_list (map snd reqs)
      \<le> rl_tokens ?rl1 + rl_rate rl * of_int (last (t0 # map fst reqs) - t0) / of_int kNanosPerSecond"
  proof (cases reqs)
    case Nil
    then show ?thesis using assms(3) by simp
  next
    case (Cons r rest)
    then have "acquire_run reqs ?rl1 = (wait_ms, rl')" using assms(3) by simp
    then show ?thesis using acquire_run_tokens [of ?rl1 reqs] rate by simp
  qed
  moreover have "rl_tokens ?rl1 \<le> rl_capacity rl - c0" using refilled_le(1) [of t0 rl] by simp
  ultimately have "c0 + sum_list (map snd reqs)
      \<le> rl_capacity rl + rl_rate rl * of_int (last (t0 # map fst reqs) - t0) / of_int kNanosPerSecond
        + rl_rate rl * (of_int wait_ms + 1) / of_int kMillisPerSecond"
    using debt by linarith
  then show ?thesis by (simp add: distrib_left add_divide_distrib)
qed

theorem budget_respected_witness:
  "limiter_ok (new_rate_limiter 100 100 0)
   \<and> (60::real) + sum_list (map snd [(0::int, 60::real)]) \<le> 100 + 100 * (0 / of_int kNanosPerSecond + (200 + 1) / 1000)"
proof -
  have ok: "limiter_ok (new_rate_limiter 100 100 0)" by (simp add: limiter_ok_def new_rate_limiter_def)
  have "acquire_run [(0, 60), (0, 60)] (new_rate_limiter 100 100 0)
      = (200, snd (acquire_run [(0, 60), (0, 60)] (new_rate_limiter 100 100 0)))"
    by (simp add: acquire_def new_rate_limiter_def Let_def kMillisPerSecond_def c_trunc_def)
  from budget_respected [OF ok _ this] ok show ?thesis
    by (simp add: new_rate_limiter_def kMillisPerSecond_def)
qed

end
