(* ===== verification/Rest_Client.thy ===== *)
theory Rest_Client
  imports Exchange_Interface Rate_Limiter Order_Manager
begin

text \<open>
  \<open>RestClient\<close> (\<open>source/exchange/rest_client.cpp\<close>): requests to the exchange and the parsing of
  its answers. The client's write limiter is part of the state its operations thread, next to the
  state \<open>'p\<close> of the transport and the clocks. A listing that the exchange serves in pages is a
  loop that ends when the cursor is empty; it returns \<open>None\<close> if that never happens.
\<close>

section \<open>State\<close>

record ('j, 't, 'p) rest_client =
  rc_json :: "('j, 't) json_ops"
  rc_transport :: "('t, 'p) http_transport"
  rc_auth :: auth
  rc_base_url :: string
  rc_path_prefix :: string
  rc_rsa_sign :: "string \<Rightarrow> string \<Rightarrow> exn + string"
  rc_system_now :: "'p \<Rightarrow> time_ns \<times> 'p"
  rc_steady_now :: "'p \<Rightarrow> time_ns \<times> 'p"
  rc_sleep_ms :: "int \<Rightarrow> 'p \<Rightarrow> 'p"

text \<open>The path component of a URL, from the first slash after the scheme.\<close>

fun after_scheme :: "string \<Rightarrow> string option" where
  "after_scheme [] = None"
| "after_scheme (c # s) = (if take 3 (c # s) = ''://'' then Some (drop 3 (c # s)) else after_scheme s)"

definition extract_path_prefix :: "string \<Rightarrow> string" where
  "extract_path_prefix url =
     (case after_scheme url of None \<Rightarrow> [] | Some rest \<Rightarrow> dropWhile (\<lambda>c. c \<noteq> CHR ''/'') rest)"

definition kBasicWriteTokensPerSecond :: real where "kBasicWriteTokensPerSecond = 100"
definition kBasicWriteCapacity :: real where "kBasicWriteCapacity = 100"
definition kPlaceOrderCost :: real where "kPlaceOrderCost = 10"
definition kCancelOrderCost :: real where "kCancelOrderCost = 2"

definition new_write_limiter :: "time_ns \<Rightarrow> rate_limiter" where
  "new_write_limiter now = new_rate_limiter kBasicWriteTokensPerSecond kBasicWriteCapacity now"

section \<open>Parsing answers\<close>

definition check_response :: "'t http_response \<Rightarrow> exn + unit" where
  "check_response resp =
     (if status_code resp < 200 \<or> status_code resp > 299
      then Inl (StdException (''HTTP '' @ int_to_string (status_code resp))) else Inr ())"

definition parse_side :: "string \<Rightarrow> exn + side" where
  "parse_side side_str =
     (if side_str = ''yes'' then Inr Yes
      else if side_str = ''no'' then Inr No
      else Inl (StdException (''Unknown side: '' @ side_str)))"

definition parse_order_status :: "string \<Rightarrow> exn + order_status" where
  "parse_order_status status_str =
     (if status_str = ''resting'' then Inr Open
      else if status_str = ''executed'' then Inr Filled
      else if status_str = ''canceled'' \<or> status_str = ''cancelled'' then Inr Cancelled
      else Inl (StdException (''Unknown order status: '' @ status_str)))"

definition parse_order_type :: "string \<Rightarrow> exn + order_type" where
  "parse_order_type type_str =
     (if type_str = ''limit'' then Inr Limit
      else if type_str = ''market'' then Inr Market
      else Inl (StdException (''Unknown order type: '' @ type_str)))"

definition parse_fp_count :: "string \<Rightarrow> exn + quantity" where
  "parse_fp_count fp_str = from_fp_string fp_str"

definition parse_dollars_to_cents_d :: "string \<Rightarrow> exn + real" where
  "parse_dollars_to_cents_d dollars = bindE (stod dollars) (\<lambda>x. Inr (x * kCentsPerDollar))"

definition parse_market :: "('j, 't) json_ops \<Rightarrow> 'j \<Rightarrow> exn + market" where
  "parse_market js j =
     bindE (bindE (value_or js (js_get_string js) j ''yes_bid_dollars'' ''0.0000'') parse_dollars_to_cents) (\<lambda>yes_bid.
     bindE (bindE (value_or js (js_get_string js) j ''yes_ask_dollars'' ''0.0000'') parse_dollars_to_cents) (\<lambda>yes_ask.
     bindE (get_str js j ''ticker'') (\<lambda>tk.
     bindE (value_or js (js_get_string js) j ''title'' []) (\<lambda>title.
     bindE (value_or js (js_get_string js) j ''category'' []) (\<lambda>category.
     bindE (value_or js (js_get_string js) j ''status'' []) (\<lambda>status.
     bindE (value_or js (js_get_int js) j ''fee_rate_bps'' 0) (\<lambda>fee.
     bindE (if js_find js j ''volume_24h_fp'' \<noteq> None then bindE (get_str js j ''volume_24h_fp'') stod else Inr 0) (\<lambda>volume.
     bindE (bindE (get_str js j ''close_time'') parse_iso8601) (\<lambda>close_time.
       Inr \<lparr>m_ticker = tk, m_title = title, m_category = category, m_status = status, m_fee_rate_bps = fee,
            m_yes_bid_cents = yes_bid, m_yes_ask_cents = yes_ask, m_volume_24h = volume,
            m_close_time = close_time\<rparr>)))))))))"

definition parse_position :: "('j, 't) json_ops \<Rightarrow> 'j \<Rightarrow> exn + market_position" where
  "parse_position js j =
     bindE (get_str js j ''ticker'') (\<lambda>tk.
     bindE (bindE (value_or js (js_get_string js) j ''position_fp'' ''0.00'') parse_fp_count) (\<lambda>position.
     bindE (bindE (value_or js (js_get_string js) j ''realized_pnl_dollars'' ''0'') parse_dollars_to_cents_d) (\<lambda>pnl.
     bindE (bindE (value_or js (js_get_string js) j ''market_exposure_dollars'' ''0'') parse_dollars_to_cents_d) (\<lambda>exposure.
     bindE (value_or js (js_get_int js) j ''resting_orders_count'' 0) (\<lambda>resting.
       Inr \<lparr>mp_ticker = tk, mp_position = position, mp_realized_pnl_cents = pnl,
            mp_market_exposure_cents = exposure, mp_resting_orders_count = resting\<rparr>)))))"

definition parse_order :: "('j, 't) json_ops \<Rightarrow> 'j \<Rightarrow> exn + order" where
  "parse_order js j =
     bindE (bindE (get_str js j ''outcome_side'') parse_side) (\<lambda>sd.
     bindE (bindE (get_str js j (if sd = Yes then ''yes_price_dollars'' else ''no_price_dollars''))
              parse_dollars_to_cents) (\<lambda>price_cents.
     bindE (bindE (get_str js j ''initial_count_fp'') parse_fp_count) (\<lambda>qty.
     bindE (bindE (get_str js j ''fill_count_fp'') parse_fp_count) (\<lambda>filled_qty.
     bindE (bindE (get_str js j ''status'') parse_order_status) (\<lambda>status0.
     bindE (get_str js j ''order_id'') (\<lambda>oid.
     bindE (get_str js j ''ticker'') (\<lambda>tk.
     bindE (bindE (get_str js j ''type'') parse_order_type) (\<lambda>type.
     bindE (bindE (get_str js j ''created_time'') parse_iso8601) (\<lambda>created_at.
       Inr \<lparr>o_id = oid, o_market_ticker = tk, o_side = sd, o_price_cents = price_cents, o_quantity = qty,
            o_filled_quantity = filled_qty,
            o_status = (if status0 = Open \<and> is_positive filled_qty then PartiallyFilled else status0),
            o_type = type, o_created_at = created_at, o_average_fill_price_cents = 0\<rparr>)))))))))"

definition parse_fill :: "('j, 't) json_ops \<Rightarrow> 'j \<Rightarrow> exn + fill" where
  "parse_fill js j =
     bindE (value_or js (js_get_string js) j ''trade_id'' []) (\<lambda>trade_id.
     bindE (get_str js j ''order_id'') (\<lambda>order_id.
     bindE (get_str js j ''market_ticker'') (\<lambda>tk.
     bindE (bindE (get_str js j ''outcome_side'') parse_side) (\<lambda>sd.
     bindE (bindE (get_str js j ''yes_price_dollars'') parse_dollars_to_cents) (\<lambda>yes_price_cents.
     bindE (bindE (get_str js j ''count_fp'') parse_fp_count) (\<lambda>qty.
     bindE (bindE (value_or js (js_get_string js) j ''fee_cost'' ''0'') stod) (\<lambda>fee.
     bindE (get_bool js j ''is_taker'') (\<lambda>is_taker.
     bindE (get_int js j ''ts'') (\<lambda>ts.
       Inr \<lparr>f_trade_id = trade_id, f_order_id = order_id, f_market_ticker = tk, f_side = sd,
            f_price_cents = (if sd = Yes then yes_price_cents else complement_price yes_price_cents),
            f_quantity = qty, f_fee_cents = fee * kCentsPerDollar, f_is_taker = is_taker,
            f_timestamp = ts * kNanosPerSecond\<rparr>)))))))))"

definition parse_incentive :: "('j, 't) json_ops \<Rightarrow> 'j \<Rightarrow> exn + incentive_program" where
  "parse_incentive js j =
     bindE (value_or js (js_get_string js) j ''market_ticker'' []) (\<lambda>tk.
     bindE (case js_find js j ''period_reward'' of
         Some v \<Rightarrow> if js_is_number js v then js_get_int js v else Inr 0 | None \<Rightarrow> Inr 0) (\<lambda>reward.
     bindE (case js_find js j ''target_size_fp'' of
         Some v \<Rightarrow> if js_is_string js v then bindE (js_get_string js v) parse_fp_count else Inr 0 | None \<Rightarrow> Inr 0) (\<lambda>target.
     bindE (case js_find js j ''discount_factor_bps'' of
         Some v \<Rightarrow> if js_is_number js v then js_get_int js v else Inr 0 | None \<Rightarrow> Inr 0) (\<lambda>discount.
       Inr \<lparr>ip_market_ticker = tk, ip_period_reward_centicents = reward, ip_target_size = target,
            ip_discount_factor_bps = discount\<rparr>))))"

definition parse_level :: "('j, 't) json_ops \<Rightarrow> 'j \<Rightarrow> exn + level" where
  "parse_level js j =
     bindE (bindE (bindE (js_index js j 0) (js_get_string js)) parse_dollars_to_cents) (\<lambda>price.
     bindE (bindE (bindE (js_index js j 1) (js_get_string js)) parse_fp_count) (\<lambda>qty.
       Inr \<lparr>lv_price_cents = price, lv_quantity = qty\<rparr>))"

definition parse_trade :: "('j, 't) json_ops \<Rightarrow> ticker \<Rightarrow> 'j \<Rightarrow> exn + public_trade" where
  "parse_trade js default_ticker j =
     bindE (value_or js (js_get_string js) j ''trade_id'' []) (\<lambda>trade_id.
     bindE (value_or js (js_get_string js) j ''ticker'' default_ticker) (\<lambda>tk.
     bindE (bindE (get_str js j ''yes_price_dollars'') parse_dollars_to_cents) (\<lambda>price.
     bindE (bindE (value_or js (js_get_string js) j ''count_fp'' ''0'') from_fp_string) (\<lambda>qty.
     bindE (bindE (if js_find js j ''taker_outcome_side'' \<noteq> None then get_str js j ''taker_outcome_side''
                   else value_or js (js_get_string js) j ''taker_side'' ''yes'') parse_side) (\<lambda>sd.
     bindE (bindE (get_str js j ''created_time'') parse_iso8601) (\<lambda>created.
       Inr \<lparr>pt_trade_id = trade_id, pt_market_ticker = tk, pt_yes_price_cents = price, pt_quantity = qty,
            pt_taker_side = sd, pt_timestamp = created\<rparr>))))))"

text \<open>The price member defaults to an empty object, which has no close.\<close>

definition parse_candle :: "('j, 't) json_ops \<Rightarrow> 'j \<Rightarrow> exn + candle" where
  "parse_candle js j =
     bindE (value_or js Inr j ''price'' (js_object js [])) (\<lambda>price.
     case js_find js price ''close_dollars'' of
       None \<Rightarrow> Inr \<lparr>close_cents = None\<rparr>
     | Some _ \<Rightarrow>
         bindE (js_at js price ''close_dollars'') (\<lambda>v.
         if js_is_null js v then Inr \<lparr>close_cents = None\<rparr>
         else bindE (bindE (js_get_string js v) parse_dollars_to_cents) (\<lambda>c. Inr \<lparr>close_cents = Some c\<rparr>)))"

section \<open>Requests\<close>

text \<open>An effect of the transport's world, inside the client's.\<close>

definition on_world :: "('a, 'p) io \<Rightarrow> ('a, rate_limiter \<times> 'p) io" where
  "on_world m s = (case m (snd s) of (r, p') \<Rightarrow> (r, (fst s, p')))"

text \<open>\<open>std::this_thread::sleep_for(write_limiter_.acquire(cost))\<close>.\<close>

definition throttle :: "('j, 't, 'p) rest_client \<Rightarrow> real \<Rightarrow> (unit, rate_limiter \<times> 'p) io" where
  "throttle c cost s =
     (let (now, p1) = rc_steady_now c (snd s); (wait_ms, rl') = acquire cost now (fst s)
      in (Inr (), (rl', rc_sleep_ms c wait_ms p1)))"

definition rc_sign :: "('j, 't, 'p) rest_client \<Rightarrow> string \<Rightarrow> string \<Rightarrow> (headers, rate_limiter \<times> 'p) io" where
  "rc_sign c http_method path = on_world (sign (rc_rsa_sign c) (rc_system_now c) (rc_auth c) http_method path)"

definition signed_get :: "('j, 't, 'p) rest_client \<Rightarrow> string \<Rightarrow> string \<Rightarrow> ('t http_response, rate_limiter \<times> 'p) io" where
  "signed_get c path url =
     bind_io (rc_sign c ''GET'' path) (\<lambda>headers.
     bind_io (on_world (http_get (rc_transport c) url headers)) (\<lambda>resp.
     bind_io (lift_result (check_response resp)) (\<lambda>_. return_io resp)))"

definition get_json :: "('j, 't, 'p) rest_client \<Rightarrow> string \<Rightarrow> string \<Rightarrow> ('j, rate_limiter \<times> 'p) io" where
  "get_json c path url = bind_io (signed_get c path url) (\<lambda>resp. lift_result (js_parse (rc_json c) (body resp)))"

section \<open>Listings in pages\<close>

partial_function (option) fetch_pages :: "(string \<Rightarrow> ('a list \<times> string, 'w) io) \<Rightarrow> string \<Rightarrow> 'a list \<Rightarrow> 'w
    \<Rightarrow> ((exn + 'a list) \<times> 'w) option" where
  "fetch_pages fetch_page cursor acc w =
     (case fetch_page cursor w of
        (Inl e, w') \<Rightarrow> Some (Inl e, w')
      | (Inr page, w') \<Rightarrow>
          if snd page = [] then Some (Inr (acc @ fst page), w')
          else fetch_pages fetch_page (snd page) (acc @ fst page) w')"

definition page_cursor :: "string \<Rightarrow> string \<Rightarrow> string" where
  "page_cursor sep cursor = (if cursor \<noteq> [] then sep @ ''cursor='' @ cursor else [])"

fun page_retry :: "('j, 't, 'p) rest_client \<Rightarrow> string \<Rightarrow> string \<Rightarrow> nat \<Rightarrow> ('t http_response, rate_limiter \<times> 'p) io" where
  "page_retry c path url 0 = signed_get c path url"
| "page_retry c path url (Suc attempts_left) =
     catch_io (signed_get c path url) (\<lambda>_.
       bind_io (\<lambda>s. (Inr (), (fst s, rc_sleep_ms c 300 (snd s)))) (\<lambda>_. page_retry c path url attempts_left))"

definition kPageAttempts :: nat where "kPageAttempts = 3"

definition markets_page :: "('j, 't, 'p) rest_client \<Rightarrow> string \<Rightarrow> string \<Rightarrow> (market list \<times> string, rate_limiter \<times> 'p) io" where
  "markets_page c event_ticker cursor =
     (let base_query = ''limit=1000&status=open''
            @ (if event_ticker \<noteq> [] then ''&event_ticker='' @ event_ticker else [])
      in bind_io (page_retry c (rc_path_prefix c @ ''/markets'')
             (rc_base_url c @ ''/markets?'' @ base_query @ page_cursor ''&'' cursor) (kPageAttempts - 1)) (\<lambda>resp.
         lift_result (
           bindE (js_parse (rc_json c) (body resp)) (\<lambda>j.
           bindE (js_at (rc_json c) j ''markets'') (\<lambda>ms.
           bindE (map_result (parse_market (rc_json c)) (js_elements (rc_json c) ms)) (\<lambda>page.
           bindE (value_or (rc_json c) (js_get_string (rc_json c)) j ''cursor'' []) (\<lambda>cursor'.
             Inr (page, cursor'))))))))"

definition get_markets :: "('j, 't, 'p) rest_client \<Rightarrow> string \<Rightarrow> rate_limiter \<times> 'p
    \<Rightarrow> ((exn + market list) \<times> rate_limiter \<times> 'p) option" where
  "get_markets c event_ticker s = fetch_pages (markets_page c event_ticker) [] [] s"

definition positions_page :: "('j, 't, 'p) rest_client \<Rightarrow> string \<Rightarrow> (market_position list \<times> string, rate_limiter \<times> 'p) io" where
  "positions_page c cursor =
     bind_io (get_json c (rc_path_prefix c @ ''/portfolio/positions'')
                (rc_base_url c @ ''/portfolio/positions'' @ page_cursor ''?'' cursor)) (\<lambda>j.
       lift_result (
         bindE (js_at (rc_json c) j ''market_positions'') (\<lambda>ps.
         bindE (map_result (parse_position (rc_json c)) (js_elements (rc_json c) ps)) (\<lambda>page.
         bindE (value_or (rc_json c) (js_get_string (rc_json c)) j ''cursor'' []) (\<lambda>cursor'.
           Inr (page, cursor'))))))"

definition get_positions :: "('j, 't, 'p) rest_client \<Rightarrow> rate_limiter \<times> 'p
    \<Rightarrow> ((exn + market_position list) \<times> rate_limiter \<times> 'p) option" where
  "get_positions c s = fetch_pages (positions_page c) [] [] s"

definition incentives_page :: "('j, 't, 'p) rest_client \<Rightarrow> string \<Rightarrow> (incentive_program list \<times> string, rate_limiter \<times> 'p) io" where
  "incentives_page c cursor =
     bind_io (get_json c (rc_path_prefix c @ ''/incentive_programs'')
                (rc_base_url c @ ''/incentive_programs?status=active&type=liquidity&limit=1000'' @ page_cursor ''&'' cursor)) (\<lambda>j.
       lift_result (
         bindE (value_or (rc_json c) Inr j ''incentive_programs'' (js_array (rc_json c) [])) (\<lambda>ps.
         bindE (map_result (parse_incentive (rc_json c)) (js_elements (rc_json c) ps)) (\<lambda>page.
         bindE (value_or (rc_json c) (js_get_string (rc_json c)) j ''cursor'' []) (\<lambda>fallback.
         bindE (value_or (rc_json c) (js_get_string (rc_json c)) j ''next_cursor'' fallback) (\<lambda>cursor'.
           Inr (page, cursor')))))))"

definition get_incentive_programs :: "('j, 't, 'p) rest_client \<Rightarrow> rate_limiter \<times> 'p
    \<Rightarrow> ((exn + incentive_program list) \<times> rate_limiter \<times> 'p) option" where
  "get_incentive_programs c s = fetch_pages (incentives_page c) [] [] s"

definition fills_page :: "('j, 't, 'p) rest_client \<Rightarrow> int \<Rightarrow> string \<Rightarrow> (fill list \<times> string, rate_limiter \<times> 'p) io" where
  "fills_page c min_ts_seconds cursor =
     (let base_query = ''limit=100'' @ (if min_ts_seconds > 0 then ''&min_ts='' @ int_to_string min_ts_seconds else [])
      in bind_io (get_json c (rc_path_prefix c @ ''/portfolio/fills'')
             (rc_base_url c @ ''/portfolio/fills?'' @ base_query @ page_cursor ''&'' cursor)) (\<lambda>j.
         lift_result (
           bindE (js_at (rc_json c) j ''fills'') (\<lambda>fs.
           bindE (map_result (parse_fill (rc_json c)) (js_elements (rc_json c) fs)) (\<lambda>page.
           bindE (value_or (rc_json c) (js_get_string (rc_json c)) j ''cursor'' []) (\<lambda>cursor'.
             Inr (page, cursor')))))))"

definition get_fills :: "('j, 't, 'p) rest_client \<Rightarrow> int \<Rightarrow> rate_limiter \<times> 'p
    \<Rightarrow> ((exn + fill list) \<times> rate_limiter \<times> 'p) option" where
  "get_fills c min_ts_seconds s = fetch_pages (fills_page c min_ts_seconds) [] [] s"

section \<open>Single requests\<close>

definition get_orderbook :: "('j, 't, 'p) rest_client \<Rightarrow> ticker \<Rightarrow> (orderbook, rate_limiter \<times> 'p) io" where
  "get_orderbook c tk =
     bind_io (get_json c (rc_path_prefix c @ ''/markets/'' @ tk @ ''/orderbook'')
                (rc_base_url c @ ''/markets/'' @ tk @ ''/orderbook'')) (\<lambda>j.
       lift_result (
         bindE (js_at (rc_json c) j ''orderbook_fp'') (\<lambda>ob.
         bindE (bindE (js_at (rc_json c) ob ''yes_dollars'') (\<lambda>ls.
                  map_result (parse_level (rc_json c)) (js_elements (rc_json c) ls))) (\<lambda>yes.
         bindE (bindE (js_at (rc_json c) ob ''no_dollars'') (\<lambda>ls.
                  map_result (parse_level (rc_json c)) (js_elements (rc_json c) ls))) (\<lambda>no.
           Inr \<lparr>ob_ticker = tk, ob_yes = yes, ob_no = no\<rparr>)))))"

text \<open>The create-order body: a bid or an ask in the YES dimension.\<close>

definition v2_side :: "side \<Rightarrow> string" where
  "v2_side sd = (if sd = Yes then ''bid'' else ''ask'')"

definition yes_price :: "side \<Rightarrow> int \<Rightarrow> int" where
  "yes_price sd price_cents = (if sd = Yes then price_cents else kPriceBasis - price_cents)"

definition order_body :: "('j, 't) json_ops \<Rightarrow> ticker \<Rightarrow> side \<Rightarrow> int \<Rightarrow> quantity \<Rightarrow> order_type \<Rightarrow> 'j" where
  "order_body js tk sd price_cents cnt type =
     (let v2_tif = (if type = Market then ''immediate_or_cancel'' else ''good_till_canceled'')
      in js_object js ([(''ticker'', js_string js tk), (''side'', js_string js (v2_side sd)),
           (''price'', js_string js (format_dollars (yes_price sd price_cents))),
           (''count'', js_string js (to_fp_string cnt)), (''time_in_force'', js_string js v2_tif),
           (''self_trade_prevention_type'', js_string js ''taker_at_cross'')]
         @ (if v2_tif = ''good_till_canceled''
            then [(''post_only'', js_bool js True), (''cancel_order_on_pause'', js_bool js True)] else [])))"

text \<open>The order is rebuilt from the arguments and the minimal answer.\<close>

definition placed_order :: "('j, 't) json_ops \<Rightarrow> ticker \<Rightarrow> side \<Rightarrow> int \<Rightarrow> quantity \<Rightarrow> order_type \<Rightarrow> 'j \<Rightarrow> exn + order" where
  "placed_order js tk sd price_cents cnt type j =
     bindE (bindE (get_str js j ''fill_count'') parse_fp_count) (\<lambda>filled_qty.
     bindE (get_int js j ''ts_ms'') (\<lambda>ts_ms.
     bindE (value_or js (js_get_string js) j ''average_fill_price'' []) (\<lambda>avg_str.
     bindE (if avg_str \<noteq> [] then
              bindE (parse_dollars_to_cents avg_str) (\<lambda>avg_yes_cents.
                Inr (if sd = Yes then avg_yes_cents else complement_price avg_yes_cents))
            else Inr 0) (\<lambda>avg_fill_cents.
     bindE (get_str js j ''order_id'') (\<lambda>oid.
       Inr \<lparr>o_id = oid, o_market_ticker = tk, o_side = sd, o_price_cents = price_cents, o_quantity = cnt,
            o_filled_quantity = filled_qty,
            o_status = (if cnt \<le> filled_qty then Filled
                        else if type = Market then Cancelled
                        else if is_positive filled_qty then PartiallyFilled else Open),
            o_type = type, o_created_at = ts_ms * kNanosPerMilli,
            o_average_fill_price_cents = avg_fill_cents\<rparr>)))))"

definition post_json :: "('j, 't, 'p) rest_client \<Rightarrow> string \<Rightarrow> real \<Rightarrow> 'j \<Rightarrow> ('t http_response, rate_limiter \<times> 'p) io" where
  "post_json c endpoint cost body_json =
     bind_io (rc_sign c ''POST'' (rc_path_prefix c @ endpoint)) (\<lambda>headers.
     bind_io (throttle c cost) (\<lambda>_.
       on_world (http_post (rc_transport c) (rc_base_url c @ endpoint)
         (headers(''Content-Type'' \<mapsto> ''application/json'')) (js_dump (rc_json c) body_json))))"

definition place_order :: "('j, 't, 'p) rest_client \<Rightarrow> ticker \<Rightarrow> side \<Rightarrow> int \<Rightarrow> quantity \<Rightarrow> order_type
    \<Rightarrow> (order, rate_limiter \<times> 'p) io" where
  "place_order c tk sd price_cents cnt type =
     bind_io (post_json c ''/portfolio/events/orders'' kPlaceOrderCost
                (order_body (rc_json c) tk sd price_cents cnt type)) (\<lambda>resp.
     bind_io (lift_result (check_response resp)) (\<lambda>_.
       lift_result (bindE (js_parse (rc_json c) (body resp)) (placed_order (rc_json c) tk sd price_cents cnt type))))"

definition default_order :: order where
  "default_order = \<lparr>o_id = [], o_market_ticker = [], o_side = Yes, o_price_cents = 0, o_quantity = 0,
     o_filled_quantity = 0, o_status = Open, o_type = Limit, o_created_at = 0, o_average_fill_price_cents = 0\<rparr>"

definition flatten :: "('j, 't, 'p) rest_client \<Rightarrow> ticker \<Rightarrow> quantity \<Rightarrow> (order, rate_limiter \<times> 'p) io" where
  "flatten c tk position =
     (if is_zero position then return_io default_order
      else
        let close_side = (if is_positive position then No else Yes);
            cnt = (if is_positive position then position else - position)
        in place_order c tk close_side kMaxPriceCents cnt Market)"

definition cancel_order :: "('j, 't, 'p) rest_client \<Rightarrow> string \<Rightarrow> (bool, rate_limiter \<times> 'p) io" where
  "cancel_order c order_id =
     bind_io (rc_sign c ''DELETE'' (rc_path_prefix c @ ''/portfolio/events/orders/'' @ order_id)) (\<lambda>headers.
     bind_io (throttle c kCancelOrderCost) (\<lambda>_.
     bind_io (on_world (http_delete (rc_transport c) (rc_base_url c @ ''/portfolio/events/orders/'' @ order_id) headers)) (\<lambda>resp.
       return_io (200 \<le> status_code resp \<and> status_code resp \<le> 299))))"

text \<open>The amend body; signing and the request itself are outside the \<open>try\<close>.\<close>

definition amend_body :: "('j, 't) json_ops \<Rightarrow> ticker \<Rightarrow> side \<Rightarrow> int \<Rightarrow> quantity \<Rightarrow> 'j" where
  "amend_body js tk sd new_price_cents cnt =
     js_object js [(''ticker'', js_string js tk), (''side'', js_string js (v2_side sd)),
       (''price'', js_string js (format_dollars (yes_price sd new_price_cents))),
       (''count'', js_string js (to_fp_string cnt)), (''time_in_force'', js_string js ''good_till_canceled''),
       (''self_trade_prevention_type'', js_string js ''taker_at_cross''), (''post_only'', js_bool js True)]"

definition amend_order :: "('j, 't, 'p) rest_client \<Rightarrow> string \<Rightarrow> ticker \<Rightarrow> side \<Rightarrow> int \<Rightarrow> quantity
    \<Rightarrow> (string option, rate_limiter \<times> 'p) io" where
  "amend_order c order_id tk sd new_price_cents cnt =
     bind_io (post_json c (''/portfolio/events/orders/'' @ order_id @ ''/amend'') kPlaceOrderCost
                (amend_body (rc_json c) tk sd new_price_cents cnt)) (\<lambda>resp.
       catch_io (lift_result (
           bindE (check_response resp) (\<lambda>_.
           bindE (js_parse (rc_json c) (body resp)) (\<lambda>j.
           bindE (value_or (rc_json c) (js_get_string (rc_json c)) j ''order_id'' order_id) (\<lambda>new_id.
             Inr (Some new_id))))))
         (\<lambda>_. return_io None))"

definition decrease_order :: "('j, 't, 'p) rest_client \<Rightarrow> string \<Rightarrow> quantity \<Rightarrow> (quantity option, rate_limiter \<times> 'p) io" where
  "decrease_order c order_id reduce_to =
     bind_io (post_json c (''/portfolio/events/orders/'' @ order_id @ ''/decrease'') kCancelOrderCost
                (js_object (rc_json c) [(''reduce_to'', js_string (rc_json c) (to_fp_string reduce_to))])) (\<lambda>resp.
       catch_io (lift_result (
           bindE (check_response resp) (\<lambda>_.
           bindE (js_parse (rc_json c) (body resp)) (\<lambda>j.
           bindE (bindE (get_str (rc_json c) j ''remaining_count'') parse_fp_count) (\<lambda>q. Inr (Some q))))))
         (\<lambda>_. return_io None))"

definition get_open_orders :: "('j, 't, 'p) rest_client \<Rightarrow> (order list, rate_limiter \<times> 'p) io" where
  "get_open_orders c =
     bind_io (get_json c (rc_path_prefix c @ ''/portfolio/orders'')
                (rc_base_url c @ ''/portfolio/orders?status=resting'')) (\<lambda>j.
       lift_result (bindE (js_at (rc_json c) j ''orders'') (\<lambda>os.
         map_result (parse_order (rc_json c)) (js_elements (rc_json c) os))))"

definition get_recent_trades :: "('j, 't, 'p) rest_client \<Rightarrow> ticker \<Rightarrow> int \<Rightarrow> (public_trade list option, rate_limiter \<times> 'p) io" where
  "get_recent_trades c tk limit =
     catch_io (bind_io (get_json c (rc_path_prefix c @ ''/markets/trades'')
                (rc_base_url c @ ''/markets/trades?limit='' @ int_to_string limit @ ''&ticker='' @ tk)) (\<lambda>j.
         lift_result (bindE (js_at (rc_json c) j ''trades'') (\<lambda>ts.
           bindE (map_result (parse_trade (rc_json c) tk) (js_elements (rc_json c) ts)) (\<lambda>trades. Inr (Some trades))))))
       (\<lambda>_. return_io None)"

definition get_candlesticks :: "('j, 't, 'p) rest_client \<Rightarrow> ticker \<Rightarrow> int \<Rightarrow> int \<Rightarrow> (candle list option, rate_limiter \<times> 'p) io" where
  "get_candlesticks c tk start_ts_seconds end_ts_seconds =
     (let series = takeWhile (\<lambda>ch. ch \<noteq> CHR ''-'') tk;
          endpoint = ''/series/'' @ series @ ''/markets/'' @ tk @ ''/candlesticks''
      in catch_io (bind_io (get_json c (rc_path_prefix c @ endpoint)
                (rc_base_url c @ endpoint @ ''?start_ts='' @ int_to_string start_ts_seconds
                   @ ''&end_ts='' @ int_to_string end_ts_seconds @ ''&period_interval=1'')) (\<lambda>j.
         lift_result (bindE (js_at (rc_json c) j ''candlesticks'') (\<lambda>cs.
           bindE (map_result (parse_candle (rc_json c)) (js_elements (rc_json c) cs)) (\<lambda>candles. Inr (Some candles))))))
       (\<lambda>_. return_io None))"

text \<open>The three operations the order manager calls, as its interface.\<close>

definition client_api :: "('j, 't, 'p) rest_client \<Rightarrow> (rate_limiter \<times> 'p) rest_api" where
  "client_api c = \<lparr>api_place_order = place_order c, api_cancel_order = cancel_order c,
     api_amend_order = amend_order c\<rparr>"

section \<open>Exceptions\<close>

text \<open>What the client needs of its surroundings to raise nothing but standard exceptions.\<close>

definition client_raises_std :: "('j, 't, 'p) rest_client \<Rightarrow> bool" where
  "client_raises_std c \<longleftrightarrow> json_raises_std (rc_json c) \<and> transport_raises_std (rc_transport c)
     \<and> (\<forall>k m. std_result (rc_rsa_sign c k m))"

lemma client_raises_stdD:
  assumes "client_raises_std c"
  shows "json_raises_std (rc_json c)" "transport_raises_std (rc_transport c)" "std_result (rc_rsa_sign c k m)"
  using assms by (simp_all add: client_raises_std_def)

lemma check_response_std [raises_std_intros]: "std_result (check_response resp)"
  by (simp add: check_response_def)

lemma parse_enum_std [raises_std_intros]:
  "std_result (parse_side s)" "std_result (parse_order_status s)" "std_result (parse_order_type s)"
  "std_result (parse_fp_count s)"
  by (simp_all add: parse_side_def parse_order_status_def parse_order_type_def parse_fp_count_def from_fp_string_std)

lemma raises_std_on_world [raises_std_intros]: "raises_std m \<Longrightarrow> raises_std (on_world m)"
  unfolding raises_std_def on_world_def by (force split: prod.splits)

lemma raises_std_throttle [raises_std_intros]: "raises_std (throttle c cost)"
  by (auto simp: raises_std_def throttle_def Let_def case_prod_beta)

lemma raises_std_rc_sign [raises_std_intros]: "client_raises_std c \<Longrightarrow> raises_std (rc_sign c meth path)"
  unfolding rc_sign_def by (intro raises_std_on_world raises_std_sign) (simp add: client_raises_stdD)

lemma raises_std_post [raises_std_intros]: "client_raises_std c \<Longrightarrow> raises_std (post_json c e cost b)"
  unfolding post_json_def by (intro raises_std_intros client_raises_stdD)

lemma placed_order_std [raises_std_intros]:
  "json_raises_std js \<Longrightarrow> std_result (placed_order js tk sd p q ty j)"
  unfolding placed_order_def by (intro raises_std_intros) (auto intro!: raises_std_intros)

lemma raises_std_place_order [raises_std_intros]: "client_raises_std c \<Longrightarrow> raises_std (place_order c tk sd p q ty)"
  unfolding place_order_def by (intro raises_std_intros client_raises_stdD)

lemma raises_std_cancel_order [raises_std_intros]: "client_raises_std c \<Longrightarrow> raises_std (cancel_order c oid)"
  unfolding cancel_order_def by (intro raises_std_intros client_raises_stdD)

lemma raises_std_amend_order [raises_std_intros]: "client_raises_std c \<Longrightarrow> raises_std (amend_order c oid tk sd p q)"
  unfolding amend_order_def by (intro raises_std_intros client_raises_stdD) (simp_all add: client_raises_stdD)

lemma raises_std_get_orderbook [raises_std_intros]: "client_raises_std c \<Longrightarrow> raises_std (get_orderbook c tk)"
  unfolding get_orderbook_def get_json_def signed_get_def parse_level_def
  by (intro raises_std_intros client_raises_stdD) (simp_all add: client_raises_stdD)

section \<open>Pages\<close>

text \<open>The exchange serves a listing from a cursor on, page after page, until the cursor is empty.\<close>

inductive serves :: "(string \<Rightarrow> ('a list \<times> string, 'w) io) \<Rightarrow> string \<Rightarrow> 'w \<Rightarrow> 'a list \<Rightarrow> 'w \<Rightarrow> bool"
  for fetch_page where
  last_page: "fetch_page cursor w = (Inr (page, []), w') \<Longrightarrow> serves fetch_page cursor w page w'"
| more_pages: "fetch_page cursor w = (Inr (page, cursor'), w') \<Longrightarrow> cursor' \<noteq> [] \<Longrightarrow> serves fetch_page cursor' w' rest w''
    \<Longrightarrow> serves fetch_page cursor w (page @ rest) w''"

lemma fetch_pages_complete:
  "serves fetch_page cursor w items w' \<Longrightarrow> fetch_pages fetch_page cursor acc w = Some (Inr (acc @ items), w')"
  by (induction arbitrary: acc rule: serves.induct) (subst fetch_pages.simps, simp)+

lemma fetch_pages_sound_aux:
  "fetch_pages fetch_page cursor acc w = Some r \<Longrightarrow> r = (Inr items, w') \<Longrightarrow>
     \<exists>rest. items = acc @ rest \<and> serves fetch_page cursor w rest w'"
proof (induction fetch_page cursor acc w r rule: fetch_pages.raw_induct [rotated, consumes 1, case_names step])
  case (step loop fetch_page cursor acc w r)
  then obtain page cursor' w1 where page: "fetch_page cursor w = (Inr (page, cursor'), w1)"
    by (auto split: prod.splits sum.splits)
  show ?case
  proof (cases "cursor' = []")
    case True
    then show ?thesis using step(2-) page by (auto intro: last_page)
  next
    case False
    then have "loop fetch_page cursor' (acc @ page) w1 = Some r" using step(2) page by simp
    from step(1) [OF this] step(3-) obtain rest where "items = acc @ page @ rest" "serves fetch_page cursor' w1 rest w'" by auto
    then show ?thesis using page False by (blast intro: more_pages)
  qed
qed

lemmas fetch_pages_sound = fetch_pages_sound_aux [OF _ refl]

lemma fetch_pages_iff: "fetch_pages fetch_page [] [] w = Some (Inr items, w') \<longleftrightarrow> serves fetch_page [] w items w'"
  using fetch_pages_complete [of fetch_page "[]" w items w' "[]"] fetch_pages_sound [of fetch_page "[]" "[]" w items w'] by auto

end
