(* ===== verification/Ticker_Scanner.thy ===== *)
theory Ticker_Scanner
  imports Rest_Client Orderbook "HOL-Library.Sublist"
begin

text \<open>
  \<open>TickerScanner\<close> (\<open>source/exchange/ticker_scanner.cpp\<close>, \<open>scanner_config.hpp\<close>): which markets the
  program trades. The scanner calls five operations of the REST client, gathered in the record
  \<open>market_data\<close> and provided by \<open>client_market_data\<close>. \<open>std::sort\<close> leaves the order of equal scores
  open; the stable sort here is one of the orders it allows, and no theorem depends on the choice.
\<close>

section \<open>Configuration and scores\<close>

record scanner_config =
  sn_min_price_cents :: int
  sn_max_price_cents :: int
  sn_min_spread_cents :: int
  sn_max_spread_cents :: int
  sn_min_volume_24h :: real
  sn_min_days_to_close :: real
  sn_max_days_to_close :: real
  sn_incentive_weight :: real
  sn_trade_top_n :: int
  sn_max_stale_trade_minutes :: int
  sn_rotation_minutes :: int
  sn_min_trades_per_hour :: int
  sn_min_trade_price_range_cents :: int
  sn_tape_range_lookback_minutes :: int
  sn_min_minority_flow_ratio :: real
  sn_min_reversion_kappa :: real
  sn_reversion_window_minutes :: int
  sn_event_series :: "string list"

definition default_scanner_config :: scanner_config where
  "default_scanner_config = \<lparr>sn_min_price_cents = 15, sn_max_price_cents = 85, sn_min_spread_cents = 3,
     sn_max_spread_cents = 10, sn_min_volume_24h = 1000, sn_min_days_to_close = 1, sn_max_days_to_close = 90,
     sn_incentive_weight = 1 / 2, sn_trade_top_n = 5, sn_max_stale_trade_minutes = 30, sn_rotation_minutes = 5,
     sn_min_trades_per_hour = 6, sn_min_trade_price_range_cents = 2, sn_tape_range_lookback_minutes = 180,
     sn_min_minority_flow_ratio = 0, sn_min_reversion_kappa = 0, sn_reversion_window_minutes = 180, sn_event_series = []\<rparr>"

definition kDefaultTapeProbeTrades :: int where "kDefaultTapeProbeTrades = 8"

record market_score =
  sc_ticker :: ticker
  sc_title :: string
  sc_category :: string
  sc_mid_price_cents :: int
  sc_spread_cents :: int
  sc_volume_24h :: real
  sc_days_to_close :: real
  sc_incentive_reward_dollars :: real
  sc_score :: real

section \<open>The REST operations a scan needs\<close>

text \<open>The paginated listings may go on for ever, which is \<open>None\<close>.\<close>

type_synonym ('a, 'w) paged = "'w \<Rightarrow> ((exn + 'a) \<times> 'w) option"

record 'w market_data =
  md_get_markets :: "string \<Rightarrow> (market list, 'w) paged"
  md_get_incentive_programs :: "(incentive_program list, 'w) paged"
  md_get_recent_trades :: "ticker \<Rightarrow> int \<Rightarrow> (public_trade list option, 'w) io"
  md_get_candlesticks :: "ticker \<Rightarrow> int \<Rightarrow> int \<Rightarrow> (candle list option, 'w) io"
  md_get_orderbook :: "ticker \<Rightarrow> (orderbook, 'w) io"

definition client_market_data :: "('j, 't, 'p) rest_client \<Rightarrow> (rate_limiter \<times> 'p) market_data" where
  "client_market_data c = \<lparr>md_get_markets = get_markets c, md_get_incentive_programs = get_incentive_programs c,
     md_get_recent_trades = get_recent_trades c, md_get_candlesticks = get_candlesticks c, md_get_orderbook = get_orderbook c\<rparr>"

definition bind_paged :: "('a, 'w) paged \<Rightarrow> ('a \<Rightarrow> ('b, 'w) paged) \<Rightarrow> ('b, 'w) paged" where
  "bind_paged m f w = (case m w of None \<Rightarrow> None | Some (Inl e, w') \<Rightarrow> Some (Inl e, w') | Some (Inr x, w') \<Rightarrow> f x w')"

definition paged_io :: "('a, 'w) io \<Rightarrow> ('a, 'w) paged" where
  "paged_io m w = Some (m w)"

lemma bind_paged_SomeE:
  assumes "bind_paged m f w = Some (Inr y, w'')"
  obtains x w' where "m w = Some (Inr x, w')" "f x w' = Some (Inr y, w'')"
  using assms unfolding bind_paged_def by (auto split: option.splits prod.splits sum.splits)

lemma bind_paged_simps [simp]:
  "m w = Some (Inr x, w') \<Longrightarrow> bind_paged m f w = f x w'" "m w = Some (Inl e, w') \<Longrightarrow> bind_paged m f w = Some (Inl e, w')"
  by (simp_all add: bind_paged_def)

section \<open>Dates\<close>

definition kSecondsPerDay :: real where "kSecondsPerDay = 86400"
definition kCentiCentsPerDollar :: real where "kCentiCentsPerDollar = 10000"
definition kTickerBaseYear :: int where "kTickerBaseYear = 2000"
definition kYearKeyFactor :: int where "kYearKeyFactor = 10000"
definition kMonthKeyFactor :: int where "kMonthKeyFactor = 100"
definition kMaxDayOfMonth :: int where "kMaxDayOfMonth = 31"

definition kTickerMonthTokens :: "string list" where
  "kTickerMonthTokens = [''JAN'', ''FEB'', ''MAR'', ''APR'', ''MAY'', ''JUN'', ''JUL'', ''AUG'', ''SEP'', ''OCT'', ''NOV'', ''DEC'']"

definition date_key :: "int \<Rightarrow> int \<Rightarrow> int \<Rightarrow> int" where
  "date_key year month day = year * kYearKeyFactor + month * kMonthKeyFactor + day"

definition month_of_token :: "string \<Rightarrow> int option" where
  "month_of_token tok =
     (let i = length (takeWhile (\<lambda>t. t \<noteq> tok) kTickerMonthTokens)
      in if i < length kTickerMonthTokens then Some (int i + 1) else None)"

definition ticker_event_date_key :: "ticker \<Rightarrow> int option" where
  "ticker_event_date_key tk =
     (let dash = length (takeWhile (\<lambda>c. c \<noteq> CHR ''-'') tk) in
      if dash = length tk \<or> length tk < dash + 1 + 7 then None
      else
        let token = take 7 (drop (dash + 1) tk) in
        if \<not> is_digit (token ! 0) \<or> \<not> is_digit (token ! 1) \<or> \<not> is_digit (token ! 5) \<or> \<not> is_digit (token ! 6) then None
        else case month_of_token (take 3 (drop 2 token)) of
               None \<Rightarrow> None
             | Some month \<Rightarrow>
                 let year = kTickerBaseYear + int (digit_val (token ! 0)) * 10 + int (digit_val (token ! 1));
                     day = int (digit_val (token ! 5)) * 10 + int (digit_val (token ! 6))
                 in if day < 1 \<or> day > kMaxDayOfMonth then None else Some (date_key year month day))"

text \<open>\<open>std::chrono::year_month_day\<close> of a day counted from 1970: the year, then the month.\<close>

function civil_year :: "int \<Rightarrow> int \<Rightarrow> int \<times> int" where
  "civil_year y d =
     (if d < 0 then civil_year (y - 1) (d + year_days (y - 1))
      else if d \<ge> year_days y then civil_year (y + 1) (d - year_days y) else (y, d))"
  by pat_completeness auto
termination
  by (relation "measure (\<lambda>(y, d). if d < 0 then nat (- d) + 400 else nat d)") (auto simp: year_days_def split: if_splits)

declare civil_year.simps [simp del]

fun civil_month :: "nat \<Rightarrow> int \<Rightarrow> nat \<Rightarrow> int \<Rightarrow> int \<times> int" where
  "civil_month 0 y m d = (int m, d + 1)"
| "civil_month (Suc n) y m d = (if d \<ge> month_days y m then civil_month n y (m + 1) (d - month_days y m) else (int m, d + 1))"

definition civil_from_days :: "int \<Rightarrow> int \<times> int \<times> int" where
  "civil_from_days days = (let (y, d) = civil_year 1970 days; (m, dm) = civil_month 11 y 1 d in (y, m, dm))"

definition utc_date_key :: "time_ns \<Rightarrow> int" where
  "utc_date_key now = (case civil_from_days (now div (86400 * kNanosPerSecond)) of (y, m, d) \<Rightarrow> date_key y m d)"

section \<open>Scoring\<close>

definition kWeightVolume :: real where "kWeightVolume = 7 / 10"
definition kWeightSpread :: real where "kWeightSpread = 3 / 10"

record spread_curve_t =
  mid_cents :: real
  half_range_cents :: real

definition spread_curve :: "scanner_config \<Rightarrow> spread_curve_t" where
  "spread_curve cfg =
     \<lparr>mid_cents = real_of_int (sn_min_spread_cents cfg + sn_max_spread_cents cfg) / 2,
      half_range_cents = max (1 / 2) (real_of_int (sn_max_spread_cents cfg - sn_min_spread_cents cfg) / 2)\<rparr>"

definition compute_score :: "market_score \<Rightarrow> real \<Rightarrow> spread_curve_t \<Rightarrow> real" where
  "compute_score m max_volume curve =
     (let vol_term = (if max_volume > 1 \<and> sc_volume_24h m > 1 then ln (sc_volume_24h m) / ln max_volume else 0);
          spread_term = 1 - \<bar>real_of_int (sc_spread_cents m) - mid_cents curve\<bar> / half_range_cents curve
      in kWeightVolume * vol_term + kWeightSpread * max 0 spread_term)"

definition incentive_term :: "market_score \<Rightarrow> real \<Rightarrow> real" where
  "incentive_term m max_reward =
     (if sc_incentive_reward_dollars m \<le> 0 \<or> max_reward \<le> 1 then 0
      else ln (sc_incentive_reward_dollars m + 1) / ln (max_reward + 1))"

definition reward_by_ticker :: "incentive_program list \<Rightarrow> ticker \<rightharpoonup> real" where
  "reward_by_ticker programs =
     fold (\<lambda>p r. r(ip_market_ticker p \<mapsto> real_of_int (ip_period_reward_centicents p) / kCentiCentsPerDollar)) programs Map.empty"

definition join_incentives :: "market_score list \<Rightarrow> incentive_program list \<Rightarrow> market_score list \<times> real" where
  "join_incentives candidates programs =
     (let rewards = reward_by_ticker programs;
          joined = map (\<lambda>c. case rewards (sc_ticker c) of None \<Rightarrow> c | Some r \<Rightarrow> c\<lparr>sc_incentive_reward_dollars := r\<rparr>) candidates;
          max_reward = fold (\<lambda>c m. case rewards (sc_ticker c) of None \<Rightarrow> m | Some r \<Rightarrow> max m r) candidates 0
      in (joined, max_reward))"

section \<open>Admission of finalists\<close>

definition kNanosPerMinute :: int where "kNanosPerMinute = 60 * kNanosPerSecond"

fun flow_sums :: "time_ns \<Rightarrow> public_trade list \<Rightarrow> real \<times> real \<times> int \<times> int \<Rightarrow> real \<times> real \<times> int \<times> int" where
  "flow_sums cutoff [] acc = acc"
| "flow_sums cutoff (t # ts) (yes_volume, no_volume, yes_prints, no_prints) =
     (if pt_timestamp t < cutoff then (yes_volume, no_volume, yes_prints, no_prints)
      else if pt_taker_side t = Yes then flow_sums cutoff ts (yes_volume + contracts (pt_quantity t), no_volume, yes_prints + 1, no_prints)
      else flow_sums cutoff ts (yes_volume, no_volume + contracts (pt_quantity t), yes_prints, no_prints + 1))"

definition tape_is_two_sided :: "scanner_config \<Rightarrow> public_trade list \<Rightarrow> time_ns \<Rightarrow> bool" where
  "tape_is_two_sided cfg trades hour_cutoff =
     (case flow_sums hour_cutoff trades (0, 0, 0, 0) of (yes_volume, no_volume, yes_prints, no_prints) \<Rightarrow>
        let has_volume = yes_volume + no_volume > 0;
            minority = (if has_volume then min yes_volume no_volume else of_int (min yes_prints no_prints));
            total = (if has_volume then yes_volume + no_volume else of_int (yes_prints + no_prints))
        in if total \<le> 0 then False else \<not> minority / total < sn_min_minority_flow_ratio cfg)"

fun price_range :: "time_ns \<Rightarrow> public_trade list \<Rightarrow> int \<times> int \<times> int \<Rightarrow> int \<times> int \<times> int" where
  "price_range cutoff [] acc = acc"
| "price_range cutoff (t # ts) (min_price, max_price, recent_count) =
     (if pt_timestamp t < cutoff then (min_price, max_price, recent_count)
      else price_range cutoff ts (min min_price (pt_yes_price_cents t), max max_price (pt_yes_price_cents t), recent_count + 1))"

definition tape_shows_price_discovery :: "scanner_config \<Rightarrow> public_trade list \<Rightarrow> time_ns \<Rightarrow> bool" where
  "tape_shows_price_discovery cfg trades lookback_cutoff =
     (case price_range lookback_cutoff trades (kMaxPriceCents + 1, 0, 0) of (min_price, max_price, recent_count) \<Rightarrow>
        if recent_count < 2 then False else \<not> max_price - min_price < sn_min_trade_price_range_cents cfg)"

definition probe_limit :: "scanner_config \<Rightarrow> int" where
  "probe_limit cfg =
     (let range_probe = (if sn_min_trade_price_range_cents cfg > 0 then kDefaultTapeProbeTrades else 1);
          flow_probe = (if sn_min_minority_flow_ratio cfg > 0 then kDefaultTapeProbeTrades else 1)
      in max (max (sn_min_trades_per_hour cfg) range_probe) (max flow_probe 1))"

definition tape_admits :: "scanner_config \<Rightarrow> time_ns \<Rightarrow> public_trade list \<Rightarrow> bool" where
  "tape_admits cfg now trades =
     (let hour_cutoff = now - 60 * kNanosPerMinute; needed = nat (sn_min_trades_per_hour cfg) in
      if trades = [] then False
      else if sn_max_stale_trade_minutes cfg > 0
        \<and> pt_timestamp (hd trades) < now - sn_max_stale_trade_minutes cfg * kNanosPerMinute then False
      else if sn_min_trades_per_hour cfg > 0
        \<and> (length trades < needed \<or> pt_timestamp (trades ! (needed - 1)) < hour_cutoff) then False
      else if sn_min_trade_price_range_cents cfg > 0
        \<and> \<not> tape_shows_price_discovery cfg trades (now - sn_tape_range_lookback_minutes cfg * kNanosPerMinute) then False
      else if sn_min_minority_flow_ratio cfg > 0 \<and> \<not> tape_is_two_sided cfg trades hour_cutoff then False
      else True)"

definition passes_flow_admission :: "'w market_data \<Rightarrow> scanner_config \<Rightarrow> ticker \<Rightarrow> time_ns \<Rightarrow> (bool, 'w) io" where
  "passes_flow_admission md cfg tk now =
     bind_io (md_get_recent_trades md tk (probe_limit cfg)) (\<lambda>trades.
       return_io (case trades of None \<Rightarrow> True | Some ts \<Rightarrow> tape_admits cfg now ts))"

fun path_variation :: "int list \<Rightarrow> real" where
  "path_variation (a # b # cs) = of_int \<bar>b - a\<bar> + path_variation (b # cs)"
| "path_variation _ = 0"

definition reverts :: "scanner_config \<Rightarrow> candle list \<Rightarrow> bool" where
  "reverts cfg candles =
     (let closes = List.map_filter close_cents candles in
      if length closes < 2 then False
      else let net_move = real_of_int (last closes - hd closes); trend_cost = net_move * net_move
           in \<not> path_variation closes < sn_min_reversion_kappa cfg * trend_cost)"

definition passes_reversion_admission :: "'w market_data \<Rightarrow> scanner_config \<Rightarrow> ticker \<Rightarrow> time_ns \<Rightarrow> (bool, 'w) io" where
  "passes_reversion_admission md cfg tk now =
     (let end_ts = now sdiv kNanosPerSecond; start_ts = end_ts - sn_reversion_window_minutes cfg * 60
      in bind_io (md_get_candlesticks md tk start_ts end_ts) (\<lambda>candles.
           return_io (case candles of None \<Rightarrow> True | Some cs \<Rightarrow> reverts cfg cs)))"

definition book_wide_enough :: "scanner_config \<Rightarrow> orderbook \<Rightarrow> bool" where
  "book_wide_enough cfg book =
     (case (best_bid book, best_ask book) of
        (Some bid, Some ask) \<Rightarrow> \<not> lv_price_cents ask - lv_price_cents bid < sn_min_spread_cents cfg
      | _ \<Rightarrow> True)"

definition passes_book_admission :: "'w market_data \<Rightarrow> scanner_config \<Rightarrow> ticker \<Rightarrow> (bool, 'w) io" where
  "passes_book_admission md cfg tk =
     catch_io (bind_io (md_get_orderbook md tk) (\<lambda>snapshot. return_io (book_wide_enough cfg (apply_snapshot snapshot))))
       (\<lambda>_. return_io True)"

definition check_trades :: "scanner_config \<Rightarrow> bool" where
  "check_trades cfg \<longleftrightarrow> sn_max_stale_trade_minutes cfg > 0 \<or> sn_min_trades_per_hour cfg > 0
     \<or> sn_min_trade_price_range_cents cfg > 0 \<or> sn_min_minority_flow_ratio cfg > 0"

definition check_book :: "scanner_config \<Rightarrow> bool" where "check_book cfg \<longleftrightarrow> sn_min_spread_cents cfg > 0"

definition check_reversion :: "scanner_config \<Rightarrow> bool" where "check_reversion cfg \<longleftrightarrow> sn_min_reversion_kappa cfg > 0"

text \<open>The probes of one candidate, in order; a failed one skips the others.\<close>

definition admits :: "'w market_data \<Rightarrow> scanner_config \<Rightarrow> time_ns \<Rightarrow> ticker \<Rightarrow> (bool, 'w) io" where
  "admits md cfg now tk =
     bind_io (if check_trades cfg then passes_flow_admission md cfg tk now else return_io True) (\<lambda>flow.
       if \<not> flow then return_io False
       else bind_io (if check_book cfg then passes_book_admission md cfg tk else return_io True) (\<lambda>book.
         if \<not> book then return_io False
         else if check_reversion cfg then passes_reversion_admission md cfg tk now else return_io True))"

fun admit_loop :: "'w market_data \<Rightarrow> scanner_config \<Rightarrow> int \<Rightarrow> time_ns \<Rightarrow> market_score list \<Rightarrow> market_score list \<Rightarrow> (market_score list, 'w) io" where
  "admit_loop md cfg top_n now admitted [] = return_io admitted"
| "admit_loop md cfg top_n now admitted (c # cs) =
     (if int (length admitted) \<ge> top_n then return_io admitted
      else bind_io (admits md cfg now (sc_ticker c)) (\<lambda>ok.
        admit_loop md cfg top_n now (if ok then admitted @ [c] else admitted) cs))"

definition admit_finalists :: "'w market_data \<Rightarrow> scanner_config \<Rightarrow> int \<Rightarrow> time_ns \<Rightarrow> market_score list \<Rightarrow> (market_score list, 'w) io" where
  "admit_finalists md cfg top_n now candidates =
     (if \<not> check_trades cfg \<and> \<not> check_book cfg \<and> \<not> check_reversion cfg then return_io candidates
      else admit_loop md cfg top_n now [] candidates)"

section \<open>The scan\<close>

fun fetch_series :: "'w market_data \<Rightarrow> string list \<Rightarrow> market list \<Rightarrow> (market list, 'w) paged" where
  "fetch_series md [] acc = paged_io (return_io acc)"
| "fetch_series md (event # es) acc = bind_paged (md_get_markets md event) (\<lambda>batch. fetch_series md es (acc @ batch))"

definition fetch_markets :: "'w market_data \<Rightarrow> string list \<Rightarrow> (market list, 'w) paged" where
  "fetch_markets md series = (if series = [] then md_get_markets md [] else fetch_series md series [])"

definition market_mid :: "market \<Rightarrow> int" where
  "market_mid m = (m_yes_bid_cents m + m_yes_ask_cents m) sdiv 2"

definition market_days :: "time_ns \<Rightarrow> market \<Rightarrow> real" where
  "market_days now m = real_of_int (m_close_time m - now) / real_of_int kNanosPerSecond / kSecondsPerDay"

definition passes_filters :: "scanner_config \<Rightarrow> time_ns \<Rightarrow> market \<Rightarrow> bool" where
  "passes_filters cfg now m =
     (let mid = market_mid m; spread = m_yes_ask_cents m - m_yes_bid_cents m; days = market_days now m in
      if m_status m \<noteq> ''active'' then False
      else if m_yes_bid_cents m = 0 \<or> m_yes_ask_cents m = 0 then False
      else if (case ticker_event_date_key (m_ticker m) of None \<Rightarrow> False | Some k \<Rightarrow> k < utc_date_key now) then False
      else if mid < sn_min_price_cents cfg \<or> mid > sn_max_price_cents cfg then False
      else if spread < sn_min_spread_cents cfg \<or> spread > sn_max_spread_cents cfg then False
      else if m_volume_24h m < sn_min_volume_24h cfg then False
      else if days < sn_min_days_to_close cfg \<or> days > sn_max_days_to_close cfg then False
      else True)"

definition scored_market :: "time_ns \<Rightarrow> market \<Rightarrow> market_score" where
  "scored_market now m =
     \<lparr>sc_ticker = m_ticker m, sc_title = m_title m, sc_category = m_category m, sc_mid_price_cents = market_mid m,
      sc_spread_cents = m_yes_ask_cents m - m_yes_bid_cents m, sc_volume_24h = m_volume_24h m,
      sc_days_to_close = market_days now m, sc_incentive_reward_dollars = 0, sc_score = 0\<rparr>"

definition scan_candidates :: "scanner_config \<Rightarrow> time_ns \<Rightarrow> market list \<Rightarrow> market_score list" where
  "scan_candidates cfg now markets = map (scored_market now) (filter (passes_filters cfg now) markets)"

definition rank_candidates :: "scanner_config \<Rightarrow> market_score list \<Rightarrow> incentive_program list \<Rightarrow> market_score list" where
  "rank_candidates cfg candidates programs =
     (let max_volume = fold (\<lambda>c m. if sc_volume_24h c > m then sc_volume_24h c else m) candidates 1;
          (joined, max_reward) = join_incentives candidates programs;
          curve = spread_curve cfg;
          scored = map (\<lambda>c. c\<lparr>sc_score := compute_score c max_volume curve + sn_incentive_weight cfg * incentive_term c max_reward\<rparr>) joined
      in sort_key (\<lambda>c. - sc_score c) scored)"

text \<open>\<open>resize\<close> to a negative count asks for more than a vector can hold and throws.\<close>

definition resize_top :: "int \<Rightarrow> 'a list \<Rightarrow> exn + 'a list" where
  "resize_top top_n xs =
     (if int (length xs) > top_n then (if top_n < 0 then Inl (StdException ''vector::_M_default_append'') else Inr (take (nat top_n) xs))
      else Inr xs)"

definition scan :: "'w market_data \<Rightarrow> scanner_config \<Rightarrow> int \<Rightarrow> time_ns \<Rightarrow> (market_score list, 'w) paged" where
  "scan md cfg top_n now =
     bind_paged (fetch_markets md (sn_event_series cfg)) (\<lambda>markets.
     bind_paged (md_get_incentive_programs md) (\<lambda>programs.
     bind_paged (paged_io (admit_finalists md cfg top_n now (rank_candidates cfg (scan_candidates cfg now markets) programs))) (\<lambda>finalists.
       paged_io (lift_result (resize_top top_n finalists)))))"

section \<open>Dates are what they say\<close>

definition day_number :: "int \<Rightarrow> nat \<Rightarrow> int \<Rightarrow> int" where
  "day_number y m d = days_before_year y + days_before_month y m + d - 1"

lemma days_before_month_Suc [simp]: "1 \<le> m \<Longrightarrow> days_before_month y (Suc m) = days_before_month y m + month_days y m"
  by (simp add: days_before_month_def)

lemma days_before_month_1 [simp]: "days_before_month y (Suc 0) = 0"
  by (simp add: days_before_month_def)

lemma days_before_month_13: "days_before_month y 13 = year_days y"
  by (simp add: days_before_month_def month_days_def year_days_def upt_rec)

lemma month_days_pos: "28 \<le> month_days y m"
  by (simp add: month_days_def)

lemma days_before_month_mono:
  assumes "1 \<le> m" and "m \<le> m'"
  shows "days_before_month y m \<le> days_before_month y m'"
  using assms(2)
proof (induction m' rule: dec_induct)
  case (step n)
  with assms(1) show ?case using month_days_pos [of y n] by simp
qed simp

lemma days_before_year_mono: "y \<le> y' \<Longrightarrow> days_before_year y \<le> days_before_year y'"
proof (induction y' rule: int_ge_induct)
  case (step i)
  then show ?case using days_before_year_Suc [of i] by (simp add: year_days_def split: if_splits)
qed simp

text \<open>A calendar date, and the order of dates, of their keys and of their days.\<close>

definition is_date :: "int \<Rightarrow> nat \<Rightarrow> int \<Rightarrow> bool" where
  "is_date y m d \<longleftrightarrow> 1 \<le> m \<and> m \<le> 12 \<and> 1 \<le> d \<and> d \<le> month_days y m"

lemma date_key_less:
  assumes "is_date y m d" and "is_date y' m' d'"
  shows "date_key y (int m) d < date_key y' (int m') d' \<longleftrightarrow> y < y' \<or> y = y' \<and> (m < m' \<or> m = m' \<and> d < d')"
proof -
  have "d \<le> 31" "d' \<le> 31" using assms by (auto simp: is_date_def month_days_def split: if_splits)
  then show ?thesis using assms by (auto simp: date_key_def is_date_def kYearKeyFactor_def kMonthKeyFactor_def)
qed

lemma day_in_year:
  assumes "is_date y m d"
  shows "days_before_year y \<le> day_number y m d" "day_number y m d < days_before_year (y + 1)"
proof -
  have "days_before_month y (Suc m) \<le> days_before_month y 13"
    using assms by (intro days_before_month_mono) (auto simp: is_date_def)
  moreover have "0 \<le> days_before_month y m" using days_before_month_mono [of 1 m y] assms by (simp add: is_date_def)
  ultimately show "days_before_year y \<le> day_number y m d" "day_number y m d < days_before_year (y + 1)"
    using assms by (auto simp: day_number_def is_date_def days_before_year_Suc days_before_month_13)
qed

lemma day_number_less:
  assumes "is_date y m d" and "is_date y' m' d'" and "y < y' \<or> y = y' \<and> (m < m' \<or> m = m' \<and> d < d')"
  shows "day_number y m d < day_number y' m' d'"
proof -
  consider "y < y'" | "y = y'" "m < m'" | "y = y'" "m = m'" "d < d'" using assms(3) by blast
  then show ?thesis
  proof cases
    case 1
    then show ?thesis using day_in_year(2) [OF assms(1)] day_in_year(1) [OF assms(2)] days_before_year_mono [of "y + 1" y'] by simp
  next
    case 2
    then have "days_before_month y (Suc m) \<le> days_before_month y m'" by (intro days_before_month_mono) auto
    then show ?thesis using 2 assms(1,2) by (simp add: day_number_def is_date_def)
  qed (simp add: day_number_def)
qed

lemma civil_year_spec:
  "civil_year y n = (y', d) \<Longrightarrow> days_before_year y' + d = days_before_year y + n \<and> 0 \<le> d \<and> d < year_days y'"
proof (induction y n arbitrary: y' d rule: civil_year.induct)
  case (1 y n)
  have prev: "days_before_year y = days_before_year (y - 1) + year_days (y - 1)" using days_before_year_Suc [of "y - 1"] by simp
  consider "n < 0" | "0 \<le> n" "year_days y \<le> n" | "0 \<le> n" "n < year_days y" by linarith
  then show ?case
  proof cases
    case 1
    then show ?thesis using "1.IH"(1) [OF 1] "1.prems" prev by (simp add: civil_year.simps [of y n])
  next
    case 2
    then show ?thesis using "1.IH"(2) [of y' d] "1.prems" days_before_year_Suc [of y] by (simp add: civil_year.simps [of y n])
  next
    case 3
    then show ?thesis using "1.prems" by (simp add: civil_year.simps [of y n])
  qed
qed

lemma civil_month_spec:
  assumes "civil_month n y m d = (m', dm)" and "1 \<le> m" and "m + n = 12" and "0 \<le> d" and "days_before_month y m + d < year_days y"
  shows "\<exists>k. m' = int k \<and> is_date y k dm \<and> days_before_month y k + dm - 1 = days_before_month y m + d"
  using assms
proof (induction n arbitrary: m d)
  case 0
  then have "days_before_month y 12 + month_days y 12 = year_days y"
    using days_before_month_13 [of y] days_before_month_Suc [of 12 y] by simp
  then show ?case using 0 by (auto simp: is_date_def intro!: exI [of _ 12])
next
  case (Suc n)
  show ?case
  proof (cases "d \<ge> month_days y m")
    case True
    then show ?thesis using Suc.IH [of "m + 1" "d - month_days y m"] Suc.prems by simp
  next
    case False
    then show ?thesis using Suc.prems by (auto simp: is_date_def intro!: exI [of _ m])
  qed
qed

lemma civil_from_days_spec:
  "\<exists>y m d. civil_from_days n = (y, int m, d) \<and> is_date y m d \<and> day_number y m d = n"
proof -
  obtain y r where y: "civil_year 1970 n = (y, r)" by (cases "civil_year 1970 n")
  obtain m d where m: "civil_month 11 y 1 r = (m, d)" by (cases "civil_month 11 y 1 r")
  have base: "days_before_year 1970 = 0" by (simp add: days_before_year_def)
  note yr = civil_year_spec [OF y, unfolded base]
  then obtain k where "m = int k" "is_date y k d" "days_before_month y k + d - 1 = r"
    using civil_month_spec [OF m] by auto
  moreover have "civil_from_days n = (y, m, d)" by (simp only: civil_from_days_def y m Let_def prod.case)
  ultimately show ?thesis using yr by (auto simp: day_number_def)
qed

text \<open>
  The expiry test is exact: for a ticker that carries the calendar date \<open>y-m-d\<close>, the event counts
  as past exactly when that day is over in UTC.
\<close>

lemma date_over_exactly:
  assumes "is_date y m d"
  shows "date_key y (int m) d < utc_date_key now \<longleftrightarrow> (day_number y m d + 1) * (86400 * kNanosPerSecond) \<le> now"
proof -
  let ?day = "86400 * kNanosPerSecond" and ?today = "now div (86400 * kNanosPerSecond)"
  have pos: "0 < ?day" by (simp add: kNanosPerSecond_def)
  obtain y' m' d' where today: "civil_from_days ?today = (y', int m', d')" "is_date y' m' d'" "day_number y' m' d' = ?today"
    using civil_from_days_spec by metis
  have "utc_date_key now = date_key y' (int m') d'" by (simp add: utc_date_key_def today)
  moreover have "date_key y (int m) d < date_key y' (int m') d' \<longleftrightarrow> day_number y m d < day_number y' m' d'"
    using day_number_less [OF assms today(2)] day_number_less [OF today(2) assms] date_key_less [OF assms today(2)]
    by (metis less_asym linorder_neqE less_irrefl)
  moreover have "k < ?today \<longleftrightarrow> (k + 1) * ?day \<le> now" for k
  proof -
    have "k + 1 \<le> now div ?day" if "(k + 1) * ?day \<le> now"
      using zdiv_mono1 [OF that pos] pos by (simp only: nonzero_mult_div_cancel_right less_imp_neq [symmetric] not_False_eq_True)
    moreover have "(k + 1) * ?day \<le> now" if "k + 1 \<le> now div ?day"
      using mult_right_mono [OF that, of ?day] pos pos_mod_sign [OF pos, of now] div_mult_mod_eq [of now ?day] by linarith
    ultimately have "(k + 1) * ?day \<le> now \<longleftrightarrow> k + 1 \<le> ?today" by blast
    then show ?thesis by linarith
  qed
  ultimately show ?thesis using today(3) by simp
qed

lemma new_years_day_over:
  "date_key 2025 (int 1) 1 < utc_date_key (1735776000 * kNanosPerSecond)"
proof -
  have "is_date 2025 1 1" by (simp add: is_date_def month_days_def)
  from date_over_exactly [OF this, of "1735776000 * kNanosPerSecond"]
  show ?thesis by (simp add: day_number_def days_before_year_def kNanosPerSecond_def)
qed

section \<open>Scores\<close>

lemma fold_increasing:
  fixes f :: "'a \<Rightarrow> real \<Rightarrow> real"
  assumes "\<And>a m. m \<le> f a m"
  shows "m \<le> fold f cs m" and "c \<in> set cs \<Longrightarrow> (\<And>m. v \<le> f c m) \<Longrightarrow> v \<le> fold f cs m"
proof -
  show ge: "m \<le> fold f cs m" for m cs
    by (induction cs arbitrary: m) (auto intro: order_trans [OF assms])
  show "c \<in> set cs \<Longrightarrow> (\<And>m. v \<le> f c m) \<Longrightarrow> v \<le> fold f cs m"
    by (induction cs arbitrary: m) (auto intro: order_trans [OF _ ge])
qed

lemma fold_max_volume:
  fixes cs :: "market_score list"
  shows "c \<in> set cs \<Longrightarrow> sc_volume_24h c \<le> fold (\<lambda>c m. if sc_volume_24h c > m then sc_volume_24h c else m) cs m"
  by (rule fold_increasing(2)) auto

lemma fold_max_reward:
  fixes rewards :: "ticker \<rightharpoonup> real" and cs :: "market_score list"
  shows "m \<le> fold (\<lambda>c m. case rewards (sc_ticker c) of None \<Rightarrow> m | Some r \<Rightarrow> max m r) cs m"
    and "c \<in> set cs \<Longrightarrow> rewards (sc_ticker c) = Some r \<Longrightarrow> r \<le> fold (\<lambda>c m. case rewards (sc_ticker c) of None \<Rightarrow> m | Some r \<Rightarrow> max m r) cs m"
proof -
  have grow: "m \<le> (case x of None \<Rightarrow> m | Some r \<Rightarrow> max m r)" for m :: real and x by (simp split: option.split)
  show "m \<le> fold (\<lambda>c m. case rewards (sc_ticker c) of None \<Rightarrow> m | Some r \<Rightarrow> max m r) cs m"
    by (rule fold_increasing(1) [OF grow])
  assume "c \<in> set cs" "rewards (sc_ticker c) = Some r"
  then show "r \<le> fold (\<lambda>c m. case rewards (sc_ticker c) of None \<Rightarrow> m | Some r \<Rightarrow> max m r) cs m"
    by (intro fold_increasing(2) [OF grow]) auto
qed

lemma log_share: "0 \<le> ln a / ln b \<and> ln a / ln b \<le> 1" if "1 < a" "a \<le> b" for a b :: real
  using that by (simp add: divide_le_eq_1)

lemma compute_score_bounds:
  assumes "sc_volume_24h c \<le> max_volume" and "0 < half_range_cents curve"
  shows "0 \<le> compute_score c max_volume curve \<and> compute_score c max_volume curve \<le> 1"
proof -
  define v where "v = (if max_volume > 1 \<and> sc_volume_24h c > 1 then ln (sc_volume_24h c) / ln max_volume else 0)"
  define sp where "sp = max 0 (1 - \<bar>real_of_int (sc_spread_cents c) - mid_cents curve\<bar> / half_range_cents curve)"
  have "0 \<le> v \<and> v \<le> 1" using log_share assms(1) by (auto simp: v_def)
  moreover have "0 \<le> sp \<and> sp \<le> 1" using assms(2) by (simp add: sp_def)
  moreover have "compute_score c max_volume curve = kWeightVolume * v + kWeightSpread * sp"
    by (simp add: compute_score_def v_def sp_def Let_def)
  ultimately show ?thesis by (simp add: kWeightVolume_def kWeightSpread_def)
qed

lemma incentive_term_bounds:
  "sc_incentive_reward_dollars c \<le> max_reward \<Longrightarrow> 0 \<le> incentive_term c max_reward \<and> incentive_term c max_reward \<le> 1"
  using log_share [of "sc_incentive_reward_dollars c + 1" "max_reward + 1"] by (auto simp: incentive_term_def)

text \<open>What ranking makes of the candidates: only the reward and the score change.\<close>

lemma rank_candidates_elem:
  assumes "r \<in> set (rank_candidates cfg cs programs)"
  obtains c where "c \<in> set cs" "r = c\<lparr>sc_incentive_reward_dollars := sc_incentive_reward_dollars r, sc_score := sc_score r\<rparr>"
    "(\<forall>c \<in> set cs. sc_incentive_reward_dollars c = 0) \<Longrightarrow> 0 \<le> sn_incentive_weight cfg
       \<Longrightarrow> 0 \<le> sc_score r \<and> sc_score r \<le> 1 + sn_incentive_weight cfg"
proof -
  define mv where "mv = fold (\<lambda>c m. if sc_volume_24h c > m then sc_volume_24h c else m) cs 1"
  define mr where "mr = fold (\<lambda>c m. case reward_by_ticker programs (sc_ticker c) of None \<Rightarrow> m | Some r \<Rightarrow> max m r) cs 0"
  define join where "join = (\<lambda>c :: market_score. case reward_by_ticker programs (sc_ticker c) of None \<Rightarrow> c | Some r \<Rightarrow> c\<lparr>sc_incentive_reward_dollars := r\<rparr>)"
  obtain c where c: "c \<in> set cs" and
    r: "r = (join c)\<lparr>sc_score := compute_score (join c) mv (spread_curve cfg) + sn_incentive_weight cfg * incentive_term (join c) mr\<rparr>"
    using assms by (auto simp: rank_candidates_def join_incentives_def Let_def mv_def mr_def join_def)
  have joined: "sc_volume_24h (join c) = sc_volume_24h c" "join c = c\<lparr>sc_incentive_reward_dollars := sc_incentive_reward_dollars (join c)\<rparr>"
    by (simp_all add: join_def split: option.split)
  have score: "0 \<le> compute_score (join c) mv (spread_curve cfg) \<and> compute_score (join c) mv (spread_curve cfg) \<le> 1"
    using fold_max_volume [OF c, of 1] joined(1) by (intro compute_score_bounds) (simp_all add: mv_def spread_curve_def)
  have "0 \<le> incentive_term (join c) mr \<and> incentive_term (join c) mr \<le> 1" if "sc_incentive_reward_dollars c = 0"
  proof (rule incentive_term_bounds)
    show "sc_incentive_reward_dollars (join c) \<le> mr"
      using fold_max_reward(1) [where m = 0 and cs = cs and rewards = "reward_by_ticker programs"]
        fold_max_reward(2) [OF c, where m = 0 and rewards = "reward_by_ticker programs"] that
      by (auto simp: join_def mr_def split: option.split)
  qed
  then have bound: "0 \<le> sc_score r \<and> sc_score r \<le> 1 + sn_incentive_weight cfg"
    if "sc_incentive_reward_dollars c = 0" "0 \<le> sn_incentive_weight cfg"
    using score that by (auto simp: r mult_left_le intro!: add_mono add_nonneg_nonneg mult_nonneg_nonneg)
  have "r = c\<lparr>sc_incentive_reward_dollars := sc_incentive_reward_dollars r, sc_score := sc_score r\<rparr>"
    by (subst r, subst joined(2)) (simp add: r)
  with c bound show thesis by (auto intro: that)
qed

lemma rank_candidates_tickers: "sc_ticker ` set (rank_candidates cfg cs programs) = sc_ticker ` set cs"
  by (auto simp: rank_candidates_def join_incentives_def Let_def image_image intro!: image_cong split: option.split)

section \<open>What a scan returns\<close>

definition probe_says :: "'w market_data \<Rightarrow> scanner_config \<Rightarrow> time_ns \<Rightarrow> ticker \<Rightarrow> bool \<Rightarrow> bool" where
  "probe_says md cfg now tk ok \<longleftrightarrow> (\<exists>w1 w2. admits md cfg now tk w1 = (Inr ok, w2))"

lemma admit_loop_spec:
  assumes "admit_loop md cfg top_n now admitted cs w = (Inr out, w')"
  shows "\<exists>r. out = admitted @ r \<and> subseq r cs \<and> (int (length admitted) \<le> top_n \<longrightarrow> int (length out) \<le> top_n)
    \<and> (\<forall>c \<in> set r. probe_says md cfg now (sc_ticker c) True)
    \<and> (int (length out) < top_n \<longrightarrow> (\<forall>c \<in> set cs. c \<in> set r \<or> probe_says md cfg now (sc_ticker c) False))"
  using assms
proof (induction cs arbitrary: admitted w)
  case Nil
  then show ?case by (simp add: return_io_def)
next
  case (Cons c cs)
  show ?case
  proof (cases "int (length admitted) \<ge> top_n")
    case True
    then show ?thesis using Cons.prems by (auto simp: return_io_def)
  next
    case False
    then obtain ok w1 where probe: "admits md cfg now (sc_ticker c) w = (Inr ok, w1)"
      and rest: "admit_loop md cfg top_n now (if ok then admitted @ [c] else admitted) cs w1 = (Inr out, w')"
      using Cons.prems by (auto simp: bind_io_def split: prod.splits sum.splits)
    have says: "probe_says md cfg now (sc_ticker c) ok" using probe by (auto simp: probe_says_def)
    from Cons.IH [OF rest] obtain r where r: "out = (if ok then admitted @ [c] else admitted) @ r" "subseq r cs"
      "int (length (if ok then admitted @ [c] else admitted)) \<le> top_n \<longrightarrow> int (length out) \<le> top_n"
      "\<forall>c \<in> set r. probe_says md cfg now (sc_ticker c) True"
      "int (length out) < top_n \<longrightarrow> (\<forall>c \<in> set cs. c \<in> set r \<or> probe_says md cfg now (sc_ticker c) False)"
      by blast
    show ?thesis
      using r says False by (cases ok) (auto intro!: exI [of _ "c # r"] exI [of _ r])
  qed
qed

lemma admits_trivial:
  "\<not> check_trades cfg \<Longrightarrow> \<not> check_book cfg \<Longrightarrow> \<not> check_reversion cfg \<Longrightarrow> probe_says md cfg now tk True"
  by (simp add: probe_says_def admits_def return_io_def)

lemma sorted_map_subseq: "subseq xs ys \<Longrightarrow> sorted (map f ys) \<Longrightarrow> sorted (map f xs)"
  by (induction rule: list_emb.induct) (auto dest: list_emb_set)

text \<open>What the filters ask of a market, each a clause of its own.\<close>

definition eligible :: "scanner_config \<Rightarrow> time_ns \<Rightarrow> market \<Rightarrow> bool" where
  "eligible cfg now m \<longleftrightarrow> m_status m = ''active'' \<and> m_yes_bid_cents m \<noteq> 0 \<and> m_yes_ask_cents m \<noteq> 0
     \<and> (\<forall>k. ticker_event_date_key (m_ticker m) = Some k \<longrightarrow> utc_date_key now \<le> k)
     \<and> sn_min_price_cents cfg \<le> market_mid m \<and> market_mid m \<le> sn_max_price_cents cfg
     \<and> sn_min_spread_cents cfg \<le> m_yes_ask_cents m - m_yes_bid_cents m \<and> m_yes_ask_cents m - m_yes_bid_cents m \<le> sn_max_spread_cents cfg
     \<and> sn_min_volume_24h cfg \<le> m_volume_24h m
     \<and> sn_min_days_to_close cfg \<le> market_days now m \<and> market_days now m \<le> sn_max_days_to_close cfg"

lemma passes_filters_eligible: "passes_filters cfg now m \<longleftrightarrow> eligible cfg now m"
  by (simp add: passes_filters_def eligible_def Let_def not_less split: option.split)

lemma scan_parts:
  assumes "scan md cfg top_n now w = Some (Inr results, w')"
  obtains markets w1 programs where "fetch_markets md (sn_event_series cfg) w = Some (Inr markets, w1)"
    "int (length results) \<le> top_n" "subseq results (rank_candidates cfg (scan_candidates cfg now markets) programs)"
    "\<forall>c \<in> set results. probe_says md cfg now (sc_ticker c) True"
    "int (length results) < top_n \<Longrightarrow> \<forall>c \<in> set (rank_candidates cfg (scan_candidates cfg now markets) programs).
       c \<in> set results \<or> probe_says md cfg now (sc_ticker c) False"
proof -
  obtain markets w1 programs w2 finalists w3 where m: "fetch_markets md (sn_event_series cfg) w = Some (Inr markets, w1)"
    and f: "admit_finalists md cfg top_n now (rank_candidates cfg (scan_candidates cfg now markets) programs) w2 = (Inr finalists, w3)"
    and r: "resize_top top_n finalists = Inr results"
    using assms unfolding scan_def by (auto simp: paged_io_def lift_result_def elim!: bind_paged_SomeE)
  let ?ranked = "rank_candidates cfg (scan_candidates cfg now markets) programs"
  have len: "int (length results) \<le> top_n" and cut: "results = take (nat top_n) finalists"
    using r by (auto simp: resize_top_def split: if_splits)
  have fin: "subseq finalists ?ranked \<and> (\<forall>c \<in> set finalists. probe_says md cfg now (sc_ticker c) True)
      \<and> (int (length finalists) < top_n \<longrightarrow>
          (\<forall>c \<in> set ?ranked. c \<in> set finalists \<or> probe_says md cfg now (sc_ticker c) False))"
  proof (cases "\<not> check_trades cfg \<and> \<not> check_book cfg \<and> \<not> check_reversion cfg")
    case True
    then show ?thesis using f by (auto simp: admit_finalists_def return_io_def admits_trivial)
  next
    case False
    then show ?thesis using f admit_loop_spec [of md cfg top_n now "[]" ?ranked w2 finalists w3] by (auto simp: admit_finalists_def)
  qed
  moreover have "subseq results finalists" unfolding cut by (intro prefix_imp_subseq take_is_prefix)
  moreover have "set results \<subseteq> set finalists" unfolding cut by (rule set_take_subset)
  moreover have "results = finalists" if "int (length results) < top_n" using that unfolding cut by (simp add: min_def split: if_splits)
  ultimately show thesis using m len by (intro that) (auto intro: subseq_order.trans)
qed

text \<open>
  C30. A scan returns at most \<open>top_n\<close> markets, best score first, every score between 0 and 1 plus the
  incentive weight (which must not be negative), and every one of them is a market of the listing that
  passes every filter: it is active and quoted on both sides, the date in its ticker, if it has one,
  is not past, and its mid, spread, volume and days to close lie in the configured ranges; in
  particular no ticker carries a calendar date whose day is over in UTC. Its admission probes
  accepted it. When fewer than \<open>top_n\<close> come back, every other market of the listing that meets all
  these conditions was refused by a probe.
\<close>

theorem scan_sound:
  assumes "scan md cfg top_n now w = Some (Inr results, w')" and "0 \<le> sn_incentive_weight cfg"
  shows "int (length results) \<le> top_n \<and> sorted (map (\<lambda>r. - sc_score r) results) \<and>
    (\<exists>markets w1. fetch_markets md (sn_event_series cfg) w = Some (Inr markets, w1) \<and>
      (\<forall>r \<in> set results. 0 \<le> sc_score r \<and> sc_score r \<le> 1 + sn_incentive_weight cfg \<and>
         probe_says md cfg now (sc_ticker r) True \<and>
         (\<exists>m \<in> set markets. sc_ticker r = m_ticker m \<and> eligible cfg now m) \<and>
         (\<forall>y m d. is_date y m d \<and> ticker_event_date_key (sc_ticker r) = Some (date_key y (int m) d)
            \<longrightarrow> now < (day_number y m d + 1) * (86400 * kNanosPerSecond))) \<and>
      (int (length results) < top_n \<longrightarrow> (\<forall>m \<in> set markets. eligible cfg now m \<longrightarrow> m_ticker m \<in> sc_ticker ` set results
         \<or> probe_says md cfg now (m_ticker m) False)))"
proof -
  obtain markets w1 programs where m: "fetch_markets md (sn_event_series cfg) w = Some (Inr markets, w1)"
    and len: "int (length results) \<le> top_n" and sub: "subseq results (rank_candidates cfg (scan_candidates cfg now markets) programs)"
    and ok: "\<forall>c \<in> set results. probe_says md cfg now (sc_ticker c) True"
    and full: "int (length results) < top_n \<Longrightarrow> \<forall>c \<in> set (rank_candidates cfg (scan_candidates cfg now markets) programs).
       c \<in> set results \<or> probe_says md cfg now (sc_ticker c) False"
    using scan_parts [OF assms(1)] by metis
  let ?cands = "scan_candidates cfg now markets"
  have fresh: "\<forall>c \<in> set ?cands. sc_incentive_reward_dollars c = 0" by (auto simp: scan_candidates_def scored_market_def)
  have srt: "sorted (map (\<lambda>r. - sc_score r) results)"
    by (rule sorted_map_subseq [OF sub]) (simp add: rank_candidates_def join_incentives_def Let_def)
  have each: "0 \<le> sc_score r \<and> sc_score r \<le> 1 + sn_incentive_weight cfg \<and>
      (\<exists>mk \<in> set markets. passes_filters cfg now mk \<and> sc_ticker r = m_ticker mk)" if "r \<in> set results" for r
  proof -
    have "r \<in> set (rank_candidates cfg ?cands programs)" by (rule list_emb_set [OF sub that]) simp
    then obtain c where "c \<in> set ?cands" "r = c\<lparr>sc_incentive_reward_dollars := sc_incentive_reward_dollars r, sc_score := sc_score r\<rparr>"
      "0 \<le> sc_score r \<and> sc_score r \<le> 1 + sn_incentive_weight cfg"
      using fresh assms(2) by (metis rank_candidates_elem)
    moreover from this(2) have "sc_ticker r = sc_ticker c" by (metis market_score.select_convs(1) market_score.surjective market_score.update_convs(8,9))
    ultimately show ?thesis by (auto simp: scan_candidates_def scored_market_def)
  qed
  have rest: "m_ticker mk \<in> sc_ticker ` set results \<or> probe_says md cfg now (m_ticker mk) False"
    if "int (length results) < top_n" "mk \<in> set markets" "passes_filters cfg now mk" for mk
  proof -
    have "m_ticker mk \<in> sc_ticker ` set (rank_candidates cfg ?cands programs)"
      using that(2,3) by (simp add: rank_candidates_tickers scan_candidates_def scored_market_def image_image)
    then obtain c where c: "m_ticker mk = sc_ticker c" "c \<in> set (rank_candidates cfg ?cands programs)" by (rule imageE)
    then show ?thesis using bspec [OF full [OF that(1)] c(2)] by auto
  qed
  have good: "0 \<le> sc_score r" "sc_score r \<le> 1 + sn_incentive_weight cfg" "probe_says md cfg now (sc_ticker r) True"
    "\<exists>mk \<in> set markets. passes_filters cfg now mk \<and> sc_ticker r = m_ticker mk" if "r \<in> set results" for r
    using each [OF that] ok that by blast+
  have over: "now < (day_number y mo d + 1) * (86400 * kNanosPerSecond)"
    if "r \<in> set results" "is_date y mo d" "ticker_event_date_key (sc_ticker r) = Some (date_key y (int mo) d)" for r y mo d
  proof -
    from good(4) [OF that(1)] obtain mk where "eligible cfg now mk" "sc_ticker r = m_ticker mk"
      unfolding passes_filters_eligible by blast
    then have "\<not> date_key y (int mo) d < utc_date_key now" using that(3) by (simp add: eligible_def)
    then show ?thesis using date_over_exactly [OF that(2), of now] by simp
  qed
  show ?thesis
  proof (intro conjI len srt exI [of _ markets] exI [of _ w1] m ballI impI allI good(1-3) rest [folded passes_filters_eligible])
    fix r assume "r \<in> set results"
    then show "\<exists>m \<in> set markets. sc_ticker r = m_ticker m \<and> eligible cfg now m"
      using good(4) unfolding passes_filters_eligible by blast
  qed (auto simp: passes_filters_eligible intro: over)
qed

text \<open>An exchange with two markets, one of them outside the price band, and every probe unanswered.\<close>

definition two_markets :: "unit market_data" where
  "two_markets =
     \<lparr>md_get_markets = (\<lambda>_ w. Some (Inr [
        \<lparr>m_ticker = ''A'', m_title = [], m_category = [], m_status = ''active'', m_fee_rate_bps = 0, m_yes_bid_cents = 47,
         m_yes_ask_cents = 52, m_volume_24h = 2000, m_close_time = 10 * 86400 * kNanosPerSecond\<rparr>,
        \<lparr>m_ticker = ''B'', m_title = [], m_category = [], m_status = ''active'', m_fee_rate_bps = 0, m_yes_bid_cents = 2,
         m_yes_ask_cents = 7, m_volume_24h = 2000, m_close_time = 10 * 86400 * kNanosPerSecond\<rparr>], w)),
      md_get_incentive_programs = (\<lambda>w. Some (Inr [], w)),
      md_get_recent_trades = (\<lambda>_ _. return_io None), md_get_candlesticks = (\<lambda>_ _ _. return_io None),
      md_get_orderbook = (\<lambda>_ w. (Inl (StdException ''timeout''), w))\<rparr>"

lemma two_markets_scan:
  assumes "n \<in> {5, 20}"
  shows "\<exists>r w'. scan two_markets default_scanner_config n 0 () = Some (Inr [r], w') \<and> sc_ticker r = ''A''"
proof -
  let ?md = two_markets and ?cfg = default_scanner_config
  obtain a b w1 where ms: "fetch_markets ?md (sn_event_series ?cfg) () = Some (Inr [a, b], w1)"
    and a: "passes_filters ?cfg 0 a" "m_ticker a = ''A''" and b: "\<not> passes_filters ?cfg 0 b"
    by (simp add: two_markets_def default_scanner_config_def fetch_markets_def passes_filters_def Let_def market_mid_def market_days_def
      ticker_event_date_key_def kSecondsPerDay_def kNanosPerSecond_def)
  obtain r where r: "rank_candidates ?cfg [scored_market 0 a] [] = [r]" and tk: "sc_ticker r = ''A''"
    by (simp add: rank_candidates_def join_incentives_def reward_by_ticker_def scored_market_def a)
  have "admits ?md ?cfg 0 tk w = (Inr True, w)" for tk w
    by (simp add: admits_def passes_flow_admission_def passes_book_admission_def two_markets_def return_io_def bind_io_def catch_io_def
      check_trades_def check_book_def check_reversion_def default_scanner_config_def)
  then have "admit_finalists ?md ?cfg n 0 [r] w = (Inr [r], w)" for w
    using assms by (auto simp: admit_finalists_def check_book_def default_scanner_config_def return_io_def)
  moreover have "md_get_incentive_programs ?md w = Some (Inr [], w)" for w by (simp add: two_markets_def)
  ultimately show ?thesis
    using a b r tk ms assms by (auto simp: scan_def scan_candidates_def bind_paged_def paged_io_def lift_result_def resize_top_def)
qed

theorem scan_sound_witness:
  "\<exists>r w'. scan two_markets default_scanner_config 5 0 () = Some (Inr [r], w') \<and> sc_ticker r = ''A'' \<and> 0 \<le> sc_score r \<and> sc_score r \<le> 3 / 2"
proof -
  obtain r w' where r: "scan two_markets default_scanner_config 5 0 () = Some (Inr [r], w')" "sc_ticker r = ''A''"
    using two_markets_scan [of 5] by auto
  moreover have "0 \<le> sn_incentive_weight default_scanner_config" by (simp add: default_scanner_config_def)
  ultimately have "0 \<le> sc_score r \<and> sc_score r \<le> 1 + sn_incentive_weight default_scanner_config"
    using scan_sound [OF r(1)] by auto
  then show ?thesis using r by (auto simp: default_scanner_config_def)
qed

end
