(* ===== verification/Websocket_Client.thy ===== *)
theory Websocket_Client
  imports Rest_Client
begin

text \<open>
  \<open>WebSocketClient\<close> (\<open>source/net/websocket_client.cpp\<close>): subscriptions, parsing and dispatch of
  frames, detection of sequence gaps, and the reconnect loop. The socket's \<open>send\<close> and
  \<open>request_close\<close>, the clock and the callbacks act on a state \<open>'w\<close>; a missing callback is \<open>None\<close>.
  The lock around the subscriptions makes each of them one step.
\<close>

section \<open>State\<close>

record ws_config =
  wc_url :: string
  wc_max_reconnects :: int
  wc_reconnect_delay_ms :: int

record ws_client =
  ws_running :: bool
  next_msg_id :: int
  consecutive_connect_failures :: int
  has_connected_once :: bool
  ws_connected :: bool
  subscribed_tickers :: "ticker list"
  last_seq_by_sid :: "int \<rightharpoonup> int"
  last_message_time :: time_ns

definition new_ws_client :: "time_ns \<Rightarrow> ws_client" where
  "new_ws_client now = \<lparr>ws_running = False, next_msg_id = 1, consecutive_connect_failures = 0, has_connected_once = False,
     ws_connected = False, subscribed_tickers = [], last_seq_by_sid = Map.empty, last_message_time = now\<rparr>"

record ('j, 't, 'w) ws_env =
  we_json :: "('j, 't) json_ops"
  ws_send :: "'t \<Rightarrow> 'w \<Rightarrow> 'w"
  ws_request_close :: "'w \<Rightarrow> 'w"
  we_steady_now :: "'w \<Rightarrow> time_ns \<times> 'w"

record 'w ws_callbacks =
  snapshot_callback :: "(orderbook \<Rightarrow> (unit, 'w) io) option"
  delta_callback :: "(ticker \<times> side \<times> int \<times> quantity \<Rightarrow> (unit, 'w) io) option"
  fill_callback :: "(fill \<Rightarrow> (unit, 'w) io) option"
  trade_callback :: "(public_trade \<Rightarrow> (unit, 'w) io) option"
  disconnect_callback :: "(unit, 'w) io option"
  reconnect_callback :: "(unit, 'w) io option"

section \<open>Reconnect delays\<close>

definition kMaxReconnectDelay_ms :: int where "kMaxReconnectDelay_ms = 60 * 1000"

definition kMaxDoublings :: int where "kMaxDoublings = 30"

fun backoff_loop :: "nat \<Rightarrow> int \<Rightarrow> int \<Rightarrow> int" where
  "backoff_loop 0 cap delay = delay"
| "backoff_loop (Suc n) cap delay = (let delay' = delay * 2 in if delay' \<ge> cap then cap else backoff_loop n cap delay')"

definition reconnect_backoff :: "int \<Rightarrow> int \<Rightarrow> int" where
  "reconnect_backoff base_delay consecutive_failures =
     (let cap = kMaxReconnectDelay_ms; delay = min base_delay cap;
          doublings = min (consecutive_failures - 1) kMaxDoublings
      in backoff_loop (nat doublings) cap delay)"

definition next_reconnect_delay :: "ws_config \<Rightarrow> ws_client \<Rightarrow> int" where
  "next_reconnect_delay cfg c = reconnect_backoff (wc_reconnect_delay_ms cfg) (consecutive_connect_failures c + 1)"

section \<open>Subscriptions\<close>

definition extract_ws_path :: "string \<Rightarrow> string" where
  "extract_ws_path url =
     (let rest = (if take 6 url = ''wss://'' then drop 6 url else if take 5 url = ''ws://'' then drop 5 url else url);
          path = dropWhile (\<lambda>ch. ch \<noteq> CHR ''/'') rest
      in if path = [] then ''/'' else path)"

definition subscribe_message :: "('j, 't) json_ops \<Rightarrow> int \<Rightarrow> ticker \<Rightarrow> 't" where
  "subscribe_message js msg_id tk = js_dump js (js_object js
     [(''id'', js_int js msg_id), (''cmd'', js_string js ''subscribe''),
      (''params'', js_object js [(''channels'', js_array js [js_string js ''orderbook_delta'', js_string js ''trade'']),
        (''market_tickers'', js_array js [js_string js tk])])])"

definition subscribe_fills_message :: "('j, 't) json_ops \<Rightarrow> int \<Rightarrow> 't" where
  "subscribe_fills_message js msg_id = js_dump js (js_object js
     [(''id'', js_int js msg_id), (''cmd'', js_string js ''subscribe''),
      (''params'', js_object js [(''channels'', js_array js [js_string js ''fill''])])])"

definition send_subscribe :: "('j, 't, 'w) ws_env \<Rightarrow> ticker \<Rightarrow> ws_client \<times> 'w \<Rightarrow> ws_client \<times> 'w" where
  "send_subscribe env tk s =
     (let c = fst s in (c\<lparr>next_msg_id := next_msg_id c + 1\<rparr>, ws_send env (subscribe_message (we_json env) (next_msg_id c) tk) (snd s)))"

definition send_subscribe_fills :: "('j, 't, 'w) ws_env \<Rightarrow> ws_client \<times> 'w \<Rightarrow> ws_client \<times> 'w" where
  "send_subscribe_fills env s =
     (let c = fst s in (c\<lparr>next_msg_id := next_msg_id c + 1\<rparr>, ws_send env (subscribe_fills_message (we_json env) (next_msg_id c)) (snd s)))"

definition subscribe :: "('j, 't, 'w) ws_env \<Rightarrow> ticker \<Rightarrow> ws_client \<times> 'w \<Rightarrow> ws_client \<times> 'w" where
  "subscribe env tk s =
     (let c = fst s in
      if tk \<in> set (subscribed_tickers c) then s
      else
        let s' = (c\<lparr>subscribed_tickers := subscribed_tickers c @ [tk]\<rparr>, snd s)
        in if ws_connected c then send_subscribe env tk s' else s')"

definition run_callback :: "(unit, 'w) io option \<Rightarrow> (unit, ws_client \<times> 'w) io" where
  "run_callback cb s = (case cb of None \<Rightarrow> (Inr (), s) | Some f \<Rightarrow> (let (r, w') = f (snd s) in (r, (fst s, w'))))"

definition handle_connect :: "('j, 't, 'w) ws_env \<Rightarrow> 'w ws_callbacks \<Rightarrow> (unit, ws_client \<times> 'w) io" where
  "handle_connect env cbs s =
     (let s1 = ((fst s)\<lparr>consecutive_connect_failures := 0, last_seq_by_sid := Map.empty\<rparr>, snd s);
          (c2, w2) = send_subscribe_fills env s1;
          (c3, w3) = fold (send_subscribe env) (subscribed_tickers c2) (c2\<lparr>ws_connected := True\<rparr>, w2);
          (r, (c4, w4)) = (if has_connected_once c3 then run_callback (reconnect_callback cbs) (c3, w3) else (Inr (), (c3, w3)))
      in case r of
           Inl e \<Rightarrow> (Inl e, (c4, w4))
         | Inr _ \<Rightarrow> (Inr (), (c4\<lparr>has_connected_once := True\<rparr>, w4)))"

definition handle_disconnect :: "'w ws_callbacks \<Rightarrow> (unit, ws_client \<times> 'w) io" where
  "handle_disconnect cbs s = run_callback (disconnect_callback cbs) ((fst s)\<lparr>ws_connected := False\<rparr>, snd s)"

definition handle_heartbeat :: "('j, 't, 'w) ws_env \<Rightarrow> ws_client \<times> 'w \<Rightarrow> ws_client \<times> 'w" where
  "handle_heartbeat env s = (let (t, w') = we_steady_now env (snd s) in ((fst s)\<lparr>last_message_time := t\<rparr>, w'))"

section \<open>Frames\<close>

definition ws_parse_side :: "string \<Rightarrow> exn + side" where
  "ws_parse_side side_str =
     (if side_str = ''yes'' then Inr Yes else if side_str = ''no'' then Inr No
      else Inl (StdException (''ws: unknown side: '' @ side_str)))"

definition parse_snapshot_level :: "('j, 't) json_ops \<Rightarrow> 'j \<Rightarrow> exn + level" where
  "parse_snapshot_level js j =
     bindE (bindE (bindE (js_index js j 0) (js_get_string js)) parse_dollars_to_cents) (\<lambda>price.
     bindE (bindE (bindE (js_index js j 1) (js_get_string js)) parse_fp_count) (\<lambda>qty.
       Inr \<lparr>lv_price_cents = price, lv_quantity = qty\<rparr>))"

definition parse_snapshot :: "('j, 't) json_ops \<Rightarrow> 'j \<Rightarrow> exn + orderbook" where
  "parse_snapshot js msg =
     bindE (get_str js msg ''market_ticker'') (\<lambda>tk.
     bindE (bindE (value_or js Inr msg ''yes_dollars_fp'' (js_array js [])) (\<lambda>ls.
              map_result (parse_snapshot_level js) (js_elements js ls))) (\<lambda>yes.
     bindE (bindE (value_or js Inr msg ''no_dollars_fp'' (js_array js [])) (\<lambda>ls.
              map_result (parse_snapshot_level js) (js_elements js ls))) (\<lambda>no.
       Inr \<lparr>ob_ticker = tk, ob_yes = yes, ob_no = no\<rparr>)))"

definition parse_delta :: "('j, 't) json_ops \<Rightarrow> 'j \<Rightarrow> exn + (ticker \<times> side \<times> int \<times> quantity)" where
  "parse_delta js msg =
     bindE (get_str js msg ''market_ticker'') (\<lambda>tk.
     bindE (bindE (get_str js msg ''side'') ws_parse_side) (\<lambda>sd.
     bindE (bindE (get_str js msg ''price_dollars'') parse_dollars_to_cents) (\<lambda>price.
     bindE (bindE (get_str js msg ''delta_fp'') parse_fp_count) (\<lambda>qty.
       Inr (tk, sd, price, qty)))))"

definition ws_parse_fill :: "('j, 't) json_ops \<Rightarrow> 'j \<Rightarrow> exn + fill" where
  "ws_parse_fill js msg =
     bindE (value_or js (js_get_string js) msg ''trade_id'' []) (\<lambda>trade_id.
     bindE (get_str js msg ''order_id'') (\<lambda>order_id.
     bindE (get_str js msg ''market_ticker'') (\<lambda>tk.
     bindE (bindE (get_str js msg ''outcome_side'') ws_parse_side) (\<lambda>sd.
     bindE (bindE (get_str js msg ''yes_price_dollars'') parse_dollars_to_cents) (\<lambda>yes_price_cents.
     bindE (bindE (get_str js msg ''count_fp'') parse_fp_count) (\<lambda>qty.
     bindE (bindE (value_or js (js_get_string js) msg ''fee_cost'' ''0'') stod) (\<lambda>fee.
     bindE (get_bool js msg ''is_taker'') (\<lambda>is_taker.
     bindE (get_int js msg ''ts_ms'') (\<lambda>ts_ms.
       Inr \<lparr>f_trade_id = trade_id, f_order_id = order_id, f_market_ticker = tk, f_side = sd,
            f_price_cents = (if sd = Yes then yes_price_cents else complement_price yes_price_cents),
            f_quantity = qty, f_fee_cents = fee * kCentsPerDollar, f_is_taker = is_taker,
            f_timestamp = ts_ms * kNanosPerMilli\<rparr>)))))))))"

definition ws_parse_trade :: "('j, 't) json_ops \<Rightarrow> 'j \<Rightarrow> exn + public_trade" where
  "ws_parse_trade js msg =
     bindE (get_str js msg ''trade_id'') (\<lambda>trade_id.
     bindE (get_str js msg ''market_ticker'') (\<lambda>tk.
     bindE (bindE (get_str js msg ''yes_price_dollars'') parse_dollars_to_cents) (\<lambda>price.
     bindE (bindE (get_str js msg ''count_fp'') parse_fp_count) (\<lambda>qty.
     bindE (bindE (get_str js msg ''taker_outcome_side'') ws_parse_side) (\<lambda>sd.
     bindE (get_int js msg ''ts_ms'') (\<lambda>ts_ms.
       Inr \<lparr>pt_trade_id = trade_id, pt_market_ticker = tk, pt_yes_price_cents = price, pt_quantity = qty,
            pt_taker_side = sd, pt_timestamp = ts_ms * kNanosPerMilli\<rparr>))))))"

text \<open>A dispatcher: parse, call back, contain every standard exception of either.\<close>

definition dispatch :: "('a \<Rightarrow> (unit, 'w) io) option \<Rightarrow> (exn + 'a) \<Rightarrow> (unit, ws_client \<times> 'w) io" where
  "dispatch cb parsed s =
     (case cb of
        None \<Rightarrow> (Inr (), s)
      | Some f \<Rightarrow>
          catch_io (bind_io (lift_result parsed) (\<lambda>x s. let (r, w') = f x (snd s) in (r, (fst s, w')))) (\<lambda>_. return_io ()) s)"

definition sequence_intact :: "('j, 't, 'w) ws_env \<Rightarrow> int \<Rightarrow> int \<Rightarrow> ws_client \<times> 'w \<Rightarrow> bool \<times> ws_client \<times> 'w" where
  "sequence_intact env sid seq s =
     (let c = fst s in
      case last_seq_by_sid c sid of
        None \<Rightarrow> (True, (c\<lparr>last_seq_by_sid := (last_seq_by_sid c)(sid \<mapsto> seq)\<rparr>, snd s))
      | Some previous \<Rightarrow>
          if seq = previous + 1 then (True, (c\<lparr>last_seq_by_sid := (last_seq_by_sid c)(sid \<mapsto> seq)\<rparr>, snd s))
          else (False, (c\<lparr>last_seq_by_sid := Map.empty\<rparr>, ws_request_close env (snd s))))"

definition check_sequence :: "('j, 't, 'w) ws_env \<Rightarrow> 'j \<Rightarrow> ws_client \<times> 'w \<Rightarrow> (exn + bool) \<times> ws_client \<times> 'w" where
  "check_sequence env j s =
     (let js = we_json env in
      case (js_find js j ''sid'', js_find js j ''seq'') of
        (Some sid_j, Some seq_j) \<Rightarrow>
          if js_is_integer js sid_j \<and> js_is_integer js seq_j then
            (case (js_get_int js sid_j, js_get_int js seq_j) of
               (Inr sid, Inr seq) \<Rightarrow> (let (ok, s') = sequence_intact env sid seq s in (Inr ok, s'))
             | (Inl e, _) \<Rightarrow> (Inl e, s)
             | (_, Inl e) \<Rightarrow> (Inl e, s))
          else (Inr True, s)
      | _ \<Rightarrow> (Inr True, s))"

definition dispatch_type :: "('j, 't, 'w) ws_env \<Rightarrow> 'w ws_callbacks \<Rightarrow> string \<Rightarrow> 'j \<Rightarrow> (unit, ws_client \<times> 'w) io" where
  "dispatch_type env cbs msg_type msg_body =
     (let js = we_json env in
      if msg_type = ''orderbook_snapshot'' then dispatch (snapshot_callback cbs) (parse_snapshot js msg_body)
      else if msg_type = ''orderbook_delta'' then dispatch (delta_callback cbs) (parse_delta js msg_body)
      else if msg_type = ''fill'' then dispatch (fill_callback cbs) (ws_parse_fill js msg_body)
      else if msg_type = ''trade'' then dispatch (trade_callback cbs) (ws_parse_trade js msg_body)
      else return_io ())"

definition handle_message :: "('j, 't, 'w) ws_env \<Rightarrow> 'w ws_callbacks \<Rightarrow> 't \<Rightarrow> (unit, ws_client \<times> 'w) io" where
  "handle_message env cbs raw s0 =
     (let js = we_json env; s = handle_heartbeat env s0 in
      case js_parse js raw of
        Inl (Abort what) \<Rightarrow> (Inl (Abort what), s)
      | Inl _ \<Rightarrow> (Inr (), s)
      | Inr parsed \<Rightarrow>
          (case js_find js parsed ''type'' of
             None \<Rightarrow> (Inr (), s)
           | Some type_j \<Rightarrow>
               (case js_get_string js type_j of
                  Inl e \<Rightarrow> (Inl e, s)
                | Inr msg_type \<Rightarrow>
                    if msg_type = ''error'' then (Inr (), s)
                    else case js_find js parsed ''msg'' of
                      None \<Rightarrow> (Inr (), s)
                    | Some msg_body \<Rightarrow>
                        if msg_type = ''subscribed'' then (Inr (), s)
                        else case check_sequence env parsed s of
                          (Inl e, s') \<Rightarrow> (Inl e, s')
                        | (Inr False, s') \<Rightarrow> (Inr (), s')
                        | (Inr True, s') \<Rightarrow> dispatch_type env cbs msg_type msg_body s')))"

section \<open>The reconnect loop\<close>

definition stop :: "ws_client \<Rightarrow> ws_client" where
  "stop c = c\<lparr>ws_running := False\<rparr>"

text \<open>\<open>attempt\<close> stands for connecting the socket and serving it until it closes, with the handlers above.\<close>

partial_function (option) run_loop :: "ws_config \<Rightarrow> (unit, ws_client \<times> 'w) io \<Rightarrow> (int \<Rightarrow> 'w \<Rightarrow> 'w) \<Rightarrow> int
    \<Rightarrow> ws_client \<times> 'w \<Rightarrow> ((exn + unit) \<times> ws_client \<times> 'w) option" where
  "run_loop cfg attempt sleep_ms reconnect_attempts s =
     (if \<not> ws_running (fst s) then Some (Inr (), ((fst s)\<lparr>ws_running := False\<rparr>, snd s))
      else case catch_io attempt (\<lambda>_. return_io ()) s of
        (Inl e, s') \<Rightarrow> Some (Inl e, s')
      | (Inr _, s') \<Rightarrow>
          if \<not> ws_running (fst s') \<or> wc_max_reconnects cfg \<ge> 0 \<and> reconnect_attempts \<ge> wc_max_reconnects cfg
          then Some (Inr (), ((fst s')\<lparr>ws_running := False\<rparr>, snd s'))
          else
            let failures = consecutive_connect_failures (fst s') + 1;
                c' = (fst s')\<lparr>consecutive_connect_failures := failures\<rparr>;
                delay = reconnect_backoff (wc_reconnect_delay_ms cfg) failures
            in run_loop cfg attempt sleep_ms (reconnect_attempts + 1) (c', if delay > 0 then sleep_ms delay (snd s') else snd s'))"

definition ws_run :: "ws_config \<Rightarrow> (unit, ws_client \<times> 'w) io \<Rightarrow> (int \<Rightarrow> 'w \<Rightarrow> 'w) \<Rightarrow> ws_client \<times> 'w
    \<Rightarrow> ((exn + unit) \<times> ws_client \<times> 'w) option" where
  "ws_run cfg attempt sleep_ms s = run_loop cfg attempt sleep_ms 0 ((fst s)\<lparr>ws_running := True\<rparr>, snd s)"

end
