(* ===== verification/Paper_Exchange.thy ===== *)
theory Paper_Exchange
  imports Rest_Client
begin

text \<open>
  \<open>PaperTransport\<close> (\<open>source/net/paper_transport.cpp\<close>): the exchange of the paper and backtest
  modes, an HTTP transport that keeps the resting orders itself, and the REST client on top of it.
  The system clock acts on a state \<open>'c\<close> of its own.
\<close>

section \<open>State\<close>

record paper =
  pe_open_orders :: "order list"
  pe_fills :: "fill list"
  pe_next_id :: int

definition new_paper :: paper where
  "new_paper = \<lparr>pe_open_orders = [], pe_fills = [], pe_next_id = 1\<rparr>"

definition kHttpOk :: int where "kHttpOk = 200"
definition kHttpCreated :: int where "kHttpCreated = 201"
definition kPaperOrderTsMs :: int where "kPaperOrderTsMs = 1735689600000"

definition parse_count :: "string \<Rightarrow> exn + int" where
  "parse_count cnt = bindE (stod cnt) (\<lambda>x. Inr (c_round x))"

definition paper_order_id :: "int \<Rightarrow> string" where
  "paper_order_id n = ''paper-'' @ int_to_string n"

definition paper_trade_id :: "int \<Rightarrow> string" where
  "paper_trade_id n = ''paper-trade-'' @ int_to_string n"

definition next_order_id :: "paper \<Rightarrow> string \<times> paper" where
  "next_order_id pe = (paper_order_id (pe_next_id pe), pe\<lparr>pe_next_id := pe_next_id pe + 1\<rparr>)"

section \<open>Requests\<close>

definition order_to_json :: "('j, 't) json_ops \<Rightarrow> order \<Rightarrow> 'j" where
  "order_to_json js ord = js_object js
     [(''order_id'', js_string js (o_id ord)), (''ticker'', js_string js (o_market_ticker ord)),
      (''side'', js_string js (if o_side ord = Yes then ''yes'' else ''no'')),
      (''count'', js_string js (to_fp_string (o_quantity ord))),
      (''filled_count'', js_string js (to_fp_string (o_filled_quantity ord))),
      (''type'', js_string js (if o_type ord = Limit then ''limit'' else ''market'')),
      (''created_time'', js_string js ''2025-01-01T00:00:00Z''),
      (''yes_price'', js_int js (if o_side ord = Yes then o_price_cents ord else 0)),
      (''no_price'', js_int js (if o_side ord = Yes then 0 else o_price_cents ord)),
      (''status'', js_string js (case o_status ord of Open \<Rightarrow> ''resting'' | PartiallyFilled \<Rightarrow> ''partially_filled''
         | Filled \<Rightarrow> ''filled'' | Cancelled \<Rightarrow> ''canceled''))]"

definition url_ends_with_orders :: "string \<Rightarrow> bool" where
  "url_ends_with_orders url = (7 \<le> length url \<and> drop (length url - 7) url = ''/orders'')"

fun contains_text :: "string \<Rightarrow> string \<Rightarrow> bool" where
  "contains_text pat [] = (pat = [])"
| "contains_text pat (c # s) = (take (length pat) (c # s) = pat \<or> contains_text pat s)"

definition paper_get :: "('j, 't) json_ops \<Rightarrow> string \<Rightarrow> headers \<Rightarrow> ('t http_response, paper \<times> 'c) io" where
  "paper_get js url headers s =
     (if url_ends_with_orders url then
        (bindE (map_result (\<lambda>ord. js_parse js (js_dump js (order_to_json js ord))) (pe_open_orders (fst s))) (\<lambda>orders.
           Inr \<lparr>status_code = kHttpOk, body = js_dump js (js_object js [(''orders'', js_array js orders)])\<rparr>), s)
      else if contains_text ''/orderbook'' url then
        (Inr \<lparr>status_code = kHttpOk, body = js_literal js ''{\"orderbook_fp\":{\"yes_dollars\":[],\"no_dollars\":[]}}''\<rparr>, s)
      else (Inr \<lparr>status_code = kHttpOk, body = js_literal js ''{}''\<rparr>, s))"

text \<open>The request as the body gives it: ticker, side, price, count, and whether it rests.\<close>

definition parse_request :: "('j, 't) json_ops \<Rightarrow> 't \<Rightarrow> exn + (ticker \<times> side \<times> int \<times> int \<times> order_type)" where
  "parse_request js text =
     bindE (js_parse js text) (\<lambda>j.
     bindE (get_str js j ''ticker'') (\<lambda>tk.
     bindE (get_str js j ''side'') (\<lambda>side_str.
     bindE (bindE (get_str js j ''price'') parse_dollars_to_cents) (\<lambda>yes_price_cents.
     bindE (bindE (get_str js j ''count'') parse_count) (\<lambda>qty.
     bindE (value_or js (js_get_string js) j ''time_in_force'' ''good_till_canceled'') (\<lambda>tif.
       let sd = (if side_str = ''bid'' then Yes else No)
       in Inr (tk, sd, if sd = Yes then yes_price_cents else complement_price yes_price_cents, qty,
               if tif = ''immediate_or_cancel'' then Market else Limit)))))))"

definition rest_order :: "ticker \<times> side \<times> int \<times> int \<times> order_type \<Rightarrow> time_ns \<Rightarrow> paper \<Rightarrow> order \<times> paper" where
  "rest_order req now pe = (case req of (tk, sd, price_cents, qty, type) \<Rightarrow>
     let (oid, pe') = next_order_id pe;
         ord = \<lparr>o_id = oid, o_market_ticker = tk, o_side = sd, o_price_cents = price_cents,
                o_quantity = from_contracts qty, o_filled_quantity = 0, o_status = Open, o_type = type,
                o_created_at = now, o_average_fill_price_cents = 0\<rparr>
     in (ord, pe'\<lparr>pe_open_orders := pe_open_orders pe' @ [ord]\<rparr>))"

definition paper_post :: "('j, 't) json_ops \<Rightarrow> ('c \<Rightarrow> time_ns \<times> 'c) \<Rightarrow> string \<Rightarrow> headers \<Rightarrow> 't
    \<Rightarrow> ('t http_response, paper \<times> 'c) io" where
  "paper_post js system_now url headers text s =
     (case parse_request js text of
        Inl e \<Rightarrow> (Inl e, s)
      | Inr req \<Rightarrow>
          (let (now, cl) = system_now (snd s); (ord, pe) = rest_order req now (fst s)
           in (Inr \<lparr>status_code = kHttpCreated,
                    body = js_dump js (js_object js [(''order_id'', js_string js (o_id ord)),
                      (''fill_count'', js_string js ''0.00''), (''ts_ms'', js_int js kPaperOrderTsMs)])\<rparr>,
               (pe, cl))))"

text \<open>The first element that satisfies a test, dropped or replaced.\<close>

fun replace_first :: "('a \<Rightarrow> bool) \<Rightarrow> 'a option \<Rightarrow> 'a list \<Rightarrow> 'a list" where
  "replace_first P new [] = []"
| "replace_first P new (x # xs) =
     (if P x then (case new of None \<Rightarrow> xs | Some y \<Rightarrow> y # xs) else x # replace_first P new xs)"

definition delete_order :: "string \<Rightarrow> paper \<Rightarrow> paper" where
  "delete_order url pe =
     (if CHR ''/'' \<in> set url then
        let order_id = rev (takeWhile (\<lambda>ch. ch \<noteq> CHR ''/'') (rev url))
        in pe\<lparr>pe_open_orders := replace_first (\<lambda>ord. o_id ord = order_id) None (pe_open_orders pe)\<rparr>
      else pe)"

definition paper_delete :: "('j, 't) json_ops \<Rightarrow> string \<Rightarrow> headers \<Rightarrow> ('t http_response, paper \<times> 'c) io" where
  "paper_delete js url headers s =
     (Inr \<lparr>status_code = kHttpOk, body = js_literal js ''{}''\<rparr>, (delete_order url (fst s), snd s))"

definition paper_transport :: "('j, 't) json_ops \<Rightarrow> ('c \<Rightarrow> time_ns \<times> 'c) \<Rightarrow> ('t, paper \<times> 'c) http_transport" where
  "paper_transport js system_now = \<lparr>http_get = paper_get js, http_post = paper_post js system_now, http_delete = paper_delete js\<rparr>"

section \<open>Simulated fills\<close>

definition fillable :: "string \<Rightarrow> order \<Rightarrow> bool" where
  "fillable order_id ord \<longleftrightarrow> o_id ord = order_id \<and> o_status ord \<noteq> Filled \<and> o_status ord \<noteq> Cancelled"

definition actual_fill :: "int \<Rightarrow> order \<Rightarrow> quantity" where
  "actual_fill fill_quantity ord = min_quantity (from_contracts fill_quantity) (o_quantity ord - o_filled_quantity ord)"

definition fill_order :: "int \<Rightarrow> order \<Rightarrow> order" where
  "fill_order fill_quantity ord =
     (let filled = o_filled_quantity ord + actual_fill fill_quantity ord
      in ord\<lparr>o_filled_quantity := filled, o_status := if filled = o_quantity ord then Filled else PartiallyFilled\<rparr>)"

definition paper_trade :: "int \<Rightarrow> time_ns \<Rightarrow> order \<Rightarrow> paper \<Rightarrow> fill" where
  "paper_trade fill_quantity now ord pe =
     \<lparr>f_trade_id = paper_trade_id (pe_next_id pe), f_order_id = o_id ord,
      f_market_ticker = o_market_ticker ord, f_side = o_side ord, f_price_cents = o_price_cents ord,
      f_quantity = actual_fill fill_quantity ord, f_fee_cents = 0, f_is_taker = False, f_timestamp = now\<rparr>"

definition simulate_fill :: "string \<Rightarrow> int \<Rightarrow> time_ns \<Rightarrow> paper \<Rightarrow> bool \<times> paper" where
  "simulate_fill order_id fill_quantity now pe =
     (case find (fillable order_id) (pe_open_orders pe) of
        None \<Rightarrow> (False, pe)
      | Some ord \<Rightarrow>
          (True, pe\<lparr>pe_open_orders := replace_first (fillable order_id)
               (if o_status (fill_order fill_quantity ord) = Filled then None else Some (fill_order fill_quantity ord))
               (pe_open_orders pe),
             pe_fills := pe_fills pe @ [paper_trade fill_quantity now ord pe], pe_next_id := pe_next_id pe + 1\<rparr>))"

section \<open>The accounts of the paper exchange\<close>

datatype paper_event =
    RestEv "ticker \<times> side \<times> int \<times> int \<times> order_type" time_ns
  | DeleteEv string
  | SimulateEv string int time_ns

fun paper_step :: "paper_event \<Rightarrow> paper \<Rightarrow> paper" where
  "paper_step (RestEv req now) pe = snd (rest_order req now pe)"
| "paper_step (DeleteEv url) pe = delete_order url pe"
| "paper_step (SimulateEv oid q now) pe = snd (simulate_fill oid q now pe)"

definition reported_fills :: "string \<Rightarrow> paper \<Rightarrow> quantity" where
  "reported_fills oid pe = sum_list (map f_quantity (filter (\<lambda>f. f_order_id f = oid) (pe_fills pe)))"

definition issued :: "paper \<Rightarrow> string \<Rightarrow> bool" where
  "issued pe oid \<longleftrightarrow> (\<exists>n. 1 \<le> n \<and> n < pe_next_id pe \<and> oid = paper_order_id n)"

definition paper_ok :: "paper \<Rightarrow> bool" where
  "paper_ok pe \<longleftrightarrow> 1 \<le> pe_next_id pe \<and> distinct (map o_id (pe_open_orders pe))
     \<and> (\<forall>ord \<in> set (pe_open_orders pe). issued pe (o_id ord) \<and> o_filled_quantity ord = reported_fills (o_id ord) pe \<and> is_active ord)
     \<and> (\<forall>f \<in> set (pe_fills pe). issued pe (f_order_id f)
          \<and> (\<exists>n < pe_next_id pe. 1 \<le> n \<and> f_trade_id f = paper_trade_id n))
     \<and> distinct (map f_trade_id (pe_fills pe))"

lemma int_to_string_inj: "1 \<le> m \<Longrightarrow> 1 \<le> n \<Longrightarrow> int_to_string m = int_to_string n \<Longrightarrow> m = n"
  by (auto simp: int_to_string_def dest: nat_to_string_inj)

lemma paper_ids_inj:
  "1 \<le> m \<Longrightarrow> 1 \<le> n \<Longrightarrow> paper_order_id m = paper_order_id n \<longleftrightarrow> m = n"
  "1 \<le> m \<Longrightarrow> 1 \<le> n \<Longrightarrow> paper_trade_id m = paper_trade_id n \<longleftrightarrow> m = n"
  by (auto simp: paper_order_id_def paper_trade_id_def dest: int_to_string_inj)

lemma replace_first_none: "find P xs = None \<Longrightarrow> replace_first P new xs = xs"
  by (induction xs) (auto split: if_splits)

lemma find_split:
  assumes "find P xs = Some x"
  shows "\<exists>ys zs. xs = ys @ x # zs \<and> P x \<and> (\<forall>new. replace_first P new xs = ys @ (case new of None \<Rightarrow> [] | Some y \<Rightarrow> [y]) @ zs)"
  using assms
proof (induction xs)
  case (Cons a xs)
  show ?case
  proof (cases "P a")
    case True
    then show ?thesis using Cons.prems by (intro exI [of _ "[]"] exI [of _ xs]) (auto split: option.split)
  next
    case False
    then obtain ys zs where "xs = ys @ x # zs" "P x"
      "\<forall>new. replace_first P new xs = ys @ (case new of None \<Rightarrow> [] | Some y \<Rightarrow> [y]) @ zs"
      using Cons by auto
    then show ?thesis using False by (intro exI [of _ "a # ys"] exI [of _ zs]) simp
  qed
qed simp

lemma rest_order_eq:
  "pe_open_orders (snd (rest_order req now pe)) = pe_open_orders pe @ [fst (rest_order req now pe)]"
  "pe_fills (snd (rest_order req now pe)) = pe_fills pe" "pe_next_id (snd (rest_order req now pe)) = pe_next_id pe + 1"
  "o_id (fst (rest_order req now pe)) = paper_order_id (pe_next_id pe)"
  "o_filled_quantity (fst (rest_order req now pe)) = 0" "is_active (fst (rest_order req now pe))"
  by (simp_all add: rest_order_def next_order_id_def Let_def is_active_def split: prod.splits)

lemma issued_Suc:
  assumes "pe_next_id pe' = pe_next_id pe + 1"
  shows "issued pe k \<Longrightarrow> issued pe' k" and "1 \<le> pe_next_id pe \<Longrightarrow> issued pe' (paper_order_id (pe_next_id pe))"
  unfolding issued_def assms by force+

lemma rest_order_ok:
  assumes ok: "paper_ok pe" shows "paper_ok (snd (rest_order req now pe))"
proof -
  let ?pe' = "snd (rest_order req now pe)" and ?ord = "fst (rest_order req now pe)"
  have new: "\<not> issued pe (o_id ?ord)" using ok paper_ids_inj(1) by (fastforce simp: issued_def paper_ok_def rest_order_eq)
  have none: "filter (\<lambda>f. f_order_id f = o_id ?ord) (pe_fills pe) = []"
    using ok new by (auto simp: paper_ok_def filter_empty_conv)
  have reported: "reported_fills k ?pe' = reported_fills k pe" for k by (simp add: reported_fills_def rest_order_eq)
  note issued = issued_Suc [OF rest_order_eq(3) [of req now pe]]
  have "\<forall>x \<in> set (pe_open_orders ?pe'). issued ?pe' (o_id x) \<and> o_filled_quantity x = reported_fills (o_id x) ?pe' \<and> is_active x"
  proof
    fix x assume "x \<in> set (pe_open_orders ?pe')"
    then consider "x \<in> set (pe_open_orders pe)" | "x = ?ord" by (auto simp: rest_order_eq)
    then show "issued ?pe' (o_id x) \<and> o_filled_quantity x = reported_fills (o_id x) ?pe' \<and> is_active x"
    proof cases
      case 1
      then show ?thesis using ok issued(1) by (auto simp: paper_ok_def reported)
    next
      case 2
      then show ?thesis using ok none issued_Suc(2) [OF rest_order_eq(3)] unfolding reported
        by (simp add: paper_ok_def reported_fills_def rest_order_eq)
    qed
  qed
  moreover have "distinct (map o_id (pe_open_orders ?pe'))"
    using ok new by (auto simp: paper_ok_def rest_order_eq(1))
  moreover have "\<exists>n < pe_next_id ?pe'. 1 \<le> n \<and> f_trade_id f = paper_trade_id n" "issued ?pe' (f_order_id f)"
    if f: "f \<in> set (pe_fills pe)" for f
  proof -
    obtain n where "n < pe_next_id pe" "1 \<le> n" "f_trade_id f = paper_trade_id n" "issued pe (f_order_id f)"
      using ok f by (auto simp: paper_ok_def)
    then show "\<exists>n < pe_next_id ?pe'. 1 \<le> n \<and> f_trade_id f = paper_trade_id n" "issued ?pe' (f_order_id f)"
      using issued(1) by (auto simp: rest_order_eq(3) intro!: exI [of _ n])
  qed
  ultimately show ?thesis using ok unfolding paper_ok_def by (simp add: rest_order_eq(2,3))
qed

lemma delete_order_ok:
  assumes "paper_ok pe" shows "paper_ok (delete_order url pe)"
proof -
  have "paper_ok (pe\<lparr>pe_open_orders := replace_first P None (pe_open_orders pe)\<rparr>)" for P
  proof (cases "find P (pe_open_orders pe)")
    case None
    then show ?thesis using assms by (simp add: replace_first_none)
  next
    case (Some ord)
    then obtain ys zs where "pe_open_orders pe = ys @ ord # zs" "replace_first P None (pe_open_orders pe) = ys @ zs"
      using find_split by fastforce
    then show ?thesis using assms by (auto simp: paper_ok_def issued_def reported_fills_def)
  qed
  then show ?thesis using assms by (simp add: delete_order_def Let_def)
qed

lemma simulate_fill_ok:
  assumes ok: "paper_ok pe" shows "paper_ok (snd (simulate_fill oid q now pe))"
proof (cases "find (fillable oid) (pe_open_orders pe)")
  case None
  then show ?thesis using ok by (simp add: simulate_fill_def)
next
  case (Some ord)
  let ?pe' = "snd (simulate_fill oid q now pe)" and ?ord' = "fill_order q ord"
  obtain ys zs where os: "pe_open_orders pe = ys @ ord # zs" "o_id ord = oid"
    and os': "pe_open_orders ?pe' = ys @ (if o_status ?ord' = Filled then [] else [?ord']) @ zs"
    using find_split [OF Some] Some by (auto simp: simulate_fill_def fillable_def)
  have pe': "pe_fills ?pe' = pe_fills pe @ [paper_trade q now ord pe]" "pe_next_id ?pe' = pe_next_id pe + 1"
    by (simp_all add: simulate_fill_def Some)
  have ord': "o_id ?ord' = oid" "o_filled_quantity ?ord' = o_filled_quantity ord + actual_fill q ord"
    "o_status ?ord' \<noteq> Filled \<Longrightarrow> is_active ?ord'"
    by (simp_all add: fill_order_def Let_def os(2) is_active_def split: if_splits)
  have fills: "reported_fills k ?pe' = reported_fills k pe + (if k = oid then actual_fill q ord else 0)" for k
    by (simp add: reported_fills_def pe' paper_trade_def os(2))
  note issued = issued_Suc(1) [OF pe'(2)]
  have ids: "distinct (map o_id (pe_open_orders ?pe'))" "\<And>x. x \<in> set ys \<or> x \<in> set zs \<Longrightarrow> o_id x \<noteq> oid"
  proof -
    have d: "distinct (map o_id (ys @ ord # zs))" using ok os(1) by (simp add: paper_ok_def)
    then show "distinct (map o_id (pe_open_orders ?pe'))" using ord'(1) os(2) by (auto simp: os')
    show "o_id x \<noteq> oid" if "x \<in> set ys \<or> x \<in> set zs" for x
      using d that imageI [of x "set ys" o_id] imageI [of x "set zs" o_id] by (auto simp: os(2))
  qed
  have orders: "\<forall>x \<in> set (pe_open_orders ?pe'). issued ?pe' (o_id x) \<and> o_filled_quantity x = reported_fills (o_id x) ?pe' \<and> is_active x"
    using ok os ord' issued ids(2) by (auto simp: os' paper_ok_def fills)
  have fresh: "f_trade_id (paper_trade q now ord pe) \<notin> f_trade_id ` set (pe_fills pe)"
    using ok paper_ids_inj(2) by (fastforce simp: paper_ok_def paper_trade_def)
  have trades: "\<forall>f \<in> set (pe_fills ?pe'). issued ?pe' (f_order_id f)
      \<and> (\<exists>n < pe_next_id ?pe'. 1 \<le> n \<and> f_trade_id f = paper_trade_id n)"
  proof
    fix f assume "f \<in> set (pe_fills ?pe')"
    then consider "f \<in> set (pe_fills pe)" | "f = paper_trade q now ord pe" by (auto simp: pe')
    then show "issued ?pe' (f_order_id f) \<and> (\<exists>n < pe_next_id ?pe'. 1 \<le> n \<and> f_trade_id f = paper_trade_id n)"
    proof cases
      case 1
      then obtain n where "n < pe_next_id pe" "1 \<le> n" "f_trade_id f = paper_trade_id n" "issued pe (f_order_id f)"
        using ok by (auto simp: paper_ok_def)
      then show ?thesis using issued by (auto simp: pe' intro!: exI [of _ n])
    next
      case 2
      then have "f_trade_id f = paper_trade_id (pe_next_id pe)" "f_order_id f = o_id ord" by (simp_all add: paper_trade_def)
      then show ?thesis using ok os issued by (auto simp: paper_ok_def pe' intro!: exI [of _ "pe_next_id pe"])
    qed
  qed
  show ?thesis using ok ids(1) orders trades fresh unfolding paper_ok_def by (simp add: pe')
qed

text \<open>
  The paper exchange keeps its accounts: after any sequence of orders, cancels and simulated
  fills, order ids and trade ids are unique, every order it lists is active, and what such an
  order has filled is exactly the sum of the fills reported for it.
\<close>

theorem paper_exchange_consistent:
  "let pe = fold paper_step evs new_paper in
     distinct (map o_id (pe_open_orders pe)) \<and> distinct (map f_trade_id (pe_fills pe))
     \<and> list_all (\<lambda>ord. is_active ord \<and> o_filled_quantity ord = reported_fills (o_id ord) pe) (pe_open_orders pe)"
proof -
  have step: "paper_ok pe \<Longrightarrow> paper_ok (paper_step ev pe)" for ev pe
    by (cases ev) (simp_all add: rest_order_ok delete_order_ok simulate_fill_ok)
  have "paper_ok pe \<Longrightarrow> paper_ok (fold paper_step evs pe)" for pe
    by (induction evs arbitrary: pe) (simp_all add: step)
  moreover have "paper_ok new_paper" by (simp add: paper_ok_def new_paper_def)
  ultimately have "paper_ok (fold paper_step evs new_paper)" by blast
  then show ?thesis by (simp add: paper_ok_def Let_def list_all_iff)
qed

end
