(* ===== verification/Paper_Client.thy ===== *)
theory Paper_Client
  imports Paper_Exchange
begin

text \<open>
  The REST client on the paper exchange, as the paper and backtest modes wire it: what its requests
  do to the exchange, and that the order manager's picture of the resting orders is the exchange's.
\<close>

section \<open>The client\<close>

definition on_clock :: "('c \<Rightarrow> 'a \<times> 'c) \<Rightarrow> paper \<times> 'c \<Rightarrow> 'a \<times> (paper \<times> 'c)" where
  "on_clock f s = (let (x, cl) = f (snd s) in (x, (fst s, cl)))"

definition paper_client :: "('j, 't) json_ops \<Rightarrow> ('c \<Rightarrow> time_ns \<times> 'c) \<Rightarrow> ('c \<Rightarrow> time_ns \<times> 'c) \<Rightarrow> (int \<Rightarrow> 'c \<Rightarrow> 'c)
    \<Rightarrow> (string \<Rightarrow> string \<Rightarrow> exn + string) \<Rightarrow> auth \<Rightarrow> string \<Rightarrow> ('j, 't, paper \<times> 'c) rest_client" where
  "paper_client js system_now steady_now sleep rsa au base_url =
     \<lparr>rc_json = js, rc_transport = paper_transport js system_now, rc_auth = au, rc_base_url = base_url,
      rc_path_prefix = extract_path_prefix base_url, rc_rsa_sign = rsa, rc_system_now = on_clock system_now,
      rc_steady_now = on_clock steady_now, rc_sleep_ms = (\<lambda>ms s. (fst s, sleep ms (snd s)))\<rparr>"

text \<open>Signing succeeds and touches only the clock; so does the throttle, next to the limiter.\<close>

definition signs :: "(string \<Rightarrow> string \<Rightarrow> exn + string) \<Rightarrow> bool" where
  "signs rsa \<longleftrightarrow> (\<forall>k m. \<exists>sg. rsa k m = Inr sg)"

lemma paper_sign:
  assumes "signs rsa"
  shows "\<exists>h cl'. rc_sign (paper_client js now steady sleep rsa au base) meth path (rl, pe, cl) = (Inr h, (rl, pe, cl'))"
proof -
  obtain t cl' where t: "now cl = (t, cl')" by fastforce
  obtain sg where sg: "rsa (pem_private_key au) (int_to_string (t sdiv kNanosPerMilli) @ meth @ path) = Inr sg"
    using assms by (auto simp: signs_def)
  show ?thesis
    by (simp add: rc_sign_def paper_client_def on_world_def sign_def on_clock_def lift_read_def bind_io_def t lift_result_def
        sg return_io_def Let_def)
qed

lemma paper_throttle:
  "\<exists>rl' cl'. throttle (paper_client js now steady sleep rsa au base) cost (rl, pe, cl) = (Inr (), (rl', pe, cl'))"
  by (simp add: throttle_def paper_client_def on_clock_def Let_def case_prod_beta)

lemma stod_to_fp_string: "stod (to_fp_string q) = Inr (contracts q)"
proof -
  have "stod (to_fp_string q) = Inr ((if centi q < 0 then -1 else 1) * of_nat (nat \<bar>centi q\<bar>) / 100)"
    using stod_fixed_point [of "[]" "centi q < 0" "nat \<bar>centi q\<bar>"]
    by (simp add: to_fp_string_def kCentiPerContract_def Let_def)
  then show ?thesis by (simp add: contracts_def kCentiPerContract_def)
qed

lemma parse_count_contracts: "parse_count (to_fp_string (from_contracts q)) = Inr q"
  by (simp add: parse_count_def stod_to_fp_string)

lemma yes_price_back: "(if sd = Yes then yes_price sd p else complement_price (yes_price sd p)) = p"
  by (cases sd) (simp_all add: yes_price_def price_defs)

text \<open>The paper exchange understands the bodies the client writes, in the client's own terms.\<close>

lemma parse_request_body:
  assumes "json_reads_back js"
  shows "parse_request js (js_dump js (order_body js tk sd p (from_contracts q) type)) = Inr (tk, sd, p, q, type)"
    and "parse_request js (js_dump js (amend_body js tk sd p (from_contracts q))) = Inr (tk, sd, p, q, Limit)"
  using yes_price_back [of sd p] json_reads_backD(1) [OF assms]
  by (cases sd; cases type;
      simp add: parse_request_def order_body_def amend_body_def Let_def get_reads_back [OF assms] dollars_roundtrip_aux
        parse_count_contracts v2_side_def)+

definition rested_order :: "ticker \<Rightarrow> side \<Rightarrow> int \<Rightarrow> int \<Rightarrow> order_type \<Rightarrow> time_ns \<Rightarrow> paper \<Rightarrow> order" where
  "rested_order tk sd p q type now pe = fst (rest_order (tk, sd, p, q, type) now pe)"

lemma paper_post_client:
  assumes "json_reads_back js" and "signs rsa" and "parse_request js (js_dump js b) = Inr (tk, sd, p, q, type)"
  shows "\<exists>rl' cl' now'. post_json (paper_client js now steady sleep rsa au base) endpoint cost b (rl, pe, cl)
    = (Inr \<lparr>status_code = kHttpCreated, body = js_dump js (js_object js [(''order_id'', js_string js (paper_order_id (pe_next_id pe))),
          (''fill_count'', js_string js ''0.00''), (''ts_ms'', js_int js kPaperOrderTsMs)])\<rparr>,
       (rl', snd (rest_order (tk, sd, p, q, type) now' pe), cl'))"
proof -
  let ?c = "paper_client js now steady sleep rsa au base"
  obtain h cl1 where 1: "rc_sign ?c ''POST'' (rc_path_prefix ?c @ endpoint) (rl, pe, cl) = (Inr h, (rl, pe, cl1))"
    using paper_sign [OF assms(2), of js now steady sleep au base "''POST''" "rc_path_prefix ?c @ endpoint" rl pe cl] by blast
  obtain rl2 cl2 where 2: "throttle ?c cost (rl, pe, cl1) = (Inr (), (rl2, pe, cl2))"
    using paper_throttle [of js now steady sleep rsa au base cost rl pe cl1] by blast
  obtain t cl3 where 3: "now cl2 = (t, cl3)" by fastforce
  have "rc_transport ?c = paper_transport js now" "rc_json ?c = js" by (simp_all add: paper_client_def)
  with 1 2 3 show ?thesis
    by (simp add: post_json_def bind_io_def on_world_def paper_transport_def paper_post_def assms(3) case_prod_beta rest_order_eq)
      (metis prod.collapse)
qed

section \<open>Placing, cancelling and amending\<close>

lemma fill_count_zero: "parse_fp_count ''0.00'' = Inr 0"
proof -
  have "to_fp_string 0 = ''0.00''"
    by (simp add: to_fp_string_def Let_def two_digits_def digit_char_def kCentiPerContract_def nat_to_string.simps
        char_of_eq_iff)
  then show ?thesis using fp_string_roundtrip_aux [of 0] by (simp add: parse_fp_count_def)
qed

lemma paper_place_order:
  assumes "json_reads_back js" and "signs rsa" and "0 < q"
  shows "\<exists>rl' cl' now'. place_order (paper_client js now steady sleep rsa au base) tk sd p (from_contracts q) Limit (rl, pe, cl)
    = (Inr ((rested_order tk sd p q Limit now' pe)\<lparr>o_created_at := kPaperOrderTsMs * kNanosPerMilli\<rparr>),
       (rl', snd (rest_order (tk, sd, p, q, Limit) now' pe), cl'))"
proof -
  let ?c = "paper_client js now steady sleep rsa au base"
  obtain rl' cl' now' where post: "post_json ?c ''/portfolio/events/orders'' kPlaceOrderCost (order_body js tk sd p (from_contracts q) Limit) (rl, pe, cl)
    = (Inr \<lparr>status_code = kHttpCreated, body = js_dump js (js_object js [(''order_id'', js_string js (paper_order_id (pe_next_id pe))),
          (''fill_count'', js_string js ''0.00''), (''ts_ms'', js_int js kPaperOrderTsMs)])\<rparr>,
       (rl', snd (rest_order (tk, sd, p, q, Limit) now' pe), cl'))"
    using paper_post_client [OF assms(1,2) parse_request_body(1) [OF assms(1)],
        of now steady sleep au base "''/portfolio/events/orders''" kPlaceOrderCost tk sd p q Limit rl pe cl] by blast
  have js: "rc_json ?c = js" by (simp add: paper_client_def)
  show ?thesis
    using post assms(3) json_reads_backD(1) [OF assms(1)]
    by (simp add: place_order_def js check_response_def kHttpCreated_def placed_order_def get_reads_back [OF assms(1)]
        fill_count_zero lift_result_def)
      (auto simp: rested_order_def rest_order_def next_order_id_def Let_def intro!: exI)
qed

lemma paper_cancel_order:
  assumes "signs rsa" and "CHR ''/'' \<notin> set oid"
  shows "\<exists>rl' cl'. cancel_order (paper_client js now steady sleep rsa au base) oid (rl, pe, cl)
    = (Inr True, (rl', pe\<lparr>pe_open_orders := replace_first (\<lambda>ord. o_id ord = oid) None (pe_open_orders pe)\<rparr>, cl'))"
proof -
  let ?c = "paper_client js now steady sleep rsa au base"
  let ?path = "rc_path_prefix ?c @ ''/portfolio/events/orders/'' @ oid"
  obtain h cl1 where 1: "rc_sign ?c ''DELETE'' ?path (rl, pe, cl) = (Inr h, (rl, pe, cl1))"
    using paper_sign [OF assms(1), of js now steady sleep au base "''DELETE''" ?path rl pe cl] by blast
  obtain rl2 cl2 where 2: "throttle ?c kCancelOrderCost (rl, pe, cl1) = (Inr (), (rl2, pe, cl2))"
    using paper_throttle [of js now steady sleep rsa au base kCancelOrderCost rl pe cl1] by blast
  have last: "rev (takeWhile (\<lambda>ch. ch \<noteq> CHR ''/'') (rev (base @ ''/portfolio/events/orders/'' @ oid))) = oid"
  proof -
    have "takeWhile (\<lambda>ch. ch \<noteq> CHR ''/'') (rev oid @ CHR ''/'' # r) = rev oid" for r
      using assms(2) by (subst takeWhile_append2) auto
    then show ?thesis by simp
  qed
  have "rc_transport ?c = paper_transport js now" "rc_base_url ?c = base" by (simp_all add: paper_client_def)
  with 1 2 last show ?thesis
    by (simp add: cancel_order_def bind_io_def on_world_def paper_transport_def paper_delete_def delete_order_def
        return_io_def kHttpOk_def Let_def)
qed

lemma paper_amend_order:
  assumes "json_reads_back js" and "signs rsa"
  shows "\<exists>rl' cl' now'. amend_order (paper_client js now steady sleep rsa au base) oid tk sd p (from_contracts q) (rl, pe, cl)
    = (Inr (Some (paper_order_id (pe_next_id pe))), (rl', snd (rest_order (tk, sd, p, q, Limit) now' pe), cl'))"
proof -
  let ?c = "paper_client js now steady sleep rsa au base" and ?e = "''/portfolio/events/orders/'' @ oid @ ''/amend''"
  obtain rl' cl' now' where post: "post_json ?c ?e kPlaceOrderCost (amend_body js tk sd p (from_contracts q)) (rl, pe, cl)
    = (Inr \<lparr>status_code = kHttpCreated, body = js_dump js (js_object js [(''order_id'', js_string js (paper_order_id (pe_next_id pe))),
          (''fill_count'', js_string js ''0.00''), (''ts_ms'', js_int js kPaperOrderTsMs)])\<rparr>,
       (rl', snd (rest_order (tk, sd, p, q, Limit) now' pe), cl'))"
    using paper_post_client [OF assms parse_request_body(2) [OF assms(1)],
        of now steady sleep au base ?e kPlaceOrderCost tk sd p q rl pe cl] by blast
  have js: "rc_json ?c = js" by (simp add: paper_client_def)
  show ?thesis
    using post json_reads_backD(1) [OF assms(1)]
    by (simp add: amend_order_def js check_response_def kHttpCreated_def get_reads_back [OF assms(1)] catch_io_def lift_result_def)
      blast
qed

section \<open>The order manager's picture\<close>

text \<open>The two sides stamp orders with different clocks; everything else has to agree.\<close>

definition unstamped :: "order \<Rightarrow> order" where
  "unstamped ord = ord\<lparr>o_created_at := 0\<rparr>"

definition same_orders :: "order_manager \<Rightarrow> paper \<Rightarrow> bool" where
  "same_orders om pe \<longleftrightarrow> map (\<lambda>(k, ord). (k, unstamped ord)) (open_orders om)
     = map (\<lambda>ord. (o_id ord, unstamped ord)) (pe_open_orders pe)"

lemma unstamped_simps [simp]:
  "o_id (unstamped ord) = o_id ord" "unstamped (ord\<lparr>o_created_at := t\<rparr>) = unstamped ord"
  by (simp_all add: unstamped_def)

lemma same_orders_keys: "same_orders om pe \<Longrightarrow> map fst (open_orders om) = map o_id (pe_open_orders pe)"
  unfolding same_orders_def by (drule arg_cong [where f = "map fst"]) (simp add: comp_def case_prod_beta)

lemma alist_update_fresh: "k \<notin> set (map fst xs) \<Longrightarrow> AList.update k v xs = xs @ [(k, v)]"
  by (induction xs) auto

lemma same_orders_place:
  assumes "same_orders om pe" and "paper_ok pe"
  shows "same_orders (om\<lparr>open_orders := AList.update (paper_order_id (pe_next_id pe)) ((rested_order tk sd p q ty t pe)\<lparr>o_created_at := t'\<rparr>) (open_orders om)\<rparr>)
    (snd (rest_order (tk, sd, p, q, ty) t pe))"
proof -
  have "\<not> issued pe (paper_order_id (pe_next_id pe))"
    using assms(2) paper_ids_inj(1) by (fastforce simp: issued_def paper_ok_def)
  then have "paper_order_id (pe_next_id pe) \<notin> set (map fst (open_orders om))"
    using assms(2) unfolding same_orders_keys [OF assms(1)] by (auto simp: paper_ok_def)
  then show ?thesis using assms(1)
    by (simp add: same_orders_def alist_update_fresh rest_order_eq rested_order_def)
qed

lemma same_orders_split:
  assumes "same_orders om pe" and "pe_open_orders pe = ys @ ord # zs"
  shows "\<exists>us lord vs. open_orders om = us @ (o_id ord, lord) # vs \<and> unstamped lord = unstamped ord
    \<and> map (\<lambda>(k, ord). (k, unstamped ord)) us = map (\<lambda>ord. (o_id ord, unstamped ord)) ys
    \<and> map (\<lambda>(k, ord). (k, unstamped ord)) vs = map (\<lambda>ord. (o_id ord, unstamped ord)) zs"
proof -
  have "map (\<lambda>(k, ord). (k, unstamped ord)) (open_orders om)
      = map (\<lambda>ord. (o_id ord, unstamped ord)) ys @ (o_id ord, unstamped ord) # map (\<lambda>ord. (o_id ord, unstamped ord)) zs"
    using assms by (simp add: same_orders_def)
  then obtain us x vs where "open_orders om = us @ x # vs" "map (\<lambda>(k, ord). (k, unstamped ord)) us = map (\<lambda>ord. (o_id ord, unstamped ord)) ys"
    "(case x of (k, ord) \<Rightarrow> (k, unstamped ord)) = (o_id ord, unstamped ord)"
    "map (\<lambda>(k, ord). (k, unstamped ord)) vs = map (\<lambda>ord. (o_id ord, unstamped ord)) zs"
    by (auto simp: map_eq_append_conv map_eq_Cons_conv)
  then show ?thesis by (cases x) auto
qed

lemma alist_at_split:
  assumes "keys_distinct (us @ (k, v) # vs)"
  shows "AList.delete k (us @ (k, v) # vs) = us @ vs" and "AList.update k v' (us @ (k, v) # vs) = us @ (k, v') # vs"
    and "map_of (us @ (k, v) # vs) k = Some v"
  using assms by (induction us) (force simp: AList.delete_eq intro!: filter_True)+

lemma same_orders_delete:
  assumes "same_orders om pe" and "paper_ok pe"
  shows "same_orders (om\<lparr>open_orders := AList.delete oid (open_orders om)\<rparr>)
    (pe\<lparr>pe_open_orders := replace_first (\<lambda>ord. o_id ord = oid) None (pe_open_orders pe)\<rparr>)"
proof (cases "find (\<lambda>ord. o_id ord = oid) (pe_open_orders pe)")
  case None
  then have "oid \<notin> set (map fst (open_orders om))" unfolding same_orders_keys [OF assms(1)] by (auto simp: find_None_iff)
  then have "AList.delete oid (open_orders om) = open_orders om" by (force simp: AList.delete_eq filter_id_conv)
  then show ?thesis using assms(1) None by (simp add: same_orders_def replace_first_none)
next
  case (Some ord)
  then obtain ys zs where pe: "pe_open_orders pe = ys @ ord # zs" "o_id ord = oid"
    "replace_first (\<lambda>ord. o_id ord = oid) None (pe_open_orders pe) = ys @ zs" using find_split [OF Some] by auto
  obtain us lord vs where om: "open_orders om = us @ (oid, lord) # vs"
    "map (\<lambda>(k, ord). (k, unstamped ord)) us = map (\<lambda>ord. (o_id ord, unstamped ord)) ys"
    "map (\<lambda>(k, ord). (k, unstamped ord)) vs = map (\<lambda>ord. (o_id ord, unstamped ord)) zs"
    using same_orders_split [OF assms(1) pe(1)] pe(2) by auto
  have "keys_distinct (us @ (oid, lord) # vs)"
    using assms(2) same_orders_keys [OF assms(1)] om(1) by (simp add: paper_ok_def)
  from alist_at_split(1) [OF this] show ?thesis using pe om by (simp add: same_orders_def)
qed

lemma same_orders_fill:
  assumes "same_orders om pe" and "paper_ok pe" and "find (fillable oid) (pe_open_orders pe) = Some ord"
    and "f_order_id f = oid" and "f_quantity f = actual_fill n ord"
  shows "same_orders (om\<lparr>open_orders := apply_to_order f (open_orders om)\<rparr>) (snd (simulate_fill oid n now pe))"
proof -
  obtain ys zs where pe: "pe_open_orders pe = ys @ ord # zs" "o_id ord = oid"
    and repl: "\<forall>new. replace_first (fillable oid) new (pe_open_orders pe) = ys @ (case new of None \<Rightarrow> [] | Some y \<Rightarrow> [y]) @ zs"
    using find_split [OF assms(3)] by (auto simp: fillable_def)
  obtain us lord vs where om: "open_orders om = us @ (oid, lord) # vs" "unstamped lord = unstamped ord"
    "map (\<lambda>(k, ord). (k, unstamped ord)) us = map (\<lambda>ord. (o_id ord, unstamped ord)) ys"
    "map (\<lambda>(k, ord). (k, unstamped ord)) vs = map (\<lambda>ord. (o_id ord, unstamped ord)) zs"
    using same_orders_split [OF assms(1) pe(1)] pe(2) by auto
  have same: "o_filled_quantity lord = o_filled_quantity ord" "o_quantity lord = o_quantity ord"
    using om(2) by (cases lord, cases ord, simp add: unstamped_def)+
  have d: "keys_distinct (us @ (oid, lord) # vs)"
    using assms(2) same_orders_keys [OF assms(1)] om(1) by (simp add: paper_ok_def)
  let ?filled = "o_filled_quantity ord + actual_fill n ord"
  have "centi ?filled \<le> centi (o_quantity ord)" by (simp add: actual_fill_def)
  then have full: "o_quantity ord \<le> ?filled \<longleftrightarrow> ?filled = o_quantity ord"
    by (metis antisym less_eq_quantity_def order_refl)
  have local: "apply_to_order f (open_orders om)
      = us @ (if ?filled = o_quantity ord then [] else [(oid, lord\<lparr>o_filled_quantity := ?filled, o_status := PartiallyFilled\<rparr>)]) @ vs"
    using alist_at_split [OF d] om(1) full by (simp add: apply_to_order_def assms(4,5) same Let_def)
  have "pe_open_orders (snd (simulate_fill oid n now pe))
      = ys @ (if ?filled = o_quantity ord then [] else [ord\<lparr>o_filled_quantity := ?filled, o_status := PartiallyFilled\<rparr>]) @ zs"
    using repl by (simp add: simulate_fill_def assms(3) fill_order_def Let_def)
  moreover have "unstamped (lord\<lparr>o_filled_quantity := x, o_status := st\<rparr>) = unstamped (ord\<lparr>o_filled_quantity := x, o_status := st\<rparr>)" for x st
    using om(2) by (cases lord, cases ord) (simp add: unstamped_def)
  ultimately show ?thesis using om(3,4) pe(2) by (simp add: same_orders_def local)
qed

text \<open>
  C34. On the paper exchange the order manager sees what rests: when its open orders are those of
  the exchange (up to the clock that stamped them), they still are after it places an order, which
  succeeds, after it cancels one, which succeeds, and after a simulated fill is recorded. Prices,
  sizes and sides survive the conversion to the exchange's YES-denominated wire format and back.
\<close>

theorem paper_orders_in_sync:
  assumes "json_reads_back js" and "signs rsa" and "same_orders om pe" and "paper_ok pe"
    and "c = paper_client js now steady sleep rsa au base"
  shows "(is_valid_price p \<and> 0 < q \<longrightarrow>
      (\<exists>ord om' rl' pe' cl'. place (client_api c) tk sd p q om (rl, pe, cl) = (Inr ord, om', (rl', pe', cl'))
         \<and> same_orders om' pe' \<and> map_of (open_orders om') (o_id ord) = Some ord
         \<and> (o_market_ticker ord, o_side ord, o_price_cents ord, o_quantity ord) = (tk, sd, p, from_contracts q)))
    \<and> (CHR ''/'' \<notin> set oid \<longrightarrow>
      (\<exists>om' rl' pe' cl'. cancel (client_api c) oid om (rl, pe, cl) = (Inr True, om', (rl', pe', cl')) \<and> same_orders om' pe'))
    \<and> (\<forall>ord f om'. find (fillable oid) (pe_open_orders pe) = Some ord \<and> f_order_id f = oid \<and> f_quantity f = actual_fill n ord
         \<and> record_fill f om = (Inr True, om') \<longrightarrow> same_orders om' (snd (simulate_fill oid n t pe)))"
proof (intro conjI impI allI)
  assume pq: "is_valid_price p \<and> 0 < q"
  then have "0 < q" by simp
  obtain rl' cl' t where pl: "place_order c tk sd p (from_contracts q) Limit (rl, pe, cl)
    = (Inr ((rested_order tk sd p q Limit t pe)\<lparr>o_created_at := kPaperOrderTsMs * kNanosPerMilli\<rparr>),
       (rl', snd (rest_order (tk, sd, p, q, Limit) t pe), cl'))"
    using paper_place_order [OF assms(1,2) \<open>0 < q\<close>, of now steady sleep au base tk sd p rl pe cl] assms(5) by blast
  have id: "o_id (rested_order tk sd p q Limit t pe) = paper_order_id (pe_next_id pe)" by (simp add: rested_order_def rest_order_eq)
  from same_orders_place [OF assms(3,4), where tk = tk and sd = sd and p = p and q = q and ty = Limit and t = t and t' = "kPaperOrderTsMs * kNanosPerMilli"] pl pq id
  show "\<exists>ord om' rl' pe' cl'. place (client_api c) tk sd p q om (rl, pe, cl) = (Inr ord, om', (rl', pe', cl'))
         \<and> same_orders om' pe' \<and> map_of (open_orders om') (o_id ord) = Some ord
         \<and> (o_market_ticker ord, o_side ord, o_price_cents ord, o_quantity ord) = (tk, sd, p, from_contracts q)"
    by (simp add: place_def client_api_def) (simp add: rested_order_def rest_order_def next_order_id_def Let_def)
next
  assume "CHR ''/'' \<notin> set oid"
  from paper_cancel_order [OF assms(2) this, of js now steady sleep au base rl pe cl] same_orders_delete [OF assms(3,4), of oid] assms(5)
  show "\<exists>om' rl' pe' cl'. cancel (client_api c) oid om (rl, pe, cl) = (Inr True, om', (rl', pe', cl')) \<and> same_orders om' pe'"
    by (auto simp: cancel_def client_api_def)
next
  fix ord f om'
  assume f: "find (fillable oid) (pe_open_orders pe) = Some ord \<and> f_order_id f = oid \<and> f_quantity f = actual_fill n ord
         \<and> record_fill f om = (Inr True, om')"
  then have "open_orders om' = apply_to_order f (open_orders om)"
    by (auto simp: record_fill_def Let_def split: if_splits prod.splits)
  then show "same_orders om' (snd (simulate_fill oid n t pe))"
    using same_orders_fill [OF assms(3,4), of oid ord f n t] f by (simp add: same_orders_def)
qed

definition demo_paper_client :: "(json, json, paper \<times> nat) rest_client" where
  "demo_paper_client = paper_client tree_json (\<lambda>n. (int n, n)) (\<lambda>n. (int n, n)) (\<lambda>_ n. n) (\<lambda>_ _. Inr ''sig'')
     \<lparr>api_key = ''paper'', pem_private_key = []\<rparr> ''https://x/trade-api/v2''"

lemma demo_paper_ok: "signs (\<lambda>_ _. Inr ''sig'')" "same_orders new_order_manager new_paper" "paper_ok new_paper"
  by (simp_all add: signs_def same_orders_def new_order_manager_def new_paper_def paper_ok_def)

theorem paper_orders_in_sync_witness:
  "\<exists>ord om' rl' pe' cl'. place (client_api demo_paper_client) ''M'' No 40 3 new_order_manager (new_write_limiter 0, new_paper, 7)
     = (Inr ord, om', (rl', pe', cl')) \<and> same_orders om' pe'"
proof -
  have "is_valid_price 40 \<and> 0 < (3::int)" by (simp add: price_defs)
  with paper_orders_in_sync [OF tree_json_ok(2) demo_paper_ok demo_paper_client_def, where p = 40 and q = 3 and tk = "''M''" and sd = No
      and rl = "new_write_limiter 0" and cl = 7] show ?thesis by blast
qed

text \<open>
  Amending leaves a ghost on the paper exchange: it reads an amend as a new order, so after an
  amend that the client reports as successful the old order still rests next to the new one, while
  the order manager has dropped it and no longer agrees with the exchange.
\<close>

theorem paper_amend_leaves_ghost:
  assumes "json_reads_back js" and "signs rsa" and "same_orders om pe" and "paper_ok pe" and "ord \<in> set (pe_open_orders pe)"
  shows "\<exists>om' rl' pe' cl'. amend (client_api (paper_client js now steady sleep rsa au base)) (o_id ord) tk sd p (from_contracts q)
        om (rl, pe, cl) = (Inr (Some (paper_order_id (pe_next_id pe))), om', (rl', pe', cl'))
    \<and> ord \<in> set (pe_open_orders pe') \<and> map_of (open_orders om') (o_id ord) = None \<and> \<not> same_orders om' pe'"
proof -
  obtain rl' cl' t where am: "amend_order (paper_client js now steady sleep rsa au base) (o_id ord) tk sd p (from_contracts q) (rl, pe, cl)
    = (Inr (Some (paper_order_id (pe_next_id pe))), (rl', snd (rest_order (tk, sd, p, q, Limit) t pe), cl'))"
    using paper_amend_order [OF assms(1,2), of now steady sleep au base "o_id ord" tk sd p q rl pe cl] by blast
  have "o_id ord \<in> set (map fst (open_orders om))" unfolding same_orders_keys [OF assms(3)] using assms(5) by auto
  then obtain lord where lord: "map_of (open_orders om) (o_id ord) = Some lord" by (metis list.set_map map_of_eq_None_iff not_Some_eq)
  have new: "o_id ord \<noteq> paper_order_id (pe_next_id pe)"
    using assms(4,5) paper_ids_inj(1) by (fastforce simp: issued_def paper_ok_def)
  define om' where "om' = om\<lparr>open_orders := AList.update (paper_order_id (pe_next_id pe))
      (lord\<lparr>o_id := paper_order_id (pe_next_id pe), o_price_cents := p\<rparr>) (AList.delete (o_id ord) (open_orders om))\<rparr>"
  have "amend (client_api (paper_client js now steady sleep rsa au base)) (o_id ord) tk sd p (from_contracts q) om (rl, pe, cl)
      = (Inr (Some (paper_order_id (pe_next_id pe))), om', (rl', snd (rest_order (tk, sd, p, q, Limit) t pe), cl'))"
    using am lord by (simp add: amend_def client_api_def om'_def)
  moreover have ghost: "ord \<in> set (pe_open_orders (snd (rest_order (tk, sd, p, q, Limit) t pe)))"
    using assms(5) by (simp add: rest_order_eq)
  moreover have gone: "map_of (open_orders om') (o_id ord) = None" using new by (simp add: om'_def)
  moreover have "\<not> same_orders om' (snd (rest_order (tk, sd, p, q, Limit) t pe))"
  proof
    assume "same_orders om' (snd (rest_order (tk, sd, p, q, Limit) t pe))"
    from same_orders_keys [OF this] ghost have "o_id ord \<in> set (map fst (open_orders om'))" by (metis imageI list.set_map)
    with gone show False by (simp add: map_of_eq_None_iff)
  qed
  ultimately show ?thesis by blast
qed

definition one_resting :: "order_manager \<times> paper" where
  "one_resting = (let (ord, pe) = rest_order (''M'', Yes, 40, 3, Limit) 0 new_paper
     in (new_order_manager\<lparr>open_orders := [(o_id ord, ord)]\<rparr>, pe))"

theorem paper_amend_leaves_ghost_witness:
  "\<exists>om' rl' pe' cl'. amend (client_api demo_paper_client) (paper_order_id 1) ''M'' Yes 41 (from_contracts 3)
      (fst one_resting) (new_write_limiter 0, snd one_resting, 7) = (Inr (Some (paper_order_id 2)), om', (rl', pe', cl'))
    \<and> \<not> same_orders om' pe'"
proof -
  let ?ord = "fst (rest_order (''M'', Yes, 40, 3, Limit) 0 new_paper)"
  have ids: "o_id ?ord = paper_order_id 1" "pe_next_id (snd one_resting) = 2"
    by (simp_all add: rest_order_eq one_resting_def case_prod_beta new_paper_def)
  have "same_orders (fst one_resting) (snd one_resting)" "?ord \<in> set (pe_open_orders (snd one_resting))"
    by (simp_all add: same_orders_def one_resting_def case_prod_beta rest_order_eq new_paper_def)
  moreover have "paper_ok (snd one_resting)"
    using rest_order_ok [OF demo_paper_ok(3)] by (simp add: one_resting_def case_prod_beta)
  ultimately show ?thesis
    using paper_amend_leaves_ghost [OF tree_json_ok(2) demo_paper_ok(1), of "fst one_resting" "snd one_resting" ?ord
        "\<lambda>n. (int n, n)" "\<lambda>n. (int n, n)" "\<lambda>_ n. n" "\<lparr>api_key = ''paper'', pem_private_key = []\<rparr>" "''https://x/trade-api/v2''"
        "''M''" Yes 41 3 "new_write_limiter 0" 7]
    unfolding ids demo_paper_client_def by fast
qed

end
