(* ===== verification/App_Modes.thy ===== *)
theory App_Modes
  imports Session_Correct Ticker_Scanner Websocket_Client Paper_Client
begin

text \<open>
  The application's own procedures (\<open>source/app/app_modes.cpp\<close>): backfilling missed fills, comparing
  positions with the exchange, selecting and rotating markets, flattening, and the fill model of
  the backtest. The account operations of the REST client they call are gathered in
  \<open>account_api\<close>, provided by \<open>client_account\<close>. Logging and result files are left out. Each
  procedure runs as one step: the engine lock excludes the other threads.
\<close>

section \<open>The account operations\<close>

record 'w account_api =
  ac_get_fills :: "int \<Rightarrow> (fill list, 'w) paged"
  ac_get_positions :: "(market_position list, 'w) paged"
  ac_flatten :: "ticker \<Rightarrow> quantity \<Rightarrow> (order, 'w) io"

definition client_account :: "('j, 't, 'p) rest_client \<Rightarrow> (rate_limiter \<times> 'p) account_api" where
  "client_account c = \<lparr>ac_get_fills = get_fills c, ac_get_positions = get_positions c, ac_flatten = flatten c\<rparr>"

section \<open>Backfilling fills\<close>

text \<open>The count of fills newly recorded, and the latest fill time seen, which survives an exception.\<close>

fun backfill_loop :: "fill list \<Rightarrow> int \<Rightarrow> time_ns option \<Rightarrow> session \<Rightarrow> (exn + int) \<times> time_ns option \<times> session" where
  "backfill_loop [] replayed advance s = (Inr replayed, advance, s)"
| "backfill_loop (f # fs) replayed advance s =
     (if \<not> is_tracked s (f_market_ticker f) then backfill_loop fs replayed advance s
      else case on_fill f s of
        (Inl e, s') \<Rightarrow> (Inl e, advance, s')
      | (Inr recorded, s') \<Rightarrow>
          backfill_loop fs (if recorded then replayed + 1 else replayed) (map_option (\<lambda>t. max t (f_timestamp f)) advance) s')"

definition backfill_fills :: "'w account_api \<Rightarrow> int \<Rightarrow> time_ns option \<Rightarrow> session \<Rightarrow> 'w
    \<Rightarrow> ((exn + int) \<times> time_ns option \<times> session \<times> 'w) option" where
  "backfill_fills ac min_ts_seconds advance s w =
     (case ac_get_fills ac min_ts_seconds w of
        None \<Rightarrow> None
      | Some (Inl (StdException _), w') \<Rightarrow> Some (Inr (-1), advance, s, w')
      | Some (Inl (Abort what), w') \<Rightarrow> Some (Inl (Abort what), advance, s, w')
      | Some (Inr fetched, w') \<Rightarrow>
          (let (r, advance', s') = backfill_loop fetched 0 advance s in Some (r, advance', s', w')))"

section \<open>Reconciliation\<close>

text \<open>
  A reference to the risk manager inside the state, when there is one, and the state's order
  manager: in a live session both are the session's, in the standalone mode there is no risk
  manager.
\<close>

record 's reconcile_refs =
  ref_om :: "'s \<Rightarrow> order_manager"
  ref_rm :: "(('s \<Rightarrow> risk_manager) \<times> ((risk_manager \<Rightarrow> risk_manager) \<Rightarrow> 's \<Rightarrow> 's)) option"

definition session_refs :: "session reconcile_refs" where
  "session_refs = \<lparr>ref_om = ts_om, ref_rm = Some (ts_rm, ts_rm_update)\<rparr>"

definition reconcile_halt :: "'s reconcile_refs \<Rightarrow> 's \<Rightarrow> 'w \<Rightarrow> ((exn + bool) \<times> 's \<times> 'w) option" where
  "reconcile_halt refs s w =
     Some (Inr False, (case ref_rm refs of None \<Rightarrow> s | Some (_, upd) \<Rightarrow> upd (set_constraint kModelDiverge) s), w)"

definition reconcile_clear :: "'s reconcile_refs \<Rightarrow> 's \<Rightarrow> 's" where
  "reconcile_clear refs s =
     (case ref_rm refs of
        None \<Rightarrow> s
      | Some (get, upd) \<Rightarrow> if is_set (get s) kModelDiverge then upd (clear_constraint kModelDiverge) s else s)"

fun reconcile_passes :: "'w account_api \<Rightarrow> 's reconcile_refs \<Rightarrow> ticker list \<Rightarrow> market_position list
    \<Rightarrow> ('s \<Rightarrow> 'w \<Rightarrow> ((exn + int) \<times> 's \<times> 'w) option) option \<Rightarrow> nat \<Rightarrow> bool \<Rightarrow> 's \<Rightarrow> 'w \<Rightarrow> ((exn + bool) \<times> 's \<times> 'w) option" where
  "reconcile_passes ac refs tickers baseline backfill 0 pass1 s w = reconcile_halt refs s w"
| "reconcile_passes ac refs tickers baseline backfill (Suc n) pass1 s w =
     (case ac_get_positions ac w of
        None \<Rightarrow> None
      | Some (Inl (Abort what), w') \<Rightarrow> Some (Inl (Abort what), s, w')
      | Some (Inl (StdException _), w') \<Rightarrow> if pass1 then Some (Inr False, s, w') else reconcile_halt refs s w'
      | Some (Inr exchange, w') \<Rightarrow>
          if in_sync (reconcile (ref_om refs s) tickers exchange baseline) then Some (Inr True, reconcile_clear refs s, w')
          else case (if pass1 then backfill else None) of
            None \<Rightarrow> reconcile_halt refs s w'
          | Some run_backfill \<Rightarrow>
              (case run_backfill s w' of
                 None \<Rightarrow> None
               | Some (Inl e, s'', w'') \<Rightarrow> Some (Inl e, s'', w'')
               | Some (Inr replayed, s'', w'') \<Rightarrow>
                   if replayed \<ge> 0 then reconcile_passes ac refs tickers baseline backfill n False s'' w''
                   else reconcile_halt refs s'' w''))"

definition kComparePasses :: nat where "kComparePasses = 2"

definition reconcile_against_exchange :: "'w account_api \<Rightarrow> 's reconcile_refs \<Rightarrow> ticker list \<Rightarrow> market_position list
    \<Rightarrow> ('s \<Rightarrow> 'w \<Rightarrow> ((exn + int) \<times> 's \<times> 'w) option) option \<Rightarrow> 's \<Rightarrow> 'w \<Rightarrow> ((exn + bool) \<times> 's \<times> 'w) option" where
  "reconcile_against_exchange ac refs tickers baseline backfill s w =
     reconcile_passes ac refs tickers baseline backfill kComparePasses True s w"

definition run_reconcile_mode :: "'w account_api \<Rightarrow> ticker list \<Rightarrow> 'w \<Rightarrow> ((exn + int) \<times> 'w) option" where
  "run_reconcile_mode ac tickers w =
     (case reconcile_against_exchange ac \<lparr>ref_om = id, ref_rm = None\<rparr> tickers [] None new_order_manager w of
        None \<Rightarrow> None
      | Some (Inl e, _, w') \<Rightarrow> Some (Inl e, w')
      | Some (Inr ok, _, w') \<Rightarrow> Some (Inr (if ok then 0 else 1), w'))"

section \<open>Selecting and rotating markets\<close>

definition scan_now :: "('w \<Rightarrow> time_ns \<times> 'w) \<Rightarrow> 'w market_data \<Rightarrow> scanner_config \<Rightarrow> (ticker list, 'w) paged" where
  "scan_now system_clock md cfg =
     bind_paged (paged_io (lift_read system_clock)) (\<lambda>now.
     bind_paged (scan md cfg (sn_trade_top_n cfg) now) (\<lambda>picks. paged_io (return_io (map sc_ticker picks))))"

definition scan_top_tickers :: "('w \<Rightarrow> time_ns \<times> 'w) \<Rightarrow> 'w market_data \<Rightarrow> scanner_config \<Rightarrow> (ticker list, 'w) paged" where
  "scan_top_tickers system_clock md cfg = scan_now system_clock md cfg"

definition drop_unpicked :: "ticker list \<Rightarrow> session \<Rightarrow> session" where
  "drop_unpicked picks s =
     fold (\<lambda>tk s. if tk \<notin> set picks then snd (remove_market_if_idle tk s) else s) (ts_tickers s) s"

text \<open>Adopting a market: snapshot, seed, subscribe, with an exception of one ticker contained.\<close>

definition adopt_market :: "'w env \<Rightarrow> 'w market_data \<Rightarrow> ('j, 't, 'w) ws_env \<Rightarrow> ticker
    \<Rightarrow> (unit, session \<times> ws_client \<times> 'w) io" where
  "adopt_market env md wse tk =
     catch_io (\<lambda>(s, c, w).
       case md_get_orderbook md tk w of
         (Inl e, w') \<Rightarrow> (Inl e, (s, c, w'))
       | (Inr snap, w') \<Rightarrow>
           (case add_market env snap s w' of
              (Inl e, s', w'') \<Rightarrow> (Inl e, (s', c, w''))
            | (Inr _, s', w'') \<Rightarrow> (let (c', w3) = subscribe wse tk (c, w'') in (Inr (), (s', c', w3)))))
       (\<lambda>_. return_io ())"

fun adopt_all :: "'w env \<Rightarrow> 'w market_data \<Rightarrow> ('j, 't, 'w) ws_env \<Rightarrow> ticker list \<Rightarrow> (unit, session \<times> ws_client \<times> 'w) io" where
  "adopt_all env md wse [] = return_io ()"
| "adopt_all env md wse (tk # tks) = bind_io (adopt_market env md wse tk) (\<lambda>_. adopt_all env md wse tks)"

definition rotate_markets :: "'w env \<Rightarrow> 'w market_data \<Rightarrow> ('j, 't, 'w) ws_env \<Rightarrow> scanner_config \<Rightarrow> session \<times> ws_client \<times> 'w
    \<Rightarrow> ((exn + unit) \<times> session \<times> ws_client \<times> 'w) option" where
  "rotate_markets env md wse cfg st = (case st of (s, c, w) \<Rightarrow>
     (case scan_now (system_now env) md cfg w of
        None \<Rightarrow> None
      | Some (Inl (StdException _), w') \<Rightarrow> Some (Inr (), (s, c, w'))
      | Some (Inl (Abort what), w') \<Rightarrow> Some (Inl (Abort what), (s, c, w'))
      | Some (Inr picks, w') \<Rightarrow>
          (let s1 = drop_unpicked picks s; to_add = filter (\<lambda>tk. \<not> is_tracked s1 tk) picks
           in Some (catch_io (adopt_all env md wse to_add) (\<lambda>_. return_io ()) (s1, c, w')))))"

section \<open>Flattening\<close>

text \<open>The session is optional: without one the execution is not recorded.\<close>

fun flatten_loop :: "'w account_api \<Rightarrow> ticker list option \<Rightarrow> market_position list \<Rightarrow> int \<Rightarrow> session option \<times> 'w
    \<Rightarrow> (exn + int) \<times> session option \<times> 'w" where
  "flatten_loop ac only [] n_closed st = (Inr n_closed, st)"
| "flatten_loop ac only (p # ps) n_closed (so, w) =
     (if is_zero (mp_position p) \<or> (case only of None \<Rightarrow> False | Some tks \<Rightarrow> mp_ticker p \<notin> set tks)
      then flatten_loop ac only ps n_closed (so, w)
      else case ac_flatten ac (mp_ticker p) (mp_position p) w of
        (Inl (Abort what), w') \<Rightarrow> (Inl (Abort what), so, w')
      | (Inl (StdException _), w') \<Rightarrow> flatten_loop ac only ps n_closed (so, w')
      | (Inr ord, w') \<Rightarrow>
          (case so of
             None \<Rightarrow> flatten_loop ac only ps (n_closed + 1) (None, w')
           | Some s \<Rightarrow>
               (case record_flatten ord s of
                  (Inl (Abort what), s') \<Rightarrow> (Inl (Abort what), Some s', w')
                | (Inl (StdException _), s') \<Rightarrow> flatten_loop ac only ps n_closed (Some s', w')
                | (Inr _, s') \<Rightarrow> flatten_loop ac only ps (n_closed + 1) (Some s', w'))))"

definition flatten_all_positions :: "'w account_api \<Rightarrow> ticker list option \<Rightarrow> session option \<Rightarrow> 'w
    \<Rightarrow> ((exn + int) \<times> session option \<times> 'w) option" where
  "flatten_all_positions ac only so w =
     (case ac_get_positions ac w of
        None \<Rightarrow> None
      | Some (Inl e, w') \<Rightarrow> Some (Inl e, so, w')
      | Some (Inr positions, w') \<Rightarrow> Some (flatten_loop ac only positions 0 (so, w')))"

definition run_flatten_mode :: "'w account_api \<Rightarrow> 'w \<Rightarrow> ((exn + int) \<times> 'w) option" where
  "run_flatten_mode ac w =
     (case flatten_all_positions ac None None w of
        None \<Rightarrow> None
      | Some (Inl e, _, w') \<Rightarrow> Some (Inl e, w')
      | Some (Inr _, _, w') \<Rightarrow> Some (Inr 0, w'))"

section \<open>The backtest's fill model\<close>

record crossable =
  cx_order_id :: string
  cx_side :: side
  cx_price_cents :: int
  cx_remaining :: int

definition is_crossed :: "public_trade \<Rightarrow> order \<Rightarrow> bool" where
  "is_crossed print ord =
     (if pt_taker_side print = Yes \<and> o_side ord = No then pt_yes_price_cents print > complement_price (o_price_cents ord)
      else if pt_taker_side print = No \<and> o_side ord = Yes then pt_yes_price_cents print < o_price_cents ord
      else False)"

definition whole_contracts :: "quantity \<Rightarrow> int" where
  "whole_contracts q = c_trunc (contracts q)"

definition crossable_of :: "public_trade \<Rightarrow> order \<Rightarrow> crossable list" where
  "crossable_of print ord =
     (if o_market_ticker ord \<noteq> pt_market_ticker print \<or> \<not> is_active ord then []
      else if \<not> is_crossed print ord then []
      else let remaining = whole_contracts (o_quantity ord - o_filled_quantity ord)
           in if remaining > 0 then [\<lparr>cx_order_id = o_id ord, cx_side = o_side ord, cx_price_cents = o_price_cents ord, cx_remaining = remaining\<rparr>]
              else [])"

definition sim_trade_id :: "nat \<Rightarrow> string" where
  "sim_trade_id n = ''sim-'' @ int_to_string (int n)"

definition maker_fill :: "public_trade \<Rightarrow> crossable \<Rightarrow> int \<Rightarrow> paper \<Rightarrow> fill" where
  "maker_fill print target fill_qty pe =
     \<lparr>f_trade_id = sim_trade_id (length (pe_fills pe)), f_order_id = cx_order_id target, f_market_ticker = pt_market_ticker print,
      f_side = cx_side target, f_price_cents = cx_price_cents target, f_quantity = from_contracts fill_qty, f_fee_cents = 0,
      f_is_taker = False, f_timestamp = pt_timestamp print\<rparr>"

fun maker_fill_loop :: "('c \<Rightarrow> time_ns \<times> 'c) \<Rightarrow> public_trade \<Rightarrow> crossable list \<Rightarrow> int \<Rightarrow> int \<Rightarrow> session option \<times> paper \<times> 'c
    \<Rightarrow> (exn + int) \<times> session option \<times> paper \<times> 'c" where
  "maker_fill_loop clock print [] print_remaining orders_filled st = (Inr orders_filled, st)"
| "maker_fill_loop clock print (target # targets) print_remaining orders_filled (so, pe, cl) =
     (if print_remaining \<le> 0 then (Inr orders_filled, (so, pe, cl))
      else
        let fill_qty = min print_remaining (cx_remaining target) in
        if fill_qty \<le> 0 then maker_fill_loop clock print targets print_remaining orders_filled (so, pe, cl)
        else
          let (now, cl') = clock cl; (filled, pe') = simulate_fill (cx_order_id target) fill_qty now pe in
          if \<not> filled then maker_fill_loop clock print targets print_remaining orders_filled (so, pe', cl')
          else case so of
            None \<Rightarrow> maker_fill_loop clock print targets (print_remaining - fill_qty) (orders_filled + 1) (None, pe', cl')
          | Some s \<Rightarrow>
              (case on_fill (maker_fill print target fill_qty pe') s of
                 (Inl e, s') \<Rightarrow> (Inl e, (Some s', pe', cl'))
               | (Inr _, s') \<Rightarrow>
                   maker_fill_loop clock print targets (print_remaining - fill_qty) (orders_filled + 1) (Some s', pe', cl')))"

definition simulate_maker_fills :: "('c \<Rightarrow> time_ns \<times> 'c) \<Rightarrow> public_trade \<Rightarrow> session option \<times> paper \<times> 'c
    \<Rightarrow> (exn + int) \<times> session option \<times> paper \<times> 'c" where
  "simulate_maker_fills clock print st = (case st of (so, pe, cl) \<Rightarrow>
     maker_fill_loop clock print (concat (map (crossable_of print) (pe_open_orders pe)))
       (whole_contracts (pt_quantity print)) 0 (so, pe, cl))"

end
