(* ===== verification/App_Correct.thy ===== *)
theory App_Correct
  imports App_Modes
begin

text \<open>What the application's procedures guarantee.\<close>

section \<open>Backfill\<close>

lemma from_centi_eq_0: "from_centi n = 0 \<longleftrightarrow> n = 0"
  by (simp add: zero_quantity_def)

lemma record_fill_seen: "fill_ok f \<Longrightarrow> fill_key f \<in> seen_fills om \<Longrightarrow> record_fill f om = (Inr False, om)"
  by (simp add: record_fill_def fill_ok_def)

lemma record_fill_total: "fill_ok f \<Longrightarrow> fst (record_fill f om) \<noteq> Inl e"
  by (simp add: record_fill_def fill_ok_def Let_def case_prod_beta)

lemma on_fill_cases:
  assumes "is_tracked s (f_market_ticker f)" and "on_fill f s = (Inr b, s')"
  shows "ts_tickers s' = ts_tickers s \<and> fill_ok f \<and> (b \<longleftrightarrow> fill_key f \<notin> seen_fills (ts_om s))
    \<and> seen_fills (ts_om s') = insert (fill_key f) (seen_fills (ts_om s)) \<and> (\<not> b \<longrightarrow> ts_om s' = ts_om s)"
  using assms
  by (auto simp: on_fill_def Let_def is_tracked_def record_fill_def fill_ok_def publish_pnl_def split: prod.splits if_splits sum.splits bool.splits)

text \<open>The fills of tracked markets, and the effect of a backfill on the accounts.\<close>

definition tracked_keys :: "session \<Rightarrow> fill list \<Rightarrow> string set" where
  "tracked_keys s fs = fill_key ` {f \<in> set fs. is_tracked s (f_market_ticker f)}"

lemma backfill_loop_effect:
  assumes "backfill_loop fs n a s = (Inr k, a', s')"
  shows "ts_tickers s' = ts_tickers s \<and> seen_fills (ts_om s') = seen_fills (ts_om s) \<union> tracked_keys s fs
    \<and> k = n + int (card (tracked_keys s fs - seen_fills (ts_om s)))
    \<and> (\<forall>f \<in> set fs. is_tracked s (f_market_ticker f) \<longrightarrow> fill_ok f)
    \<and> (tracked_keys s fs \<subseteq> seen_fills (ts_om s) \<longrightarrow> ts_om s' = ts_om s)"
  using assms
proof (induction fs arbitrary: n a s)
  case Nil
  then show ?case by (simp add: tracked_keys_def)
next
  case (Cons f fs)
  show ?case
  proof (cases "is_tracked s (f_market_ticker f)")
    case False
    then have "tracked_keys s (f # fs) = tracked_keys s fs" by (auto simp: tracked_keys_def)
    then show ?thesis using Cons.IH [of n a s] Cons.prems False by simp
  next
    case True
    then obtain b s1 where step: "on_fill f s = (Inr b, s1)"
      and rest: "backfill_loop fs (if b then n + 1 else n) (map_option (\<lambda>t. max t (f_timestamp f)) a) s1 = (Inr k, a', s')"
      using Cons.prems by (auto split: prod.splits sum.splits)
    note one = on_fill_cases [OF True step]
    have tracked: "is_tracked s1 = is_tracked s" using one by (auto simp: is_tracked_def fun_eq_iff)
    have keys: "tracked_keys s (f # fs) = insert (fill_key f) (tracked_keys s fs)" "tracked_keys s1 fs = tracked_keys s fs"
      using True tracked by (auto simp: tracked_keys_def)
    have fin: "finite (tracked_keys s fs)" by (simp add: tracked_keys_def)
    have card: "int (card (insert x A - S)) = (if x \<notin> S then 1 else 0) + int (card (A - insert x S))" if "finite A" for x :: string and A S
    proof -
      have "insert x A - S = (if x \<in> S then A - S else insert x (A - insert x S))" by auto
      moreover have "x \<in> S \<Longrightarrow> insert x S = S" by auto
      ultimately show ?thesis using that by auto
    qed
    note IH = Cons.IH [OF rest]
    show ?thesis using IH one by (auto simp: keys tracked card [OF fin])
  qed
qed

lemma backfill_loop_again:
  assumes "\<forall>f \<in> set fs. is_tracked s (f_market_ticker f) \<longrightarrow> fill_ok f" and "tracked_keys s fs \<subseteq> seen_fills (ts_om s)"
  shows "\<exists>a' s'. backfill_loop fs n a s = (Inr n, a', s') \<and> ts_om s' = ts_om s"
  using assms
proof (induction fs arbitrary: n a s)
  case (Cons f fs)
  show ?case
  proof (cases "is_tracked s (f_market_ticker f)")
    case True
    then have "record_fill f (ts_om s) = (Inr False, ts_om s)"
      using Cons.prems by (intro record_fill_seen) (auto simp: tracked_keys_def)
    then have step: "on_fill f s = (Inr False, s\<lparr>ts_tape := map_option (record_own_fill (f_trade_id f)) (ts_tape s)\<rparr>)"
      using True by (simp add: on_fill_def is_tracked_def Let_def)
    let ?s = "s\<lparr>ts_tape := map_option (record_own_fill (f_trade_id f)) (ts_tape s)\<rparr>"
    have "tracked_keys ?s fs \<subseteq> seen_fills (ts_om ?s)" "\<forall>f \<in> set fs. is_tracked ?s (f_market_ticker f) \<longrightarrow> fill_ok f"
      using Cons.prems by (auto simp: tracked_keys_def is_tracked_def)
    from Cons.IH [OF this(2,1), of n "map_option (\<lambda>t. max t (f_timestamp f)) a"] show ?thesis using True by (simp add: step)
  next
    case False
    then have "tracked_keys s (f # fs) = tracked_keys s fs" by (auto simp: tracked_keys_def)
    then show ?thesis using Cons.IH [of s n a] Cons.prems False by simp
  qed
qed simp

text \<open>
  C23. Backfilling is idempotent and exact: it counts each fill of a tracked market once, however
  often the exchange repeats it and whether or not the feed delivered it before, and running it
  again over the same fills records nothing and leaves every account as it is.
\<close>

theorem backfill_exactly_once:
  assumes "backfill_loop fs 0 a s = (Inr n, a', s')"
  shows "n = int (card (tracked_keys s fs - seen_fills (ts_om s))) \<and>
    (\<exists>b' s''. backfill_loop fs 0 b s' = (Inr 0, b', s'') \<and> ts_om s'' = ts_om s')"
proof -
  note eff = backfill_loop_effect [OF assms]
  then have "is_tracked s' = is_tracked s" "tracked_keys s' fs = tracked_keys s fs"
    by (auto simp: is_tracked_def tracked_keys_def fun_eq_iff)
  then show ?thesis using eff backfill_loop_again [of fs s' 0 b] by auto
qed

theorem backfill_exactly_once_witness:
  "\<exists>a' s' b' s''. backfill_loop [yes_fill, yes_fill] 0 None (demo_session [''M'']) = (Inr 1, a', s')
    \<and> backfill_loop [yes_fill, yes_fill] 0 None s' = (Inr 0, b', s'')"
proof -
  have ok: "fill_ok yes_fill" "f_market_ticker yes_fill = ''M''" by (simp_all add: fill_ok_def yes_fill_def price_defs)
  have tr: "is_tracked (demo_session [''M'']) ''M''" by (simp add: is_tracked_def demo_session_def new_session_def)
  obtain s1 where s1: "on_fill yes_fill (demo_session [''M'']) = (Inr True, s1)"
    using ok by (simp add: on_fill_def is_tracked_def demo_session_def new_session_def record_fill_def new_order_manager_def
      fill_ok_def Let_def case_prod_beta)
  then have "is_tracked s1 ''M''" "fill_key yes_fill \<in> seen_fills (ts_om s1)"
    using on_fill_cases [of "demo_session [''M'']" yes_fill True s1] tr ok by (auto simp: is_tracked_def)
  then obtain s2 where "on_fill yes_fill s1 = (Inr False, s2)"
    using record_fill_seen [OF ok(1)] ok(2) by (simp add: on_fill_def is_tracked_def Let_def)
  then obtain a' s' where run: "backfill_loop [yes_fill, yes_fill] 0 None (demo_session [''M'']) = (Inr 1, a', s')"
    using s1 tr ok \<open>is_tracked s1 ''M''\<close> by simp
  from backfill_exactly_once [OF run, of None] show ?thesis using run by blast
qed

section \<open>Reconciliation\<close>

text \<open>The hook the live program passes: backfill, then compare again.\<close>

definition backfill_hook :: "'w account_api \<Rightarrow> int \<Rightarrow> time_ns option \<Rightarrow> session \<Rightarrow> 'w \<Rightarrow> ((exn + int) \<times> session \<times> 'w) option" where
  "backfill_hook ac min_ts_seconds advance s w =
     map_option (\<lambda>(r, _, s', w'). (r, s', w')) (backfill_fills ac min_ts_seconds advance s w)"

lemma backfill_hook_answers: "(\<And>w. ac_get_fills ac min_ts w \<noteq> None) \<Longrightarrow> backfill_hook ac min_ts adv s w \<noteq> None"
  unfolding backfill_hook_def backfill_fills_def by (simp add: case_prod_beta split: option.split sum.split exn.split)

text \<open>
  Why a reconciliation can end without a verdict: a service ended in an abort, or the exchange listed
  a fill that the invariant checks of the order manager refuse.
\<close>

definition reconcile_aborts :: "'w account_api \<Rightarrow> int \<Rightarrow> string \<Rightarrow> bool" where
  "reconcile_aborts ac min_ts what \<longleftrightarrow>
     (\<exists>w w'. ac_get_positions ac w = Some (Inl (Abort what), w')) \<or> (\<exists>w w'. ac_get_fills ac min_ts w = Some (Inl (Abort what), w'))
     \<or> (\<exists>w w' fetched f. ac_get_fills ac min_ts w = Some (Inr fetched, w') \<and> f \<in> set fetched \<and> \<not> fill_ok f)"

lemma on_fill_raises: "on_fill f s = (Inl e, s') \<Longrightarrow> \<not> fill_ok f \<and> (\<exists>what. e = Abort what)"
  by (auto simp: on_fill_def record_fill_def fill_ok_def Let_def split: if_splits prod.splits sum.splits bool.splits)

lemma backfill_loop_raises:
  "backfill_loop fs n a s = (Inl e, a', s') \<Longrightarrow> (\<exists>f \<in> set fs. \<not> fill_ok f) \<and> (\<exists>what. e = Abort what)"
  by (induction fs arbitrary: n a s) (auto split: if_splits prod.splits sum.splits dest: on_fill_raises)

lemma reconcile_abortsI:
  "ac_get_positions ac w = Some (Inl (Abort what), w') \<Longrightarrow> reconcile_aborts ac min_ts what"
  "ac_get_fills ac min_ts w = Some (Inl (Abort what), w') \<Longrightarrow> reconcile_aborts ac min_ts what"
  "ac_get_fills ac min_ts w = Some (Inr fetched, w') \<Longrightarrow> f \<in> set fetched \<Longrightarrow> \<not> fill_ok f \<Longrightarrow> reconcile_aborts ac min_ts what"
  unfolding reconcile_aborts_def by blast+

lemma backfill_hook_raises:
  assumes "backfill_hook ac min_ts adv s w = Some (Inl e, s', w')"
  shows "\<exists>what. e = Abort what \<and> reconcile_aborts ac min_ts what"
proof -
  obtain a' where run: "backfill_fills ac min_ts adv s w = Some (Inl e, a', s', w')" using assms by (auto simp: backfill_hook_def)
  then obtain r w1 where r: "ac_get_fills ac min_ts w = Some (r, w1)" by (auto simp: backfill_fills_def split: option.splits)
  show ?thesis
  proof (cases r)
    case (Inl e1)
    then show ?thesis using run r reconcile_abortsI(2) [of ac min_ts w] by (cases e1) (auto simp: backfill_fills_def)
  next
    case (Inr fetched)
    then have "backfill_loop fetched 0 adv s = (Inl e, a', s')" using run r by (simp add: backfill_fills_def case_prod_beta Let_def prod_eq_iff)
    from backfill_loop_raises [OF this] obtain f what where "f \<in> set fetched" "\<not> fill_ok f" "e = Abort what" by blast
    then show ?thesis using reconcile_abortsI(3) [OF r [unfolded Inr]] by simp
  qed
qed

definition verdict_ok :: "'w account_api \<Rightarrow> int \<Rightarrow> ticker list \<Rightarrow> market_position list \<Rightarrow> (exn + bool) \<Rightarrow> session \<Rightarrow> bool" where
  "verdict_ok ac min_ts tickers baseline r s' \<longleftrightarrow>
     (r = Inr True \<longrightarrow> \<not> is_set (ts_rm s') kModelDiverge \<and>
        (\<exists>exchange w0 w1. ac_get_positions ac w0 = Some (Inr exchange, w1)
           \<and> Portfolio.in_sync (reconcile (ts_om s') tickers exchange baseline)))
     \<and> (\<forall>e. r = Inl e \<longrightarrow> (\<exists>what. e = Abort what \<and> reconcile_aborts ac min_ts what))"

lemma verdict_ok_no [simp]: "verdict_ok ac min_ts tickers baseline (Inr False) s"
  by (simp add: verdict_ok_def)

lemma verdict_ok_abort: "reconcile_aborts ac min_ts what \<Longrightarrow> verdict_ok ac min_ts tickers baseline (Inl (Abort what)) s"
  by (simp add: verdict_ok_def)

lemma ref_om_session [simp]: "ref_om session_refs = ts_om"
  by (simp add: session_refs_def)

lemma reconcile_halt_session:
  "reconcile_halt session_refs s w = Some (Inr False, s\<lparr>ts_rm := set_constraint kModelDiverge (ts_rm s)\<rparr>, w)"
  by (simp add: reconcile_halt_def session_refs_def)

lemma reconcile_clear_session:
  "ts_om (reconcile_clear session_refs s) = ts_om s \<and> \<not> is_set (ts_rm (reconcile_clear session_refs s)) kModelDiverge"
  by (simp add: reconcile_clear_def session_refs_def)

lemma reconcile_passes_verdict:
  assumes "\<And>w. ac_get_positions ac w \<noteq> None" and "\<And>w. ac_get_fills ac min_ts w \<noteq> None"
  shows "\<exists>r s' w'. reconcile_passes ac session_refs tickers baseline (Some (backfill_hook ac min_ts adv)) n first_pass s w = Some (r, s', w')
    \<and> verdict_ok ac min_ts tickers baseline r s'
    \<and> (r = Inr False \<longrightarrow> is_set (ts_rm s') kModelDiverge \<or> first_pass \<and> s' = s \<and> (\<exists>what w1. ac_get_positions ac w = Some (Inl (StdException what), w1)))"
proof (induction n arbitrary: first_pass s w)
  case 0
  then show ?case by (simp add: reconcile_halt_session verdict_ok_def)
next
  case (Suc n)
  obtain p w1 where p: "ac_get_positions ac w = Some (p, w1)" using assms(1) [of w] by auto
  obtain r s2 w2 where b: "backfill_hook ac min_ts adv s w1 = Some (r, s2, w2)"
    using backfill_hook_answers [where ac = ac and min_ts = min_ts, OF assms(2)] by (metis not_None_eq prod_cases3)
  show ?case
  proof (cases p)
    case (Inl e)
    then show ?thesis using p by (cases e; cases first_pass) (auto simp: reconcile_halt_session intro: verdict_ok_abort reconcile_abortsI)
  next
    case (Inr exchange)
    show ?thesis
    proof (cases "Portfolio.in_sync (reconcile (ts_om s) tickers exchange baseline)")
      case True
      then show ?thesis using p Inr reconcile_clear_session [of s]
        by (auto simp: verdict_ok_def)
    next
      case False
      show ?thesis
      proof (cases "first_pass \<and> (\<exists>k. r = Inr k \<and> k \<ge> 0)")
        case True
        then have "reconcile_passes ac session_refs tickers baseline (Some (backfill_hook ac min_ts adv)) (Suc n) first_pass s w
            = reconcile_passes ac session_refs tickers baseline (Some (backfill_hook ac min_ts adv)) n False s2 w2"
          using p Inr False b by auto
        then show ?thesis using Suc.IH [of False s2 w2] by (simp only: simp_thms) blast
      next
        case other: False
        have "verdict_ok ac min_ts tickers baseline (Inl e) s2" if "r = Inl e" for e
          using backfill_hook_raises [OF b [unfolded that]] verdict_ok_abort by blast
        then show ?thesis using other p Inr False b by (cases first_pass; cases r) (auto simp: reconcile_halt_session)
      qed
    qed
  qed
qed

text \<open>
  C18. Reconciliation always gives a verdict, and the verdict is what the risk state says: when the
  listings of positions and fills end, normally or not, the comparison returns; it answers yes only if
  the session's positions, after any backfill, match positions fetched from the exchange, and then the
  divergence halt is off; it answers no with the halt on, except that when the very first fetch of
  positions fails it answers no and leaves the session alone. No standard exception escapes it: it
  ends without an answer only in an abort, when a service aborts or the exchange lists a fill without
  a valid price and quantity.
\<close>

theorem reconcile_verdict:
  assumes "\<And>w. ac_get_positions ac w \<noteq> None" and "\<And>w. ac_get_fills ac min_ts w \<noteq> None"
  shows "\<exists>r s' w'. reconcile_against_exchange ac session_refs tickers baseline (Some (backfill_hook ac min_ts adv)) s w = Some (r, s', w')
    \<and> (r = Inr True \<longrightarrow> \<not> is_set (ts_rm s') kModelDiverge \<and>
        (\<exists>exchange w0 w1. ac_get_positions ac w0 = Some (Inr exchange, w1)
           \<and> Portfolio.in_sync (reconcile (ts_om s') tickers exchange baseline)))
    \<and> (r = Inr False \<longrightarrow> is_set (ts_rm s') kModelDiverge
         \<or> s' = s \<and> (\<exists>what w1. ac_get_positions ac w = Some (Inl (StdException what), w1)))
    \<and> (\<forall>e. r = Inl e \<longrightarrow> (\<exists>what. e = Abort what \<and> reconcile_aborts ac min_ts what))"
proof -
  obtain r s' w' where run: "reconcile_passes ac session_refs tickers baseline (Some (backfill_hook ac min_ts adv)) kComparePasses True s w = Some (r, s', w')"
    and ok: "verdict_ok ac min_ts tickers baseline r s'"
    and no: "r = Inr False \<longrightarrow> is_set (ts_rm s') kModelDiverge \<or> True \<and> s' = s \<and> (\<exists>what w1. ac_get_positions ac w = Some (Inl (StdException what), w1))"
    using reconcile_passes_verdict [where first_pass = True and n = kComparePasses and min_ts = min_ts, OF assms, of tickers baseline adv s w] by blast
  show ?thesis
    using ok [unfolded verdict_ok_def] no run
    by (intro exI [of _ r] exI [of _ s'] exI [of _ w']) (intro conjI; (elim conjE)?; (assumption | simp only: reconcile_against_exchange_def simp_thms))
qed

text \<open>An exchange that holds three contracts the session has not heard of, and reports the fill.\<close>

definition missed_fill_exchange :: "nat account_api" where
  "missed_fill_exchange = \<lparr>ac_get_fills = (\<lambda>_ w. Some (Inr [yes_fill], w + 1)),
     ac_get_positions = (\<lambda>w. Some (Inr [\<lparr>mp_ticker = ''M'', mp_position = from_centi 300, mp_realized_pnl_cents = 0,
        mp_market_exposure_cents = 0, mp_resting_orders_count = 0\<rparr>], w + 1)),
     ac_flatten = (\<lambda>_ _ w. (Inl (StdException ''closed''), w))\<rparr>"

theorem reconcile_verdict_witness:
  "\<exists>r s' w'. reconcile_against_exchange missed_fill_exchange session_refs [''M''] [] (Some (backfill_hook missed_fill_exchange 0 None))
     (demo_session [''M'']) 0 = Some (Inr r, s', w') \<and> is_set (ts_rm s') kModelDiverge = (\<not> r)"
proof -
  have total: "ac_get_positions missed_fill_exchange w \<noteq> None" "ac_get_fills missed_fill_exchange t w \<noteq> None" for w t
    by (simp_all add: missed_fill_exchange_def)
  have "ac_get_positions missed_fill_exchange 0 \<noteq> Some (Inl e, w)" for e w by (simp add: missed_fill_exchange_def)
  moreover have "\<not> reconcile_aborts missed_fill_exchange 0 what" for what
    by (simp add: reconcile_aborts_def missed_fill_exchange_def fill_ok_def yes_fill_def price_defs)
  moreover obtain r s' w' where "reconcile_against_exchange missed_fill_exchange session_refs [''M''] []
        (Some (backfill_hook missed_fill_exchange 0 None)) (demo_session [''M'']) 0 = Some (r, s', w')"
    and "r = Inr True \<longrightarrow> \<not> is_set (ts_rm s') kModelDiverge"
    and "r = Inr False \<longrightarrow> is_set (ts_rm s') kModelDiverge \<or> (\<exists>what w1. ac_get_positions missed_fill_exchange 0 = Some (Inl (StdException what), w1))"
    and "\<forall>e. r = Inl e \<longrightarrow> (\<exists>what. e = Abort what \<and> reconcile_aborts missed_fill_exchange 0 what)"
    using reconcile_verdict [where ac = missed_fill_exchange and s = "demo_session [''M'']" and w = 0 and tickers = "[''M'']"
      and baseline = "[]" and min_ts = 0 and adv = None, OF total] by blast
  ultimately show ?thesis by (cases r; cases "r = Inr True") auto
qed

section \<open>Rotation\<close>

definition exposed :: "session \<Rightarrow> ticker \<Rightarrow> bool" where
  "exposed s tk \<longleftrightarrow> net_position (ts_om s) tk \<noteq> 0 \<or> has_resting_order (ts_om s) tk"

lemma remove_market_keeps:
  "is_tracked s tk \<Longrightarrow> exposed s tk \<Longrightarrow> is_tracked (snd (remove_market_if_idle t s)) tk"
  "ts_om (snd (remove_market_if_idle t s)) = ts_om s"
  "is_tracked s tk \<Longrightarrow> tk \<noteq> t \<Longrightarrow> is_tracked (snd (remove_market_if_idle t s)) tk"
  by (auto simp: remove_market_if_idle_def exposed_def is_tracked_def is_zero_def)

lemma drop_unpicked_keeps:
  assumes "is_tracked s tk" and "exposed s tk \<or> tk \<in> set picks"
  shows "is_tracked (drop_unpicked picks s) tk \<and> ts_om (drop_unpicked picks s) = ts_om s"
proof -
  have "is_tracked (fold (\<lambda>t s. if t \<notin> set picks then snd (remove_market_if_idle t s) else s) ts s0) tk
      \<and> ts_om (fold (\<lambda>t s. if t \<notin> set picks then snd (remove_market_if_idle t s) else s) ts s0) = ts_om s0"
    if "is_tracked s0 tk" "exposed s0 tk \<or> tk \<in> set picks" for ts s0
    using that
  proof (induction ts arbitrary: s0)
    case (Cons t ts)
    let ?s = "if t \<notin> set picks then snd (remove_market_if_idle t s0) else s0"
    have om: "ts_om ?s = ts_om s0" by (simp add: remove_market_keeps(2))
    have "is_tracked ?s tk" using Cons.prems remove_market_keeps(1,3) [of s0 tk t] by auto
    moreover have "exposed ?s tk \<or> tk \<in> set picks" using Cons.prems om by (simp only: exposed_def)
    ultimately show ?case using Cons.IH [of ?s] om by simp
  qed simp
  then show ?thesis using assms unfolding drop_unpicked_def by blast
qed

lemma run_strategy_tickers: "ts_tickers (fst (snd (run_strategy env tk book s w))) = ts_tickers s"
  by (simp add: run_strategy_def case_prod_beta Let_def)

lemma add_market_tickers: "set (ts_tickers s) \<subseteq> set (ts_tickers (fst (snd (add_market env snap s w))))"
proof -
  have "ts_tickers (fst (snd (seed_orderbook env snap s w))) = ts_tickers s" for s
  proof -
    obtain t w1 where t: "steady_now env w = (t, w1)" by (cases "steady_now env w")
    let ?s = "s\<lparr>ob_map := AList.update (ob_ticker snap) (apply_snapshot snap) (ob_map s), seeded_at := (seeded_at s)(ob_ticker snap \<mapsto> t),
                 feed_dead := feed_dead s - {ob_ticker snap}\<rparr>"
    show ?thesis
      using run_strategy_tickers [of env "ob_ticker snap" "apply_snapshot snap" ?s w1]
      by (cases "run_strategy env (ob_ticker snap) (apply_snapshot snap) ?s w1")
         (auto simp: seed_orderbook_def Let_def t split: sum.split exn.split)
  qed
  then show ?thesis by (auto simp: add_market_def)
qed

lemma adopt_market_tickers: "set (ts_tickers (fst st)) \<subseteq> set (ts_tickers (fst (snd (adopt_market env md wse tk st))))"
proof -
  obtain s c w where st: "st = (s, c, w)" by (cases st)
  obtain r w1 where r: "md_get_orderbook md tk w = (r, w1)" by (cases "md_get_orderbook md tk w")
  show ?thesis
  proof (cases r)
    case (Inl e)
    then show ?thesis by (cases e) (simp_all add: adopt_market_def catch_io_def st r return_io_def)
  next
    case (Inr snap)
    obtain a s2 w2 where a: "add_market env snap s w1 = (a, s2, w2)" by (cases "add_market env snap s w1")
    then have "set (ts_tickers s) \<subseteq> set (ts_tickers s2)" using add_market_tickers [of s env snap w1] by simp
    then show ?thesis
      by (cases a) (auto simp: adopt_market_def catch_io_def st r Inr a return_io_def case_prod_beta split: exn.split)
  qed
qed

lemma adopt_all_tickers: "set (ts_tickers (fst st)) \<subseteq> set (ts_tickers (fst (snd (adopt_all env md wse tks st))))"
proof (induction tks arbitrary: st)
  case (Cons tk tks)
  obtain r st1 where r: "adopt_market env md wse tk st = (r, st1)" by (cases "adopt_market env md wse tk st")
  then have "set (ts_tickers (fst st)) \<subseteq> set (ts_tickers (fst st1))" using adopt_market_tickers [of st env md wse tk] by simp
  then show ?case using Cons.IH [of st1] by (cases r) (auto simp: r)
qed (simp add: return_io_def)

text \<open>
  C25. Rotation never abandons exposure: whatever the scan returns and whatever fails on the way, a
  market that was tracked and holds a position or a resting order, or that the scan picked again,
  is still tracked afterwards.
\<close>

theorem rotation_keeps_exposed:
  assumes "rotate_markets env md wse cfg (s, c, w) = Some (r, (s', c', w'))" and "is_tracked s tk"
    and "exposed s tk \<or> (\<exists>picks w1. scan_now (system_now env) md cfg w = Some (Inr picks, w1) \<and> tk \<in> set picks)"
  shows "is_tracked s' tk"
proof -
  obtain p w1 where p: "scan_now (system_now env) md cfg w = Some (p, w1)" using assms(1) by (auto simp: rotate_markets_def split: option.splits)
  show ?thesis
  proof (cases p)
    case (Inl e)
    then show ?thesis using assms(1,2) p by (cases e) (auto simp: rotate_markets_def)
  next
    case (Inr picks)
    let ?s1 = "drop_unpicked picks s"
    let ?r = "adopt_all env md wse (filter (\<lambda>tk. \<not> is_tracked ?s1 tk) picks) (?s1, c, w1)"
    have "is_tracked ?s1 tk" using drop_unpicked_keeps [OF assms(2)] assms(3) p Inr by auto
    then have "tk \<in> set (ts_tickers (fst (snd ?r)))"
      using adopt_all_tickers [of "(?s1, c, w1)" env md wse "filter (\<lambda>tk. \<not> is_tracked ?s1 tk) picks"] by (auto simp: is_tracked_def)
    moreover have "s' = fst (snd ?r)"
    proof -
      have "Some (catch_io (adopt_all env md wse (filter (\<lambda>tk. \<not> is_tracked ?s1 tk) picks)) (\<lambda>_. return_io ()) (?s1, c, w1)) = Some (r, (s', c', w'))"
        using assms(1) by (simp add: rotate_markets_def p Inr Let_def)
      then show ?thesis by (cases ?r) (auto simp: catch_io_def return_io_def split: sum.splits exn.splits)
    qed
    ultimately show ?thesis by (simp add: is_tracked_def)
  qed
qed

text \<open>A session that holds three contracts of \<open>M\<close>, at an exchange whose scan finds only \<open>A\<close>.\<close>

definition still_env :: "unit env" where
  "still_env = \<lparr>env_api = \<lparr>api_place_order = (\<lambda>_ _ _ _ _ w. (Inl (StdException ''closed''), w)),
       api_cancel_order = (\<lambda>_ w. (Inr True, w)), api_amend_order = (\<lambda>_ _ _ _ _ w. (Inr None, w))\<rparr>,
     steady_now = (\<lambda>w. (0, w)), system_now = (\<lambda>w. (0, w))\<rparr>"

definition still_ws_env :: "(json, json, unit) ws_env" where
  "still_ws_env = \<lparr>we_json = tree_json, ws_send = (\<lambda>_ w. w), ws_request_close = id, we_steady_now = (\<lambda>w. (0, w))\<rparr>"

definition holding_session :: session where
  "holding_session = (demo_session [''M''])\<lparr>ts_om := new_order_manager\<lparr>net_position_map := [''M'' \<mapsto> from_centi 300]\<rparr>\<rparr>"

theorem rotation_keeps_exposed_witness:
  "\<exists>r s' c' w'. rotate_markets still_env two_markets still_ws_env default_scanner_config (holding_session, new_ws_client 0, ()) = Some (r, (s', c', w'))
     \<and> is_tracked s' ''M''"
proof -
  obtain r where "scan two_markets default_scanner_config 5 0 () = Some (Inr [r], ())" using two_markets_scan by auto
  then have "scan_now (system_now still_env) two_markets default_scanner_config () = Some (Inr [sc_ticker r], ())"
    by (simp add: scan_now_def paged_io_def bind_paged_def lift_read_def still_env_def default_scanner_config_def return_io_def)
  then obtain r s' c' w' where run: "rotate_markets still_env two_markets still_ws_env default_scanner_config (holding_session, new_ws_client 0, ())
      = Some (r, (s', c', w'))"
    by (cases "catch_io (adopt_all still_env two_markets still_ws_env (filter (\<lambda>tk. \<not> is_tracked (drop_unpicked [sc_ticker r] holding_session) tk) [sc_ticker r]))
       (\<lambda>_. return_io ()) (drop_unpicked [sc_ticker r] holding_session, new_ws_client 0, ())") (simp add: rotate_markets_def Let_def)
  have "is_tracked holding_session ''M''" "exposed holding_session ''M''"
    by (simp_all add: is_tracked_def exposed_def holding_session_def demo_session_def new_session_def net_position_def from_centi_eq_0)
  then show ?thesis using rotation_keeps_exposed [OF run] run by blast
qed

section \<open>Flattening\<close>

text \<open>An exchange that records what it is asked to flatten.\<close>

definition flatten_recorder :: "(ticker \<Rightarrow> quantity \<Rightarrow> exn + order) \<Rightarrow> (ticker \<times> quantity) list account_api" where
  "flatten_recorder res = \<lparr>ac_get_fills = (\<lambda>_ w. Some (Inr [], w)), ac_get_positions = (\<lambda>w. Some (Inr [], w)),
     ac_flatten = (\<lambda>tk q w. (res tk q, w @ [(tk, q)]))\<rparr>"

definition to_flatten :: "ticker list option \<Rightarrow> market_position list \<Rightarrow> market_position list" where
  "to_flatten only ps = filter (\<lambda>p. mp_position p \<noteq> 0 \<and> (\<forall>tks. only = Some tks \<longrightarrow> mp_ticker p \<in> set tks)) ps"

lemma record_flatten_total: "is_valid_price (f_price_cents (flatten_fill ord)) \<Longrightarrow> fst (record_flatten ord s) = Inr ()"
proof (cases "is_positive (o_filled_quantity ord)")
  case True
  assume "is_valid_price (f_price_cents (flatten_fill ord))"
  then have "fst (record_fill (flatten_fill ord) (ts_om s)) \<noteq> Inl e" for e
    using True by (intro record_fill_total) (simp_all add: fill_ok_def, simp add: flatten_fill_def)
  then show ?thesis using True
    by (cases "record_fill (flatten_fill ord) (ts_om s)") (auto simp: record_flatten_def split: sum.split)
qed (simp add: record_flatten_def)

text \<open>
  Flattening tries everything once: every nonzero position, of the selected tickers when a
  selection is given, is sent to the exchange exactly once with its full size, in order, past any
  request that fails, and the count returned is the number of requests that succeeded.
\<close>

theorem flatten_attempts_all:
  assumes "\<And>tk q. std_result (res tk q)" and "\<And>tk q ord. res tk q = Inr ord \<Longrightarrow> is_valid_price (f_price_cents (flatten_fill ord))"
  shows "\<exists>so'. flatten_loop (flatten_recorder res) only ps n (so, w) =
    (Inr (n + int (length (filter (\<lambda>p. \<exists>ord. res (mp_ticker p) (mp_position p) = Inr ord) (to_flatten only ps)))),
     (so', w @ map (\<lambda>p. (mp_ticker p, mp_position p)) (to_flatten only ps)))"
proof (induction ps arbitrary: n so w)
  case (Cons p ps)
  have skip: "is_zero (mp_position p) \<or> (case only of None \<Rightarrow> False | Some tks \<Rightarrow> mp_ticker p \<notin> set tks) \<longleftrightarrow> to_flatten only [p] = []"
    by (auto simp: to_flatten_def is_zero_def split: option.split)
  have split: "to_flatten only (p # ps) = to_flatten only [p] @ to_flatten only ps" by (simp add: to_flatten_def)
  show ?case
  proof (cases "to_flatten only [p] = []")
    case True
    then have "flatten_loop (flatten_recorder res) only (p # ps) n (so, w) = flatten_loop (flatten_recorder res) only ps n (so, w)"
      by (simp only: flatten_loop.simps skip if_True simp_thms)
    then show ?thesis using Cons.IH [of n so w] True split by simp
  next
    case False
    then have one: "to_flatten only [p] = [p]" by (auto simp: to_flatten_def split: if_splits)
    let ?w = "w @ [(mp_ticker p, mp_position p)]"
    obtain k so1 where "flatten_loop (flatten_recorder res) only (p # ps) n (so, w) = flatten_loop (flatten_recorder res) only ps (n + k) (so1, ?w)"
      "k = (if \<exists>ord. res (mp_ticker p) (mp_position p) = Inr ord then 1 else 0)"
    proof (cases "res (mp_ticker p) (mp_position p)")
      case (Inl e)
      then obtain what where "e = StdException what" using assms(1) [of "mp_ticker p" "mp_position p"] by (cases e) (auto simp: std_result_def)
      then show thesis using Inl False skip that [of 0 so] by (simp add: flatten_recorder_def)
    next
      case (Inr ord)
      show thesis
      proof (cases so)
        case None
        then show thesis using Inr False skip that [of 1 None] by (simp add: flatten_recorder_def)
      next
        case (Some s)
        obtain s' where "record_flatten ord s = (Inr (), s')"
          using record_flatten_total [OF assms(2) [OF Inr], of s] by (metis prod.collapse)
        then show thesis using Some Inr False skip that [of 1 "Some s'"] by (simp add: flatten_recorder_def)
      qed
    qed
    then show ?thesis using Cons.IH [of "n + k" so1 ?w] one split
      by (cases "\<exists>ord. res (mp_ticker p) (mp_position p) = Inr ord") (simp_all add: ac_simps)
  qed
qed (simp add: to_flatten_def)

definition demo_flatten :: "ticker \<Rightarrow> quantity \<Rightarrow> exn + order" where
  "demo_flatten tk q = (if tk = ''A'' then Inl (StdException ''timeout'')
     else Inr (default_order\<lparr>o_market_ticker := tk, o_price_cents := 99\<rparr>))"

definition demo_positions :: "market_position list" where
  "demo_positions = map (\<lambda>(tk, q). \<lparr>mp_ticker = tk, mp_position = from_centi q, mp_realized_pnl_cents = 0,
     mp_market_exposure_cents = 0, mp_resting_orders_count = 0\<rparr>) [(''A'', 300), (''B'', 0), (''C'', - 200)]"

theorem flatten_attempts_all_witness:
  "\<exists>so'. flatten_loop (flatten_recorder demo_flatten) None demo_positions 0 (None, [])
     = (Inr 1, (so', [(''A'', from_centi 300), (''C'', from_centi (- 200))]))"
proof -
  have "std_result (demo_flatten tk q)" "demo_flatten tk q = Inr ord \<Longrightarrow> is_valid_price (f_price_cents (flatten_fill ord))" for tk q ord
    by (auto simp: demo_flatten_def flatten_fill_def default_order_def price_defs split: if_splits)
  from flatten_attempts_all [where res = demo_flatten and ps = demo_positions and only = None and n = 0 and so = None and w = "[]", OF this]
  show ?thesis by (simp add: demo_positions_def to_flatten_def demo_flatten_def zero_quantity_def)
qed

text \<open>
  A complete flatten ends flat: when the exchange fills the closing order of the REST client in
  full, recording the execution brings the session's net position in that market from what the
  exchange reported to zero, long or short.
\<close>

theorem flatten_ends_flat:
  assumes "flatten c tk q st = (Inr ord, st')" and "net_position (ts_om s) tk = q" and "q \<noteq> 0"
    and "o_filled_quantity ord = o_quantity ord" and "is_valid_price (f_price_cents (flatten_fill ord))"
    and "fill_key (flatten_fill ord) \<notin> seen_fills (ts_om s)"
  shows "net_position (ts_om (snd (record_flatten ord s))) tk = 0 \<and> fst (record_flatten ord s) = Inr ()"
proof -
  let ?sd = "if is_positive q then No else Yes" and ?n = "if is_positive q then q else - q"
  have placed: "place_order c tk ?sd kMaxPriceCents ?n Market st = (Inr ord, st')"
    using assms(1,3) by (simp add: flatten_def is_zero_def Let_def split: if_splits)
  have ord: "o_market_ticker ord = tk" "o_side ord = ?sd" "o_quantity ord = ?n"
  proof -
    have "\<exists>j. placed_order (rc_json c) tk ?sd kMaxPriceCents ?n Market j = Inr ord"
      using placed unfolding place_order_def
      by (auto simp: bind_io_def lift_result_def bindE_eq_Inr split: prod.splits sum.splits)
    then show "o_market_ticker ord = tk" "o_side ord = ?sd" "o_quantity ord = ?n"
      unfolding placed_order_def by (auto simp: bindE_eq_Inr)
  qed
  have pos: "is_positive (o_filled_quantity ord)" using assms(3,4) ord(3)
    by (cases q) (auto simp: is_positive_def zero_quantity_def uminus_quantity_def)
  then have ok: "fill_ok (flatten_fill ord)" using assms(5) by (simp add: fill_ok_def) (simp add: flatten_fill_def)
  obtain om' where rec: "record_fill (flatten_fill ord) (ts_om s) = (Inr True, om')"
    using ok assms(6) by (simp add: record_fill_def fill_ok_def Let_def case_prod_beta)
  have "net_position om' tk = q + signed_quantity (flatten_fill ord)"
    using record_fill_net [OF rec] assms(2) ord(1) by (simp add: flatten_fill_def)
  moreover have "signed_quantity (flatten_fill ord) = - q"
    using ord assms(4) by (simp add: signed_quantity_def flatten_fill_def)
  ultimately show ?thesis using pos rec by (simp add: record_flatten_def publish_pnl_def)
qed

text \<open>An exchange that fills every order for three contracts at once.\<close>

definition filling_client :: "(json, json, nat) rest_client" where
  "filling_client = \<lparr>rc_json = tree_json,
     rc_transport = \<lparr>http_get = (\<lambda>_ _ w. (Inl (StdException ''closed''), w)),
       http_post = (\<lambda>_ _ _. return_io \<lparr>status_code = 201, body = JObject [(''order_id'', JString ''x''),
          (''fill_count'', JString (to_fp_string (from_centi 300))), (''ts_ms'', JInt 5)]\<rparr>),
       http_delete = (\<lambda>_ _ w. (Inl (StdException ''closed''), w))\<rparr>,
     rc_auth = \<lparr>api_key = [], pem_private_key = []\<rparr>, rc_base_url = ''b'', rc_path_prefix = '''', rc_rsa_sign = (\<lambda>_ _. Inr ''sig''),
     rc_system_now = (\<lambda>n. (int n, n)), rc_steady_now = (\<lambda>n. (int n, n)), rc_sleep_ms = (\<lambda>_ n. n)\<rparr>"

lemma filling_client_flatten:
  "\<exists>ord st'. flatten filling_client ''M'' (from_centi 300) st = (Inr ord, st')
     \<and> o_filled_quantity ord = from_centi 300 \<and> o_quantity ord = from_centi 300 \<and> o_price_cents ord = 99
     \<and> o_average_fill_price_cents ord = 0"
proof -
  have "placed_order tree_json ''M'' No kMaxPriceCents (from_centi 300) Market
      (JObject [(''order_id'', JString ''x''), (''fill_count'', JString (to_fp_string (from_centi 300))), (''ts_ms'', JInt 5)])
    = Inr \<lparr>o_id = ''x'', o_market_ticker = ''M'', o_side = No, o_price_cents = kMaxPriceCents, o_quantity = from_centi 300,
        o_filled_quantity = from_centi 300, o_status = Filled, o_type = Market, o_created_at = 5 * kNanosPerMilli,
        o_average_fill_price_cents = 0\<rparr>"
    by (simp add: placed_order_def get_str_def get_int_def value_or_def tree_json_def parse_fp_count_def fp_string_roundtrip_aux)
  moreover have "is_positive (from_centi 300)" "\<not> is_zero (from_centi 300)" by (simp_all add: is_positive_def is_zero_def from_centi_eq_0)
  moreover have "js_parse tree_json t = Inr t" for t by (simp add: tree_json_def)
  ultimately show ?thesis
    by (simp add: flatten_def place_order_def post_json_def filling_client_def rc_sign_def sign_def on_world_def lift_read_def
      bind_io_def lift_result_def return_io_def throttle_def case_prod_beta check_response_def Let_def kMaxPriceCents_def)
qed

theorem flatten_ends_flat_witness:
  "\<exists>ord st' s. flatten filling_client ''M'' (from_centi 300) (new_write_limiter 0, 0) = (Inr ord, st')
     \<and> net_position (ts_om s) ''M'' = from_centi 300 \<and> net_position (ts_om (snd (record_flatten ord s))) ''M'' = 0"
proof -
  obtain ord st' where ord: "flatten filling_client ''M'' (from_centi 300) (new_write_limiter 0, 0) = (Inr ord, st')"
    and f: "o_filled_quantity ord = o_quantity ord" "o_price_cents ord = 99" "o_average_fill_price_cents ord = 0"
    using filling_client_flatten [of "(new_write_limiter 0, 0)"] by metis
  let ?s = "(demo_session [''M''])\<lparr>ts_om := new_order_manager\<lparr>net_position_map := [''M'' \<mapsto> from_centi 300]\<rparr>\<rparr>"
  have net: "net_position (ts_om ?s) ''M'' = from_centi 300" by (simp add: net_position_def)
  moreover have "is_valid_price (f_price_cents (flatten_fill ord))" using f by (simp add: flatten_fill_def price_defs)
  moreover have "fill_key (flatten_fill ord) \<notin> seen_fills (ts_om ?s)" by (simp add: new_order_manager_def)
  moreover have "from_centi 300 \<noteq> 0" by (simp add: from_centi_eq_0)
  ultimately have "net_position (ts_om (snd (record_flatten ord ?s))) ''M'' = 0"
    using flatten_ends_flat [OF ord net _ f(1)] by blast
  then show ?thesis using ord net by blast
qed

section \<open>Simulated fills\<close>

text \<open>The orders a simulated fill may touch: crossed ones, whose identifiers no two open orders share.\<close>

definition crosses :: "public_trade \<Rightarrow> fill \<Rightarrow> bool" where
  "crosses print f \<longleftrightarrow> f_market_ticker f = pt_market_ticker print \<and> \<not> f_is_taker f \<and>
     (if f_side f = No then pt_taker_side print = Yes \<and> pt_yes_price_cents print > complement_price (f_price_cents f)
      else pt_taker_side print = No \<and> pt_yes_price_cents print < f_price_cents f)"

lemma whole_contracts_le: "0 < whole_contracts q \<Longrightarrow> whole_contracts q * 100 \<le> centi q"
proof -
  assume pos: "0 < whole_contracts q"
  then have "0 \<le> contracts q" by (simp add: whole_contracts_def c_trunc_def split: if_splits)
  then have "of_int (whole_contracts q) \<le> contracts q" by (simp add: whole_contracts_def c_trunc_def)
  then have "real_of_int (whole_contracts q * 100) \<le> real_of_int (centi q)" by (simp add: contracts_def kCentiPerContract_def)
  then show ?thesis by (simp only: of_int_le_iff)
qed

text \<open>A target of the loop: what the exchange knows of its order.\<close>

definition target_ok :: "public_trade \<Rightarrow> paper \<Rightarrow> crossable \<Rightarrow> bool" where
  "target_ok print pe t \<longleftrightarrow> (\<exists>ord \<in> set (pe_open_orders pe). o_id ord = cx_order_id t \<and> o_side ord = cx_side t
     \<and> o_price_cents ord = cx_price_cents t \<and> o_market_ticker ord = pt_market_ticker print \<and> is_crossed print ord
     \<and> is_active ord \<and> cx_remaining t * 100 \<le> centi (o_quantity ord - o_filled_quantity ord))"

lemma target_fill:
  assumes "paper_ok pe" and "target_ok print pe t" and "0 < n" and "n \<le> cx_remaining t"
  shows "\<exists>f pe'. simulate_fill (cx_order_id t) n now pe = (True, pe') \<and> paper_ok pe' \<and> pe_fills pe' = pe_fills pe @ [f]
    \<and> crosses print f \<and> centi (f_quantity f) = n * 100
    \<and> (\<forall>t'. target_ok print pe t' \<and> cx_order_id t' \<noteq> cx_order_id t \<longrightarrow> target_ok print pe' t')"
proof -
  obtain ord where ord: "ord \<in> set (pe_open_orders pe)" "o_id ord = cx_order_id t" "o_side ord = cx_side t"
    "o_price_cents ord = cx_price_cents t" "o_market_ticker ord = pt_market_ticker print" "is_crossed print ord" "is_active ord"
    "cx_remaining t * 100 \<le> centi (o_quantity ord - o_filled_quantity ord)"
    using assms(2) unfolding target_ok_def by blast
  have dist: "distinct (map o_id (pe_open_orders pe))" using assms(1) by (simp add: paper_ok_def)
  have "fillable (cx_order_id t) ord" using ord(2,7) by (auto simp: fillable_def is_active_def)
  then obtain x where x: "find (fillable (cx_order_id t)) (pe_open_orders pe) = Some x"
    using ord(1) by (metis find_None_iff not_None_eq)
  then have "x \<in> set (pe_open_orders pe)" "o_id x = cx_order_id t" by (auto simp: find_Some_iff fillable_def)
  then have "x = ord" using dist ord(1,2) by (auto simp: distinct_map inj_on_def)
  note found = x [unfolded this]
  let ?pe' = "snd (simulate_fill (cx_order_id t) n now pe)" and ?f = "paper_trade n now ord pe"
  have fl: "centi (f_quantity ?f) = n * 100" using ord(8) assms(4) by (simp add: paper_trade_def actual_fill_def)
  have "crosses print ?f" using ord(3-6) by (cases "o_side ord") (auto simp: crosses_def paper_trade_def is_crossed_def split: if_splits)
  moreover obtain ys zs where split: "pe_open_orders pe = ys @ ord # zs"
    "pe_open_orders ?pe' = ys @ (if o_status (fill_order n ord) = Filled then [] else [fill_order n ord]) @ zs"
    using find_split [OF found] found by (auto simp: simulate_fill_def)
  moreover have "target_ok print ?pe' t'" if "target_ok print pe t'" "cx_order_id t' \<noteq> cx_order_id t" for t'
    using that ord(2) unfolding target_ok_def split by auto
  ultimately show ?thesis using found fl simulate_fill_ok [OF assms(1), of "cx_order_id t" n now]
    by (intro exI [of _ ?f] exI [of _ ?pe']) (auto simp: simulate_fill_def)
qed

definition through_only :: "public_trade \<Rightarrow> int \<Rightarrow> paper \<Rightarrow> paper \<Rightarrow> (exn + int) \<Rightarrow> int \<Rightarrow> bool" where
  "through_only print budget pe pe' r n \<longleftrightarrow> (\<exists>new. pe_fills pe' = pe_fills pe @ new \<and> (\<forall>f \<in> set new. crosses print f)
     \<and> sum_list (map (centi \<circ> f_quantity) new) \<le> budget \<and> (\<forall>k. r = Inr k \<longrightarrow> k = n + int (length new)))"

lemma through_only_refl: "0 \<le> budget \<Longrightarrow> through_only print budget pe pe (Inr n) n"
  by (simp add: through_only_def)

lemma through_only_cons:
  assumes "pe_fills pe1 = pe_fills pe @ [f]" and "crosses print f" and "through_only print (budget - centi (f_quantity f)) pe1 pe' r (n + 1)"
  shows "through_only print budget pe pe' r n"
proof -
  obtain new where "pe_fills pe' = pe_fills pe1 @ new" "\<forall>f \<in> set new. crosses print f"
    "sum_list (map (centi \<circ> f_quantity) new) \<le> budget - centi (f_quantity f)" "\<forall>k. r = Inr k \<longrightarrow> k = n + 1 + int (length new)"
    using assms(3) unfolding through_only_def by blast
  then show ?thesis using assms(1,2) unfolding through_only_def by (intro exI [of _ "f # new"]) auto
qed

lemma maker_fill_loop_through:
  assumes "paper_ok pe" and "\<forall>t \<in> set targets. target_ok print pe t" and "distinct (map cx_order_id targets)"
  shows "case maker_fill_loop clock print targets left n (so, pe, cl) of (r, so', pe', cl') \<Rightarrow>
    through_only print (max 0 left * 100) pe pe' r n"
  using assms
proof (induction targets arbitrary: left n so pe cl)
  case Nil
  then show ?case by (simp add: through_only_refl)
next
  case (Cons t ts)
  let ?n = "min left (cx_remaining t)"
  have ts: "paper_ok pe" "\<forall>t \<in> set ts. target_ok print pe t" "distinct (map cx_order_id ts)" using Cons.prems by auto
  consider "left \<le> 0" | "0 < left" "?n \<le> 0" | "0 < left" "0 < ?n" by linarith
  then show ?case
  proof cases
    case 1
    then show ?thesis by (simp add: through_only_refl)
  next
    case 2
    then show ?thesis using Cons.IH [OF ts, of left n so cl] by (simp add: Let_def min_def split: if_splits)
  next
    case 3
    obtain now cl1 where cl: "clock cl = (now, cl1)" by (cases "clock cl")
    obtain f pe1 where f: "simulate_fill (cx_order_id t) ?n now pe = (True, pe1)" "paper_ok pe1" "pe_fills pe1 = pe_fills pe @ [f]"
      "crosses print f" "centi (f_quantity f) = ?n * 100" "\<forall>t' \<in> set ts. target_ok print pe1 t'"
    proof -
      have "target_ok print pe t" and other: "\<forall>t' \<in> set ts. target_ok print pe t' \<and> cx_order_id t' \<noteq> cx_order_id t"
        using Cons.prems(2,3) by (simp_all, metis image_eqI)
      from target_fill [OF Cons.prems(1) this(1) 3(2) min.cobounded2, of now] other show thesis by (blast intro: that)
    qed
    have rest: "case maker_fill_loop clock print ts (left - ?n) (n + 1) (so', pe1, cl1) of (r, so', pe', cl') \<Rightarrow>
        through_only print (max 0 left * 100) pe pe' r n" for so'
    proof -
      obtain r so2 pe2 cl2 where run: "maker_fill_loop clock print ts (left - ?n) (n + 1) (so', pe1, cl1) = (r, so2, pe2, cl2)"
        by (rule prod_cases4)
      have "max 0 (left - ?n) * 100 = max 0 left * 100 - centi (f_quantity f)" using 3 f(5) by simp
      then show ?thesis
        using Cons.IH [OF f(2,6) ts(3), of "left - ?n" "n + 1" so' cl1] unfolding run prod.case
        by (intro through_only_cons [OF f(3,4)]) simp
    qed
    have stop: "through_only print (max 0 left * 100) pe pe1 (Inl e) n" for e
      using f(3-5) 3 by (auto simp: through_only_def)
    show ?thesis
    proof (cases so)
      case None
      then show ?thesis using rest [of None] 3 by (simp add: cl f(1) Let_def min_le_iff_disj)
    next
      case (Some s)
      obtain r s' where r: "on_fill (maker_fill print t ?n pe1) s = (r, s')" by (cases "on_fill (maker_fill print t ?n pe1) s")
      show ?thesis using rest [of "Some s'"] stop 3 by (cases r) (simp_all add: cl f(1) Let_def Some r min_le_iff_disj)
    qed
  qed
qed

text \<open>
  C33. The simulated fills never flatter the strategy: a recorded print fills only resting orders of
  its market on the other side that it traded strictly through, in total for no more contracts than
  the print's size, and the count returned is the number of fills the paper exchange recorded,
  with or without a session listening.
\<close>

theorem simulated_fills_conservative:
  assumes "paper_ok pe"
  shows "case simulate_maker_fills clock print (so, pe, cl) of (r, so', pe', cl') \<Rightarrow>
    (\<exists>new. pe_fills pe' = pe_fills pe @ new \<and> (\<forall>f \<in> set new. crosses print f)
      \<and> sum_list (map (centi \<circ> f_quantity) new) \<le> max 0 (centi (pt_quantity print))
      \<and> (\<forall>k. r = Inr k \<longrightarrow> k = int (length new)))"
proof -
  let ?targets = "concat (map (crossable_of print) (pe_open_orders pe))"
  let ?w = "whole_contracts (pt_quantity print)"
  have "target_ok print pe t" if "ord \<in> set (pe_open_orders pe)" "t \<in> set (crossable_of print ord)" for t ord
    unfolding target_ok_def
    using that whole_contracts_le [of "o_quantity ord - o_filled_quantity ord"]
    by (intro bexI [of _ ord]) (auto simp: crossable_of_def Let_def split: if_splits)
  then have "\<forall>t \<in> set ?targets. target_ok print pe t" by auto
  moreover have "distinct (map cx_order_id (concat (map (crossable_of print) ords)))" if "distinct (map o_id ords)" for ords
    using that by (induction ords) (auto simp: crossable_of_def Let_def)
  then have "distinct (map cx_order_id ?targets)" using assms by (simp add: paper_ok_def)
  ultimately have "case simulate_maker_fills clock print (so, pe, cl) of (r, so', pe', cl') \<Rightarrow> through_only print (max 0 ?w * 100) pe pe' r 0"
    using maker_fill_loop_through [where print = print and targets = ?targets and left = ?w and n = 0 and clock = clock and so = so and cl = cl,
      OF assms] unfolding simulate_maker_fills_def by simp
  moreover have "max 0 ?w * 100 \<le> max 0 (centi (pt_quantity print))" using whole_contracts_le [of "pt_quantity print"] by (cases "0 < ?w") (auto simp: max_def)
  ultimately show ?thesis unfolding through_only_def by (auto split: prod.splits intro: order_trans)
qed

definition through_print :: public_trade where
  "through_print = \<lparr>pt_trade_id = ''t'', pt_market_ticker = ''M'', pt_yes_price_cents = 39,
     pt_quantity = from_centi 200, pt_taker_side = No, pt_timestamp = 0\<rparr>"

theorem simulated_fills_conservative_witness:
  "case simulate_maker_fills (\<lambda>n. (int n, n)) through_print (None, snd (rest_order (''M'', Yes, 40, 3, Limit) 0 new_paper), 0::nat) of
     (r, so', pe', cl') \<Rightarrow> (\<forall>f \<in> set (pe_fills pe'). crosses through_print f) \<and> sum_list (map (centi \<circ> f_quantity) (pe_fills pe')) \<le> 200"
proof -
  have "paper_ok (snd (rest_order (''M'', Yes, 40, 3, Limit) 0 new_paper))" by (intro rest_order_ok demo_paper_ok)
  moreover have "pe_fills (snd (rest_order (''M'', Yes, 40, 3, Limit) 0 new_paper)) = []" by (simp add: rest_order_eq new_paper_def)
  ultimately show ?thesis
    using simulated_fills_conservative [where pe = "snd (rest_order (''M'', Yes, 40, 3, Limit) 0 new_paper)"
      and clock = "\<lambda>n. (int n, n)" and print = through_print and so = None and cl = 0]
    by (auto simp: through_print_def split: prod.splits)
qed

end
