(* ===== verification/Session_Driver.thy ===== *)
theory Session_Driver
  imports App_Correct
begin

text \<open>
  The application drives the session only through its operations: every procedure of
  \<open>App_Modes\<close> is a sequence of session events, whatever the exchange answers, so the guarantees
  proved for sequences of events hold of the programs built from them. \<open>drives\<close> leaves the world
  each event acts on open, since other requests are made between them; the events are bounded by
  a predicate, which says which fills can have been given.
\<close>

section \<open>Being driven\<close>

definition session_move :: "'w env \<Rightarrow> (session_event \<Rightarrow> bool) \<Rightarrow> session \<times> ledger \<Rightarrow> session \<times> ledger \<Rightarrow> bool" where
  "session_move env P a b \<longleftrightarrow>
     (\<exists>ev w w'. P ev \<and> session_step env ev (fst a, w) = (fst b, w') \<and> snd b = session_ledger ev (fst a) (snd a))"

definition drives :: "'w env \<Rightarrow> (session_event \<Rightarrow> bool) \<Rightarrow> session \<Rightarrow> session \<Rightarrow> bool" where
  "drives env P s s' \<longleftrightarrow> (\<forall>L. \<exists>L'. (session_move env P)\<^sup>*\<^sup>* (s, L) (s', L'))"

lemma drives_refl [simp, intro]: "drives env P s s"
  by (auto simp: drives_def)

lemma drives_trans [trans]: "drives env P a b \<Longrightarrow> drives env P b c \<Longrightarrow> drives env P a c"
  unfolding drives_def by (meson rtranclp_trans)

lemma drives_mono: "drives env P s s' \<Longrightarrow> (\<And>ev. P ev \<Longrightarrow> Q ev) \<Longrightarrow> drives env Q s s'"
proof -
  assume "\<And>ev. P ev \<Longrightarrow> Q ev"
  then have "session_move env P a b \<Longrightarrow> session_move env Q a b" for a b by (auto simp: session_move_def)
  moreover assume "drives env P s s'"
  ultimately show ?thesis unfolding drives_def by (metis mono_rtranclp)
qed

lemma drives_event: "P ev \<Longrightarrow> session_step env ev (s, w) = (s', w') \<Longrightarrow> drives env P s s'"
  by (auto simp: drives_def session_move_def intro!: exI r_into_rtranclp)

text \<open>What holds of a driven session, and which fills its ledger can hold.\<close>

definition fill_of_event :: "session_event \<Rightarrow> fill set" where
  "fill_of_event ev = (case ev of TradeFillEv f \<Rightarrow> {f} | FlattenEv ord \<Rightarrow> {flatten_fill ord} | _ \<Rightarrow> {})"

lemma session_ledger_fills: "set (lg_fills (session_ledger ev s L)) \<subseteq> set (lg_fills L) \<union> fill_of_event ev"
  by (cases ev) (auto simp: fill_of_event_def ledger_record_def split: if_splits)

lemma drives_ok:
  assumes "drives env P s s'" and "session_ok s L"
  shows "\<exists>L'. session_ok s' L' \<and> set (lg_fills L') \<subseteq> set (lg_fills L) \<union> \<Union> (fill_of_event ` {ev. P ev})"
proof -
  have "session_ok (fst b) (snd b) \<and> set (lg_fills (snd b)) \<subseteq> set (lg_fills (snd a)) \<union> \<Union> (fill_of_event ` {ev. P ev})"
    if "(session_move env P)\<^sup>*\<^sup>* a b" "session_ok (fst a) (snd a)" for a b
    using that
  proof (induction rule: rtranclp_induct)
    case (step b c)
    then obtain ev w w' where ev: "P ev" "session_step env ev (fst b, w) = (fst c, w')" "snd c = session_ledger ev (fst b) (snd b)"
      by (auto simp: session_move_def)
    have "session_ok (fst c) (snd c)"
      using session_step_ok [of "fst b" "snd b" env ev w] step.IH step.prems ev by simp
    then show ?case using step.IH step.prems session_ledger_fills [of ev "fst b" "snd b"] ev by auto
  qed simp
  with assms show ?thesis by (fastforce simp: drives_def)
qed

section \<open>The procedures of the application\<close>

definition fill_given :: "fill set \<Rightarrow> session_event \<Rightarrow> bool" where
  "fill_given F ev \<longleftrightarrow> (\<exists>f \<in> F. ev = TradeFillEv f)"

lemma on_fill_drives: "on_fill f s = (r, s') \<Longrightarrow> f \<in> F \<Longrightarrow> drives env (fill_given F) s s'"
  by (rule drives_event [of _ "TradeFillEv f" _ _ undefined _ undefined]) (auto simp: fill_given_def)

lemma backfill_loop_drives:
  "backfill_loop fs n a s = (r, a', s') \<Longrightarrow> set fs \<subseteq> F \<Longrightarrow> drives env (fill_given F) s s'"
proof (induction fs arbitrary: n a s)
  case (Cons f fs)
  show ?case
  proof (cases "is_tracked s (f_market_ticker f)")
    case True
    obtain r1 s1 where f: "on_fill f s = (r1, s1)" by force
    have "drives env (fill_given F) s s1" by (rule on_fill_drives [OF f]) (use Cons.prems(2) in simp)
    then show ?thesis
      using Cons.prems f True by (cases r1) (auto intro: drives_trans dest: Cons.IH)
  qed (use Cons in auto)
qed auto

definition risk_set_or_clear :: "constr \<Rightarrow> session_event \<Rightarrow> bool" where
  "risk_set_or_clear b ev \<longleftrightarrow> ev = RiskEv (SetEv b) \<or> ev = RiskEv (ClearEv b)"

lemma set_clear_drives:
  "drives env (risk_set_or_clear b) s (ts_rm_update (set_constraint b) s)"
  "drives env (risk_set_or_clear b) s (ts_rm_update (clear_constraint b) s)"
  by (rule drives_event [of _ "RiskEv (SetEv b)" _ _ undefined _ undefined], simp_all add: risk_set_or_clear_def)
    (rule drives_event [of _ "RiskEv (ClearEv b)" _ _ undefined _ undefined], simp_all add: risk_set_or_clear_def)

lemma reconcile_passes_drives:
  fixes ac :: "'w account_api" and env :: "'v env"
  assumes "reconcile_passes ac refs tickers baseline backfill n first s w = Some (r, s', w')"
    and halt: "\<And>s (w :: 'w) r s' w'. reconcile_halt refs s w = Some (r, s', w') \<Longrightarrow> drives env P (ses s) (ses s')"
    and clear: "\<And>s. drives env P (ses s) (ses (reconcile_clear refs s))"
    and backfill: "\<And>run s w r s' w'. backfill = Some run \<Longrightarrow> run s w = Some (r, s', w') \<Longrightarrow> drives env P (ses s) (ses s')"
  shows "drives env P (ses s) (ses s')"
  using assms(1)
proof (induction n arbitrary: first s w)
  case 0
  then show ?case using halt by simp
next
  case (Suc n)
  have again: "drives env P (ses s) (ses s')" if "(if first then backfill else None) = Some run" "run s w1 = Some (Inr k, s1, w2)"
      "(if k \<ge> 0 then reconcile_passes ac refs tickers baseline backfill n False s1 w2 else reconcile_halt refs s1 w2)
        = Some (r, s', w')" for run w1 k s1 w2
  proof -
    have "drives env P (ses s) (ses s1)" using backfill that(1,2) by (auto split: if_splits)
    moreover have "drives env P (ses s1) (ses s')" using that(3) Suc.IH halt by (auto split: if_splits)
    ultimately show ?thesis by (rule drives_trans)
  qed
  show ?case
    using Suc.prems backfill halt clear again
    by (auto split: option.splits sum.splits exn.splits if_splits prod.splits)
qed

definition rotation_event :: "session_event \<Rightarrow> bool" where
  "rotation_event ev \<longleftrightarrow> (\<exists>tk. ev = RemoveMarketEv tk) \<or> (\<exists>snap. ev = AddMarketEv snap)"

lemma drop_unpicked_drives: "drives env rotation_event s (drop_unpicked picks s)"
proof -
  have "drives env rotation_event s (snd (remove_market_if_idle tk s))" for s tk
    by (rule drives_event [of _ "RemoveMarketEv tk" _ _ undefined _ undefined]) (auto simp: rotation_event_def)
  then have "drives env rotation_event s (fold (\<lambda>tk s. if tk \<notin> set picks then snd (remove_market_if_idle tk s) else s) tks s)" for tks s
    by (induction tks arbitrary: s) (auto intro: drives_trans)
  then show ?thesis by (simp add: drop_unpicked_def)
qed

lemma adopt_market_drives: "drives env rotation_event (fst st) (fst (snd (adopt_market env md wse tk st)))"
proof (cases st)
  case (fields s c w)
  have "drives env rotation_event s s'" if "add_market env snap s w' = (r, s', w'')" for snap w' r s' w''
    by (rule drives_event [of _ "AddMarketEv snap" _ _ w' _ w'']) (use that in \<open>auto simp: rotation_event_def\<close>)
  then show ?thesis
    by (auto simp: fields adopt_market_def catch_io_def return_io_def Let_def split: prod.splits sum.splits exn.splits)
qed

lemma adopt_all_drives: "drives env rotation_event (fst st) (fst (snd (adopt_all env md wse tks st)))"
proof (induction tks arbitrary: st)
  case (Cons tk tks)
  have "drives env rotation_event (fst st) (fst st1)" if "adopt_market env md wse tk st = (r, st1)" for r st1
    using adopt_market_drives [of env st md wse tk] that by simp
  then show ?case
    using Cons.IH by (auto simp: bind_io_def split: prod.splits sum.splits intro: drives_trans)
qed (simp add: return_io_def)

lemma rotate_markets_drives:
  assumes "rotate_markets env md wse cfg (s, c, w) = Some (r, s', c', w')"
  shows "drives env rotation_event s s'"
proof -
  have "drives env rotation_event s (fst (snd (adopt_all env md wse tks (drop_unpicked picks s, c, w1))))" for tks picks w1
    using drives_trans [OF drop_unpicked_drives adopt_all_drives [of env "(drop_unpicked picks s, c, w1)" md wse tks, simplified]] .
  moreover have "snd (catch_io m (\<lambda>_. return_io ()) st) = snd (m st)" for m :: "(unit, session \<times> ws_client \<times> 'a) io" and st
    by (auto simp: catch_io_def return_io_def split: prod.splits sum.splits exn.splits)
  ultimately show ?thesis
    using assms by (auto simp: rotate_markets_def Let_def split: option.splits sum.splits exn.splits) (metis fst_conv snd_conv)
qed

definition executed :: "'w account_api \<Rightarrow> order \<Rightarrow> bool" where
  "executed ac ord \<longleftrightarrow> (\<exists>tk q w w'. ac_flatten ac tk q w = (Inr ord, w'))"

definition flatten_event :: "'w account_api \<Rightarrow> session_event \<Rightarrow> bool" where
  "flatten_event ac ev \<longleftrightarrow> (\<exists>ord. ev = FlattenEv ord \<and> executed ac ord)"

lemma flatten_loop_drives:
  "flatten_loop ac only ps n (Some s, w) = (r, so, w') \<Longrightarrow> \<exists>s'. so = Some s' \<and> drives env (flatten_event ac) s s'"
proof (induction ps arbitrary: n s w)
  case (Cons p ps)
  have step: "drives env (flatten_event ac) s s1" if "ac_flatten ac tk q w0 = (Inr ord, w1)" "record_flatten ord s = (r1, s1)" for tk q w0 ord w1 r1 s1
    by (rule drives_event [of _ "FlattenEv ord" _ _ undefined _ undefined]) (use that in \<open>auto simp: flatten_event_def executed_def\<close>)
  have on: "\<exists>s'. so = Some s' \<and> drives env (flatten_event ac) s s'"
    if "ac_flatten ac tk q w0 = (Inr ord, w1)" "record_flatten ord s = (r1, s1)" "flatten_loop ac only ps k (Some s1, w1) = (r, so, w')"
    for tk q w0 ord r1 s1 k w1
    using Cons.IH [OF that(3)] step [OF that(1,2)] by (auto intro: drives_trans)
  show ?case
    using Cons.prems Cons.IH step on
    by (auto split: if_splits prod.splits sum.splits exn.splits)
qed auto

lemma flatten_all_drives:
  "flatten_all_positions ac only (Some s) w = Some (r, so, w') \<Longrightarrow> \<exists>s'. so = Some s' \<and> drives env (flatten_event ac) s s'"
  by (auto simp: flatten_all_positions_def split: option.splits sum.splits dest: flatten_loop_drives [where env = env])

text \<open>A fill of the backtest's fill model, and the fills it can give for a print.\<close>

definition maker_fills :: "public_trade \<Rightarrow> fill set" where
  "maker_fills print = {f. \<exists>target q pe. f = maker_fill print target q pe \<and> 0 < q \<and> q \<le> cx_remaining target}"

lemma maker_fill_loop_drives:
  "maker_fill_loop clock print targets n k (Some s, pe, cl) = (r, so, pe', cl') \<Longrightarrow>
     \<exists>s'. so = Some s' \<and> drives env (fill_given (maker_fills print)) s s'"
proof (induction targets arbitrary: n k s pe cl)
  case (Cons target targets)
  let ?q = "min n (cx_remaining target)"
  have stopped: "drives env (fill_given (maker_fills print)) s s1"
    if "on_fill (maker_fill print target ?q pe1) s = (r1, s1)" "\<not> ?q \<le> 0" for pe1 r1 s1
    by (rule on_fill_drives [OF that(1)])
      (use that(2) in \<open>simp only: maker_fills_def, intro CollectI exI conjI refl, auto\<close>)
  have resumed: "\<exists>s'. so = Some s' \<and> drives env (fill_given (maker_fills print)) s s'"
    if "on_fill (maker_fill print target ?q pe1) s = (r1, s1)" "\<not> ?q \<le> 0"
      "maker_fill_loop clock print targets n1 k1 (Some s1, pe2, cl1) = (r, so, pe', cl')" for pe1 r1 s1 n1 k1 pe2 cl1
    using stopped [OF that(1,2)] Cons.IH [OF that(3)] by (auto intro: drives_trans)
  show ?case
    using Cons.prems Cons.IH
    by (auto simp: Let_def split: if_splits prod.splits sum.splits intro: stopped resumed)
qed auto

lemma simulate_maker_fills_drives:
  "simulate_maker_fills clock print (Some s, pe, cl) = (r, so, pe', cl') \<Longrightarrow>
     \<exists>s'. so = Some s' \<and> drives env (fill_given (maker_fills print)) s s'"
  by (auto simp: simulate_maker_fills_def dest: maker_fill_loop_drives [where env = env])

end
