(* ===== verification/App_Config.thy ===== *)
theory App_Config
  imports Ticker_Scanner Quoter
begin

text \<open>
  Configuration (\<open>source/app/config.cpp\<close>): the settings read from a JSON file with a second file of
  secrets over it, and the price band the scanner is held to. The file system is a parameter
  \<open>read_file\<close>, \<open>None\<close> where a file cannot be opened; the arithmetic on paths is that of
  \<open>std::filesystem\<close> on POSIX. A section that is absent keeps the defaults of its record.
\<close>

section \<open>Settings\<close>

record app_config =
  cf_api_key :: string
  cf_private_key_path :: string
  cf_base_url :: string
  cf_ws_url :: string
  cf_log_dir :: string
  cf_pnl_state_path :: string
  cf_account_wide_janitorial :: bool
  cf_record_sessions :: bool
  cf_target_tickers :: "ticker list"
  cf_quoter :: quoter_config
  cf_risk :: risk_limits
  cf_scanner :: scanner_config
  cf_flow :: flow_config

definition kDefaultRestUrl :: string where "kDefaultRestUrl = ''https://trading-api.kalshi.com/trade-api/v2''"
definition kDefaultWsUrl :: string where "kDefaultWsUrl = ''wss://trading-api.kalshi.com/trade-api/ws/v2''"

definition quotable_price_band :: "risk_limits \<Rightarrow> quoter_config \<Rightarrow> int \<times> int" where
  "quotable_price_band risk q =
     (let half_spread = max 1 (max (target_spread_cents q sdiv 2) (min_spread_cents q sdiv 2))
      in (min_quote_price_cents risk + half_spread, max_quote_price_cents risk - half_spread))"

section \<open>Fields\<close>

definition require_field :: "('j, 't) json_ops \<Rightarrow> ('j \<Rightarrow> exn + 'a) \<Rightarrow> 'j \<Rightarrow> string \<Rightarrow> exn + 'a" where
  "require_field js get obj field_name =
     (if js_find js obj field_name = None then Inl (StdException (''Config missing required field: '' @ field_name))
      else bindE (js_at js obj field_name) get)"

definition require_layered :: "('j, 't) json_ops \<Rightarrow> ('j \<Rightarrow> exn + 'a) \<Rightarrow> 'j \<Rightarrow> 'j \<Rightarrow> string \<Rightarrow> exn + 'a" where
  "require_layered js get secrets config_json field_name =
     (if js_find js secrets field_name \<noteq> None then bindE (js_at js secrets field_name) get
      else require_field js get config_json field_name)"

definition layered_value :: "('j, 't) json_ops \<Rightarrow> 'j \<Rightarrow> 'j \<Rightarrow> string \<Rightarrow> string \<Rightarrow> exn + string" where
  "layered_value js secrets config_json field_name fallback =
     (if js_find js secrets field_name \<noteq> None then get_str js secrets field_name
      else value_or js (js_get_string js) config_json field_name fallback)"

abbreviation int_or :: "('j, 't) json_ops \<Rightarrow> 'j \<Rightarrow> string \<Rightarrow> int \<Rightarrow> exn + int" where
  "int_or js \<equiv> value_or js (js_get_int js)"

abbreviation real_or :: "('j, 't) json_ops \<Rightarrow> 'j \<Rightarrow> string \<Rightarrow> real \<Rightarrow> exn + real" where
  "real_or js \<equiv> value_or js (js_get_real js)"

abbreviation bool_or :: "('j, 't) json_ops \<Rightarrow> 'j \<Rightarrow> string \<Rightarrow> bool \<Rightarrow> exn + bool" where
  "bool_or js \<equiv> value_or js (js_get_bool js)"

abbreviation str_or :: "('j, 't) json_ops \<Rightarrow> 'j \<Rightarrow> string \<Rightarrow> string \<Rightarrow> exn + string" where
  "str_or js \<equiv> value_or js (js_get_string js)"

text \<open>\<open>get<std::vector<std::string>>\<close>: an array, every element a string.\<close>

definition get_strings :: "('j, 't) json_ops \<Rightarrow> 'j \<Rightarrow> exn + string list" where
  "get_strings js j =
     (if \<not> js_is_array js j then Inl (StdException ''type_error'') else map_result (js_get_string js) (js_elements js j))"

text \<open>A section of the document: its reader, or what stands without one.\<close>

definition section_or :: "('j, 't) json_ops \<Rightarrow> 'j \<Rightarrow> string \<Rightarrow> 'a \<Rightarrow> ('j \<Rightarrow> exn + 'a) \<Rightarrow> exn + 'a" where
  "section_or js j name absent read =
     (if js_find js j name = None then Inr absent else bindE (js_at js j name) read)"

section \<open>Paths\<close>

definition is_relative :: "string \<Rightarrow> bool" where
  "is_relative p = (case p of c # _ \<Rightarrow> c \<noteq> CHR ''/'' | [] \<Rightarrow> True)"

definition parent_path :: "string \<Rightarrow> string" where
  "parent_path p =
     (let dir = rev (dropWhile (\<lambda>c. c \<noteq> CHR ''/'') (rev p));
          stripped = rev (dropWhile (\<lambda>c. c = CHR ''/'') (rev dir))
      in if stripped = [] \<and> dir \<noteq> [] then ''/'' else stripped)"

definition join_path :: "string \<Rightarrow> string \<Rightarrow> string" where
  "join_path dir p =
     (if \<not> is_relative p then p else if dir = [] \<or> last dir = CHR ''/'' then dir @ p else dir @ ''/'' @ p)"

definition secrets_file :: "string \<Rightarrow> string \<Rightarrow> string" where
  "secrets_file config_path p = (if is_relative p then join_path (parent_path config_path) p else p)"

definition load_secrets :: "('j, 't) json_ops \<Rightarrow> (string \<Rightarrow> 't option) \<Rightarrow> 'j \<Rightarrow> string \<Rightarrow> exn + 'j" where
  "load_secrets js read_file config_json config_path =
     (if js_find js config_json ''secrets_path'' = None then Inr (js_object js [])
      else
        bindE (get_str js config_json ''secrets_path'') (\<lambda>p.
          case read_file (secrets_file config_path p) of
            None \<Rightarrow> Inl (StdException (''Cannot open secrets file: '' @ secrets_file config_path p))
          | Some text \<Rightarrow> js_parse js text))"

section \<open>Sections\<close>

definition load_quoter :: "('j, 't) json_ops \<Rightarrow> 'j \<Rightarrow> exn + quoter_config" where
  "load_quoter js j = (let d = default_quoter_config in
     bindE (int_or js j ''target_spread_cents'' (target_spread_cents d)) (\<lambda>v1.
     bindE (int_or js j ''reprice_threshold_cents'' (reprice_threshold_cents d)) (\<lambda>v2.
     bindE (int_or js j ''quote_size'' (quote_size d)) (\<lambda>v3.
     bindE (int_or js j ''imbalance_spread_cents'' (imbalance_spread_cents d)) (\<lambda>v4.
     bindE (int_or js j ''min_spread_cents'' (min_spread_cents d)) (\<lambda>v5.
     bindE (bool_or js j ''use_view_based_pricing'' False) (\<lambda>v6.
     bindE (bool_or js j ''use_clearing_pricing'' False) (\<lambda>v7.
     bindE (real_or js j ''clearing_tape_weight'' (clearing_tape_weight d)) (\<lambda>v8.
     bindE (int_or js j ''tape_half_life_seconds'' (tape_half_life_seconds d)) (\<lambda>v9.
     bindE (real_or js j ''view_debias_beta'' kDefaultBeta) (\<lambda>v10.
     bindE (real_or js j ''maker_fee_rate'' (maker_fee_rate d)) (\<lambda>v11.
     bindE (int_or js j ''min_rest_ms'' (min_rest_ms d)) (\<lambda>v12.
     bindE (int_or js j ''theo_jump_cents'' (theo_jump_cents d)) (\<lambda>v13.
     bindE (int_or js j ''fade_rest_ms'' (fade_rest_ms d)) (\<lambda>v14.
     bindE (int_or js j ''longshot_price_threshold_cents'' (longshot_price_threshold_cents d)) (\<lambda>v15.
     bindE (int_or js j ''longshot_edge_cents'' (longshot_edge_cents d)) (\<lambda>v16.
     bindE (real_or js j ''fv_ema_alpha'' (fv_ema_alpha d)) (\<lambda>v17.
     bindE (int_or js j ''winddown_seconds'' (winddown_seconds d)) (\<lambda>v18.
     bindE (real_or js j ''flow_lean_cents'' (flow_lean_cents d)) (\<lambda>v19.
     bindE (int_or js j ''inventory_cap_lots'' (inventory_cap_lots d)) (\<lambda>v20.
     bindE (real_or js j ''unwind_edge_cents'' (unwind_edge_cents d)) (\<lambda>v21.
       Inr \<lparr>target_spread_cents = v1, reprice_threshold_cents = v2, quote_size = v3, imbalance_spread_cents = v4,
         min_spread_cents = v5, min_rest_ms = v12, theo_jump_cents = v13, fade_rest_ms = v14,
         longshot_price_threshold_cents = v15, longshot_edge_cents = v16, fv_ema_alpha = v17, winddown_seconds = v18,
         flow_lean_cents = v19, use_clearing_pricing = v7, clearing_tape_weight = v8, tape_half_life_seconds = v9,
         inventory_cap_lots = v20, unwind_edge_cents = v21, use_view_based_pricing = v6, view_debias_beta = v10,
         maker_fee_rate = v11\<rparr>))))))))))))))))))))))"

definition load_flow :: "('j, 't) json_ops \<Rightarrow> int \<Rightarrow> 'j \<Rightarrow> exn + flow_config" where
  "load_flow js qsize j = (let d = default_flow_config in
     bindE (int_or js j ''window_seconds'' (fc_window_seconds d)) (\<lambda>v1.
     bindE (real_or js j ''imbalance_ratio_threshold'' (fc_imbalance_ratio_threshold d)) (\<lambda>v2.
     bindE (int_or js j ''min_flow_volume'' qsize) (\<lambda>v3.
       Inr \<lparr>fc_window_seconds = v1, fc_imbalance_ratio_threshold = v2, fc_min_flow_volume = v3\<rparr>))))"

definition load_risk :: "('j, 't) json_ops \<Rightarrow> 'j \<Rightarrow> exn + risk_limits" where
  "load_risk js j = (let d = default_risk_limits in
     bindE (int_or js j ''max_position_per_market'' (max_position_per_market d)) (\<lambda>v1.
     bindE (int_or js j ''max_open_orders_per_market'' (max_open_orders_per_market d)) (\<lambda>v2.
     bindE (int_or js j ''max_order_size'' (max_order_size d)) (\<lambda>v3.
     bindE (real_or js j ''daily_loss_limit'' (daily_loss_limit d)) (\<lambda>v4.
     bindE (real_or js j ''max_total_exposure_dollars'' (max_total_exposure_dollars d)) (\<lambda>v5.
     bindE (real_or js j ''max_total_loss_dollars'' (max_total_loss_dollars d)) (\<lambda>v6.
     bindE (int_or js j ''min_quote_price_cents'' (min_quote_price_cents d)) (\<lambda>v7.
     bindE (int_or js j ''max_quote_price_cents'' (max_quote_price_cents d)) (\<lambda>v8.
     bindE (real_or js j ''max_drawdown_dollars'' (max_drawdown_dollars d)) (\<lambda>v9.
       Inr \<lparr>max_position_per_market = v1, max_open_orders_per_market = v2, max_order_size = v3, daily_loss_limit = v4,
         max_total_exposure_dollars = v5, max_total_loss_dollars = v6, min_quote_price_cents = v7,
         max_quote_price_cents = v8, max_drawdown_dollars = v9\<rparr>))))))))))"

definition load_scanner :: "('j, 't) json_ops \<Rightarrow> 'j \<Rightarrow> exn + scanner_config" where
  "load_scanner js j = (let d = default_scanner_config in
     bindE (int_or js j ''min_price_cents'' (sn_min_price_cents d)) (\<lambda>v1.
     bindE (int_or js j ''max_price_cents'' (sn_max_price_cents d)) (\<lambda>v2.
     bindE (int_or js j ''min_spread_cents'' (sn_min_spread_cents d)) (\<lambda>v3.
     bindE (int_or js j ''max_spread_cents'' (sn_max_spread_cents d)) (\<lambda>v4.
     bindE (real_or js j ''min_volume_24h'' (sn_min_volume_24h d)) (\<lambda>v5.
     bindE (int_or js j ''trade_top_n'' (sn_trade_top_n d)) (\<lambda>v6.
     bindE (real_or js j ''min_days_to_close'' (sn_min_days_to_close d)) (\<lambda>v7.
     bindE (real_or js j ''max_days_to_close'' (sn_max_days_to_close d)) (\<lambda>v8.
     bindE (int_or js j ''max_stale_trade_minutes'' (sn_max_stale_trade_minutes d)) (\<lambda>v9.
     bindE (int_or js j ''rotation_minutes'' (sn_rotation_minutes d)) (\<lambda>v10.
     bindE (int_or js j ''min_trades_per_hour'' (sn_min_trades_per_hour d)) (\<lambda>v11.
     bindE (int_or js j ''min_trade_price_range_cents'' (sn_min_trade_price_range_cents d)) (\<lambda>v12.
     bindE (int_or js j ''tape_range_lookback_minutes'' (sn_tape_range_lookback_minutes d)) (\<lambda>v13.
     bindE (real_or js j ''min_minority_flow_ratio'' (sn_min_minority_flow_ratio d)) (\<lambda>v14.
     bindE (real_or js j ''min_reversion_kappa'' (sn_min_reversion_kappa d)) (\<lambda>v15.
     bindE (int_or js j ''reversion_window_minutes'' (sn_reversion_window_minutes d)) (\<lambda>v16.
       Inr (d\<lparr>sn_min_price_cents := v1, sn_max_price_cents := v2, sn_min_spread_cents := v3, sn_max_spread_cents := v4,
         sn_min_volume_24h := v5, sn_trade_top_n := v6, sn_min_days_to_close := v7, sn_max_days_to_close := v8,
         sn_max_stale_trade_minutes := v9, sn_rotation_minutes := v10, sn_min_trades_per_hour := v11,
         sn_min_trade_price_range_cents := v12, sn_tape_range_lookback_minutes := v13, sn_min_minority_flow_ratio := v14,
         sn_min_reversion_kappa := v15, sn_reversion_window_minutes := v16\<rparr>))))))))))))))))))"

definition hold_to_band :: "app_config \<Rightarrow> app_config" where
  "hold_to_band cf =
     (let (quotable_min, quotable_max) = quotable_price_band (cf_risk cf) (cf_quoter cf); sn = cf_scanner cf
      in cf\<lparr>cf_scanner := sn\<lparr>sn_min_price_cents := max (sn_min_price_cents sn) quotable_min,
                            sn_max_price_cents := min (sn_max_price_cents sn) quotable_max\<rparr>\<rparr>)"

definition config_of :: "('j, 't) json_ops \<Rightarrow> 'j \<Rightarrow> 'j \<Rightarrow> exn + app_config" where
  "config_of js secrets j =
     bindE (require_layered js (js_get_string js) secrets j ''api_key'') (\<lambda>key.
     bindE (require_layered js (js_get_string js) secrets j ''private_key_path'') (\<lambda>key_path.
     bindE (layered_value js secrets j ''base_url'' kDefaultRestUrl) (\<lambda>base.
     bindE (layered_value js secrets j ''ws_url'' kDefaultWsUrl) (\<lambda>ws.
     bindE (str_or js j ''log_dir'' ''logs'') (\<lambda>log_dir.
     bindE (str_or js j ''pnl_state_path'' ''pnl_state.json'') (\<lambda>pnl_path.
     bindE (bool_or js j ''account_wide_janitorial'' True) (\<lambda>account_wide.
     bindE (bool_or js j ''record_sessions'' True) (\<lambda>record_sessions.
     bindE (value_or js (get_strings js) j ''target_tickers'' []) (\<lambda>tickers.
     bindE (section_or js j ''quoter'' default_quoter_config (load_quoter js)) (\<lambda>q.
     bindE (section_or js j ''flow'' (default_flow_config\<lparr>fc_min_flow_volume := quote_size q\<rparr>)
              (load_flow js (quote_size q))) (\<lambda>flow.
     bindE (section_or js j ''risk'' default_risk_limits (load_risk js)) (\<lambda>risk.
     bindE (section_or js j ''scanner'' default_scanner_config (load_scanner js)) (\<lambda>scanner.
       Inr (hold_to_band \<lparr>cf_api_key = key, cf_private_key_path = key_path, cf_base_url = base, cf_ws_url = ws,
         cf_log_dir = log_dir, cf_pnl_state_path = pnl_path, cf_account_wide_janitorial = account_wide,
         cf_record_sessions = record_sessions, cf_target_tickers = tickers, cf_quoter = q, cf_risk = risk,
         cf_scanner = scanner, cf_flow = flow\<rparr>))))))))))))))"

definition load_config :: "('j, 't) json_ops \<Rightarrow> (string \<Rightarrow> 't option) \<Rightarrow> string \<Rightarrow> exn + app_config" where
  "load_config js read_file path =
     (case read_file path of
        None \<Rightarrow> Inl (StdException (''Cannot open config file: '' @ path))
      | Some text \<Rightarrow>
          bindE (js_parse js text) (\<lambda>j. bindE (load_secrets js read_file j path) (\<lambda>secrets. config_of js secrets j)))"

end
