(* ===== verification/Process_Guard.thy ===== *)
theory Process_Guard
  imports Prelude
begin

text \<open>
  Fail-fast checks (\<open>source/core/ensure.cpp\<close>) and the command line (\<open>source/core/cli.cpp\<close>).
  The process-wide hooks are a record over a type \<open>'w\<close> of states the panic handler acts on. A
  process that dies has result \<open>Abort\<close>; the state is the one it leaves behind. The abort action
  is the default one, \<open>std::abort\<close>; the replacement used by the tests is left out.
\<close>

section \<open>Dying flat\<close>

record 'w process =
  panic_handler :: "('w \<Rightarrow> (exn + unit) \<times> 'w) option"
  panicking :: bool
  crash_hooks :: bool

definition new_process :: "'w process" where
  "new_process = \<lparr>panic_handler = None, panicking = False, crash_hooks = False\<rparr>"

definition set_panic_handler :: "('w \<Rightarrow> (exn + unit) \<times> 'w) option \<Rightarrow> 'w process \<Rightarrow> 'w process" where
  "set_panic_handler handler p = p\<lparr>panic_handler := handler\<rparr>"

definition reset_panic_state :: "'w process \<Rightarrow> 'w process" where
  "reset_panic_state p = p\<lparr>panicking := False\<rparr>"

definition install_crash_flatten_handlers :: "'w process \<Rightarrow> 'w process" where
  "install_crash_flatten_handlers p = p\<lparr>crash_hooks := True\<rparr>"

text \<open>\<open>catch (...)\<close> stops every exception of the handler, not an abort inside it.\<close>

definition run_panic_handler :: "'w process \<Rightarrow> 'w \<Rightarrow> (exn + unit) \<times> 'w process \<times> 'w" where
  "run_panic_handler p w =
     (if panicking p then (Inr (), p, w)
      else
        let p' = p\<lparr>panicking := True\<rparr> in
        case panic_handler p' of
          None \<Rightarrow> (Inr (), p', w)
        | Some handler \<Rightarrow>
            (case handler w of
               (Inl (Abort what), w') \<Rightarrow> (Inl (Abort what), p', w')
             | (_, w') \<Rightarrow> (Inr (), p', w')))"

text \<open>A fatal signal: the hook, if installed, flattens; then the signal takes its default action.\<close>

definition handle_fatal_signal :: "string \<Rightarrow> 'w process \<Rightarrow> 'w \<Rightarrow> (exn + unit) \<times> 'w process \<times> 'w" where
  "handle_fatal_signal sig p w =
     (if crash_hooks p then (Inl (Abort sig), snd (run_panic_handler p w)) else (Inl (Abort sig), p, w))"

text \<open>\<open>std::abort\<close> raises \<open>SIGABRT\<close>.\<close>

definition std_abort :: "'w process \<Rightarrow> 'w \<Rightarrow> (exn + unit) \<times> 'w process \<times> 'w" where
  "std_abort p w = handle_fatal_signal ''SIGABRT'' p w"

definition panic_terminate :: "'w process \<Rightarrow> 'w \<Rightarrow> (exn + unit) \<times> 'w process \<times> 'w" where
  "panic_terminate p w =
     (if crash_hooks p then
        (case run_panic_handler p w of
           (Inl e, p', w') \<Rightarrow> (Inl e, p', w')
         | (Inr _, p', w') \<Rightarrow> std_abort p' w')
      else std_abort p w)"

definition ensure :: "bool \<Rightarrow> string \<Rightarrow> 'w process \<Rightarrow> 'w \<Rightarrow> (exn + unit) \<times> 'w process \<times> 'w" where
  "ensure condition what p w =
     (if condition then (Inr (), p, w)
      else case run_panic_handler p w of
        (Inl e, p', w') \<Rightarrow> (Inl e, p', w')
      | (Inr _, p', w') \<Rightarrow> std_abort p' w')"

text \<open>
  The process dies flat, once: with the crash hooks installed, a failed invariant, a fatal
  signal and an uncaught exception all end the process after running the registered handler
  exactly once, whether the handler returns, throws or fails an invariant itself; once the
  handler has run, dying again leaves the state as it is; and a check that holds does nothing.
\<close>

theorem dies_flat_once:
  assumes "panic_handler p = Some handler" and "crash_hooks p"
    and "die \<in> {ensure False what, handle_fatal_signal sig, panic_terminate}"
  shows "ensure True what p w = (Inr (), p, w)
    \<and> (\<exists>reason. die p w = (Inl (Abort reason), p\<lparr>panicking := True\<rparr>, if panicking p then w else snd (handler w)))"
proof -
  have run: "run_panic_handler p w = (case handler w of (Inl (Abort what), w') \<Rightarrow> (Inl (Abort what), p\<lparr>panicking := True\<rparr>, w')
      | (_, w') \<Rightarrow> (Inr (), p\<lparr>panicking := True\<rparr>, w'))" if "\<not> panicking p"
    using that assms(1) by (simp add: run_panic_handler_def Let_def)
  have again: "run_panic_handler q v = (Inr (), q, v)" if "panicking q" for q :: "'a process" and v
    using that by (simp add: run_panic_handler_def)
  have "\<exists>reason. die p w = (Inl (Abort reason), p\<lparr>panicking := True\<rparr>, snd (handler w))" if "\<not> panicking p"
    using that assms(2,3)
    by (auto simp: ensure_def panic_terminate_def handle_fatal_signal_def std_abort_def run again
        split: prod.splits sum.splits exn.splits)
  moreover have "\<exists>reason. die p w = (Inl (Abort reason), p, w)" "p\<lparr>panicking := True\<rparr> = p" if "panicking p"
    using that assms(2,3) by (auto simp: ensure_def panic_terminate_def handle_fatal_signal_def std_abort_def again)
  ultimately show ?thesis by (auto simp: ensure_def)
qed

definition counting_process :: "nat process" where
  "counting_process = install_crash_flatten_handlers
     (set_panic_handler (Some (\<lambda>n. (Inl (StdException ''net''), n + 1))) new_process)"

theorem dies_flat_once_witness:
  "\<exists>reason. ensure False ''x'' counting_process 5 = (Inl (Abort reason), counting_process\<lparr>panicking := True\<rparr>, 6)"
  using dies_flat_once [of counting_process "\<lambda>n. (Inl (StdException ''net''), n + 1)" "ensure False ''x''" "''x''" "[]" 5]
  by (simp add: counting_process_def install_crash_flatten_handlers_def set_panic_handler_def new_process_def)

section \<open>The command line\<close>

record cli_args =
  paper_mode :: bool
  scan_mode :: bool
  reconcile_mode :: bool
  capture_mode :: bool
  flatten_mode :: bool
  fv_replay_mode :: bool
  backtest_mode :: bool
  verbose :: bool
  capture_dir :: string
  replay_path :: string
  backtest_path :: string
  config_path :: string

definition default_cli_args :: cli_args where
  "default_cli_args = \<lparr>paper_mode = False, scan_mode = False, reconcile_mode = False, capture_mode = False,
     flatten_mode = False, fv_replay_mode = False, backtest_mode = False, verbose = False,
     capture_dir = ''capture'', replay_path = ''capture/session.jsonl'',
     backtest_path = ''capture/session.jsonl'', config_path = ''config.json''\<rparr>"

text \<open>The lookahead \<open>args[idx + 1][0] != '-'\<close>; the first character of an empty argument is the terminator.\<close>

definition is_operand :: "string \<Rightarrow> bool" where
  "is_operand arg = (case arg of [] \<Rightarrow> True | c # _ \<Rightarrow> c \<noteq> CHR ''-'')"

fun parse_from :: "cli_args \<Rightarrow> string list \<Rightarrow> cli_args" where
  "parse_from result [] = result"
| "parse_from result (arg # rest) =
     (if arg = ''--paper'' then parse_from (result\<lparr>paper_mode := True\<rparr>) rest
      else if arg = ''--scan'' then parse_from (result\<lparr>scan_mode := True\<rparr>) rest
      else if arg = ''--reconcile'' then parse_from (result\<lparr>reconcile_mode := True\<rparr>) rest
      else if arg = ''--flatten'' then parse_from (result\<lparr>flatten_mode := True\<rparr>) rest
      else if arg = ''--verbose'' then parse_from (result\<lparr>verbose := True\<rparr>) rest
      else if arg = ''--capture'' then
        (if rest \<noteq> [] \<and> is_operand (hd rest)
         then parse_from (result\<lparr>capture_mode := True, capture_dir := hd rest\<rparr>) (tl rest)
         else parse_from (result\<lparr>capture_mode := True\<rparr>) rest)
      else if arg = ''--backtest'' then
        (if rest \<noteq> [] \<and> is_operand (hd rest)
         then parse_from (result\<lparr>backtest_mode := True, backtest_path := hd rest\<rparr>) (tl rest)
         else parse_from (result\<lparr>backtest_mode := True\<rparr>) rest)
      else if arg = ''--fv-replay'' then
        (if rest \<noteq> [] \<and> is_operand (hd rest)
         then parse_from (result\<lparr>fv_replay_mode := True, replay_path := hd rest\<rparr>) (tl rest)
         else parse_from (result\<lparr>fv_replay_mode := True\<rparr>) rest)
      else parse_from (result\<lparr>config_path := arg\<rparr>) rest)"

definition parse_args :: "string list \<Rightarrow> cli_args" where
  "parse_args args = parse_from default_cli_args (drop 1 args)"

text \<open>The command line that asks for given settings.\<close>

definition render :: "cli_args \<Rightarrow> string list" where
  "render a = (if paper_mode a then [''--paper''] else []) @ (if scan_mode a then [''--scan''] else [])
     @ (if reconcile_mode a then [''--reconcile''] else []) @ (if flatten_mode a then [''--flatten''] else [])
     @ (if verbose a then [''--verbose''] else [])
     @ (if capture_mode a then [''--capture'', capture_dir a] else [])
     @ (if backtest_mode a then [''--backtest'', backtest_path a] else [])
     @ (if fv_replay_mode a then [''--fv-replay'', replay_path a] else []) @ [config_path a]"

definition cli_flags :: "string list" where
  "cli_flags = [''--paper'', ''--scan'', ''--reconcile'', ''--flatten'', ''--verbose'', ''--capture'',
     ''--backtest'', ''--fv-replay'']"

definition cli_wf :: "cli_args \<Rightarrow> bool" where
  "cli_wf a \<longleftrightarrow> config_path a \<notin> set cli_flags
     \<and> (if capture_mode a then is_operand (capture_dir a) else capture_dir a = capture_dir default_cli_args)
     \<and> (if backtest_mode a then is_operand (backtest_path a) else backtest_path a = backtest_path default_cli_args)
     \<and> (if fv_replay_mode a then is_operand (replay_path a) else replay_path a = replay_path default_cli_args)"

lemma parse_from_flag:
  "parse_from r ((if b then [''--paper''] else []) @ rest) = parse_from (r\<lparr>paper_mode := paper_mode r \<or> b\<rparr>) rest"
  "parse_from r ((if b then [''--scan''] else []) @ rest) = parse_from (r\<lparr>scan_mode := scan_mode r \<or> b\<rparr>) rest"
  "parse_from r ((if b then [''--reconcile''] else []) @ rest) = parse_from (r\<lparr>reconcile_mode := reconcile_mode r \<or> b\<rparr>) rest"
  "parse_from r ((if b then [''--flatten''] else []) @ rest) = parse_from (r\<lparr>flatten_mode := flatten_mode r \<or> b\<rparr>) rest"
  "parse_from r ((if b then [''--verbose''] else []) @ rest) = parse_from (r\<lparr>verbose := verbose r \<or> b\<rparr>) rest"
  "(b \<Longrightarrow> is_operand v) \<Longrightarrow> parse_from r ((if b then [''--capture'', v] else []) @ rest)
     = parse_from (r\<lparr>capture_mode := capture_mode r \<or> b, capture_dir := if b then v else capture_dir r\<rparr>) rest"
  "(b \<Longrightarrow> is_operand v) \<Longrightarrow> parse_from r ((if b then [''--backtest'', v] else []) @ rest)
     = parse_from (r\<lparr>backtest_mode := backtest_mode r \<or> b, backtest_path := if b then v else backtest_path r\<rparr>) rest"
  "(b \<Longrightarrow> is_operand v) \<Longrightarrow> parse_from r ((if b then [''--fv-replay'', v] else []) @ rest)
     = parse_from (r\<lparr>fv_replay_mode := fv_replay_mode r \<or> b, replay_path := if b then v else replay_path r\<rparr>) rest"
  by simp_all

text \<open>
  Every setting can be asked for: parsing the command line written for a set of options gives
  exactly these options back, whatever the program's own name.
\<close>

lemma cli_roundtrip: "cli_wf a \<Longrightarrow> parse_args (prog # render a) = a"
  by (cases a) (auto simp add: parse_args_def render_def parse_from_flag cli_wf_def cli_flags_def default_cli_args_def
    simp del: append.simps, simp_all)

end
