(* ===== verification/Main_Loop.thy ===== *)
theory Main_Loop
  imports Session_Driver App_Config Process_Guard
begin

text \<open>
  The live program (\<open>source/app/main.cpp\<close>): startup, the callbacks of the feed, the poll loop, the
  wind-down, the shutdown sweep, and the profit file. The two threads of the program take turns
  under the engine lock, so a run is a sequence of events, each a feed callback or an iteration of
  the main thread; \<open>WorldEv\<close> is what happens outside between them: time passing, the exchange
  acting, sleeps. Rotation takes its scan outside the lock; it is one step here. The panic handler
  cancels all quotes. Logging, analytics and the status report are left out.
\<close>

section \<open>State\<close>

record engine =
  en_session :: session
  en_last_fill :: time_ns

datatype phase = Trading | WindingDown time_ns | Exited int | Died

record program =
  pg_engine :: engine
  pg_ws :: ws_client
  pg_poll_count :: int
  pg_shutdown :: bool
  pg_phase :: phase

text \<open>
  What the program was wired with: the services, and what startup fixed. \<open>lv_join\<close> is the wait for the
  feed's thread, from the client as it was stopped: the world when the thread has ended, or \<open>None\<close> if
  it never does. The callbacks the thread still makes meanwhile are events before the wait.
\<close>

record ('j, 't, 'w) live =
  lv_env :: "'w env"
  lv_account :: "'w account_api"
  lv_market :: "'w market_data"
  lv_open_orders :: "(order list, 'w) io"
  lv_ws_env :: "('j, 't, 'w) ws_env"
  lv_config :: app_config
  lv_paper :: bool
  lv_start_seconds :: int
  lv_baseline :: "market_position list"
  lv_join :: "ws_client \<Rightarrow> 'w \<Rightarrow> 'w option"

section \<open>The callbacks of the feed\<close>

definition on_engine :: "(session \<Rightarrow> 'w \<Rightarrow> (exn + unit) \<times> session \<times> 'w) \<Rightarrow> (unit, engine \<times> 'w) io" where
  "on_engine f st =
     (let (r, s', w') = f (en_session (fst st)) (snd st) in (r, ((fst st)\<lparr>en_session := s'\<rparr>, w')))"

definition discard :: "exn + 'a \<Rightarrow> exn + unit" where
  "discard r = (case r of Inl e \<Rightarrow> Inl e | Inr _ \<Rightarrow> Inr ())"

definition fill_received :: "fill \<Rightarrow> (unit, engine \<times> 'w) io" where
  "fill_received f st =
     (let e = (fst st)\<lparr>en_last_fill := max (en_last_fill (fst st)) (f_timestamp f)\<rparr>; (r, s') = on_fill f (en_session e)
      in (discard r, (e\<lparr>en_session := s'\<rparr>, snd st)))"

definition live_callbacks :: "'w env \<Rightarrow> (engine \<times> 'w) ws_callbacks" where
  "live_callbacks env =
     \<lparr>snapshot_callback = Some (\<lambda>snap. on_engine (on_snapshot env snap)),
      delta_callback = Some (\<lambda>(tk, sd, price_cents, qty). on_engine (on_delta env tk sd price_cents qty)),
      fill_callback = Some fill_received,
      trade_callback = Some (\<lambda>trade. on_engine (\<lambda>s w. (Inr (), on_trade trade s, w))),
      disconnect_callback = Some (on_engine (on_disconnect env)),
      reconnect_callback = None\<rparr>"

text \<open>
  The reconnect callback may wait for pages for ever, so it stands apart from the callbacks, after
  \<open>handle_connect\<close>, whose last step it is once the client has connected before.
\<close>

definition kBackfillOverlap_ns :: int where "kBackfillOverlap_ns = 60 * kNanosPerSecond"

definition backfill_floor :: "int \<Rightarrow> time_ns \<Rightarrow> int" where
  "backfill_floor session_start_seconds last_fill =
     max session_start_seconds ((last_fill - kBackfillOverlap_ns) sdiv kNanosPerSecond)"

definition reconnect_backfill :: "'w account_api \<Rightarrow> int \<Rightarrow> (unit, engine \<times> 'w) paged" where
  "reconnect_backfill ac session_start_seconds st =
     (let e = fst st in
      case backfill_fills ac (backfill_floor session_start_seconds (en_last_fill e)) (Some (en_last_fill e)) (en_session e) (snd st) of
        None \<Rightarrow> None
      | Some (r, advance, s', w') \<Rightarrow>
          Some (discard r, (e\<lparr>en_session := s', en_last_fill := (case advance of Some t \<Rightarrow> t | None \<Rightarrow> en_last_fill e)\<rparr>, w')))"

definition engine_ws :: "('j, 't, 'w) ws_env \<Rightarrow> ('j, 't, engine \<times> 'w) ws_env" where
  "engine_ws wse =
     \<lparr>we_json = we_json wse, ws_send = (\<lambda>t (e, w). (e, ws_send wse t w)),
      ws_request_close = (\<lambda>(e, w). (e, ws_request_close wse w)),
      we_steady_now = (\<lambda>(e, w). let (t, w') = we_steady_now wse w in (t, (e, w')))\<rparr>"

definition live_connect :: "('j, 't, 'w) live \<Rightarrow> (unit, ws_client \<times> engine \<times> 'w) paged" where
  "live_connect lv st =
     (case handle_connect (engine_ws (lv_ws_env lv)) (live_callbacks (lv_env lv)) st of
        (Inl e, st') \<Rightarrow> Some (Inl e, st')
      | (Inr _, (c', ew)) \<Rightarrow>
          if \<not> has_connected_once (fst st) then Some (Inr (), (c', ew))
          else case reconnect_backfill (lv_account lv) (lv_start_seconds lv) ew of
            None \<Rightarrow> None
          | Some (r, ew') \<Rightarrow> Some (r, (c', ew')))"

section \<open>Dying flat\<close>

definition panic_cancel :: "'w env \<Rightarrow> session \<times> 'w \<Rightarrow> (exn + unit) \<times> session \<times> 'w" where
  "panic_cancel env sw = cancel_all_quotes env (fst sw) (snd sw)"

definition live_process :: "'w env \<Rightarrow> (session \<times> 'w) process" where
  "live_process env = install_crash_flatten_handlers (set_panic_handler (Some (panic_cancel env)) new_process)"

text \<open>A failed invariant or an exception nothing catches: the process ends after its panic handler.\<close>

definition crash :: "'w env \<Rightarrow> program \<times> 'w \<Rightarrow> program \<times> 'w" where
  "crash env st = (case st of (p, w) \<Rightarrow>
     (let (s', w') = snd (snd (panic_terminate (live_process env) (en_session (pg_engine p), w)))
      in (p\<lparr>pg_engine := (pg_engine p)\<lparr>en_session := s'\<rparr>, pg_phase := Died\<rparr>, w')))"

definition feed_event :: "('j, 't, 'w) live \<Rightarrow> (unit, ws_client \<times> engine \<times> 'w) paged \<Rightarrow> program \<times> 'w \<Rightarrow> (program \<times> 'w) option" where
  "feed_event lv f st =
     (case f (pg_ws (fst st), (pg_engine (fst st), snd st)) of
        None \<Rightarrow> None
      | Some (r, (c', (e', w'))) \<Rightarrow>
          (let st' = ((fst st)\<lparr>pg_ws := c', pg_engine := e'\<rparr>, w')
           in Some (case r of Inr _ \<Rightarrow> st' | Inl _ \<Rightarrow> crash (lv_env lv) st')))"

section \<open>The poll loop\<close>

definition kStalenessThreshold_ns :: int where "kStalenessThreshold_ns = 30 * kNanosPerSecond"
definition kStalenessCheckInterval :: int where "kStalenessCheckInterval = 300"
definition kReconcileInterval :: int where "kReconcileInterval = 1200"
definition kPortfolioRiskInterval :: int where "kPortfolioRiskInterval = 10"
definition kTicksPerMinute :: int where "kTicksPerMinute = 600"

definition rotation_ticks :: "app_config \<Rightarrow> int" where
  "rotation_ticks cf = sn_rotation_minutes (cf_scanner cf) * kTicksPerMinute"

definition check_ws_staleness :: "time_ns \<Rightarrow> ws_client \<Rightarrow> session \<Rightarrow> session" where
  "check_ws_staleness now c s =
     (if now - last_message_time c > kStalenessThreshold_ns then ts_rm_update (set_constraint kStaleBook) s
      else if is_set (ts_rm s) kStaleBook then ts_rm_update (clear_constraint kStaleBook) s else s)"

definition on_program :: "(session \<Rightarrow> 'w \<Rightarrow> (exn + unit) \<times> session \<times> 'w) \<Rightarrow> (unit, program \<times> 'w) paged" where
  "on_program f st =
     (let (r, (e', w')) = on_engine f (pg_engine (fst st), snd st) in Some (r, ((fst st)\<lparr>pg_engine := e'\<rparr>, w')))"

definition tick_rotate :: "('j, 't, 'w) live \<Rightarrow> (unit, program \<times> 'w) paged" where
  "tick_rotate lv st =
     (let p = fst st in
      if \<not> lv_paper lv \<and> rotation_ticks (lv_config lv) > 0 \<and> pg_poll_count p mod rotation_ticks (lv_config lv) = 0 then
        (case rotate_markets (lv_env lv) (lv_market lv) (lv_ws_env lv) (cf_scanner (lv_config lv))
                (en_session (pg_engine p), pg_ws p, snd st) of
           None \<Rightarrow> None
         | Some (r, s', c', w') \<Rightarrow> Some (r, (p\<lparr>pg_engine := (pg_engine p)\<lparr>en_session := s'\<rparr>, pg_ws := c'\<rparr>, w')))
      else Some (Inr (), st))"

definition tick_staleness :: "('j, 't, 'w) live \<Rightarrow> (unit, program \<times> 'w) paged" where
  "tick_staleness lv st =
     (if pg_poll_count (fst st) mod kStalenessCheckInterval = 0 then
        on_program (\<lambda>s w. let (now, w') = steady_now (lv_env lv) w
                          in requote_idle_markets (lv_env lv) (check_ws_staleness now (pg_ws (fst st)) s) w') st
      else Some (Inr (), st))"

definition tick_portfolio :: "(unit, program \<times> 'w) paged" where
  "tick_portfolio st =
     (if pg_poll_count (fst st) mod kPortfolioRiskInterval = 0 then on_program (\<lambda>s w. (Inr (), run_portfolio_risk s, w)) st
      else Some (Inr (), st))"

definition tick_reconcile :: "('j, 't, 'w) live \<Rightarrow> (unit, program \<times> 'w) paged" where
  "tick_reconcile lv st =
     (let p = fst st; e = pg_engine p in
      if \<not> lv_paper lv \<and> pg_poll_count p mod kReconcileInterval = 0 then
        (case reconcile_against_exchange (lv_account lv)
                \<lparr>ref_om = \<lambda>e. ts_om (en_session e), ref_rm = Some (\<lambda>e. ts_rm (en_session e), \<lambda>f. en_session_update (ts_rm_update f))\<rparr>
                (ts_tickers (en_session e)) (lv_baseline lv)
                (Some (\<lambda>e w. map_option (\<lambda>(r, advance, s', w'). (r, e\<lparr>en_session := s',
                    en_last_fill := (case advance of Some t \<Rightarrow> t | None \<Rightarrow> en_last_fill e)\<rparr>, w'))
                  (backfill_fills (lv_account lv) (lv_start_seconds lv) (Some (en_last_fill e)) (en_session e) w)))
                e (snd st) of
           None \<Rightarrow> None
         | Some (r, e', w') \<Rightarrow> Some (discard r, (p\<lparr>pg_engine := e'\<rparr>, w')))
      else Some (Inr (), st))"

definition poll_tick :: "('j, 't, 'w) live \<Rightarrow> (unit, program \<times> 'w) paged" where
  "poll_tick lv st =
     bind_paged (tick_rotate lv) (\<lambda>_.
     bind_paged (tick_staleness lv) (\<lambda>_.
     bind_paged tick_portfolio (\<lambda>_.
     bind_paged (on_program (enforce_quote_safety (lv_env lv))) (\<lambda>_.
       tick_reconcile lv)))) ((fst st)\<lparr>pg_poll_count := pg_poll_count (fst st) + 1\<rparr>, snd st)"

section \<open>Shutting down\<close>

definition kShutdownAttempts :: nat where "kShutdownAttempts = 3"

definition ours_of :: "bool \<Rightarrow> ticker list \<Rightarrow> order list \<Rightarrow> order list" where
  "ours_of account_wide tickers orders =
     (if account_wide then orders else filter (\<lambda>ord. o_market_ticker ord \<in> set tickers) orders)"

fun shutdown_sweep :: "('j, 't, 'w) live \<Rightarrow> nat \<Rightarrow> session \<Rightarrow> 'w \<Rightarrow> (exn + unit) \<times> session \<times> 'w" where
  "shutdown_sweep lv 0 s w = (Inr (), s, w)"
| "shutdown_sweep lv (Suc attempts) s w =
     (case lv_open_orders lv w of
        (Inl (Abort what), w') \<Rightarrow> (Inl (Abort what), s, w')
      | (Inl (StdException _), w') \<Rightarrow> shutdown_sweep lv attempts s w'
      | (Inr orders, w') \<Rightarrow>
          (let still_open = ours_of (cf_account_wide_janitorial (lv_config lv)) (ts_tickers s) orders in
           if still_open = [] then (Inr (), s, w')
           else case cancel_preexisting_orders (lv_env lv) still_open s w' of
             (Inl (Abort what), s', w'') \<Rightarrow> (Inl (Abort what), s', w'')
           | (_, s', w'') \<Rightarrow> shutdown_sweep lv attempts s' w''))"

definition shutdown_flatten :: "('j, 't, 'w) live \<Rightarrow> session \<Rightarrow> 'w \<Rightarrow> ((exn + unit) \<times> session \<times> 'w) option" where
  "shutdown_flatten lv s w =
     (case flatten_all_positions (lv_account lv)
             (if cf_account_wide_janitorial (lv_config lv) then None else Some (ts_tickers s)) (Some s) w of
        None \<Rightarrow> None
      | Some (r, so, w') \<Rightarrow>
          Some (case r of Inl (Abort what) \<Rightarrow> Inl (Abort what) | _ \<Rightarrow> Inr (), (case so of Some s' \<Rightarrow> s' | None \<Rightarrow> s), w'))"

text \<open>The scope guard: the end of the session, once the feed was stopped and its thread has ended.\<close>

definition shutdown_session :: "('j, 't, 'w) live \<Rightarrow> session \<Rightarrow> 'w \<Rightarrow> ((exn + unit) \<times> session \<times> 'w) option" where
  "shutdown_session lv s w =
     (case cancel_all_quotes (lv_env lv) s w of
        (Inl e, s1, w1) \<Rightarrow> Some (Inl e, s1, w1)
      | (Inr _, s1, w1) \<Rightarrow>
          if lv_paper lv then Some (Inr (), s1, w1)
          else case shutdown_sweep lv kShutdownAttempts s1 w1 of
            (Inl e, s2, w2) \<Rightarrow> Some (Inl e, s2, w2)
          | (Inr _, s2, w2) \<Rightarrow> shutdown_flatten lv s2 w2)"

definition finish :: "('j, 't, 'w) live \<Rightarrow> int \<Rightarrow> program \<times> 'w \<Rightarrow> (program \<times> 'w) option" where
  "finish lv code st = (case st of (p, w) \<Rightarrow>
     (let p' = p\<lparr>pg_ws := stop (pg_ws p)\<rparr> in
      case lv_join lv (pg_ws p') w of
        None \<Rightarrow> None
      | Some joined \<Rightarrow>
          (case shutdown_session lv (en_session (pg_engine p')) joined of
             None \<Rightarrow> None
           | Some (r, s', w') \<Rightarrow>
               (let st' = (p'\<lparr>pg_engine := (pg_engine p')\<lparr>en_session := s'\<rparr>\<rparr>, w')
                in Some (case r of Inl _ \<Rightarrow> crash (lv_env lv) st' | Inr _ \<Rightarrow> ((fst st')\<lparr>pg_phase := Exited code\<rparr>, w'))))))"

text \<open>
  The thread of the feed when it is between two connections, at the head of the loop of
  \<open>WebSocketClient::run\<close>. Told to stop there, or during a connection that the stop then closes, it ends.
  Told to stop before it has entered \<open>run\<close> it does not (\<open>early_stop_forgotten\<close>).
\<close>

definition join_at_head :: "ws_config \<Rightarrow> (unit, ws_client \<times> 'w) io \<Rightarrow> (int \<Rightarrow> 'w \<Rightarrow> 'w) \<Rightarrow> int \<Rightarrow> ws_client \<Rightarrow> 'w \<Rightarrow> 'w option" where
  "join_at_head cfg attempt sleep_ms reconnect_attempts c w =
     map_option (\<lambda>(r, c', w'). w') (run_loop cfg attempt sleep_ms reconnect_attempts (c, w))"

lemma join_at_head_ends: "\<not> ws_running c \<Longrightarrow> join_at_head cfg attempt sleep_ms n c w = Some w"
  by (simp add: join_at_head_def run_loop.simps [of cfg attempt sleep_ms n])

section \<open>Runs\<close>

datatype ('t, 'w) live_event = FrameEv 't | HeartbeatEv | ConnectEv | CloseEv | SignalEv | PollEv | WorldEv 'w

text \<open>Whether every tracked market is flat, and the end of the trading loop.\<close>

definition all_flat :: "session \<Rightarrow> bool" where
  "all_flat s \<longleftrightarrow> (\<forall>tk \<in> set (ts_tickers s). is_zero (net_position (ts_om s) tk))"

definition leave_loop :: "('j, 't, 'w) live \<Rightarrow> program \<times> 'w \<Rightarrow> (program \<times> 'w) option" where
  "leave_loop lv st = (case st of (p, w) \<Rightarrow>
     (let winddown_s = winddown_seconds (cf_quoter (lv_config lv)) in
      if \<not> lv_paper lv \<and> winddown_s > 0 then
        (let s = en_session (pg_engine p);
             p' = p\<lparr>pg_engine := (pg_engine p)\<lparr>en_session := s\<lparr>ts_quoter := set_reduce_only True (ts_quoter s)\<rparr>\<rparr>\<rparr>;
             (now, w1) = steady_now (lv_env lv) w;
             deadline = now + winddown_s * kNanosPerSecond;
             (now', w2) = steady_now (lv_env lv) w1
         in if now' < deadline then Some (p'\<lparr>pg_phase := WindingDown deadline\<rparr>, w2) else finish lv 0 (p', w2))
      else finish lv 0 (p, w)))"

definition poll :: "('j, 't, 'w) live \<Rightarrow> program \<times> 'w \<Rightarrow> (program \<times> 'w) option" where
  "poll lv st =
     (case pg_phase (fst st) of
        Trading \<Rightarrow>
          if pg_shutdown (fst st) then leave_loop lv st
          else (case poll_tick lv st of
             None \<Rightarrow> None
           | Some (Inr _, st') \<Rightarrow> Some st'
           | Some (Inl (StdException _), st') \<Rightarrow> finish lv 1 st'
           | Some (Inl (Abort _), st') \<Rightarrow> Some (crash (lv_env lv) st'))
      | WindingDown deadline \<Rightarrow>
          if all_flat (en_session (pg_engine (fst st))) then finish lv 0 st
          else
            (let (now, w') = steady_now (lv_env lv) (snd st); st' = (fst st, w')
             in if now < deadline then Some st' else finish lv 0 st')
      | _ \<Rightarrow> Some st)"

definition is_running :: "program \<Rightarrow> bool" where
  "is_running p = (case pg_phase p of Trading \<Rightarrow> True | WindingDown _ \<Rightarrow> True | _ \<Rightarrow> False)"

fun live_step :: "('j, 't, 'w) live \<Rightarrow> ('t, 'w) live_event \<Rightarrow> program \<times> 'w \<Rightarrow> (program \<times> 'w) option" where
  "live_step lv ev (p, w) =
     (let wse = engine_ws (lv_ws_env lv); cbs = live_callbacks (lv_env lv) in
      if \<not> is_running p then Some (p, w)
      else case ev of
        FrameEv raw \<Rightarrow> feed_event lv (paged_io (handle_message wse cbs raw)) (p, w)
      | HeartbeatEv \<Rightarrow> feed_event lv (\<lambda>st. Some (Inr (), handle_heartbeat wse st)) (p, w)
      | ConnectEv \<Rightarrow> feed_event lv (live_connect lv) (p, w)
      | CloseEv \<Rightarrow> feed_event lv (paged_io (handle_disconnect cbs)) (p, w)
      | SignalEv \<Rightarrow> Some (p\<lparr>pg_shutdown := True\<rparr>, w)
      | PollEv \<Rightarrow> poll lv (p, w)
      | WorldEv w' \<Rightarrow> Some (p, w'))"

fun live_run :: "('j, 't, 'w) live \<Rightarrow> ('t, 'w) live_event list \<Rightarrow> program \<times> 'w \<Rightarrow> (program \<times> 'w) option" where
  "live_run lv [] st = Some st"
| "live_run lv (ev # evs) st = Option.bind (live_step lv ev st) (live_run lv evs)"

end
