(* ===== verification/Startup.thy ===== *)
theory Startup
  imports Main_Loop
begin

text \<open>
  How the live program comes up (\<open>main\<close> in \<open>source/app/main.cpp\<close>), and the profit file that links
  one run with the next. The profit map is written in the iteration order of an
  \<open>unordered_map\<close>, any order of its entries.
\<close>

section \<open>The profit file\<close>

definition persist_pnl :: "('j, 't) json_ops \<Rightarrow> (ticker \<times> real) list \<Rightarrow> 't" where
  "persist_pnl js pnl = js_dump_indent js 2 (js_object js (map (\<lambda>(tk, cents). (tk, js_real js cents)) pnl))"

text \<open>An exception leaves what was read before it.\<close>

fun load_items :: "('j, 't) json_ops \<Rightarrow> (string \<times> 'j) list \<Rightarrow> pnl_map \<Rightarrow> pnl_map" where
  "load_items js [] result = result"
| "load_items js ((tk, v) # items) result =
     (case js_get_real js v of Inl _ \<Rightarrow> result | Inr cents \<Rightarrow> load_items js items (result(tk \<mapsto> cents)))"

definition load_pnl :: "('j, 't) json_ops \<Rightarrow> (string \<Rightarrow> 't option) \<Rightarrow> string \<Rightarrow> pnl_map" where
  "load_pnl js read_file path =
     (case read_file path of
        None \<Rightarrow> Map.empty
      | Some doc \<Rightarrow>
          (case js_parse js doc of Inl _ \<Rightarrow> Map.empty | Inr j \<Rightarrow> load_items js (js_items js j) Map.empty))"

section \<open>Startup\<close>

definition pricing_model :: "quoter_config \<Rightarrow> pricing_fn" where
  "pricing_model q =
     (if use_clearing_pricing q then clearing_price_estimate (clearing_tape_weight q)
      else if use_view_based_pricing q then view_based_estimate (view_debias_beta q)
      else heuristic_estimate)"

definition live_session :: "app_config \<Rightarrow> ticker list \<Rightarrow> pnl_map \<Rightarrow> session" where
  "live_session cf tickers prior =
     new_session tickers new_order_manager (new_risk_manager (cf_risk cf))
       (new_quoter (cf_quoter cf) (pricing_model (cf_quoter cf)) (cf_risk cf)) (Some (new_flow_guard (cf_flow cf)))
       (Some (new_trade_tape default_tape_config)) prior"

definition cancel_stale :: "('j, 't, 'w) live \<Rightarrow> ticker list \<Rightarrow> session \<Rightarrow> 'w \<Rightarrow> (exn + unit) \<times> session \<times> 'w" where
  "cancel_stale lv tickers s w =
     (case lv_open_orders lv w of
        (Inl (Abort what), w') \<Rightarrow> (Inl (Abort what), s, w')
      | (Inl (StdException _), w') \<Rightarrow> (Inr (), s, w')
      | (Inr orders, w') \<Rightarrow>
          (case cancel_preexisting_orders (lv_env lv) (ours_of (cf_account_wide_janitorial (lv_config lv)) tickers orders) s w' of
             (Inl (Abort what), s', w'') \<Rightarrow> (Inl (Abort what), s', w'')
           | (_, s', w'') \<Rightarrow> (Inr (), s', w'')))"

definition baseline_positions :: "'w account_api \<Rightarrow> (market_position list, 'w) paged" where
  "baseline_positions ac w =
     (case ac_get_positions ac w of
        Some (Inl (StdException _), w') \<Rightarrow> Some (Inr [], w')
      | res \<Rightarrow> res)"

text \<open>One market at startup: snapshot, seed, subscribe, an exception contained.\<close>

definition seed_market :: "'w env \<Rightarrow> 'w market_data \<Rightarrow> ('j, 't, 'w) ws_env \<Rightarrow> ticker \<Rightarrow> (unit, session \<times> ws_client \<times> 'w) io" where
  "seed_market env md wse tk =
     catch_io (\<lambda>(s, c, w).
       case md_get_orderbook md tk w of
         (Inl e, w') \<Rightarrow> (Inl e, (s, c, w'))
       | (Inr snap, w') \<Rightarrow>
           (case seed_orderbook env snap s w' of
              (Inl e, s', w'') \<Rightarrow> (Inl e, (s', c, w''))
            | (Inr _, s', w'') \<Rightarrow> (let (c', w3) = subscribe wse tk (c, w'') in (Inr (), (s', c', w3)))))
       (\<lambda>_. return_io ())"

fun seed_markets :: "'w env \<Rightarrow> 'w market_data \<Rightarrow> ('j, 't, 'w) ws_env \<Rightarrow> ticker list \<Rightarrow> (unit, session \<times> ws_client \<times> 'w) io" where
  "seed_markets env md wse [] = return_io ()"
| "seed_markets env md wse (tk # tks) = bind_io (seed_market env md wse tk) (\<lambda>_. seed_markets env md wse tks)"

text \<open>The market selection: the configured tickers, or a scan's.\<close>

definition select_tickers :: "('j, 't, 'w) live \<Rightarrow> (ticker list, 'w) paged" where
  "select_tickers lv =
     (if cf_target_tickers (lv_config lv) = [] then
        scan_top_tickers (system_now (lv_env lv)) (lv_market lv) (cf_scanner (lv_config lv))
      else paged_io (return_io (cf_target_tickers (lv_config lv))))"

definition startup_cancel :: "('j, 't, 'w) live \<Rightarrow> ticker list \<Rightarrow> session \<Rightarrow> (session, 'w) paged" where
  "startup_cancel lv tickers s w =
     (if lv_paper lv then Some (Inr s, w)
      else case cancel_stale lv tickers s w of (Inl e, _, w') \<Rightarrow> Some (Inl e, w') | (Inr _, s', w') \<Rightarrow> Some (Inr s', w'))"

definition startup_seed :: "('j, 't, 'w) live \<Rightarrow> ticker list \<Rightarrow> session \<Rightarrow> ws_client \<Rightarrow> (session \<times> ws_client, 'w) paged" where
  "startup_seed lv tickers s c w =
     (case seed_markets (lv_env lv) (lv_market lv) (lv_ws_env lv) tickers (s, c, w) of
        (Inl e, (_, _, w')) \<Rightarrow> Some (Inl e, w')
      | (Inr _, (s', c', w')) \<Rightarrow> Some (Inr (s', c'), w'))"

definition startup_baseline :: "('j, 't, 'w) live \<Rightarrow> (market_position list, 'w) paged" where
  "startup_baseline lv = (if lv_paper lv then paged_io (return_io []) else baseline_positions (lv_account lv))"

definition start_program :: "('j, 't, 'w) live \<Rightarrow> ticker list \<Rightarrow> pnl_map \<Rightarrow> (('j, 't, 'w) live \<times> program, 'w) paged" where
  "start_program lv tickers prior =
     bind_paged (paged_io (lift_read (we_steady_now (lv_ws_env lv)))) (\<lambda>now.
     bind_paged (startup_cancel lv tickers (live_session (lv_config lv) tickers prior)) (\<lambda>s1.
     bind_paged (startup_baseline lv) (\<lambda>baseline.
     bind_paged (paged_io (lift_read (system_now (lv_env lv)))) (\<lambda>started.
     bind_paged (startup_seed lv tickers s1 (new_ws_client now)) (\<lambda>(s2, c).
     bind_paged (paged_io (lift_read (system_now (lv_env lv)))) (\<lambda>last_fill.
       paged_io (return_io (lv\<lparr>lv_baseline := baseline, lv_start_seconds := started sdiv kNanosPerSecond\<rparr>,
         \<lparr>pg_engine = \<lparr>en_session = s2, en_last_fill = last_fill\<rparr>, pg_ws = c, pg_poll_count = 0, pg_shutdown = False,
          pg_phase = Trading\<rparr>))))))))"

text \<open>Startup: the program and its wiring, or nothing when there is no market to trade (exit code 1).\<close>

definition boot :: "('j, 't, 'w) live \<Rightarrow> pnl_map \<Rightarrow> ((('j, 't, 'w) live \<times> program) option, 'w) paged" where
  "boot lv prior =
     bind_paged (select_tickers lv) (\<lambda>tickers.
       if tickers = [] then paged_io (return_io None)
       else bind_paged (start_program (lv\<lparr>lv_config := (lv_config lv)\<lparr>cf_target_tickers := tickers\<rparr>\<rparr>) tickers prior)
              (\<lambda>started. paged_io (return_io (Some started))))"

end
