(* ===== verification/Websocket_Correct.thy ===== *)
theory Websocket_Correct
  imports Websocket_Client "HOL-Library.Sublist"
begin

text \<open>
  What the WebSocket client promises: contiguous delivery, containment of failures, complete
  subscriptions on every connection, exponential backoff, and an end to bounded reconnecting.
\<close>

section \<open>Delays\<close>

lemma backoff_loop_eq: "0 \<le> delay \<Longrightarrow> delay \<le> cap \<Longrightarrow> backoff_loop n cap delay = min cap (delay * 2 ^ n)"
proof (induction n arbitrary: delay)
  case (Suc n)
  show ?case
  proof (cases "delay * 2 \<ge> cap")
    case True
    have "delay * 2 \<le> delay * 2 ^ Suc n" using Suc.prems by (simp add: mult_left_mono)
    then show ?thesis using True by (simp add: Let_def)
  next
    case False
    then show ?thesis using Suc by (simp add: Let_def mult.assoc)
  qed
qed simp

text \<open>
  Reconnects back off exponentially up to a minute: after \<open>n\<close> consecutive failures the delay is
  the base delay doubled \<open>n - 1\<close> times, capped at sixty seconds, for every number of failures.
\<close>

theorem backoff_exact:
  assumes "0 \<le> base_delay" and "1 \<le> n"
  shows "reconnect_backoff base_delay n = min 60000 (base_delay * 2 ^ nat (n - 1))"
proof -
  let ?d = "min base_delay 60000"
  have loop: "reconnect_backoff base_delay n = min 60000 (?d * 2 ^ nat (min (n - 1) 30))"
    using assms(1) by (simp add: reconnect_backoff_def Let_def kMaxReconnectDelay_ms_def kMaxDoublings_def backoff_loop_eq)
  have uncap: "min 60000 (?d * 2 ^ k) = min 60000 (base_delay * 2 ^ k)" for k
  proof (cases "base_delay \<le> 60000")
    case False
    moreover have "(1::int) \<le> 2 ^ k" by simp
    ultimately have "60000 \<le> 60000 * (2::int) ^ k" "60000 \<le> base_delay * 2 ^ k"
      by (simp, metis mult_mono' [of 60000 base_delay 1 "2 ^ k"] mult.right_neutral linorder_le_cases numeral_eq_iff zero_le_one zero_le_numeral)
    then show ?thesis using False by simp
  qed simp
  show ?thesis
  proof (cases "n - 1 \<le> 30")
    case True
    then show ?thesis using loop uncap by (simp add: min_absorb1)
  next
    case False
    then have "(2::int) ^ 30 \<le> 2 ^ nat (n - 1)" by (intro power_increasing) auto
    then have big: "(60000::int) \<le> 2 ^ 30" "(60000::int) \<le> 2 ^ nat (n - 1)" by simp_all
    have "min 60000 (base_delay * K) = 60000" if "60000 \<le> K" "base_delay \<noteq> 0" for K :: int
      using that assms(1) mult_mono [of 1 base_delay 60000 K] by simp
    note ends = this [OF big(1)] this [OF big(2)]
    have "reconnect_backoff base_delay n = min 60000 (base_delay * 2 ^ 30)"
      using loop False unfolding uncap by (simp add: min_absorb2)
    then show ?thesis using ends by (cases "base_delay = 0") simp_all
  qed
qed

theorem backoff_exact_witness: "reconnect_backoff 5000 4 = 40000"
  using backoff_exact [of 5000 4] by simp

section \<open>Frames\<close>

text \<open>A value the library calls an integer can be read as one.\<close>

definition json_integers :: "('j, 't) json_ops \<Rightarrow> bool" where
  "json_integers js \<longleftrightarrow> (\<forall>v. js_is_integer js v \<longrightarrow> (\<exists>n. js_get_int js v = Inr n))"

definition callbacks_raise_std :: "'w ws_callbacks \<Rightarrow> bool" where
  "callbacks_raise_std cbs \<longleftrightarrow> (\<forall>f x. snapshot_callback cbs = Some f \<longrightarrow> raises_std (f x))
     \<and> (\<forall>f x. delta_callback cbs = Some f \<longrightarrow> raises_std (f x)) \<and> (\<forall>f x. fill_callback cbs = Some f \<longrightarrow> raises_std (f x))
     \<and> (\<forall>f x. trade_callback cbs = Some f \<longrightarrow> raises_std (f x))"

lemma catch_io_contains: "raises_std m \<Longrightarrow> fst (catch_io m (\<lambda>_. return_io ()) s) = Inr ()"
  by (cases "m s") (auto simp: raises_std_def catch_io_def return_io_def split: sum.split exn.split)

lemma dispatch_contains:
  assumes "std_result parsed" and "\<And>f x. cb = Some f \<Longrightarrow> raises_std (f x)"
  shows "fst (dispatch cb parsed s) = Inr ()"
proof (cases cb)
  case (Some f)
  have "raises_std (\<lambda>s. let (r, w') = f x (snd s) in (r, (fst s, w')))" for x
    using assms(2) [OF Some] unfolding raises_std_def by (force split: prod.splits)
  then have std: "raises_std (bind_io (lift_result parsed) (\<lambda>x s. let (r, w') = f x (snd s) in (r, (fst s, w'))))"
    (is "raises_std ?m") using assms(1) by (intro raises_std_intros)
  have "dispatch cb parsed s = catch_io ?m (\<lambda>_. return_io ()) s" by (simp add: dispatch_def Some)
  then show ?thesis by (simp only: catch_io_contains [OF std])
qed (simp add: dispatch_def)

lemma ws_parse_std:
  assumes "json_raises_std js"
  shows "std_result (parse_snapshot js m)" "std_result (parse_delta js m)" "std_result (ws_parse_fill js m)" "std_result (ws_parse_trade js m)"
proof -
  have side: "std_result (ws_parse_side x)" for x by (simp add: ws_parse_side_def)
  have level: "std_result (parse_snapshot_level js x)" for x
    unfolding parse_snapshot_level_def by (intro raises_std_intros assms) simp_all
  show "std_result (parse_snapshot js m)" unfolding parse_snapshot_def by (intro raises_std_intros assms level) simp_all
  show "std_result (parse_delta js m)" unfolding parse_delta_def by (intro raises_std_intros assms side) simp_all
  show "std_result (ws_parse_fill js m)" unfolding ws_parse_fill_def by (intro raises_std_intros assms side) simp_all
  show "std_result (ws_parse_trade js m)" unfolding ws_parse_trade_def by (intro raises_std_intros assms side) simp_all
qed

lemma dispatch_type_contains:
  assumes "json_raises_std (we_json env)" and "callbacks_raise_std cbs"
  shows "fst (dispatch_type env cbs ty m s) = Inr ()"
proof -
  have contain: "fst (dispatch (snapshot_callback cbs) (parse_snapshot (we_json env) m) s) = Inr ()"
    "fst (dispatch (delta_callback cbs) (parse_delta (we_json env) m) s) = Inr ()"
    "fst (dispatch (fill_callback cbs) (ws_parse_fill (we_json env) m) s) = Inr ()"
    "fst (dispatch (trade_callback cbs) (ws_parse_trade (we_json env) m) s) = Inr ()"
    using assms(2) unfolding callbacks_raise_std_def
    by (intro dispatch_contains ws_parse_std assms(1); blast)+
  show ?thesis unfolding dispatch_type_def Let_def by (simp add: contain return_io_def)
qed

lemma check_sequence_contains:
  assumes "json_integers (we_json env)"
  shows "\<exists>ok. fst (check_sequence env j s) = Inr ok"
proof (cases "js_find (we_json env) j ''sid''"; cases "js_find (we_json env) j ''seq''")
  fix sid seq assume f: "js_find (we_json env) j ''sid'' = Some sid" "js_find (we_json env) j ''seq'' = Some seq"
  show ?thesis
  proof (cases "js_is_integer (we_json env) sid \<and> js_is_integer (we_json env) seq")
    case True
    then obtain n k where "js_get_int (we_json env) sid = Inr n" "js_get_int (we_json env) seq = Inr k"
      using assms unfolding json_integers_def by blast
    then show ?thesis using f True by (simp add: check_sequence_def case_prod_beta)
  qed (use f in \<open>auto simp: check_sequence_def\<close>)
qed (auto simp: check_sequence_def)

text \<open>
  C36. Exactly one kind of frame escapes: whatever arrives, a failing callback or a malformed message
  never raises out of the message handler, except that a frame whose \<open>type\<close> member is present and
  not a string raises the library's exception onto the socket's thread.
\<close>

theorem frames_contained:
  assumes "json_raises_std (we_json env)" and "json_integers (we_json env)" and "callbacks_raise_std cbs"
  shows "fst (handle_message env cbs raw s) =
    (case js_parse (we_json env) raw of
       Inr j \<Rightarrow> (case js_find (we_json env) j ''type'' of
          Some ty \<Rightarrow> (case js_get_string (we_json env) ty of Inl e \<Rightarrow> Inl e | Inr _ \<Rightarrow> Inr ())
        | None \<Rightarrow> Inr ())
     | Inl _ \<Rightarrow> Inr ())"
proof -
  have p: "js_parse (we_json env) raw \<noteq> Inl (Abort what)" for what
    using json_raises_stdD(1) [OF assms(1)] by (auto simp: std_result_def)
  have "fst (check_sequence env j s') \<noteq> Inl e" for j s' e
    using check_sequence_contains [OF assms(2)] by (metis Inl_Inr_False)
  then have c: "check_sequence env j s' \<noteq> (Inl e, s'')" for j s' e s'' by (metis fst_conv)
  show ?thesis
    using p c dispatch_type_contains [OF assms(1,3)]
    by (auto simp: handle_message_def Let_def split: sum.splits option.splits exn.splits prod.splits bool.splits)
qed

definition quiet_env :: "(json, json, nat) ws_env" where
  "quiet_env = \<lparr>we_json = tree_json, ws_send = (\<lambda>_ w. w), ws_request_close = id, we_steady_now = (\<lambda>n. (int n, n))\<rparr>"

definition no_callbacks :: "'w ws_callbacks" where
  "no_callbacks = \<lparr>snapshot_callback = None, delta_callback = None, fill_callback = None, trade_callback = None,
     disconnect_callback = None, reconnect_callback = None\<rparr>"

theorem frames_contained_witness:
  "fst (handle_message quiet_env no_callbacks (JObject [(''type'', JInt 3)]) (new_ws_client 0, 0)) = Inl (StdException ''type_error'')"
proof -
  have env: "we_json quiet_env = tree_json" by (simp add: quiet_env_def)
  have "json_integers tree_json" "callbacks_raise_std (no_callbacks :: nat ws_callbacks)"
    by (auto simp: json_integers_def tree_json_def callbacks_raise_std_def no_callbacks_def split: json.splits)
  from frames_contained [OF _ _ this(2), of quiet_env "JObject [(''type'', JInt 3)]" "(new_ws_client 0, 0)"] this(1) tree_json_ok(1)
  show ?thesis unfolding env by (simp add: tree_json_def)
qed

section \<open>Gaps\<close>

text \<open>
  A listener that records the deltas it is handed, and forgets them when the client asks for the
  connection to be closed; \<open>frame\<close> is the \<open>n\<close>-th delta of the subscription \<open>sid\<close>.
\<close>

definition recording_env :: "('j, 't) json_ops \<Rightarrow> ('r list \<Rightarrow> time_ns) \<Rightarrow> ('j, 't, 'r list) ws_env" where
  "recording_env js now = \<lparr>we_json = js, ws_send = (\<lambda>_ w. w), ws_request_close = (\<lambda>_. []), we_steady_now = (\<lambda>w. (now w, w))\<rparr>"

definition recorder :: "(ticker \<times> side \<times> int \<times> quantity) list ws_callbacks" where
  "recorder = no_callbacks\<lparr>delta_callback := Some (\<lambda>x w. (Inr (), w @ [x]))\<rparr>"

definition frame :: "('j, 't) json_ops \<Rightarrow> (int \<times> int \<Rightarrow> 'j) \<Rightarrow> int \<times> int \<Rightarrow> 't" where
  "frame js b e = js_dump js (js_object js
     [(''type'', js_string js ''orderbook_delta''), (''sid'', js_int js (fst e)), (''seq'', js_int js (snd e)), (''msg'', b e)])"

definition feed :: "('j, 't, 'w) ws_env \<Rightarrow> 'w ws_callbacks \<Rightarrow> 't list \<Rightarrow> ws_client \<times> 'w \<Rightarrow> ws_client \<times> 'w" where
  "feed env cbs raws s = fold (\<lambda>raw s. snd (handle_message env cbs raw s)) raws s"

definition of_stream :: "int \<Rightarrow> (int \<times> int) list \<Rightarrow> int list" where
  "of_stream sid es = map snd (filter (\<lambda>e. fst e = sid) es)"

lemma of_stream_simps [simp]:
  "of_stream sid [] = []" "of_stream sid (es @ [e]) = of_stream sid es @ (if fst e = sid then [snd e] else [])"
  by (simp_all add: of_stream_def)

lemma handle_frame:
  assumes "json_reads_back js" and "parse_delta js (b e) = Inr d"
  shows "snd (handle_message (recording_env js now) recorder (frame js b e) (c, w)) =
    (let (ok, (c', w')) = sequence_intact (recording_env js now) (fst e) (snd e) (c\<lparr>last_message_time := now w\<rparr>, w)
     in (c', if ok then w' @ [d] else w'))"
proof -
  let ?env = "recording_env js now :: (_, _, (ticker \<times> side \<times> int \<times> quantity) list) ws_env"
  have env: "we_json ?env = js" "we_steady_now ?env w = (now w, w)" for w by (simp_all add: recording_env_def)
  have deliver: "dispatch_type ?env recorder ''orderbook_delta'' (b e) s = (Inr (), (fst s, snd s @ [d]))" for s
    using assms(2) by (simp add: dispatch_type_def dispatch_def recorder_def catch_io_def env case_prod_beta)
  obtain ok c' w' where seq: "sequence_intact ?env (fst e) (snd e) (c\<lparr>last_message_time := now w\<rparr>, w) = (ok, (c', w'))"
    by (metis prod.exhaust)
  show ?thesis
    by (cases ok) (simp_all add: handle_message_def frame_def env json_reads_backD [OF assms(1)] handle_heartbeat_def
      check_sequence_def seq deliver)
qed

text \<open>
  What holds after any frames \<open>es\<close>: the record is that of a suffix, gapless in every stream, whose
  last numbers the client remembers.
\<close>

definition in_step :: "((int \<times> int) \<Rightarrow> 'r) \<Rightarrow> (int \<times> int) list \<Rightarrow> (int \<times> int) list \<Rightarrow> ws_client \<times> 'r list \<Rightarrow> bool" where
  "in_step d es run s \<longleftrightarrow> suffix run es \<and> snd s = map d run \<and> (\<forall>sid.
     (\<exists>a l. of_stream sid run = [a..l]) \<and>
     last_seq_by_sid (fst s) sid = (if of_stream sid run = [] then None else Some (last (of_stream sid run))))"

lemma upto_snoc: "[a..l] \<noteq> [] \<Longrightarrow> [a..l] @ [last [a..l] + 1] = [a..last [a..l] + 1]"
proof -
  assume "[a..l] \<noteq> []"
  then have "a \<le> l" by simp
  then have "last [a..l] = l" by (simp add: upto_rec2)
  then show ?thesis using \<open>a \<le> l\<close> upto_rec2 [of a "l + 1"] by simp
qed

lemma in_step_frame:
  assumes "json_reads_back js" and "parse_delta js (b e) = Inr (d e)" and "in_step d es run (c, w)"
  shows "\<exists>run'. in_step d (es @ [e]) run' (snd (handle_message (recording_env js now) recorder (frame js b e) (c, w)))"
proof (cases "of_stream (fst e) run = [] \<or> snd e = last (of_stream (fst e) run) + 1")
  case True
  have grow: "\<exists>a l. of_stream (fst e) run @ [snd e] = [a..l]"
  proof (cases "of_stream (fst e) run = []")
    case True
    have "[snd e] = [snd e..snd e]" by simp
    then show ?thesis using True by (metis append_Nil)
  next
    case False
    obtain a l where "of_stream (fst e) run = [a..l]" using assms(3) unfolding in_step_def by blast
    then show ?thesis using upto_snoc [of a l] False True by metis
  qed
  let ?c = "c\<lparr>last_message_time := now w, last_seq_by_sid := (last_seq_by_sid c)(fst e \<mapsto> snd e)\<rparr>"
  have "snd (handle_message (recording_env js now) recorder (frame js b e) (c, w)) = (?c, w @ [d e])"
    using True assms(3) unfolding handle_frame [where b = b and e = e, OF assms(1,2)] by (auto simp: sequence_intact_def in_step_def)
  moreover have "in_step d (es @ [e]) (run @ [e]) (?c, w @ [d e])"
    using assms(3) grow by (auto simp: in_step_def)
  ultimately show ?thesis by auto
next
  case False
  then have "snd (handle_message (recording_env js now) recorder (frame js b e) (c, w))
      = (c\<lparr>last_message_time := now w, last_seq_by_sid := Map.empty\<rparr>, [])"
    using assms(3) unfolding handle_frame [where b = b and e = e, OF assms(1,2)] by (auto simp: sequence_intact_def in_step_def recording_env_def)
  moreover have "in_step d (es @ [e]) [] (c\<lparr>last_message_time := now w, last_seq_by_sid := Map.empty\<rparr>, [])"
    using lt_ex by (auto simp: in_step_def)
  ultimately show ?thesis by auto
qed

text \<open>
  C24. A gap is never papered over: whatever sequence numbers arrive, over any number of interleaved
  subscriptions, the deltas handed to the listener since the last time the client asked for a new
  connection are the most recent frames, in order, none skipped, and in every subscription their
  numbers are consecutive.
\<close>

theorem ws_deliveries_contiguous:
  assumes "json_reads_back js" and "\<And>e. parse_delta js (b e) = Inr (d e)"
  shows "\<exists>run. suffix run es
    \<and> snd (feed (recording_env js now) recorder (map (frame js b) es) (new_ws_client t, [])) = map d run
    \<and> (\<forall>sid. \<exists>a l. of_stream sid run = [a..l])"
proof -
  have "\<exists>run. in_step d es run (feed (recording_env js now) recorder (map (frame js b) es) (new_ws_client t, []))"
  proof (induction es rule: rev_induct)
    case Nil
    have "in_step d [] [] (new_ws_client t, [])"
      using lt_ex by (auto simp: in_step_def new_ws_client_def)
    then show ?case by (auto simp: feed_def)
  next
    case (snoc e es)
    let ?s = "feed (recording_env js now) recorder (map (frame js b) es) (new_ws_client t, [])"
    obtain run where "in_step d es run (fst ?s, snd ?s)" using snoc by auto
    from in_step_frame [where now = now and b = b and e = e, OF assms(1) assms(2) this]
    show ?case by (simp add: feed_def)
  qed
  then show ?thesis unfolding in_step_def by blast
qed

definition delta_body :: "int \<times> int \<Rightarrow> json" where
  "delta_body e = JObject [(''market_ticker'', JString (int_to_string (snd e))), (''side'', JString ''yes''), (''price_dollars'', JString ''0''),
     (''delta_fp'', JString ''1'')]"

theorem ws_deliveries_contiguous_witness:
  "\<forall>now. \<exists>run p q. suffix run [(1, 7), (1, 8), (2, 3), (1, 9)]
    \<and> snd (feed (recording_env tree_json now) recorder (map (frame tree_json delta_body) [(1, 7), (1, 8), (2, 3), (1, 9)])
         (new_ws_client 0, [])) = map (\<lambda>e. (int_to_string (snd e), Yes, p, q)) run
    \<and> (\<forall>sid. \<exists>a l. of_stream sid run = [a..l])"
proof -
  have "\<exists>p q. \<forall>e. parse_delta tree_json (delta_body e) = Inr (int_to_string (snd e), Yes, p, q)"
    by (simp add: parse_delta_def delta_body_def get_str_def tree_json_def ws_parse_side_def parse_dollars_to_cents_def parse_fp_count_def
      from_fp_string_def stod_def parse_sign_def is_space_def is_digit_def)
  then obtain p q where "\<And>e. parse_delta tree_json (delta_body e) = Inr (int_to_string (snd e), Yes, p, q)" by blast
  from ws_deliveries_contiguous [where es = "[(1, 7), (1, 8), (2, 3), (1, 9)]" and t = 0 and b = delta_body, OF tree_json_ok(2) this]
  show ?thesis by blast
qed

section \<open>Subscriptions\<close>

text \<open>
  The life of a client, seen from the network: what it is asked and told, in any order, and the
  messages it has sent on the connection that is current. A new connection has carried none.
\<close>

definition sending_env :: "('j, 't) json_ops \<Rightarrow> ('j, 't, 't list) ws_env" where
  "sending_env js = \<lparr>we_json = js, ws_send = (\<lambda>t w. w @ [t]), ws_request_close = id, we_steady_now = (\<lambda>w. (0, w))\<rparr>"

datatype 't ws_event = SubscribeTo ticker | Connected | Disconnected | Received 't | Heartbeat

fun ws_step :: "('j, 't) json_ops \<Rightarrow> 't ws_event \<Rightarrow> ws_client \<times> 't list \<Rightarrow> ws_client \<times> 't list" where
  "ws_step js (SubscribeTo tk) s = subscribe (sending_env js) tk s"
| "ws_step js Connected s = snd (handle_connect (sending_env js) no_callbacks (fst s, []))"
| "ws_step js Disconnected s = snd (handle_disconnect no_callbacks s)"
| "ws_step js (Received raw) s = snd (handle_message (sending_env js) no_callbacks raw s)"
| "ws_step js Heartbeat s = handle_heartbeat (sending_env js) s"

definition ws_life :: "('j, 't) json_ops \<Rightarrow> time_ns \<Rightarrow> 't ws_event list \<Rightarrow> ws_client \<times> 't list" where
  "ws_life js t evs = fold (ws_step js) evs (new_ws_client t, [])"

text \<open>The tickers asked for, each at the place where it was first asked for; whether a connection is up.\<close>

definition tickers_asked :: "'t ws_event list \<Rightarrow> ticker list" where
  "tickers_asked evs = rev (remdups (rev (concat (map (\<lambda>ev. case ev of SubscribeTo tk \<Rightarrow> [tk] | _ \<Rightarrow> []) evs))))"

fun connection_up :: "bool \<Rightarrow> 't ws_event \<Rightarrow> bool" where
  "connection_up up Connected = True"
| "connection_up up Disconnected = False"
| "connection_up up _ = up"

definition subscription_messages :: "('j, 't) json_ops \<Rightarrow> int \<Rightarrow> ticker list \<Rightarrow> 't list" where
  "subscription_messages js i tks =
     subscribe_fills_message js i # map (\<lambda>k. subscribe_message js (i + 1 + int k) (tks ! k)) [0..<length tks]"

lemma subscription_messages_snoc:
  "subscription_messages js i (tks @ [tk]) = subscription_messages js i tks @ [subscribe_message js (i + 1 + int (length tks)) tk]"
  by (simp add: subscription_messages_def nth_append)

lemma fold_send_subscribe:
  "fold (send_subscribe (sending_env js)) tks (c, w) =
     (c\<lparr>next_msg_id := next_msg_id c + int (length tks)\<rparr>,
      w @ map (\<lambda>k. subscribe_message js (next_msg_id c + int k) (tks ! k)) [0..<length tks])"
proof (induction tks rule: rev_induct)
  case (snoc tk tks)
  then show ?case by (simp add: send_subscribe_def sending_env_def nth_append)
qed simp

lemma connect_sends:
  "snd (handle_connect (sending_env js) no_callbacks (c, [])) =
     (c\<lparr>consecutive_connect_failures := 0, last_seq_by_sid := Map.empty, ws_connected := True, has_connected_once := True,
        next_msg_id := next_msg_id c + 1 + int (length (subscribed_tickers c))\<rparr>,
      subscription_messages js (next_msg_id c) (subscribed_tickers c))"
proof -
  have "send_subscribe_fills (sending_env js) (c', []) = (c'\<lparr>next_msg_id := next_msg_id c' + 1\<rparr>, [subscribe_fills_message js (next_msg_id c')])"
    for c' by (simp add: send_subscribe_fills_def sending_env_def)
  then show ?thesis
    by (simp add: handle_connect_def fold_send_subscribe no_callbacks_def run_callback_def subscription_messages_def)
qed

lemma tickers_asked_simps [simp]:
  "tickers_asked [] = []" "distinct (tickers_asked evs)"
  "tickers_asked (evs @ [ev]) = (case ev of SubscribeTo tk \<Rightarrow> if tk \<in> set (tickers_asked evs) then tickers_asked evs else tickers_asked evs @ [tk]
    | _ \<Rightarrow> tickers_asked evs)"
  by (auto simp: tickers_asked_def split: ws_event.split)

lemma unheard_frame: "dispatch_type env no_callbacks ty msg s = (Inr (), s)"
  by (simp add: dispatch_type_def dispatch_def no_callbacks_def return_io_def Let_def)

lemma unheard_message:
  obtains "snd (handle_message env no_callbacks raw s) = handle_heartbeat env s"
  | j where "snd (handle_message env no_callbacks raw s) = snd (check_sequence env j (handle_heartbeat env s))"
proof -
  have checked: "snd (case check_sequence env j s of (Inl e, s') \<Rightarrow> (Inl e, s') | (Inr False, s') \<Rightarrow> (Inr (), s')
      | (Inr True, s') \<Rightarrow> dispatch_type env no_callbacks ty msg s') = snd (check_sequence env j s)" for j ty msg s
    by (simp add: unheard_frame split: prod.split sum.split bool.split)
  have "snd (handle_message env no_callbacks raw s) = handle_heartbeat env s
      \<or> (\<exists>j. snd (handle_message env no_callbacks raw s) = snd (check_sequence env j (handle_heartbeat env s)))"
    unfolding handle_message_def Let_def by (auto simp: checked split: sum.split option.split exn.split)
  then show thesis using that by blast
qed

lemma frame_subscribes:
  assumes "handle_message (sending_env js) no_callbacks raw (c, w) = (r, (c', w'))"
  shows "w' = w \<and> subscribed_tickers c' = subscribed_tickers c \<and> ws_connected c' = ws_connected c \<and> next_msg_id c' = next_msg_id c"
proof -
  let ?same = "\<lambda>s s'. snd s' = snd s \<and> subscribed_tickers (fst s') = subscribed_tickers (fst s) \<and> ws_connected (fst s') = ws_connected (fst s)
    \<and> next_msg_id (fst s') = next_msg_id (fst s)"
  have "?same s (snd (check_sequence (sending_env js) j s))" for j s
    by (cases s) (auto simp: check_sequence_def sequence_intact_def sending_env_def Let_def split: option.splits sum.splits)
  moreover have "?same s (handle_heartbeat (sending_env js) s)" for s
    by (simp add: handle_heartbeat_def sending_env_def Let_def)
  ultimately have "?same (c, w) (snd (handle_message (sending_env js) no_callbacks raw (c, w)))"
    by (cases rule: unheard_message [of "sending_env js" raw "(c, w)"]) simp_all
  then show ?thesis using assms by simp
qed

text \<open>The invariant: what is remembered is what was asked, and what is up has been sent all of it.\<close>

definition subscribed_all :: "('j, 't) json_ops \<Rightarrow> 't ws_event list \<Rightarrow> ws_client \<times> 't list \<Rightarrow> bool" where
  "subscribed_all js evs s \<longleftrightarrow> (let c = fst s; tks = tickers_asked evs in
     subscribed_tickers c = tks \<and> ws_connected c = fold (\<lambda>ev up. connection_up up ev) evs False \<and>
     (ws_connected c \<longrightarrow> (\<exists>i. next_msg_id c = i + 1 + int (length tks) \<and> snd s = subscription_messages js i tks)))"

lemma ws_life_subscribed: "subscribed_all js evs (ws_life js t evs)"
proof (induction evs rule: rev_induct)
  case Nil
  then show ?case by (simp add: ws_life_def subscribed_all_def new_ws_client_def)
next
  case (snoc ev evs)
  obtain c w where s: "ws_life js t evs = (c, w)" by fastforce
  then have "ws_life js t (evs @ [ev]) = ws_step js ev (c, w)" by (simp add: ws_life_def)
  moreover have "subscribed_all js (evs @ [ev]) (ws_step js ev (c, w))"
  proof (cases ev)
    case (SubscribeTo tk)
    then show ?thesis using snoc s
      by (auto simp: subscribed_all_def subscribe_def Let_def send_subscribe_def sending_env_def subscription_messages_snoc)
  next
    case Connected
    then show ?thesis using snoc s by (auto simp: subscribed_all_def connect_sends Let_def)
  next
    case Disconnected
    then show ?thesis using snoc s by (auto simp: subscribed_all_def handle_disconnect_def run_callback_def no_callbacks_def Let_def)
  next
    case (Received raw)
    then show ?thesis using snoc s frame_subscribes [of js raw c w]
      by (cases "handle_message (sending_env js) no_callbacks raw (c, w)") (auto simp: subscribed_all_def Let_def)
  next
    case Heartbeat
    then show ?thesis using snoc s by (auto simp: subscribed_all_def handle_heartbeat_def sending_env_def Let_def)
  qed
  ultimately show ?case by simp
qed

text \<open>
  C37. No subscription is lost: whatever the order of subscriptions, connects, lost connections, frames
  and heartbeats, the client remembers every ticker it was ever asked for, in the order they were
  first asked for; it takes itself for connected exactly when the last change of the connection was a
  connect; and then it has sent, on the current connection, the fill channel and then every ticker
  ever asked for, each exactly once, under consecutive message ids, and nothing else.
\<close>

theorem subscriptions_survive_reconnects:
  "subscribed_tickers (fst (ws_life js t evs)) = tickers_asked evs
   \<and> ws_connected (fst (ws_life js t evs)) = fold (\<lambda>ev up. connection_up up ev) evs False
   \<and> (fold (\<lambda>ev up. connection_up up ev) evs False \<longrightarrow>
        (\<exists>i. snd (ws_life js t evs) = subscription_messages js i (tickers_asked evs)))"
  using ws_life_subscribed [of js evs t] by (auto simp: subscribed_all_def Let_def)

text \<open>Two tickers, asked for before and between two connections: the second carries both.\<close>

theorem subscriptions_survive_reconnects_witness:
  "\<exists>i. snd (ws_life tree_json 0 [SubscribeTo ''A'', Connected, SubscribeTo ''B'', SubscribeTo ''A'', Disconnected, Connected])
     = subscribe_fills_message tree_json i # map (\<lambda>(k, tk). subscribe_message tree_json (k + i) tk) [(1, ''A''), (2, ''B'')]"
proof -
  let ?evs = "[SubscribeTo ''A'', Connected, SubscribeTo ''B'', SubscribeTo ''A'', Disconnected, Connected] :: json ws_event list"
  have "tickers_asked ?evs = [''A'', ''B'']" by (simp add: tickers_asked_def)
  moreover have "subscription_messages tree_json i [''A'', ''B'']
      = subscribe_fills_message tree_json i # map (\<lambda>(k, tk). subscribe_message tree_json (k + i) tk) [(1, ''A''), (2, ''B'')]" for i
    by (simp add: subscription_messages_def numeral_2_eq_2 add.commute)
  ultimately show ?thesis using subscriptions_survive_reconnects [of tree_json 0 ?evs] by simp
qed

section \<open>The end of the loop\<close>

lemma run_loop_ends:
  assumes "0 \<le> wc_max_reconnects cfg" and "attempts \<le> wc_max_reconnects cfg"
  shows "\<exists>r s'. run_loop cfg attempt sleep_ms attempts s = Some (r, s') \<and> (\<forall>x. r = Inr x \<longrightarrow> \<not> ws_running (fst s'))"
  using assms(2)
proof (induction "nat (wc_max_reconnects cfg - attempts)" arbitrary: attempts s)
  case 0
  then show ?case using assms(1)
    by (subst run_loop.simps) (simp split: prod.split sum.split)
next
  case (Suc n)
  then have "attempts < wc_max_reconnects cfg" "n = nat (wc_max_reconnects cfg - (attempts + 1))" by simp_all
  note IH = Suc.hyps(1) [OF this(2)]
  show ?case
    using IH \<open>attempts < wc_max_reconnects cfg\<close>
    by (cases "catch_io attempt (\<lambda>_. return_io ()) s"; subst run_loop.simps) (simp add: Let_def split: sum.split)
qed

text \<open>
  With a bound on reconnects, \<open>run\<close> returns whatever the connection attempts do, and unless the
  process is aborted it returns with the client stopped.
\<close>

theorem bounded_run_returns:
  assumes "0 \<le> wc_max_reconnects cfg"
  shows "\<exists>r s'. ws_run cfg attempt sleep_ms s = Some (r, s') \<and> (\<forall>x. r = Inr x \<longrightarrow> \<not> ws_running (fst s'))"
  unfolding ws_run_def by (rule run_loop_ends [OF assms assms])

theorem bounded_run_returns_witness:
  "\<exists>r s'. ws_run \<lparr>wc_url = ''ws:'', wc_max_reconnects = 2, wc_reconnect_delay_ms = 100\<rparr> (\<lambda>s. (Inl (StdException ''refused''), s))
     (\<lambda>ms w. w + ms) (new_ws_client 0, 0) = Some (r, s') \<and> (\<forall>x. r = Inr x \<longrightarrow> \<not> ws_running (fst s'))"
  by (rule bounded_run_returns) simp

end
