(* ===== verification/Feed_World.thy ===== *)
theory Feed_World
  imports Websocket_Correct
begin

text \<open>
  What a feed can do to the world its callbacks act on: whatever frames arrive, the client touches
  the world only through its clock, its socket and the callbacks, each given what a frame carried.
  The programs that run a client interpret the locale with their own callbacks.
\<close>

definition carries :: "('j, 't) json_ops \<Rightarrow> (('j, 't) json_ops \<Rightarrow> 'j \<Rightarrow> exn + 'a) \<Rightarrow> 't \<Rightarrow> 'a \<Rightarrow> bool" where
  "carries js parse raw x \<longleftrightarrow>
     (\<exists>parsed body. js_parse js raw = Inr parsed \<and> js_find js parsed ''msg'' = Some body \<and> parse js body = Inr x)"

locale feed_world =
  fixes env :: "('j, 't, 'w) ws_env" and cbs :: "'w ws_callbacks" and F :: "'t set" and R :: "'w \<Rightarrow> 'w \<Rightarrow> bool"
  assumes refl: "R w w" and trans: "R w1 w2 \<Longrightarrow> R w2 w3 \<Longrightarrow> R w1 w3"
    and clock: "R w (snd (we_steady_now env w))" and send: "R w (ws_send env t w)" and close: "R w (ws_request_close env w)"
    and snapshot: "snapshot_callback cbs = Some f1 \<Longrightarrow> raw \<in> F \<Longrightarrow> carries (we_json env) parse_snapshot raw x1 \<Longrightarrow> R w (snd (f1 x1 w))"
    and delta: "delta_callback cbs = Some f2 \<Longrightarrow> raw \<in> F \<Longrightarrow> carries (we_json env) parse_delta raw x2 \<Longrightarrow> R w (snd (f2 x2 w))"
    and fill: "fill_callback cbs = Some f3 \<Longrightarrow> raw \<in> F \<Longrightarrow> carries (we_json env) ws_parse_fill raw x3 \<Longrightarrow> R w (snd (f3 x3 w))"
    and trade: "trade_callback cbs = Some f4 \<Longrightarrow> raw \<in> F \<Longrightarrow> carries (we_json env) ws_parse_trade raw x4 \<Longrightarrow> R w (snd (f4 x4 w))"
    and disconnect: "disconnect_callback cbs = Some g \<Longrightarrow> R w (snd (g w))"
    and reconnect: "reconnect_callback cbs = Some g \<Longrightarrow> R w (snd (g w))"
begin

lemma dispatch_world:
  assumes "\<And>f x w. cb = Some f \<Longrightarrow> parsed = Inr x \<Longrightarrow> R w (snd (f x w))"
  shows "R (snd s) (snd (snd (dispatch cb parsed s)))"
proof (cases cb)
  case (Some f)
  show ?thesis
  proof (cases parsed)
    case (Inl e)
    then show ?thesis by (cases e) (simp_all add: Some dispatch_def catch_io_def return_io_def refl)
  next
    case (Inr x)
    show ?thesis
      using assms [OF Some Inr]
      by (auto simp: Some Inr dispatch_def catch_io_def return_io_def case_prod_beta Let_def split: sum.split exn.split)
  qed
qed (simp add: dispatch_def refl)

lemma heartbeat_world: "R (snd s) (snd (handle_heartbeat env s))"
  using clock by (simp add: handle_heartbeat_def case_prod_beta Let_def)

lemma sequence_world: "R (snd s) (snd (snd (check_sequence env j s)))"
  by (auto simp: check_sequence_def sequence_intact_def case_prod_beta Let_def refl close split: option.split sum.split)

lemma dispatch_type_world:
  assumes "raw \<in> F" and "js_parse (we_json env) raw = Inr j" and "js_find (we_json env) j ''msg'' = Some b"
  shows "R (snd s) (snd (snd (dispatch_type env cbs t b s)))"
proof -
  have carried: "parse (we_json env) b = Inr x \<Longrightarrow> carries (we_json env) parse raw x" for parse x
    using assms(2,3) by (auto simp: carries_def)
  have "R (snd s) (snd (snd (dispatch (snapshot_callback cbs) (parse_snapshot (we_json env) b) s)))"
    by (rule dispatch_world, erule snapshot [OF _ assms(1) carried])
  moreover have "R (snd s) (snd (snd (dispatch (delta_callback cbs) (parse_delta (we_json env) b) s)))"
    by (rule dispatch_world, erule delta [OF _ assms(1) carried])
  moreover have "R (snd s) (snd (snd (dispatch (fill_callback cbs) (ws_parse_fill (we_json env) b) s)))"
    by (rule dispatch_world, erule fill [OF _ assms(1) carried])
  moreover have "R (snd s) (snd (snd (dispatch (trade_callback cbs) (ws_parse_trade (we_json env) b) s)))"
    by (rule dispatch_world, erule trade [OF _ assms(1) carried])
  ultimately show ?thesis by (simp add: dispatch_type_def Let_def return_io_def refl)
qed

lemma frame_world:
  assumes "raw \<in> F"
  shows "R (snd s) (snd (snd (handle_message env cbs raw s)))"
proof -
  let ?s = "handle_heartbeat env s"
  note hb = heartbeat_world [of s]
  have seq: "R (snd s) w" if "check_sequence env j ?s = (r, (c, w))" for j r c w
    using trans [OF hb sequence_world [of ?s j]] that by simp
  have disp: "R (snd s) (snd (snd (dispatch_type env cbs t b (c, w))))"
    if "js_parse (we_json env) raw = Inr j" "js_find (we_json env) j ''msg'' = Some b" "check_sequence env j ?s = (r, (c, w))"
    for j r c w t b
    using trans [OF seq [OF that(3)]] dispatch_type_world [OF assms that(1,2), of "(c, w)" t] by simp
  show ?thesis
    unfolding handle_message_def Let_def
    by (auto split: sum.split exn.split option.split if_split prod.split bool.split intro: seq disp hb)
qed

lemma send_world: "R (snd s) (snd (send_subscribe env tk s))" "R (snd s) (snd (send_subscribe_fills env s))"
  using send by (simp_all add: send_subscribe_def send_subscribe_fills_def Let_def)

lemma fold_send_world: "R (snd s) (snd (fold (send_subscribe env) tks s))"
proof (induction tks arbitrary: s)
  case (Cons tk tks)
  from trans [OF send_world(1) Cons.IH] show ?case by simp
qed (simp add: refl)

lemma connect_world: "R (snd s) (snd (snd (handle_connect env cbs s)))"
proof -
  let ?s1 = "((fst s)\<lparr>consecutive_connect_failures := 0, last_seq_by_sid := Map.empty\<rparr>, snd s)"
  obtain c2 w2 where s2: "send_subscribe_fills env ?s1 = (c2, w2)" by (cases "send_subscribe_fills env ?s1")
  obtain c3 w3 where s3: "fold (send_subscribe env) (subscribed_tickers c2) (c2\<lparr>ws_connected := True\<rparr>, w2) = (c3, w3)"
    by (cases "fold (send_subscribe env) (subscribed_tickers c2) (c2\<lparr>ws_connected := True\<rparr>, w2)")
  have w3: "R (snd s) w3"
    using trans [OF send_world(2) [of ?s1]] fold_send_world [of "(c2\<lparr>ws_connected := True\<rparr>, w2)" "subscribed_tickers c2"]
    by (simp add: s2 s3)
  have "R (snd s) (snd (g w3))" if "reconnect_callback cbs = Some g" for g
    using trans [OF w3 reconnect [OF that]] .
  then show ?thesis using w3
    by (auto simp: handle_connect_def s2 s3 run_callback_def case_prod_beta Let_def split: option.split sum.split)
qed

lemma disconnect_world: "R (snd s) (snd (snd (handle_disconnect cbs s)))"
  using disconnect [of _ "snd s"]
  by (auto simp: handle_disconnect_def run_callback_def case_prod_beta Let_def refl split: option.split)

end

end
