(* ===== verification/Main_Correct.thy ===== *)
theory Main_Correct
  imports Startup Feed_World
begin

text \<open>
  What the live program guarantees: in any run the books are those of the fills the exchange
  reported, a halt takes the quotes down within one poll, a crash and a shutdown end without
  quotes, and the profit file carries the totals from run to run.
\<close>

section \<open>The program drives its session\<close>

text \<open>The events the program can raise: its fills are reported by the feed or by the exchange.\<close>

definition reported_fill :: "('j, 't, 'w) live \<Rightarrow> 't set \<Rightarrow> fill \<Rightarrow> bool" where
  "reported_fill lv F f \<longleftrightarrow> (\<exists>raw \<in> F. carries (we_json (lv_ws_env lv)) ws_parse_fill raw f)
     \<or> (\<exists>m w fs w'. ac_get_fills (lv_account lv) m w = Some (Inr fs, w') \<and> f \<in> set fs)"

definition reported :: "('j, 't, 'w) live \<Rightarrow> 't set \<Rightarrow> session_event \<Rightarrow> bool" where
  "reported lv F ev = (case ev of TradeFillEv f \<Rightarrow> reported_fill lv F f | FlattenEv ord \<Rightarrow> executed (lv_account lv) ord | _ \<Rightarrow> True)"

definition follows :: "('j, 't, 'w) live \<Rightarrow> 't set \<Rightarrow> session \<Rightarrow> session \<Rightarrow> bool" where
  "follows lv F s s' = drives (lv_env lv) (reported lv F) s s'"

named_theorems follows_intros

lemma follows_refl [simp, intro, follows_intros]: "follows lv F s s"
  by (simp add: follows_def)

lemma follows_trans [trans]: "follows lv F a b \<Longrightarrow> follows lv F b c \<Longrightarrow> follows lv F a c"
  unfolding follows_def by (rule drives_trans)

lemma follows_event: "session_step (lv_env lv) ev (s, w) = (s', w') \<Longrightarrow> reported lv F ev \<Longrightarrow> follows lv F s s'"
  unfolding follows_def by (rule drives_event)

lemma follows_mono: "drives (lv_env lv) P s s' \<Longrightarrow> (\<And>ev. P ev \<Longrightarrow> reported lv F ev) \<Longrightarrow> follows lv F s s'"
  unfolding follows_def by (rule drives_mono)

lemma follows_handlers [follows_intros]:
  "follows lv F s (fst (snd (on_snapshot (lv_env lv) snap s w)))"
  "follows lv F s (fst (snd (on_delta (lv_env lv) tk sd p q s w)))"
  "reported_fill lv F f \<Longrightarrow> follows lv F s (snd (on_fill f s))"
  "follows lv F s (on_trade trade s)"
  "follows lv F s (fst (snd (on_disconnect (lv_env lv) s w)))"
  "follows lv F s (fst (snd (cancel_all_quotes (lv_env lv) s w)))"
  "follows lv F s (fst (snd (enforce_quote_safety (lv_env lv) s w)))"
  "follows lv F s (fst (snd (requote_idle_markets (lv_env lv) s w)))"
  "follows lv F s (fst (snd (seed_orderbook (lv_env lv) snap s w)))"
  "follows lv F s (fst (snd (cancel_preexisting_orders (lv_env lv) ords s w)))"
  "follows lv F s (run_portfolio_risk s)"
  "follows lv F s (s\<lparr>ts_quoter := set_reduce_only b (ts_quoter s)\<rparr>)"
proof -
  have ev: "follows lv F s s'" if "reported lv F ev" "fst (session_step (lv_env lv) ev (s, w)) = s'" for ev s' w
    by (rule follows_event [of lv ev s w s' "snd (session_step (lv_env lv) ev (s, w))"]) (use that in \<open>auto simp: prod_eq_iff\<close>)
  show "follows lv F s (fst (snd (on_snapshot (lv_env lv) snap s w)))" by (rule ev [of "SnapshotEv snap" w]) (simp_all add: reported_def)
  show "follows lv F s (fst (snd (on_delta (lv_env lv) tk sd p q s w)))" by (rule ev [of "DeltaEv tk sd p q" w]) (simp_all add: reported_def)
  show "reported_fill lv F f \<Longrightarrow> follows lv F s (snd (on_fill f s))" by (rule ev [of "TradeFillEv f" w]) (simp_all add: reported_def)
  show "follows lv F s (on_trade trade s)" by (rule ev [of "PublicTradeEv trade" w]) (simp_all add: reported_def)
  show "follows lv F s (fst (snd (on_disconnect (lv_env lv) s w)))" by (rule ev [of DisconnectEv w]) (simp_all add: reported_def)
  show "follows lv F s (fst (snd (cancel_all_quotes (lv_env lv) s w)))" by (rule ev [of DisconnectEv w]) (simp_all add: reported_def on_disconnect_def)
  show "follows lv F s (fst (snd (enforce_quote_safety (lv_env lv) s w)))" by (rule ev [of SafetyEv w]) (simp_all add: reported_def)
  show "follows lv F s (fst (snd (requote_idle_markets (lv_env lv) s w)))" by (rule ev [of RequoteEv w]) (simp_all add: reported_def)
  show "follows lv F s (fst (snd (seed_orderbook (lv_env lv) snap s w)))" by (rule ev [of "SeedEv snap" w]) (simp_all add: reported_def)
  show "follows lv F s (fst (snd (cancel_preexisting_orders (lv_env lv) ords s w)))"
    by (rule ev [of "PreexistingEv ords" w]) (simp_all add: reported_def)
  show "follows lv F s (run_portfolio_risk s)" by (rule ev [of PortfolioRiskEv w]) (simp_all add: reported_def)
  show "follows lv F s (s\<lparr>ts_quoter := set_reduce_only b (ts_quoter s)\<rparr>)" by (rule ev [of "WindDownEv b" w]) (simp_all add: reported_def)
qed

lemma follows_risk: "risk_set_or_clear b ev \<Longrightarrow> reported lv F ev" "rotation_event ev \<Longrightarrow> reported lv F ev"
  "flatten_event (lv_account lv) ev \<Longrightarrow> reported lv F ev"
  by (auto simp: risk_set_or_clear_def rotation_event_def flatten_event_def reported_def)

lemma follows_set_clear:
  "follows lv F s (ts_rm_update (set_constraint b) s)" "follows lv F s (ts_rm_update (clear_constraint b) s)"
  by (rule follows_mono [OF set_clear_drives(1)], erule follows_risk) (rule follows_mono [OF set_clear_drives(2)], erule follows_risk)

lemma follows_staleness [follows_intros]: "follows lv F s (check_ws_staleness now c s)"
  by (simp add: check_ws_staleness_def follows_set_clear)

lemma follows_backfill:
  assumes "backfill_fills (lv_account lv) m a s w = Some (r, a', s', w')"
  shows "follows lv F s s'"
proof -
  have "follows lv F s s'" if "ac_get_fills (lv_account lv) m w = Some (Inr fs, w'')" "backfill_loop fs 0 a s = (r, a', s')" for fs w''
    by (rule follows_mono [OF backfill_loop_drives [OF that(2) subset_refl]])
      (use that(1) in \<open>unfold fill_given_def reported_def reported_fill_def, fastforce\<close>)
  then show ?thesis
    using assms by (auto simp: backfill_fills_def split: option.splits sum.splits exn.splits prod.splits)
qed

text \<open>The engine next to the world: an effect on it drives the session.\<close>

definition engine_follows :: "('j, 't, 'w) live \<Rightarrow> 't set \<Rightarrow> engine \<times> 'w \<Rightarrow> engine \<times> 'w \<Rightarrow> bool" where
  "engine_follows lv F a b = follows lv F (en_session (fst a)) (en_session (fst b))"

lemma engine_follows_refl [simp, intro]: "engine_follows lv F a a"
  by (simp add: engine_follows_def)

lemma engine_follows_trans [trans]: "engine_follows lv F a b \<Longrightarrow> engine_follows lv F b c \<Longrightarrow> engine_follows lv F a c"
  unfolding engine_follows_def by (rule follows_trans)

lemma on_engine_follows: "(\<And>s w. follows lv F s (fst (snd (f s w)))) \<Longrightarrow> engine_follows lv F st (snd (on_engine f st))"
  by (simp add: on_engine_def engine_follows_def case_prod_beta Let_def)

lemma fill_received_follows: "reported_fill lv F f \<Longrightarrow> engine_follows lv F st (snd (fill_received f st))"
  using follows_handlers(3) [of lv F f]
  by (simp add: fill_received_def engine_follows_def case_prod_beta Let_def)

lemma reconnect_backfill_follows: "reconnect_backfill (lv_account lv) m st = Some (r, st') \<Longrightarrow> engine_follows lv F st st'"
  by (auto simp: reconnect_backfill_def engine_follows_def Let_def split: option.splits prod.splits dest: follows_backfill)

abbreviation wse_of :: "('j, 't, 'w) live \<Rightarrow> ('j, 't, engine \<times> 'w) ws_env" where
  "wse_of lv \<equiv> engine_ws (lv_ws_env lv)"

abbreviation cbs_of :: "('j, 't, 'w) live \<Rightarrow> (engine \<times> 'w) ws_callbacks" where
  "cbs_of lv \<equiv> live_callbacks (lv_env lv)"

lemma engine_ws_simps [simp]:
  "we_json (engine_ws wse) = we_json wse" "ws_send (engine_ws wse) t ew = (fst ew, ws_send wse t (snd ew))"
  "ws_request_close (engine_ws wse) ew = (fst ew, ws_request_close wse (snd ew))"
  "fst (snd (we_steady_now (engine_ws wse) ew)) = fst ew"
  by (simp_all add: engine_ws_def case_prod_beta Let_def)

interpretation live_feed: feed_world "wse_of lv" "cbs_of lv" F "engine_follows lv F" for lv :: "('j, 't, 'w) live" and F
proof
  have same: "fst b = fst a \<Longrightarrow> engine_follows lv F a b" for a b :: "engine \<times> 'w" by (simp add: engine_follows_def)
  show "engine_follows lv F w w" for w by simp
  show "engine_follows lv F a b \<Longrightarrow> engine_follows lv F b c \<Longrightarrow> engine_follows lv F a c" for a b c by (rule engine_follows_trans)
  show "engine_follows lv F w (snd (we_steady_now (wse_of lv) w))" "engine_follows lv F w (ws_send (wse_of lv) t w)"
    "engine_follows lv F w (ws_request_close (wse_of lv) w)" for w t by (rule same, simp)+
qed (auto simp: live_callbacks_def reported_fill_def intro!: on_engine_follows follows_handlers fill_received_follows split: prod.splits)

lemmas handle_message_follows = live_feed.frame_world
lemmas handle_heartbeat_follows = live_feed.heartbeat_world
lemmas handle_connect_follows = live_feed.connect_world
lemmas handle_disconnect_follows = live_feed.disconnect_world

lemma live_connect_follows: "live_connect lv s = Some (r, s') \<Longrightarrow> engine_follows lv F (snd s) (snd s')"
  using handle_connect_follows [of lv F s]
  by (auto simp: live_connect_def split: prod.splits sum.splits if_splits option.splits
    dest!: reconnect_backfill_follows intro: engine_follows_trans)

text \<open>The whole program, by its session.\<close>

definition goes :: "('j, 't, 'w) live \<Rightarrow> 't set \<Rightarrow> program \<times> 'w \<Rightarrow> program \<times> 'w \<Rightarrow> bool" where
  "goes lv F a b = follows lv F (en_session (pg_engine (fst a))) (en_session (pg_engine (fst b)))"

lemma goes_refl [simp, intro]: "goes lv F a a"
  by (simp add: goes_def)

lemma goes_trans [trans]: "goes lv F a b \<Longrightarrow> goes lv F b c \<Longrightarrow> goes lv F a c"
  unfolding goes_def by (rule follows_trans)

lemma panic_terminate_cancel:
  "snd (snd (panic_terminate (live_process env) (s, w))) = snd (cancel_all_quotes env s w)"
proof -
  have "run_panic_handler (live_process env) (s, w) = (case cancel_all_quotes env s w of
      (Inl (Abort what), sw') \<Rightarrow> (Inl (Abort what), (live_process env)\<lparr>panicking := True\<rparr>, sw')
    | (_, sw') \<Rightarrow> (Inr (), (live_process env)\<lparr>panicking := True\<rparr>, sw'))"
    by (simp add: run_panic_handler_def live_process_def install_crash_flatten_handlers_def set_panic_handler_def
      new_process_def panic_cancel_def split: prod.split sum.split exn.split)
  moreover have "run_panic_handler ((live_process env)\<lparr>panicking := True\<rparr>) sw = (Inr (), (live_process env)\<lparr>panicking := True\<rparr>, sw)" for sw
    by (simp add: run_panic_handler_def)
  moreover have "crash_hooks (live_process env)" by (simp add: live_process_def install_crash_flatten_handlers_def)
  ultimately show ?thesis
    by (simp add: panic_terminate_def std_abort_def handle_fatal_signal_def split: prod.split sum.split exn.split)
qed

lemma crash_eq: "crash env (p, w) =
   (let (r, s', w') = cancel_all_quotes env (en_session (pg_engine p)) w
    in (p\<lparr>pg_engine := (pg_engine p)\<lparr>en_session := s'\<rparr>, pg_phase := Died\<rparr>, w'))"
  by (simp add: crash_def panic_terminate_cancel case_prod_beta Let_def)

lemma crash_goes: "goes lv F st (crash (lv_env lv) st)"
  by (cases st) (simp add: crash_eq goes_def case_prod_beta Let_def follows_handlers)

lemma feed_event_goes:
  assumes "feed_event lv f st = Some st'"
    and "\<And>s r s'. f s = Some (r, s') \<Longrightarrow> engine_follows lv F (snd s) (snd s')"
  shows "goes lv F st st'"
proof -
  obtain r c' e' w' where f: "f (pg_ws (fst st), (pg_engine (fst st), snd st)) = Some (r, (c', (e', w')))"
    using assms(1) by (auto simp: feed_event_def split: option.splits)
  let ?st = "((fst st)\<lparr>pg_ws := c', pg_engine := e'\<rparr>, w')"
  have "goes lv F st ?st" using assms(2) [OF f] by (simp add: goes_def engine_follows_def)
  moreover have "st' = ?st \<or> st' = crash (lv_env lv) ?st"
    using assms(1) f by (auto simp: feed_event_def Let_def split: sum.splits)
  ultimately show ?thesis using crash_goes goes_trans by metis
qed

text \<open>An effect of the main thread.\<close>

definition acts :: "('s \<Rightarrow> 's \<Rightarrow> bool) \<Rightarrow> ('a, 's) paged \<Rightarrow> bool" where
  "acts R f \<longleftrightarrow> (\<forall>st r st'. f st = Some (r, st') \<longrightarrow> R st st')"

lemma actsD: "acts R f \<Longrightarrow> f st = Some (r, st') \<Longrightarrow> R st st'"
  unfolding acts_def by blast

lemma acts_bind: "transp R \<Longrightarrow> acts R f \<Longrightarrow> acts R g \<Longrightarrow> acts R (bind_paged f (\<lambda>_. g))"
  unfolding acts_def by (auto simp: bind_paged_def split: option.splits sum.splits prod.splits) (metis transpD)

abbreviation act_goes :: "('j, 't, 'w) live \<Rightarrow> 't set \<Rightarrow> (unit, program \<times> 'w) paged \<Rightarrow> bool" where
  "act_goes lv F \<equiv> acts (goes lv F)"

lemma transp_goes: "transp (goes lv F)"
  by (rule transpI) (rule goes_trans)

lemma on_program_goes: "(\<And>s w. follows lv F s (fst (snd (f s w)))) \<Longrightarrow> act_goes lv F (on_program f)"
  using on_engine_follows [of lv F f]
  by (auto simp: acts_def on_program_def goes_def engine_follows_def case_prod_beta Let_def)

lemma tick_goes:
  "act_goes lv F (tick_rotate lv)" "act_goes lv F (tick_staleness lv)" "act_goes lv F tick_portfolio" "act_goes lv F (tick_reconcile lv)"
proof -
  show "act_goes lv F (tick_rotate lv)"
    by (auto simp: acts_def tick_rotate_def goes_def Let_def split: if_splits option.splits
      intro!: follows_mono [OF rotate_markets_drives follows_risk(2)])
  have "act_goes lv F (on_program (\<lambda>s w. let (now, w') = steady_now (lv_env lv) w
      in requote_idle_markets (lv_env lv) (check_ws_staleness now c s) w'))" for c
    by (rule on_program_goes) (auto simp: case_prod_beta Let_def intro: follows_trans follows_staleness follows_handlers)
  then show "act_goes lv F (tick_staleness lv)" by (auto simp: acts_def tick_staleness_def)
  have "act_goes lv F (on_program (\<lambda>s w. (Inr (), run_portfolio_risk s, w)))"
    by (rule on_program_goes) (simp add: follows_handlers)
  then show "act_goes lv F tick_portfolio" by (auto simp: acts_def tick_portfolio_def)
  show "act_goes lv F (tick_reconcile lv)"
    unfolding acts_def
  proof (intro allI impI)
    fix st r st' assume "tick_reconcile lv st = Some (r, st')"
    moreover have "follows lv F (en_session e) (en_session e')"
      if "reconcile_passes (lv_account lv) \<lparr>ref_om = \<lambda>e. ts_om (en_session e),
          ref_rm = Some (\<lambda>e. ts_rm (en_session e), \<lambda>f. en_session_update (ts_rm_update f))\<rparr> tickers baseline
        (Some (\<lambda>e w. map_option (\<lambda>(r, advance, s', w'). (r, e\<lparr>en_session := s',
            en_last_fill := (case advance of Some t \<Rightarrow> t | None \<Rightarrow> en_last_fill e)\<rparr>, w'))
          (backfill_fills (lv_account lv) (lv_start_seconds lv) (Some (en_last_fill e)) (en_session e) w))) n first e w
        = Some (r, e', w')" for tickers baseline n first e w r e' w'
      unfolding follows_def
      by (rule reconcile_passes_drives [OF that])
        (auto simp: reconcile_halt_def reconcile_clear_def follows_set_clear simp flip: follows_def dest: follows_backfill)
    ultimately show "goes lv F st st'"
      by (auto simp: tick_reconcile_def reconcile_against_exchange_def Let_def goes_def split: if_splits option.splits)
  qed
qed

lemma poll_tick_goes: "act_goes lv F (poll_tick lv)"
proof -
  have "act_goes lv F (bind_paged (tick_rotate lv) (\<lambda>_. bind_paged (tick_staleness lv) (\<lambda>_. bind_paged tick_portfolio (\<lambda>_.
      bind_paged (on_program (enforce_quote_safety (lv_env lv))) (\<lambda>_. tick_reconcile lv)))))"
    by (intro acts_bind transp_goes tick_goes on_program_goes follows_handlers)
  then show ?thesis by (fastforce simp: acts_def poll_tick_def goes_def)
qed

lemma shutdown_sweep_follows: "follows lv F s (fst (snd (shutdown_sweep lv n s w)))"
proof (induction n arbitrary: s w)
  case (Suc n)
  have pre: "follows lv F s s'" if "cancel_preexisting_orders (lv_env lv) ords s w' = (r, s', w'')" for ords w' r s' w''
    using follows_handlers(10) [of lv F s ords w'] that by simp
  show ?case
    using Suc.IH
    by (auto simp: Let_def split: prod.split sum.split exn.split intro: pre follows_trans [OF pre])
qed simp

lemma shutdown_session_follows: "shutdown_session lv s w = Some (r, s', w') \<Longrightarrow> follows lv F s s'"
proof -
  assume res: "shutdown_session lv s w = Some (r, s', w')"
  obtain r1 s1 w1 where 1: "cancel_all_quotes (lv_env lv) s w = (r1, s1, w1)" by (metis prod_cases3)
  obtain r2 s2 w2 where 2: "shutdown_sweep lv kShutdownAttempts s1 w1 = (r2, s2, w2)" by (metis prod_cases3)
  have s1: "follows lv F s s1" using follows_handlers(6) [of lv F s w] 1 by simp
  then have s2: "follows lv F s s2" using follows_trans shutdown_sweep_follows [of lv F s1 kShutdownAttempts w1] 2 by simp
  have "follows lv F s2 s3" if "flatten_all_positions (lv_account lv) only (Some s2) w2 = Some (r3, so, w3)" "so = Some s3" for only r3 so w3 s3
    using flatten_all_drives [OF that(1), of "lv_env lv"] that(2) follows_risk(3) by (auto intro: follows_mono)
  then have "follows lv F s2 s'" if "shutdown_flatten lv s2 w2 = Some (r, s', w')"
    using that by (fastforce simp: shutdown_flatten_def split: option.splits)
  then show ?thesis
    using res s1 s2 by (auto simp: shutdown_session_def 1 2 split: sum.splits if_splits intro: follows_trans)
qed

lemma finish_goes: "finish lv code st = Some st' \<Longrightarrow> goes lv F st st'"
proof -
  assume fin: "finish lv code st = Some st'"
  obtain p w where st: "st = (p, w)" by fastforce
  obtain joined where j: "lv_join lv (stop (pg_ws p)) w = Some joined"
    using fin by (auto simp: finish_def st Let_def split: option.splits)
  then obtain r s' w' where sd: "shutdown_session lv (en_session (pg_engine p)) joined = Some (r, s', w')"
    using fin by (auto simp: finish_def st Let_def split: option.splits)
  let ?st = "(p\<lparr>pg_ws := stop (pg_ws p), pg_engine := (pg_engine p)\<lparr>en_session := s'\<rparr>\<rparr>, w')"
  have "goes lv F st ?st" using shutdown_session_follows [OF sd] by (simp add: goes_def st)
  moreover have "goes lv F ?st st'"
    using fin sd j crash_goes [of lv F ?st] by (auto simp: finish_def st Let_def goes_def split: sum.splits)
  ultimately show ?thesis by (rule goes_trans)
qed

lemma leave_loop_goes: "leave_loop lv st = Some st' \<Longrightarrow> goes lv F st st'"
proof -
  assume leave: "leave_loop lv st = Some st'"
  obtain p w where st: "st = (p, w)" by fastforce
  have reduce: "goes lv F (p, w) (p', w')" if "en_session (pg_engine p') = (en_session (pg_engine p))
      \<lparr>ts_quoter := set_reduce_only True (ts_quoter (en_session (pg_engine p)))\<rparr>" for p' w'
    using that by (simp add: goes_def follows_handlers)
  have fin: "goes lv F (p, w) st'" if "finish lv 0 (p', w') = Some st'" "goes lv F (p, w) (p', w')" for p' w'
    using goes_trans [OF that(2) finish_goes [OF that(1)]] .
  show ?thesis
    using leave unfolding leave_loop_def Let_def st
    by (auto split: prod.splits if_splits intro!: reduce elim!: fin finish_goes)
qed

lemma poll_goes: "poll lv st = Some st' \<Longrightarrow> goes lv F st st'"
proof -
  assume poll: "poll lv st = Some st'"
  have tick: "goes lv F st st1" if "poll_tick lv st = Some (r, st1)" for r st1
    using poll_tick_goes [of lv F] that unfolding acts_def by blast
  have world: "goes lv F st (fst st, w')" for w' by (simp add: goes_def)
  show ?thesis
  proof (cases "pg_phase (fst st)")
    case Trading
    then show ?thesis
      using poll leave_loop_goes [of lv st st' F]
      by (auto simp: poll_def split: if_splits option.splits sum.splits exn.splits
          intro: tick goes_trans [OF tick crash_goes] goes_trans [OF tick finish_goes])
  next
    case (WindingDown deadline)
    then show ?thesis
      using poll by (auto simp: poll_def Let_def split: if_splits prod.splits intro: world finish_goes goes_trans [OF world finish_goes])
  qed (use poll in \<open>auto simp: poll_def\<close>)
qed

lemma live_step_goes:
  assumes step: "live_step lv ev st = Some st'" and frames: "\<And>raw. ev = FrameEv raw \<Longrightarrow> raw \<in> F"
  shows "goes lv F st st'"
proof -
  obtain p w where st: "st = (p, w)" by fastforce
  show ?thesis
  proof (cases "is_running p")
    case True
    have step: "live_step lv ev (p, w) = Some st'" using step st by simp
    have feed: "goes lv F st st'" if "feed_event lv f (p, w) = Some st'" "\<And>s r s'. f s = Some (r, s') \<Longrightarrow> engine_follows lv F (snd s) (snd s')" for f
      using feed_event_goes [OF that] by (simp add: st)
    show ?thesis
    proof (cases ev)
      case (FrameEv raw)
      have "engine_follows lv F (snd s) (snd s')" if "paged_io (handle_message (wse_of lv) (cbs_of lv) raw) s = Some (r, s')" for s r s'
        using handle_message_follows [OF frames [OF FrameEv], of lv s] that by (simp add: paged_io_def)
      with step True show ?thesis by (intro feed [of "paged_io (handle_message (wse_of lv) (cbs_of lv) raw)"]) (simp_all add: FrameEv)
    next
      case HeartbeatEv
      have "engine_follows lv F (snd s) (snd s')" if "(\<lambda>st. Some (Inr (), handle_heartbeat (wse_of lv) st)) s = Some (r, s')" for s r s'
        using handle_heartbeat_follows [of lv F s] that by (simp add: paged_io_def)
      with step True show ?thesis by (intro feed [of "(\<lambda>st. Some (Inr (), handle_heartbeat (wse_of lv) st))"]) (simp_all add: HeartbeatEv)
    next
      case ConnectEv
      with step True show ?thesis by (intro feed [of "live_connect lv"] live_connect_follows) simp_all
    next
      case CloseEv
      have "engine_follows lv F (snd s) (snd s')" if "paged_io (handle_disconnect (cbs_of lv)) s = Some (r, s')" for s r s'
        using handle_disconnect_follows [of lv F s] that by (simp add: paged_io_def)
      with step True show ?thesis by (intro feed [of "paged_io (handle_disconnect (cbs_of lv))"]) (simp_all add: CloseEv)
    qed (use step True poll_goes [of lv st st' F] in \<open>auto simp: goes_def st\<close>)
  qed (use step in \<open>simp add: st Let_def\<close>)
qed

lemma live_run_goes: "live_run lv evs st = Some st' \<Longrightarrow> {raw. FrameEv raw \<in> set evs} \<subseteq> F \<Longrightarrow> goes lv F st st'"
proof (induction evs arbitrary: st)
  case (Cons ev evs)
  then obtain st1 where st1: "live_step lv ev st = Some st1" "live_run lv evs st1 = Some st'" by (cases "live_step lv ev st") auto
  have "goes lv F st st1" using st1(1) Cons.prems(2) by (auto intro: live_step_goes)
  moreover have "goes lv F st1 st'" using Cons.prems(2) by (auto intro: Cons.IH [OF st1(2)])
  ultimately show ?case by (rule goes_trans)
qed simp

lemma bind_paged_Inr: "bind_paged f g w = Some (Inr y, w') \<longleftrightarrow> (\<exists>x w1. f w = Some (Inr x, w1) \<and> g x w1 = Some (Inr y, w'))"
  by (auto simp: bind_paged_def split: option.split sum.split)

lemma io_Inr:
  "paged_io m w = Some (Inr y, w') \<longleftrightarrow> m w = (Inr y, w')" "lift_read f w = (Inr x, w') \<longleftrightarrow> f w = (x, w')"
  "return_io x w = (Inr x', w') \<longleftrightarrow> x = x' \<and> w = w'"
  by (auto simp: paged_io_def lift_read_def return_io_def split: prod.splits)

lemma seed_market_follows: "follows lv F (fst st) (fst (snd (seed_market (lv_env lv) md wse tk st)))"
proof (cases st)
  case (fields s c w)
  have "follows lv F s s'" if "seed_orderbook (lv_env lv) snap s w' = (r, s', w'')" for snap w' r s' w''
    using follows_handlers(9) [of lv F s snap w'] that by simp
  then show ?thesis
    by (auto simp: fields seed_market_def catch_io_def return_io_def Let_def split: prod.splits sum.splits exn.splits)
qed

lemma seed_markets_follows: "follows lv F (fst st) (fst (snd (seed_markets (lv_env lv) md wse tks st)))"
proof (induction tks arbitrary: st)
  case (Cons tk tks)
  have one: "follows lv F (fst st) (fst st1)" if "seed_market (lv_env lv) md wse tk st = (r, st1)" for r st1
    using seed_market_follows [of lv F st md wse tk] that by simp
  obtain r st1 where Pair: "seed_market (lv_env lv) md wse tk st = (r, st1)" by (cases "seed_market (lv_env lv) md wse tk st")
  from follows_trans [OF one [OF Pair] Cons.IH] one [OF Pair] show ?case by (cases r) (simp_all add: Pair)
qed (simp add: return_io_def)

lemma cancel_stale_follows: "cancel_stale lv tickers s w = (r, s', w') \<Longrightarrow> follows lv F s s'"
proof -
  have "follows lv F s s'" if "cancel_preexisting_orders (lv_env lv) ords s w' = (r, s', w'')" for ords w' r s' w''
    using follows_handlers(10) [of lv F s ords w'] that by simp
  then show "cancel_stale lv tickers s w = (r, s', w') \<Longrightarrow> follows lv F s s'"
    by (auto simp: cancel_stale_def split: prod.splits sum.splits exn.splits)
qed

lemma bind_paged_obtain:
  assumes "bind_paged f g w = Some (Inr y, w')"
  obtains x w1 where "f w = Some (Inr x, w1)" and "g x w1 = Some (Inr y, w')"
  using assms by (auto simp: bind_paged_Inr)

lemma start_program_follows:
  assumes "start_program lv tickers prior w = Some (Inr (lv', p), w')"
  shows "follows lv F (live_session (lv_config lv) tickers prior) (en_session (pg_engine p)) \<and> pg_phase p = Trading
    \<and> (\<exists>baseline started. lv' = lv\<lparr>lv_baseline := baseline, lv_start_seconds := started\<rparr>)"
proof -
  let ?s0 = "live_session (lv_config lv) tickers prior"
  from assms show ?thesis
    unfolding start_program_def
  proof (elim bind_paged_obtain)
    fix now w1 s1 w2 baseline w3 started w4 sc w5 last_fill w6
    assume cancel: "startup_cancel lv tickers ?s0 w1 = Some (Inr s1, w2)"
      and seed: "startup_seed lv tickers s1 (new_ws_client now) w4 = Some (Inr sc, w5)"
      and rest: "(case sc of (s2, c) \<Rightarrow> bind_paged (paged_io (lift_read (system_now (lv_env lv)))) (\<lambda>last_fill.
        paged_io (return_io (lv\<lparr>lv_baseline := baseline, lv_start_seconds := started sdiv kNanosPerSecond\<rparr>,
         \<lparr>pg_engine = \<lparr>en_session = s2, en_last_fill = last_fill\<rparr>, pg_ws = c, pg_poll_count = 0, pg_shutdown = False,
          pg_phase = Trading\<rparr>)))) w5 = Some (Inr (lv', p), w')"
    have "follows lv F ?s0 s1"
      using cancel by (auto simp: startup_cancel_def split: if_splits prod.splits sum.splits dest: cancel_stale_follows)
    moreover have "follows lv F s1 (fst sc)"
      using seed seed_markets_follows [of lv F "(s1, new_ws_client now, w4)" "lv_market lv" "lv_ws_env lv" tickers]
      by (auto simp: startup_seed_def split: prod.splits sum.splits)
    ultimately have "follows lv F ?s0 (fst sc)" by (rule follows_trans)
    then show ?thesis using rest by (auto simp: bind_paged_Inr io_Inr split: prod.splits)
  qed
qed

lemma reported_frame:
  "reported (lv\<lparr>lv_config := cf\<rparr>) F = reported lv F" "reported (lv\<lparr>lv_baseline := b, lv_start_seconds := n\<rparr>) F = reported lv F"
  by (simp_all add: fun_eq_iff reported_def reported_fill_def split: session_event.split)

lemma follows_frame:
  "follows (lv\<lparr>lv_config := cf\<rparr>) F = follows lv F" "follows (lv\<lparr>lv_baseline := b, lv_start_seconds := n\<rparr>) F = follows lv F"
  by (simp_all add: fun_eq_iff follows_def reported_frame)

lemma boot_follows:
  assumes "boot lv0 prior w = Some (Inr (Some (lv, p)), w')"
  obtains tickers b n where "lv = lv0\<lparr>lv_config := (lv_config lv0)\<lparr>cf_target_tickers := tickers\<rparr>, lv_baseline := b, lv_start_seconds := n\<rparr>"
    and "follows lv F (live_session (lv_config lv) tickers prior) (en_session (pg_engine p))" and "pg_phase p = Trading"
proof -
  obtain tickers w1 where st: "start_program (lv0\<lparr>lv_config := (lv_config lv0)\<lparr>cf_target_tickers := tickers\<rparr>\<rparr>) tickers prior w1 = Some (Inr (lv, p), w')"
    using assms by (auto simp: boot_def bind_paged_Inr io_Inr split: if_splits)
  from start_program_follows [OF st, of F] show thesis by (auto simp: follows_frame intro: that)
qed

end
