(* ===== verification/Config_Correct.thy ===== *)
theory Config_Correct
  imports App_Config
begin

text \<open>What reading the configuration guarantees.\<close>

section \<open>Round trip\<close>

definition render_quoter :: "('j, 't) json_ops \<Rightarrow> quoter_config \<Rightarrow> 'j" where
  "render_quoter js q = js_object js
     [(''target_spread_cents'', js_int js (target_spread_cents q)),
      (''reprice_threshold_cents'', js_int js (reprice_threshold_cents q)),
      (''quote_size'', js_int js (quote_size q)), (''imbalance_spread_cents'', js_int js (imbalance_spread_cents q)),
      (''min_spread_cents'', js_int js (min_spread_cents q)), (''min_rest_ms'', js_int js (min_rest_ms q)),
      (''theo_jump_cents'', js_int js (theo_jump_cents q)), (''fade_rest_ms'', js_int js (fade_rest_ms q)),
      (''longshot_price_threshold_cents'', js_int js (longshot_price_threshold_cents q)),
      (''longshot_edge_cents'', js_int js (longshot_edge_cents q)), (''fv_ema_alpha'', js_real js (fv_ema_alpha q)),
      (''winddown_seconds'', js_int js (winddown_seconds q)), (''flow_lean_cents'', js_real js (flow_lean_cents q)),
      (''use_clearing_pricing'', js_bool js (use_clearing_pricing q)),
      (''clearing_tape_weight'', js_real js (clearing_tape_weight q)),
      (''tape_half_life_seconds'', js_int js (tape_half_life_seconds q)),
      (''inventory_cap_lots'', js_int js (inventory_cap_lots q)), (''unwind_edge_cents'', js_real js (unwind_edge_cents q)),
      (''use_view_based_pricing'', js_bool js (use_view_based_pricing q)),
      (''view_debias_beta'', js_real js (view_debias_beta q)), (''maker_fee_rate'', js_real js (maker_fee_rate q))]"

definition render_flow :: "('j, 't) json_ops \<Rightarrow> flow_config \<Rightarrow> 'j" where
  "render_flow js f = js_object js
     [(''window_seconds'', js_int js (fc_window_seconds f)),
      (''imbalance_ratio_threshold'', js_real js (fc_imbalance_ratio_threshold f)),
      (''min_flow_volume'', js_int js (fc_min_flow_volume f))]"

definition render_risk :: "('j, 't) json_ops \<Rightarrow> risk_limits \<Rightarrow> 'j" where
  "render_risk js r = js_object js
     [(''max_position_per_market'', js_int js (max_position_per_market r)),
      (''max_open_orders_per_market'', js_int js (max_open_orders_per_market r)),
      (''max_order_size'', js_int js (max_order_size r)), (''daily_loss_limit'', js_real js (daily_loss_limit r)),
      (''max_total_exposure_dollars'', js_real js (max_total_exposure_dollars r)),
      (''max_total_loss_dollars'', js_real js (max_total_loss_dollars r)),
      (''min_quote_price_cents'', js_int js (min_quote_price_cents r)),
      (''max_quote_price_cents'', js_int js (max_quote_price_cents r)),
      (''max_drawdown_dollars'', js_real js (max_drawdown_dollars r))]"

definition render_scanner :: "('j, 't) json_ops \<Rightarrow> scanner_config \<Rightarrow> 'j" where
  "render_scanner js s = js_object js
     [(''min_price_cents'', js_int js (sn_min_price_cents s)), (''max_price_cents'', js_int js (sn_max_price_cents s)),
      (''min_spread_cents'', js_int js (sn_min_spread_cents s)), (''max_spread_cents'', js_int js (sn_max_spread_cents s)),
      (''min_volume_24h'', js_real js (sn_min_volume_24h s)), (''trade_top_n'', js_int js (sn_trade_top_n s)),
      (''min_days_to_close'', js_real js (sn_min_days_to_close s)),
      (''max_days_to_close'', js_real js (sn_max_days_to_close s)),
      (''max_stale_trade_minutes'', js_int js (sn_max_stale_trade_minutes s)),
      (''rotation_minutes'', js_int js (sn_rotation_minutes s)),
      (''min_trades_per_hour'', js_int js (sn_min_trades_per_hour s)),
      (''min_trade_price_range_cents'', js_int js (sn_min_trade_price_range_cents s)),
      (''tape_range_lookback_minutes'', js_int js (sn_tape_range_lookback_minutes s)),
      (''min_minority_flow_ratio'', js_real js (sn_min_minority_flow_ratio s)),
      (''min_reversion_kappa'', js_real js (sn_min_reversion_kappa s)),
      (''reversion_window_minutes'', js_int js (sn_reversion_window_minutes s))]"

text \<open>The document of all the settings but the two secrets, and the secrets' own.\<close>

definition config_fields :: "('j, 't) json_ops \<Rightarrow> app_config \<Rightarrow> (string \<times> 'j) list" where
  "config_fields js cf =
     [(''base_url'', js_string js (cf_base_url cf)), (''ws_url'', js_string js (cf_ws_url cf)),
      (''log_dir'', js_string js (cf_log_dir cf)), (''pnl_state_path'', js_string js (cf_pnl_state_path cf)),
      (''account_wide_janitorial'', js_bool js (cf_account_wide_janitorial cf)),
      (''record_sessions'', js_bool js (cf_record_sessions cf)),
      (''target_tickers'', js_array js (map (js_string js) (cf_target_tickers cf))),
      (''quoter'', render_quoter js (cf_quoter cf)), (''flow'', render_flow js (cf_flow cf)),
      (''risk'', render_risk js (cf_risk cf)), (''scanner'', render_scanner js (cf_scanner cf))]"

definition secret_fields :: "('j, 't) json_ops \<Rightarrow> app_config \<Rightarrow> (string \<times> 'j) list" where
  "secret_fields js cf = [(''api_key'', js_string js (cf_api_key cf)), (''private_key_path'', js_string js (cf_private_key_path cf))]"

lemma section_reads_back:
  assumes "json_reads_back js"
  shows "load_quoter js (render_quoter js q) = Inr q" "load_risk js (render_risk js r) = Inr r"
    "load_flow js n (render_flow js f) = Inr f"
    "sn_incentive_weight s = sn_incentive_weight default_scanner_config \<Longrightarrow> sn_event_series s = [] \<Longrightarrow>
       load_scanner js (render_scanner js s) = Inr s"
  by (simp_all add: load_quoter_def render_quoter_def load_risk_def render_risk_def load_flow_def render_flow_def
    load_scanner_def render_scanner_def value_or_def json_reads_backD [OF assms] Let_def default_scanner_config_def)

lemma get_strings_reads_back:
  assumes "json_reads_back js"
  shows "get_strings js (js_array js (map (js_string js) ss)) = Inr ss"
proof -
  have "map_result (js_get_string js) (map (js_string js) ss) = Inr ss"
    by (induction ss) (simp_all add: json_reads_backD [OF assms])
  then show ?thesis by (simp add: get_strings_def json_reads_backD [OF assms])
qed

lemma config_of_reads_back:
  assumes js: "json_reads_back js"
    and "sn_incentive_weight (cf_scanner cf) = sn_incentive_weight default_scanner_config" "sn_event_series (cf_scanner cf) = []"
    and kvs: "map_of kvs = map_of (config_fields js cf @ rest)"
    and secrets: "\<And>k v. k \<in> {''api_key'', ''private_key_path''} \<Longrightarrow> map_of (secret_fields js cf) k = Some v \<Longrightarrow>
      (case map_of ss k of None \<Rightarrow> map_of rest k | Some v' \<Rightarrow> Some v') = Some v"
    and "map_of ss ''base_url'' = None" "map_of ss ''ws_url'' = None"
  shows "config_of js (js_object js ss) (js_object js kvs) = Inr (hold_to_band cf)"
proof -
  note rb = json_reads_backD [OF js]
  have at: "js_at js (js_object js xs) k = Inr v" if "map_of xs k = Some v" for xs k v
    using rb(9) that by blast
  have kv: "map_of kvs k = (case map_of (config_fields js cf) k of None \<Rightarrow> map_of rest k | Some v \<Rightarrow> Some v)" for k
    by (simp only: kvs map_of_append map_add_def)
  have key: "require_layered js (js_get_string js) (js_object js ss) (js_object js kvs) k = Inr s"
    if "map_of (secret_fields js cf) k = Some (js_string js s)" "k \<in> {''api_key'', ''private_key_path''}" for k s
  proof -
    have "map_of (config_fields js cf) ''api_key'' = None" "map_of (config_fields js cf) ''private_key_path'' = None"
      by (simp_all add: config_fields_def)
    with that(2) have "map_of (config_fields js cf) k = None" by (elim insertE emptyE) simp_all
    then have "map_of kvs k = map_of rest k" by (simp only: kv option.case)
    then show ?thesis
      using secrets [OF that(2,1)] at [of ss k] at [of kvs k]
      by (cases "map_of ss k") (simp_all add: require_layered_def require_field_def rb)
  qed
  have fields: "map_of kvs k = Some v" if "map_of (config_fields js cf) k = Some v" for k v
    by (simp only: kv that option.case)
  have named: "map_of (config_fields js cf) ''base_url'' = Some (js_string js (cf_base_url cf))"
    "map_of (config_fields js cf) ''ws_url'' = Some (js_string js (cf_ws_url cf))"
    "map_of (config_fields js cf) ''log_dir'' = Some (js_string js (cf_log_dir cf))"
    "map_of (config_fields js cf) ''pnl_state_path'' = Some (js_string js (cf_pnl_state_path cf))"
    "map_of (config_fields js cf) ''account_wide_janitorial'' = Some (js_bool js (cf_account_wide_janitorial cf))"
    "map_of (config_fields js cf) ''record_sessions'' = Some (js_bool js (cf_record_sessions cf))"
    "map_of (config_fields js cf) ''target_tickers'' = Some (js_array js (map (js_string js) (cf_target_tickers cf)))"
    "map_of (config_fields js cf) ''quoter'' = Some (render_quoter js (cf_quoter cf))"
    "map_of (config_fields js cf) ''flow'' = Some (render_flow js (cf_flow cf))"
    "map_of (config_fields js cf) ''risk'' = Some (render_risk js (cf_risk cf))"
    "map_of (config_fields js cf) ''scanner'' = Some (render_scanner js (cf_scanner cf))"
    by (simp_all add: config_fields_def)
  have k: "map_of (secret_fields js cf) ''api_key'' = Some (js_string js (cf_api_key cf))"
    "map_of (secret_fields js cf) ''private_key_path'' = Some (js_string js (cf_private_key_path cf))"
    by (simp_all add: secret_fields_def)
  note read = named [THEN fields] named [THEN fields, THEN at]
  show ?thesis
    by (simp add: config_of_def key [OF k(1)] key [OF k(2)] layered_value_def value_or_def section_or_def read rb
      get_strings_reads_back [OF js] section_reads_back [OF js] assms(2,3,6,7))
      (rule arg_cong [where f = hold_to_band], cases cf, simp)
qed

lemma load_reads_back:
  assumes js: "json_reads_back js"
    and "sn_incentive_weight (cf_scanner cf) = sn_incentive_weight default_scanner_config" "sn_event_series (cf_scanner cf) = []"
    and doc: "read_file path = Some (js_dump js (js_object js (config_fields js cf @ secret_fields js cf)))"
  shows "load_config js read_file path = Inr (hold_to_band cf)"
proof -
  have "map_of (config_fields js cf) ''secrets_path'' = None" "map_of (secret_fields js cf) ''secrets_path'' = None"
    by (simp_all add: config_fields_def secret_fields_def)
  moreover have "config_of js (js_object js []) (js_object js (config_fields js cf @ secret_fields js cf)) = Inr (hold_to_band cf)"
    by (rule config_of_reads_back [OF js assms(2,3) refl]) simp_all
  ultimately show ?thesis
    using doc by (simp add: load_config_def load_secrets_def json_reads_backD [OF js] map_add_def)
qed

text \<open>
  C39. Configuration round trip: a file written with every setting reads back as these settings with
  the scanner held to the quotable band, each under its own name; and with the two secrets moved
  into a secrets file beside it, whatever the main file says of them, as the same settings.
\<close>

theorem config_roundtrip:
  assumes js: "json_reads_back js"
    and "sn_incentive_weight (cf_scanner cf) = sn_incentive_weight default_scanner_config" "sn_event_series (cf_scanner cf) = []"
  shows "(read_file path = Some (js_dump js (js_object js (config_fields js cf @ secret_fields js cf))) \<longrightarrow>
      load_config js read_file path = Inr (hold_to_band cf))
    \<and> (read_file path = Some (js_dump js (js_object js (config_fields js cf @ (''secrets_path'', js_string js p) # rest)))
      \<and> read_file (secrets_file path p) = Some (js_dump js (js_object js (secret_fields js cf))) \<longrightarrow>
      load_config js read_file path = Inr (hold_to_band cf))"
proof -
  note rb = json_reads_backD [OF js]
  have none: "map_of (config_fields js cf) ''secrets_path'' = None" "map_of (secret_fields js cf) ''secrets_path'' = None"
    by (simp_all add: config_fields_def secret_fields_def)
  note one = load_reads_back [OF assms, of read_file path]
  have two: "load_config js read_file path = Inr (hold_to_band cf)"
    if "read_file path = Some (js_dump js (js_object js (config_fields js cf @ (''secrets_path'', js_string js p) # rest)))"
      "read_file (secrets_file path p) = Some (js_dump js (js_object js (secret_fields js cf)))"
  proof -
    have "config_of js (js_object js (secret_fields js cf)) (js_object js (config_fields js cf @ (''secrets_path'', js_string js p) # rest))
       = Inr (hold_to_band cf)"
      by (rule config_of_reads_back [OF js assms(2,3) refl]) (simp_all add: secret_fields_def)
    moreover have "map_of (config_fields js cf @ (''secrets_path'', js_string js p) # rest) ''secrets_path'' = Some (js_string js p)"
      using none(1) by (simp add: map_add_def)
    ultimately show ?thesis
      using that rb(9) by (simp add: load_config_def load_secrets_def rb(1,3,5) get_str_def)
  qed
  from one two show ?thesis by blast
qed

definition demo_config :: app_config where
  "demo_config = \<lparr>cf_api_key = ''k'', cf_private_key_path = ''key.pem'', cf_base_url = ''https://x/v2'', cf_ws_url = ''wss://x/v2'',
     cf_log_dir = ''logs'', cf_pnl_state_path = ''pnl.json'', cf_account_wide_janitorial = False, cf_record_sessions = True,
     cf_target_tickers = [''M''], cf_quoter = default_quoter_config, cf_risk = default_risk_limits,
     cf_scanner = default_scanner_config\<lparr>sn_min_price_cents := 5\<rparr>, cf_flow = default_flow_config\<rparr>"

definition demo_files :: "string \<Rightarrow> json option" where
  "demo_files = [''etc/config.json'' \<mapsto> js_object tree_json (config_fields tree_json demo_config
       @ [(''secrets_path'', JString ''secrets.json''), (''api_key'', JString ''stale'')]),
     ''etc/secrets.json'' \<mapsto> js_object tree_json (secret_fields tree_json demo_config)]"

theorem config_roundtrip_witness:
  "load_config tree_json demo_files ''etc/config.json'' = Inr (hold_to_band demo_config)
   \<and> sn_min_price_cents (cf_scanner (hold_to_band demo_config)) = 12"
proof -
  have unread: "sn_incentive_weight (cf_scanner demo_config) = sn_incentive_weight default_scanner_config"
    "sn_event_series (cf_scanner demo_config) = []"
    by (simp_all add: demo_config_def default_scanner_config_def)
  have "secrets_file ''etc/config.json'' ''secrets.json'' = ''etc/secrets.json''"
    by (simp add: secrets_file_def is_relative_def join_path_def parent_path_def)
  moreover have "js_dump tree_json = id" "js_string tree_json = JString" by (simp_all add: tree_json_def)
  ultimately have "load_config tree_json demo_files ''etc/config.json'' = Inr (hold_to_band demo_config)"
    using config_roundtrip [OF tree_json_ok(2) unread, of demo_files "''etc/config.json''" "''secrets.json''"
      "[(''api_key'', JString ''stale'')]"] by (simp add: demo_files_def)
  then show ?thesis
    by (simp add: hold_to_band_def quotable_price_band_def demo_config_def default_quoter_config_def default_risk_limits_def
      default_scanner_config_def signed_divide_int_def)
qed

section \<open>The quotable band\<close>

lemma sdiv_2: "0 \<le> x \<Longrightarrow> x sdiv 2 = x div 2" "x \<le> 0 \<Longrightarrow> x sdiv 2 \<le> (0::int)"
  by (auto simp: signed_divide_int_def sgn_if)

lemma half_spread_gap:
  "max 1 (max (t sdiv 2) ((m + 1) sdiv 2)) \<le> max 1 (max (t sdiv 2) (m sdiv 2)) + (if even m \<or> m < t then 0 else (1::int))"
proof (cases "0 \<le> m")
  case True
  then have "(m + 1) sdiv 2 = (m + 1) div 2" "m sdiv 2 = m div 2" "0 \<le> t \<Longrightarrow> t sdiv 2 = t div 2" by (simp_all add: sdiv_2)
  then show ?thesis using True by (auto elim: evenE)
next
  case False
  then have "(m + 1) sdiv 2 \<le> 0" by (intro sdiv_2) simp
  then show ?thesis by auto
qed

lemma config_of_held: "config_of js secrets j = Inr cf \<Longrightarrow> \<exists>cf'. cf = hold_to_band cf'"
  by (auto simp: config_of_def bindE_eq_Inr)

text \<open>
  The scanner is held to markets the quoter can quote: at any middle price the loaded band admits,
  without a fee and an imbalance, both quotes one half spread away pass the risk manager's price
  gate when the larger of the two configured spreads is even, and miss it by at most one cent
  otherwise.
\<close>

theorem band_quotable:
  assumes "load_config js read_file path = Inr cf" and "maker_fee_rate (cf_quoter cf) \<le> 0"
    and "sn_min_price_cents (cf_scanner cf) \<le> mid" "mid \<le> sn_max_price_cents (cf_scanner cf)"
  shows "let h = half_spread_cents (cf_quoter cf) fv False; slack = (if even (min_spread_cents (cf_quoter cf))
        \<or> min_spread_cents (cf_quoter cf) < target_spread_cents (cf_quoter cf) then 0 else 1)
    in min_quote_price_cents (cf_risk cf) \<le> mid - h + slack \<and> mid + h - slack \<le> max_quote_price_cents (cf_risk cf)"
proof -
  obtain cf' where cf': "cf = hold_to_band cf'"
    using assms(1) by (auto simp: load_config_def bindE_eq_Inr split: option.splits dest!: config_of_held)
  define q where "q = cf_quoter cf"
  let ?h = "max 1 (max (target_spread_cents q sdiv 2) (min_spread_cents q sdiv 2))"
  have "min_quote_price_cents (cf_risk cf) + ?h \<le> sn_min_price_cents (cf_scanner cf)"
    "sn_max_price_cents (cf_scanner cf) \<le> max_quote_price_cents (cf_risk cf) - ?h"
    by (simp_all add: cf' q_def hold_to_band_def quotable_price_band_def Let_def)
  moreover have "half_spread_cents q fv False = max 1 (max (target_spread_cents q sdiv 2) ((min_spread_cents q + 1) sdiv 2))"
    using assms(2) by (simp add: half_spread_cents_def q_def kHalfSpreadMin_def)
  ultimately show ?thesis
    using half_spread_gap [of "target_spread_cents q" "min_spread_cents q"] assms(3,4)
    unfolding Let_def q_def [symmetric] by linarith
qed

definition odd_config :: app_config where
  "odd_config = demo_config\<lparr>cf_quoter := default_quoter_config\<lparr>min_spread_cents := 5\<rparr>\<rparr>"

theorem band_quotable_witness:
  "half_spread_cents (cf_quoter (hold_to_band odd_config)) 50 False = 3
   \<and> min_quote_price_cents (cf_risk (hold_to_band odd_config)) \<le> sn_min_price_cents (cf_scanner (hold_to_band odd_config)) - 3 + 1
   \<and> sn_min_price_cents (cf_scanner (hold_to_band odd_config)) - 3 < min_quote_price_cents (cf_risk (hold_to_band odd_config))"
proof -
  let ?file = "\<lambda>p::string. Some (js_object tree_json (config_fields tree_json odd_config @ secret_fields tree_json odd_config))"
  have "sn_incentive_weight (cf_scanner odd_config) = sn_incentive_weight default_scanner_config" "sn_event_series (cf_scanner odd_config) = []"
    by (simp_all add: odd_config_def demo_config_def default_scanner_config_def)
  then have load: "load_config tree_json ?file [] = Inr (hold_to_band odd_config)"
    by (intro load_reads_back [OF tree_json_ok(2)]) (simp_all add: tree_json_def)
  have eval: "cf_quoter (hold_to_band odd_config) = default_quoter_config\<lparr>min_spread_cents := 5\<rparr>"
    "sn_min_price_cents (cf_scanner (hold_to_band odd_config)) = 12" "sn_max_price_cents (cf_scanner (hold_to_band odd_config)) = 85"
    "min_quote_price_cents (cf_risk (hold_to_band odd_config)) = 10"
    "half_spread_cents (default_quoter_config\<lparr>min_spread_cents := 5\<rparr>) 50 False = 3"
    by (simp_all add: odd_config_def demo_config_def default_quoter_config_def default_risk_limits_def default_scanner_config_def
      hold_to_band_def quotable_price_band_def half_spread_cents_def kHalfSpreadMin_def signed_divide_int_def)
  have odd: "maker_fee_rate (default_quoter_config\<lparr>min_spread_cents := 5\<rparr>) = 0" "min_spread_cents (default_quoter_config\<lparr>min_spread_cents := 5\<rparr>) = 5"
    "target_spread_cents (default_quoter_config\<lparr>min_spread_cents := 5\<rparr>) = 4"
    by (simp_all add: default_quoter_config_def)
  then show ?thesis
    using band_quotable [OF load, of 12 50] by (simp only: eval odd Let_def) simp
qed

end
