(* ===== verification/Live_Correct.thy ===== *)
theory Live_Correct
  imports Main_Correct Config_Correct
begin

text \<open>
  The guarantees of the whole program, from startup through any run: its books are those of the
  fills it was told of, a halted poll and every way of stopping leave no quote, a signal ends it,
  and the profit file carries the totals into the next run.
\<close>

section \<open>The books of a run\<close>

abbreviation the_session :: "program \<Rightarrow> session" where
  "the_session p \<equiv> en_session (pg_engine p)"

abbreviation frames_of :: "('t, 'w) live_event list \<Rightarrow> 't set" where
  "frames_of evs \<equiv> {raw. FrameEv raw \<in> set evs}"

lemma run_ok:
  assumes "boot lv0 prior w = Some (Inr (Some (lv, p)), w1)" and "live_run lv evs (p, w1) = Some (p', w2)"
  obtains L where "session_ok (the_session p') L"
    and "\<And>f. f \<in> set (lg_fills L) \<Longrightarrow> reported_fill lv (frames_of evs) f \<or> (\<exists>ord. executed (lv_account lv) ord \<and> f = flatten_fill ord)"
proof -
  let ?F = "frames_of evs"
  obtain tickers where start: "follows lv ?F (live_session (lv_config lv) tickers prior) (the_session p)"
    using boot_follows [OF assms(1), of ?F] by metis
  have "goes lv ?F (p, w1) (p', w2)" by (rule live_run_goes [OF assms(2) subset_refl])
  with start have "drives (lv_env lv) (reported lv ?F) (live_session (lv_config lv) tickers prior) (the_session p')"
    unfolding goes_def follows_def [symmetric] by (auto intro: follows_trans)
  from drives_ok [OF this [unfolded live_session_def] new_session_ok]
  obtain L where L: "session_ok (the_session p') L"
      "set (lg_fills L) \<subseteq> set (lg_fills new_ledger) \<union> \<Union> (fill_of_event ` {ev. reported lv ?F ev})" by blast
  show thesis
  proof (rule that [OF L(1)])
    fix f assume "f \<in> set (lg_fills L)"
    then obtain ev where "f \<in> fill_of_event ev" "reported lv ?F ev" using L(2) by (auto simp: new_ledger_def)
    then show "reported_fill lv ?F f \<or> (\<exists>ord. executed (lv_account lv) ord \<and> f = flatten_fill ord)"
      by (auto simp: fill_of_event_def reported_def split: session_event.splits)
  qed
qed

text \<open>
  C1. The live program keeps the books: however startup went and whatever the feed, the exchange, the
  clocks and the operator did since, the order manager simulates a ledger of fills, every one of
  which a frame of this run carried, the exchange listed, or a flatten executed; no two open
  orders share an identifier; and no market's own bid and ask are crossed.
\<close>

theorem live_keeps_books:
  assumes "boot lv0 prior w = Some (Inr (Some (lv, p)), w1)" and "live_run lv evs (p, w1) = Some (p', w2)"
  shows "\<exists>L. simulates (ts_om (en_session (pg_engine p'))) L
    \<and> (\<forall>f \<in> set (lg_fills L). reported_fill lv {raw. FrameEv raw \<in> set evs} f
         \<or> (\<exists>ord. executed (lv_account lv) ord \<and> f = flatten_fill ord))
    \<and> keys_distinct (open_orders (ts_om (en_session (pg_engine p')))) \<and> quotes_uncrossed (ts_quoter (en_session (pg_engine p')))"
  using run_ok [OF assms] unfolding session_ok_def books_ok_def by metis

section \<open>Stopping without quotes\<close>

text \<open>The markets with a resting order, and a session none of whose markets has one.\<close>

definition resting :: "order_manager \<Rightarrow> ticker set" where
  "resting om = (o_market_ticker \<circ> snd) ` set (open_orders om)"

definition quotes_down :: "session \<Rightarrow> bool" where
  "quotes_down s \<longleftrightarrow> set (ts_tickers s) \<inter> resting (ts_om s) = {} \<and> own_quotes (ts_quoter s) = Map.empty"

lemma orders_of_resting: "orders_of tk om = [] \<longleftrightarrow> tk \<notin> resting om"
  by (force simp: orders_of_def resting_def filter_empty_conv)

lemma quotes_down_less:
  "quotes_down s \<Longrightarrow> ts_tickers s' = ts_tickers s \<Longrightarrow> ts_quoter s' = ts_quoter s \<Longrightarrow> resting (ts_om s') \<subseteq> resting (ts_om s)
    \<Longrightarrow> quotes_down s'"
  unfolding quotes_down_def by auto

lemma cancel_resting: "cancel api oid om w = (r, om', w') \<Longrightarrow> resting om' \<subseteq> resting om"
  using cancel_frame(1) [of api oid om w r om'] by (fastforce simp: resting_def AList.delete_eq)

lemma set_update_subset: "set (AList.update k v al) \<subseteq> insert (k, v) (set al)"
  by (induction al) auto

lemma record_fill_resting: "resting (snd (record_fill f om)) \<subseteq> resting om"
proof -
  have "(o_market_ticker \<circ> snd) ` set (apply_to_order f orders) \<subseteq> (o_market_ticker \<circ> snd) ` set orders" for orders
  proof (cases "map_of orders (f_order_id f)")
    case (Some ord)
    then have "(f_order_id f, ord) \<in> set orders" by (rule map_of_SomeD)
    then show ?thesis
      by (auto simp: apply_to_order_def Some Let_def AList.delete_eq image_iff dest!: subsetD [OF set_update_subset] split: if_splits) force+
  qed (simp add: apply_to_order_def)
  then show ?thesis by (auto simp: record_fill_def resting_def Let_def split: prod.splits)
qed

lemma cancel_preexisting_down:
  "cancel_preexisting_orders env ords s w = (r, s', w') \<Longrightarrow> quotes_down s \<Longrightarrow> quotes_down s'"
proof (induction ords arbitrary: s w)
  case (Cons ord ords)
  obtain r1 om1 w1 where c: "cancel (env_api env) (o_id ord) (ts_om s) w = (r1, om1, w1)" by (metis prod_cases3)
  have "quotes_down (s\<lparr>ts_om := om1\<rparr>)"
    by (rule quotes_down_less [OF Cons.prems(2)]) (simp_all add: cancel_resting [OF c])
  then show ?case using Cons by (auto simp: c split: sum.splits exn.splits)
qed simp

lemma record_flatten_down: "quotes_down s \<Longrightarrow> quotes_down (snd (record_flatten ord s))"
proof (rule quotes_down_less)
  show "resting (ts_om (snd (record_flatten ord s))) \<subseteq> resting (ts_om s)"
    using record_fill_resting [of "flatten_fill ord" "ts_om s"]
    by (auto simp: record_flatten_def publish_pnl_def split: prod.splits sum.splits)
qed (auto simp: record_flatten_def publish_pnl_def split: prod.splits sum.splits)

lemma flatten_loop_down:
  "flatten_loop ac only ps n (Some s, w) = (r, so, w') \<Longrightarrow> quotes_down s \<Longrightarrow> \<exists>s'. so = Some s' \<and> quotes_down s'"
proof (induction ps arbitrary: n s w)
  case (Cons p ps)
  have down: "quotes_down s'" if "record_flatten ord s = (r', s')" for ord r' s'
    using record_flatten_down [OF Cons.prems(2), of ord] that by simp
  show ?case
    using Cons by (auto split: if_splits prod.splits sum.splits exn.splits intro: down dest: down)
qed auto

lemma shutdown_sweep_down: "shutdown_sweep lv n s w = (r, s', w') \<Longrightarrow> quotes_down s \<Longrightarrow> quotes_down s'"
  by (induction n arbitrary: s w)
    (auto simp: Let_def split: prod.splits sum.splits exn.splits if_splits dest: cancel_preexisting_down)

text \<open>The exchange accepts every cancel.\<close>

definition accepts_cancels :: "'w env \<Rightarrow> bool" where
  "accepts_cancels env \<longleftrightarrow> (\<forall>oid w. fst (api_cancel_order (env_api env) oid w) = Inr True)"

lemma accepts_raises: "accepts_cancels env \<Longrightarrow> raises_only_exceptions (env_api env)"
  by (simp add: accepts_cancels_def raises_only_exceptions_def)

lemma cancel_all_quotes_down:
  assumes "accepts_cancels env" and "session_ok s L" and "cancel_all_quotes env s w = (r, s', w')"
  shows "r = Inr ()" "quotes_down s'" "ts_rm s' = ts_rm s"
proof -
  have "keys_distinct (open_orders (ts_om s))" using assms(2) by (simp add: session_ok_def books_ok_def)
  note clears = cancel_all_quotes_clears [OF accepts_raises [OF assms(1)] assms(1) [unfolded accepts_cancels_def] this assms(3)]
  show "r = Inr ()" "quotes_down s'" "ts_rm s' = ts_rm s"
    using clears by (auto simp: quotes_down_def is_tracked_def orders_of_resting)
qed

lemma goes_ok: "goes lv F a b \<Longrightarrow> session_ok (the_session (fst a)) L \<Longrightarrow> \<exists>L'. session_ok (the_session (fst b)) L'"
  unfolding goes_def follows_def using drives_ok by blast

lemma crash_down:
  assumes "accepts_cancels (lv_env lv)" and "session_ok (the_session (fst st)) L"
  shows "quotes_down (the_session (fst (crash (lv_env lv) st)))" "pg_phase (fst (crash (lv_env lv) st)) = Died"
proof -
  obtain r s' w' where c: "cancel_all_quotes (lv_env lv) (the_session (fst st)) (snd st) = (r, s', w')" by (metis prod_cases3)
  show "quotes_down (the_session (fst (crash (lv_env lv) st)))" "pg_phase (fst (crash (lv_env lv) st)) = Died"
    using cancel_all_quotes_down [OF assms c] crash_eq [of "lv_env lv" "fst st" "snd st"] by (simp_all add: c)
qed

lemma shutdown_session_down:
  assumes "accepts_cancels (lv_env lv)" and "session_ok s L" and "shutdown_session lv s w = Some (r, s', w')"
  shows "quotes_down s'"
proof -
  obtain r1 s1 w1 where 1: "cancel_all_quotes (lv_env lv) s w = (r1, s1, w1)" by (metis prod_cases3)
  obtain r2 s2 w2 where 2: "shutdown_sweep lv kShutdownAttempts s1 w1 = (r2, s2, w2)" by (metis prod_cases3)
  have s1: "quotes_down s1" and s2: "quotes_down s2"
    using cancel_all_quotes_down [OF assms(1,2) 1] shutdown_sweep_down [OF 2] by simp_all
  have "quotes_down s'" if "shutdown_flatten lv s2 w2 = Some (r, s', w')"
    using that s2 by (auto simp: shutdown_flatten_def flatten_all_positions_def split: option.splits sum.splits prod.splits if_splits
      dest: flatten_loop_down)
  then show ?thesis
    using assms(3) s1 s2 by (auto simp: shutdown_session_def 1 2 split: sum.splits if_splits)
qed

lemma finish_down:
  assumes "accepts_cancels (lv_env lv)" and "session_ok (the_session (fst st)) L" and "finish lv code st = Some st'"
  shows "quotes_down (the_session (fst st'))"
proof -
  obtain p w where st: "st = (p, w)" by fastforce
  obtain joined where j: "lv_join lv (stop (pg_ws p)) w = Some joined"
    using assms(3) by (auto simp: finish_def st Let_def split: option.splits)
  then obtain r s' w' where sd: "shutdown_session lv (the_session p) joined = Some (r, s', w')"
    using assms(3) by (auto simp: finish_def st Let_def split: option.splits)
  have down: "quotes_down s'" using shutdown_session_down [OF assms(1) _ sd] assms(2) by (simp add: st)
  let ?st = "(p\<lparr>pg_ws := stop (pg_ws p), pg_engine := (pg_engine p)\<lparr>en_session := s'\<rparr>\<rparr>, w')"
  obtain L' where "session_ok (the_session (fst ?st)) L'"
    using goes_ok [of lv UNIV st ?st L] shutdown_session_follows [OF sd] assms(2) by (auto simp: goes_def st)
  with crash_down(1) [OF assms(1) this] assms(3) down show ?thesis by (auto simp: finish_def st j sd Let_def split: sum.splits)
qed

definition same_phase :: "program \<times> 'w \<Rightarrow> program \<times> 'w \<Rightarrow> bool" where
  "same_phase a b \<longleftrightarrow> pg_phase (fst b) = pg_phase (fst a) \<and> pg_shutdown (fst b) = pg_shutdown (fst a)"

lemma on_program_phase: "acts same_phase (on_program f)"
  by (auto simp: acts_def same_phase_def on_program_def split: prod.splits)

lemma poll_tick_phase: "acts same_phase (poll_tick lv)"
proof -
  have "acts same_phase (tick_rotate lv)" "acts same_phase (tick_reconcile lv)"
    by (auto simp: acts_def same_phase_def tick_rotate_def tick_reconcile_def Let_def split: if_splits option.splits)
  moreover have "acts same_phase (tick_staleness lv)" "acts same_phase tick_portfolio"
    using actsD [OF on_program_phase]
    by (auto simp: acts_def tick_staleness_def tick_portfolio_def same_phase_def split: if_splits dest: on_program_phase [THEN actsD])
  moreover have "transp same_phase" by (rule transpI) (simp add: same_phase_def)
  ultimately have "acts same_phase (bind_paged (tick_rotate lv) (\<lambda>_. bind_paged (tick_staleness lv) (\<lambda>_. bind_paged tick_portfolio (\<lambda>_.
      bind_paged (on_program (enforce_quote_safety (lv_env lv))) (\<lambda>_. tick_reconcile lv)))))"
    by (intro acts_bind on_program_phase)
  then show ?thesis by (fastforce simp: acts_def poll_tick_def same_phase_def)
qed

lemma poll_stops:
  assumes "accepts_cancels (lv_env lv)" and "session_ok (the_session (fst st)) L"
    and "poll lv st = Some st'" and "is_running (fst st)" and "\<not> is_running (fst st')"
  shows "quotes_down (the_session (fst st'))"
proof -
  have fin: "quotes_down (the_session (fst st'))" if "finish lv code st1 = Some st'" "goes lv UNIV st st1" for code st1
    using goes_ok [OF that(2) assms(2)] finish_down [OF assms(1) _ that(1)] by blast
  have crash: "quotes_down (the_session (fst (crash (lv_env lv) st1)))" if "goes lv UNIV st st1" for st1
    using goes_ok [OF that assms(2)] crash_down(1) [OF assms(1)] by blast
  have tick: "goes lv UNIV st st1" if "poll_tick lv st = Some (r, st1)" for r st1
    by (rule actsD [OF poll_tick_goes that])
  have phase: "pg_phase (fst st1) = pg_phase (fst st)" if "poll_tick lv st = Some (r, st1)" for r st1
    using actsD [OF poll_tick_phase that] by (simp add: same_phase_def)
  have leave: "quotes_down (the_session (fst st'))" if "leave_loop lv st = Some st'"
  proof -
    obtain p w where st: "st = (p, w)" by fastforce
    have reduce: "goes lv UNIV (p, w) (p', w')" if "the_session p' = (the_session p)
        \<lparr>ts_quoter := set_reduce_only True (ts_quoter (the_session p))\<rparr>" for p' w'
      using that by (simp add: goes_def follows_handlers)
    show ?thesis
      using that assms(5) unfolding leave_loop_def Let_def st
      by (auto simp: is_running_def st split: prod.splits if_splits intro!: reduce goes_refl elim!: fin [unfolded st])
  qed
  show ?thesis
  proof (cases "pg_phase (fst st)")
    case Trading
    show ?thesis
    proof (cases "pg_shutdown (fst st)")
      case False
      then obtain r st1 where t: "poll_tick lv st = Some (r, st1)"
        using assms(3) Trading by (auto simp: poll_def split: option.splits)
      have "pg_phase (fst st1) = Trading" using phase [OF t] Trading by simp
      then have run: "is_running (fst st1)" by (simp add: is_running_def)
      have "poll lv st = (case r of Inr _ \<Rightarrow> Some st1 | Inl (StdException _) \<Rightarrow> finish lv 1 st1 | Inl (Abort _) \<Rightarrow> Some (crash (lv_env lv) st1))"
        using Trading False by (simp add: poll_def t split: sum.split exn.split)
      then consider "finish lv 1 st1 = Some st'" | "st' = crash (lv_env lv) st1" | "st' = st1"
        using assms(3) by (cases r) (simp_all split: exn.splits)
      then show ?thesis
      proof cases
        case 1
        then show ?thesis by (rule fin [OF _ tick [OF t]])
      next
        case 2
        then show ?thesis by (simp only: crash [OF tick [OF t]])
      qed (use run assms(5) in simp)
    qed (use assms(3) Trading leave in \<open>simp add: poll_def\<close>)
  next
    case (WindingDown d)
    have world: "goes lv UNIV st (fst st, w')" for w' by (simp add: goes_def)
    show ?thesis
      using assms(3,5) WindingDown
      by (auto simp: poll_def is_running_def Let_def split: if_splits prod.splits intro: fin world)
  qed (use assms(4) in \<open>simp_all add: is_running_def\<close>)
qed

lemma feed_event_stops:
  assumes "accepts_cancels (lv_env lv)" and "session_ok (the_session (fst st)) L"
    and "feed_event lv f st = Some st'" and "\<And>s r s'. f s = Some (r, s') \<Longrightarrow> engine_follows lv UNIV (snd s) (snd s')"
    and "is_running (fst st)" and "\<not> is_running (fst st')"
  shows "quotes_down (the_session (fst st'))"
proof -
  obtain r c' e' w' where f: "f (pg_ws (fst st), (pg_engine (fst st), snd st)) = Some (r, (c', (e', w')))"
    using assms(3) by (auto simp: feed_event_def split: option.splits)
  let ?st = "((fst st)\<lparr>pg_ws := c', pg_engine := e'\<rparr>, w')"
  have "goes lv UNIV st ?st" using assms(4) [OF f] by (simp add: goes_def engine_follows_def)
  from goes_ok [OF this assms(2)] obtain L' where L': "session_ok (the_session (fst ?st)) L'" by blast
  have "st' = crash (lv_env lv) ?st"
    using assms(3,5,6) f by (auto simp: feed_event_def Let_def is_running_def split: sum.splits)
  then show ?thesis using crash_down(1) [OF assms(1) L'] by simp
qed

lemma live_step_stops:
  assumes "accepts_cancels (lv_env lv)" and "session_ok (the_session p) L"
    and "live_step lv ev (p, w) = Some st'" and "is_running p" and "\<not> is_running (fst st')"
  shows "quotes_down (the_session (fst st'))"
proof -
  note stops = feed_event_stops [OF assms(1), of "(p, w)" L _ st', simplified, OF assms(2) _ _ assms(4,5)]
  show ?thesis
  proof (cases ev)
    case (FrameEv raw)
    have "engine_follows lv UNIV (snd s) (snd s')" if "paged_io (handle_message (wse_of lv) (cbs_of lv) raw) s = Some (r, s')" for s r s'
      using handle_message_follows [of raw UNIV lv s] that by (simp add: paged_io_def)
    then show ?thesis using assms(3,4) by (intro stops [of "paged_io (handle_message (wse_of lv) (cbs_of lv) raw)"]) (simp_all add: FrameEv)
  next
    case HeartbeatEv
    have "engine_follows lv UNIV (snd s) (snd s')" if "(\<lambda>st. Some (Inr (), handle_heartbeat (wse_of lv) st)) s = Some (r, s')" for s r s'
      using handle_heartbeat_follows [of lv UNIV s] that by (simp add: paged_io_def)
    then show ?thesis using assms(3,4) by (intro stops [of "\<lambda>st. Some (Inr (), handle_heartbeat (wse_of lv) st)"]) (simp_all add: HeartbeatEv)
  next
    case ConnectEv
    then show ?thesis using assms(3,4) by (intro stops [of "live_connect lv"] live_connect_follows) simp_all
  next
    case CloseEv
    have "engine_follows lv UNIV (snd s) (snd s')" if "paged_io (handle_disconnect (cbs_of lv)) s = Some (r, s')" for s r s'
      using handle_disconnect_follows [of lv UNIV s] that by (simp add: paged_io_def)
    then show ?thesis using assms(3,4) by (intro stops [of "paged_io (handle_disconnect (cbs_of lv))"]) (simp_all add: CloseEv)
  next
    case PollEv
    then show ?thesis using poll_stops [OF assms(1), of "(p, w)" L st'] assms by simp
  qed (use assms in \<open>auto simp: is_running_def\<close>)
qed

lemma live_run_stops:
  assumes "accepts_cancels (lv_env lv)"
  shows "session_ok (the_session p) L \<Longrightarrow> is_running p \<Longrightarrow> live_run lv evs (p, w) = Some (p', w') \<Longrightarrow> \<not> is_running p'
    \<Longrightarrow> quotes_down (the_session p')"
proof (induction evs arbitrary: p w L)
  case (Cons ev evs)
  obtain p1 w1 where step: "live_step lv ev (p, w) = Some (p1, w1)" and run: "live_run lv evs (p1, w1) = Some (p', w')"
    using Cons.prems(3) by (cases "live_step lv ev (p, w)") auto
  show ?case
  proof (cases "is_running p1")
    case True
    obtain L' where "session_ok (the_session p1) L'"
      using goes_ok [OF live_step_goes [OF step, of UNIV]] Cons.prems(1) by auto
    then show ?thesis by (rule Cons.IH [OF _ True run Cons.prems(4)])
  next
    case False
    then have "live_run lv evs (p1, w1) = Some (p1, w1)" for evs by (induction evs) (simp_all add: Let_def)
    then have "p' = p1" using run by simp
    then show ?thesis using live_step_stops [OF assms Cons.prems(1) step Cons.prems(2)] False by simp
  qed
qed simp

text \<open>
  C2. Every way out leaves no quotes: once a run has stopped, by a signal, an error, a failed
  invariant or an exception on the feed's thread, the order manager holds no open order of any
  tracked market and the quoter believes in no quote, provided the exchange accepts the cancels.
\<close>

theorem exits_without_quotes:
  assumes "boot lv0 prior w = Some (Inr (Some (lv, p)), w1)" and "live_run lv evs (p, w1) = Some (p', w2)"
    and "\<not> is_running p'" and "\<forall>oid v. fst (api_cancel_order (env_api (lv_env lv)) oid v) = Inr True"
  shows "(\<forall>tk. is_tracked (en_session (pg_engine p')) tk \<longrightarrow> orders_of tk (ts_om (en_session (pg_engine p'))) = [])
    \<and> own_quotes (ts_quoter (en_session (pg_engine p'))) = Map.empty"
proof -
  have "pg_phase p = Trading" using boot_follows [OF assms(1), of UNIV] by metis
  then have "is_running p" by (simp add: is_running_def)
  moreover obtain L where "session_ok (the_session p) L" using run_ok [OF assms(1), of "[]" p w1] by (metis live_run.simps(1))
  ultimately have "quotes_down (the_session p')"
    using live_run_stops [OF _ _ _ assms(2,3)] assms(4) by (auto simp: accepts_cancels_def)
  then show ?thesis by (auto simp: quotes_down_def is_tracked_def orders_of_resting)
qed

section \<open>A signal ends the run\<close>

text \<open>
  No service aborts the process, and what a flatten is told it executed has a price; the services
  answer when their page loops end, too.
\<close>

definition services_contained :: "('j, 't, 'w) live \<Rightarrow> bool" where
  "services_contained lv \<longleftrightarrow> api_no_abort (env_api (lv_env lv))
     \<and> (\<forall>w what w'. lv_open_orders lv w \<noteq> (Inl (Abort what), w'))
     \<and> (\<forall>w what w'. ac_get_positions (lv_account lv) w \<noteq> Some (Inl (Abort what), w'))
     \<and> (\<forall>tk q w what w'. ac_flatten (lv_account lv) tk q w \<noteq> (Inl (Abort what), w'))
     \<and> (\<forall>tk q w ord w'. ac_flatten (lv_account lv) tk q w = (Inr ord, w') \<longrightarrow> is_positive (o_filled_quantity ord)
          \<longrightarrow> is_valid_price (f_price_cents (flatten_fill ord)))"

definition services_answer :: "('j, 't, 'w) live \<Rightarrow> bool" where
  "services_answer lv \<longleftrightarrow> services_contained lv \<and> (\<forall>w. ac_get_positions (lv_account lv) w \<noteq> None)"

lemma services_containedD:
  assumes "services_contained lv"
  shows "api_no_abort (env_api (lv_env lv))" "lv_open_orders lv w \<noteq> (Inl (Abort what), w')"
    "ac_get_positions (lv_account lv) w \<noteq> Some (Inl (Abort what), w')" "ac_flatten (lv_account lv) tk q w \<noteq> (Inl (Abort what), w')"
    "ac_flatten (lv_account lv) tk q w = (Inr ord, w') \<Longrightarrow> fst (record_flatten ord s) = Inr ()"
proof -
  show "fst (record_flatten ord s) = Inr ()" if "ac_flatten (lv_account lv) tk q w = (Inr ord, w')"
  proof (cases "is_positive (o_filled_quantity ord)")
    case True
    then show ?thesis using assms that by (intro record_flatten_total) (unfold services_contained_def, blast)
  qed (simp add: record_flatten_def)
qed (use assms in \<open>unfold services_contained_def, blast+\<close>)

lemma shutdown_sweep_total: "services_contained lv \<Longrightarrow> fst (shutdown_sweep lv n s w) = Inr ()"
proof (induction n arbitrary: s w)
  case (Suc n)
  have "cancel_preexisting_orders (lv_env lv) ords s w' \<noteq> (Inl e, s', w'')" for ords w' e s' w''
    using cancel_preexisting_total [OF services_containedD(1) [OF Suc.prems], of ords s w'] by (metis Inl_Inr_False fst_conv)
  then show ?case
    using Suc services_containedD(2) [OF Suc.prems]
    by (auto simp: Let_def split: prod.splits sum.splits exn.splits)
qed simp

lemma flatten_loop_total: "services_contained lv \<Longrightarrow> fst (flatten_loop (lv_account lv) only ps n (so, w)) \<noteq> Inl (Abort what)"
proof (induction ps arbitrary: n so w)
  case (Cons p ps)
  have rec: "record_flatten ord s \<noteq> (Inl e, s')" if "ac_flatten (lv_account lv) tk q w' = (Inr ord, w'')" for tk q w' ord w'' s e s'
    using services_containedD(5) [OF Cons.prems that, of s] by (metis Inl_Inr_False fst_conv)
  show ?case
    using Cons.IH Cons.prems services_containedD(4) [OF Cons.prems]
    by (auto split: prod.splits sum.splits exn.splits option.splits dest: rec)
qed simp

lemma shutdown_flatten_total:
  assumes "services_contained lv" and "shutdown_flatten lv s w = Some (r, s', w')"
  shows "r = Inr ()"
  using assms(2) services_containedD(3) [OF assms(1)] flatten_loop_total [OF assms(1)]
  by (auto simp: shutdown_flatten_def flatten_all_positions_def split: option.splits sum.splits exn.splits prod.splits)
    (metis fst_conv)+

lemma shutdown_session_total:
  assumes "services_contained lv" and "shutdown_session lv s w = Some (r, s', w')"
  shows "r = Inr ()"
proof -
  obtain s1 w1 where 1: "cancel_all_quotes (lv_env lv) s w = (Inr (), s1, w1)"
    using cancel_all_quotes_total [OF services_containedD(1) [OF assms(1)], of s w] by (metis prod.collapse)
  obtain s2 w2 where 2: "shutdown_sweep lv kShutdownAttempts s1 w1 = (Inr (), s2, w2)"
    using shutdown_sweep_total [OF assms(1), of kShutdownAttempts s1 w1] by (metis prod.collapse)
  show ?thesis
    using assms(2) shutdown_flatten_total [OF assms(1)] by (auto simp: shutdown_session_def 1 2 split: if_splits)
qed

lemma finish_contained:
  assumes "services_contained lv" and "finish lv code (p, w) = Some (p', w')"
  shows "pg_phase p' = Exited code \<and> \<not> ws_running (pg_ws p')"
proof -
  obtain joined where j: "lv_join lv (stop (pg_ws p)) w = Some joined"
    using assms(2) by (cases "lv_join lv (stop (pg_ws p)) w") (auto simp: finish_def Let_def)
  then obtain r s' w1 where run: "shutdown_session lv (the_session p) joined = Some (r, s', w1)"
    using assms(2) by (cases "shutdown_session lv (the_session p) joined") (auto simp: finish_def Let_def)
  then have "r = Inr ()" by (rule shutdown_session_total [OF assms(1)])
  then show ?thesis using assms(2) j run by (auto simp: finish_def stop_def Let_def)
qed

text \<open>The feed's thread ends once it was told to stop.\<close>

definition feed_ends :: "('j, 't, 'w) live \<Rightarrow> bool" where
  "feed_ends lv \<longleftrightarrow> (\<forall>c w. \<not> ws_running c \<longrightarrow> lv_join lv c w \<noteq> None)"

lemma finish_total:
  assumes "services_answer lv" and "feed_ends lv"
  shows "\<exists>p' w'. finish lv code (p, w) = Some (p', w') \<and> pg_phase p' = Exited code \<and> \<not> ws_running (pg_ws p')"
proof -
  have contained: "services_contained lv" and "ac_get_positions (lv_account lv) w \<noteq> None" for w
    using assms(1) by (simp_all add: services_answer_def)
  then have "shutdown_flatten lv s w \<noteq> None" for s w
    by (auto simp: shutdown_flatten_def flatten_all_positions_def split: option.splits sum.splits)
  moreover have "lv_join lv (stop (pg_ws p)) w \<noteq> None" using assms(2) by (simp add: feed_ends_def stop_def)
  ultimately have "finish lv code (p, w) \<noteq> None"
    by (auto simp: finish_def shutdown_session_def Let_def simp del: not_None_eq split: option.splits prod.splits sum.splits if_splits)
  then show ?thesis using finish_contained [OF contained] by fast
qed

lemma crash_phase: "pg_phase (fst (crash env st)) = Died"
  by (cases st) (simp add: crash_eq case_prod_beta Let_def)

lemma finish_phase: "finish lv code st = Some st' \<Longrightarrow> pg_phase (fst st') \<in> {Exited code, Died}"
  by (auto simp: finish_def Let_def crash_phase split: prod.splits option.splits sum.splits)

lemma feed_event_phase: "feed_event lv f st = Some st' \<Longrightarrow> pg_phase (fst st') \<in> {pg_phase (fst st), Died}"
  by (auto simp: feed_event_def Let_def crash_phase split: option.splits prod.splits sum.splits)

text \<open>Past the loop: winding down until \<open>d\<close>, or over.\<close>

definition leaving :: "time_ns \<Rightarrow> program \<Rightarrow> bool" where
  "leaving d p \<longleftrightarrow> pg_phase p \<in> {WindingDown d, Exited 0, Died}"

lemma live_step_leaving:
  assumes "live_step lv ev (p, w) = Some st'" and "leaving d p"
  shows "leaving d (fst st')"
proof (cases "is_running p")
  case True
  then have p: "pg_phase p = WindingDown d" using assms(2) by (auto simp: leaving_def is_running_def)
  have feed: "leaving d (fst st')" if "feed_event lv f (p, w) = Some st'" for f
    using feed_event_phase [OF that] p by (auto simp: leaving_def)
  have fin: "leaving d (fst st')" if "finish lv 0 st1 = Some st'" for st1
    using finish_phase [OF that] by (auto simp: leaving_def)
  have poll: "leaving d (fst st')" if "poll lv (p, w) = Some st'"
    using that assms(2) by (auto simp: poll_def p Let_def split: if_splits prod.splits intro: fin)
  show ?thesis
    using assms True feed poll by (cases ev) (auto simp: Let_def leaving_def p)
next
  case False
  then show ?thesis using assms by (auto simp: Let_def)
qed

lemma live_run_leaving: "live_run lv evs (p, w) = Some st' \<Longrightarrow> leaving d p \<Longrightarrow> leaving d (fst st')"
proof (induction evs arbitrary: p w)
  case (Cons ev evs)
  obtain p1 w1 where step: "live_step lv ev (p, w) = Some (p1, w1)" and run: "live_run lv evs (p1, w1) = Some st'"
    using Cons.prems(1) by (cases "live_step lv ev (p, w)") auto
  show ?case by (rule Cons.IH [OF run]) (use live_step_leaving [OF step Cons.prems(2)] in simp)
qed auto

text \<open>
  C17. A signal ends the program, when the account services answer and contain their failures, and
  when the feed's thread ends once it was told to stop: whatever the feed and the world do in between,
  at the first poll once the wind-down window has passed since the signal was seen, the wait for the
  thread and the shutdown return, and the program has stopped, with exit code 0 unless it died before,
  its feed told to stop. (A thread inside its loop does end; one that has not entered it yet, when the
  signal comes at the very start, would not, and is excluded by the hypothesis.)
\<close>

theorem shutdown_completes:
  assumes "services_answer lv" and "\<forall>c v. \<not> ws_running c \<longrightarrow> lv_join lv c v \<noteq> None" and "pg_phase p = Trading"
    and "live_run lv (SignalEv # PollEv # evs) (p, w) = Some (p1, w1)"
    and "fst (steady_now (lv_env lv) w) + winddown_seconds (cf_quoter (lv_config lv)) * kNanosPerSecond
      \<le> fst (steady_now (lv_env lv) w')"
  shows "\<exists>p2 w2. live_run lv [WorldEv w', PollEv] (p1, w1) = Some (p2, w2) \<and> \<not> is_running p2
    \<and> (pg_phase p2 = Exited 0 \<or> pg_phase p1 = Died)
    \<and> (is_running p1 \<longrightarrow> \<not> ws_running (pg_ws p2))"
proof -
  let ?d = "fst (steady_now (lv_env lv) w) + winddown_seconds (cf_quoter (lv_config lv)) * kNanosPerSecond"
  let ?p = "p\<lparr>pg_shutdown := True\<rparr>"
  have run: "is_running p" "is_running ?p" "pg_phase ?p = Trading" using assms(3) by (simp_all add: is_running_def)
  obtain st1 where leave: "leave_loop lv (?p, w) = Some st1" and rest: "live_run lv evs st1 = Some (p1, w1)"
    using assms(4) run by (cases "leave_loop lv (?p, w)") (auto simp: poll_def Let_def)
  have "leaving ?d (fst st1)"
    using leave by (auto simp: leave_loop_def Let_def leaving_def split: if_splits prod.splits dest: finish_phase)
  then have left: "leaving ?d p1" using live_run_leaving [of lv evs "fst st1" "snd st1" "(p1, w1)" ?d] rest by simp
  show ?thesis
  proof (cases "is_running p1")
    case True
    then have p1: "pg_phase p1 = WindingDown ?d" using left by (auto simp: leaving_def is_running_def)
    have "\<exists>w3. poll lv (p1, w') = finish lv 0 (p1, w3)"
      using assms(5) by (cases "steady_now (lv_env lv) w'") (auto simp: poll_def p1 Let_def)
    then obtain w3 where "poll lv (p1, w') = finish lv 0 (p1, w3)" by blast
    then show ?thesis using finish_total [OF assms(1) assms(2) [folded feed_ends_def], of 0 p1 w3] True by (auto simp: is_running_def)
  next
    case False
    then have "pg_phase p1 = Exited 0 \<or> pg_phase p1 = Died" using left by (auto simp: leaving_def is_running_def)
    then show ?thesis using False by (simp add: Let_def)
  qed
qed

section \<open>A halted poll\<close>

text \<open>The rest of an iteration leaves the stale-book halt and the feed's clock alone.\<close>

lemma subscribe_clock: "last_message_time (fst (subscribe wse tk st)) = last_message_time (fst st)"
  by (simp add: subscribe_def send_subscribe_def Let_def)

lemma subscribe_keeps: "subscribe wse tk (c, w) = (c', w') \<Longrightarrow> last_message_time c' = last_message_time c"
  using subscribe_clock [of wse tk "(c, w)"] by simp

lemma adopt_all_clock:
  "adopt_all env md wse tks (s, c, w) = (r, (s', c', w')) \<Longrightarrow> last_message_time c' = last_message_time c"
proof (induction tks arbitrary: s c w)
  case (Cons tk tks)
  obtain r1 s1 c1 w1 where one: "adopt_market env md wse tk (s, c, w) = (r1, (s1, c1, w1))" by (metis prod_cases4)
  then have "last_message_time c1 = last_message_time c"
    by (auto simp: adopt_market_def catch_io_def return_io_def Let_def split: prod.splits sum.splits exn.splits dest: subscribe_keeps)
  then show ?case using Cons one by (auto simp: bind_io_def split: sum.splits)
qed (simp add: return_io_def)

lemma tick_rotate_clock: "tick_rotate lv st = Some (r, st') \<Longrightarrow> last_message_time (pg_ws (fst st')) = last_message_time (pg_ws (fst st))"
  by (auto simp: tick_rotate_def rotate_markets_def catch_io_def return_io_def Let_def
    split: if_splits option.splits sum.splits exn.splits prod.splits dest: adopt_all_clock)

lemma run_portfolio_keeps: "is_set (ts_rm s) c \<Longrightarrow> is_set (ts_rm (run_portfolio_risk s)) c"
  by (simp add: run_portfolio_risk_def update_portfolio_effect)

lemma requote_rm: "ts_rm (fst (snd (requote_idle_markets env s w))) = ts_rm s"
proof -
  have step: "ts_rm s' = ts_rm s" if "quote_or_cool_down env tk book s w = (r, s', w')" for tk book s w r s' w'
    using that by (auto simp: quote_or_cool_down_def run_strategy_def Let_def split: prod.splits sum.splits exn.splits)
  have "ts_rm (fst (snd (requote_each env books s w))) = ts_rm s" for books s w
  proof (induction books arbitrary: s w)
    case (Cons x books)
    obtain tk book where x: "x = (tk, book)" by (cases x)
    show ?case using Cons by (auto simp: x Let_def split: prod.splits sum.splits dest: step)
  qed simp
  then show ?thesis by (simp add: requote_idle_markets_def)
qed

lemma tick_staleness_stale:
  assumes "tick_staleness lv st = Some (r, st')" and "pg_poll_count (fst st) mod kStalenessCheckInterval = 0"
    and "\<And>w. kStalenessThreshold_ns < fst (steady_now (lv_env lv) w) - last_message_time (pg_ws (fst st))"
  shows "is_set (ts_rm (the_session (fst st'))) kStaleBook"
proof -
  obtain now w1 where now: "steady_now (lv_env lv) (snd st) = (now, w1)" by fastforce
  then have "kStalenessThreshold_ns < now - last_message_time (pg_ws (fst st))" using assms(3) [of "snd st"] by simp
  then have "check_ws_staleness now (pg_ws (fst st)) s = ts_rm_update (set_constraint kStaleBook) s" for s
    by (simp add: check_ws_staleness_def)
  then show ?thesis
    using assms(1,2) requote_rm [of "lv_env lv" "ts_rm_update (set_constraint kStaleBook) (the_session (fst st))" w1]
    by (auto simp: tick_staleness_def on_program_def on_engine_def now case_prod_beta Let_def)
qed

lemma tick_portfolio_keeps: "tick_portfolio st = Some (r, st') \<Longrightarrow> is_set (ts_rm (the_session (fst st))) c \<Longrightarrow> is_set (ts_rm (the_session (fst st'))) c"
  by (auto simp: tick_portfolio_def on_program_def on_engine_def Let_def run_portfolio_keeps split: if_splits)

lemma kill_dead_feeds_rm: "ts_rm (fst (snd (kill_dead_feeds env tks s w))) = ts_rm s"
proof (induction tks arbitrary: s w)
  case (Cons tk tks)
  then show ?case by (auto simp: Let_def split: prod.splits sum.splits exn.splits)
qed simp

lemma enforce_rm: "ts_rm (fst (snd (enforce_quote_safety env s w))) = ts_rm s"
  by (auto simp: enforce_quote_safety_def kill_dead_feeds_rm cancel_all_quotes_def split: prod.splits sum.splits)

text \<open>What cancelling everything leaves open is what the exchange would not cancel.\<close>

definition cancel_refused :: "'w rest_api \<Rightarrow> string \<Rightarrow> bool" where
  "cancel_refused api oid \<longleftrightarrow> (\<exists>v. fst (api_cancel_order api oid v) \<noteq> Inr True)"

definition only_shrinks :: "order_manager \<Rightarrow> order_manager \<Rightarrow> bool" where
  "only_shrinks om om' \<longleftrightarrow> set (open_orders om') \<subseteq> set (open_orders om)"

lemma cancel_shrinks:
  assumes "cancel api oid om w = (r, om', w')"
  shows "only_shrinks om om'" "oid \<in> fst ` set (open_orders om') \<Longrightarrow> cancel_refused api oid"
proof -
  show "only_shrinks om om'" using assms by (auto simp: cancel_def only_shrinks_def AList.delete_eq split: prod.splits sum.splits if_splits)
  show "cancel_refused api oid" if "oid \<in> fst ` set (open_orders om')"
    unfolding cancel_refused_def
    using assms that by (intro exI [of _ w]) (auto simp: cancel_def AList.delete_eq split: prod.splits sum.splits if_splits)
qed

lemma cancel_each_refused:
  "cancel_each api oids om w = (r, om', w') \<Longrightarrow> only_shrinks om om' \<and> r \<noteq> Inl (StdException msg) \<and> (r = Inr () \<longrightarrow>
    (\<forall>oid \<in> set oids. oid \<in> fst ` set (open_orders om') \<longrightarrow> cancel_refused api oid))"
proof (induction oids arbitrary: om w)
  case Nil
  then show ?case by (auto simp: only_shrinks_def)
next
  case (Cons oid oids)
  obtain r1 om1 w1 where c: "cancel api oid om w = (r1, om1, w1)" by (metis prod_cases3)
  note first = cancel_shrinks [OF c]
  show ?case
  proof (cases "\<exists>what. r1 = Inl (Abort what)")
    case True
    then show ?thesis using Cons.prems c first by auto
  next
    case False
    then have "cancel_each api oids om1 w1 = (r, om', w')" using Cons.prems c by (auto split: sum.splits exn.splits)
    from Cons.IH [OF this] show ?thesis using first by (auto simp: only_shrinks_def)
  qed
qed

lemma cancel_tickers_refused:
  "cancel_tickers api tks om w = (r, om', w') \<Longrightarrow> only_shrinks om om' \<and> (r = Inr () \<longrightarrow>
    (\<forall>(oid, ord) \<in> set (open_orders om'). o_market_ticker ord \<in> set tks \<longrightarrow> cancel_refused api oid))"
proof (induction tks arbitrary: om w)
  case Nil
  then show ?case by (auto simp: only_shrinks_def)
next
  case (Cons tk tks)
  obtain r1 om1 w1 where c: "cancel_all api tk om w = (r1, om1, w1)" by (metis prod_cases3)
  have first: "only_shrinks om om1" "r1 \<noteq> Inl (StdException msg)"
    "r1 = Inr () \<Longrightarrow> \<forall>oid \<in> set (orders_of tk om). oid \<in> fst ` set (open_orders om1) \<longrightarrow> cancel_refused api oid" for msg
    using cancel_each_refused [OF c [unfolded cancel_all_def]] by blast+
  show ?case
  proof (cases "\<exists>what. r1 = Inl (Abort what)")
    case True
    then show ?thesis using Cons.prems c first by auto
  next
    case False
    then have rest: "cancel_tickers api tks om1 w1 = (r, om', w')" using Cons.prems c by (auto split: sum.splits exn.splits)
    have "r1 = Inr ()" using False first by (metis exn.exhaust old.unit.exhaust sum.exhaust)
    then have "cancel_refused api oid" if "(oid, ord) \<in> set (open_orders om')" "o_market_ticker ord = tk" for oid ord
      using that first Cons.IH [OF rest] by (force simp: only_shrinks_def orders_of_def)
    then show ?thesis using Cons.IH [OF rest] first by (auto simp: only_shrinks_def)
  qed
qed

lemma cancel_all_quotes_refused:
  assumes "cancel_all_quotes env s w = (Inr (), s', w')"
  shows "\<forall>(oid, ord) \<in> set (open_orders (ts_om s')). is_tracked s' (o_market_ticker ord) \<longrightarrow> cancel_refused (env_api env) oid"
    and "own_quotes (ts_quoter s') = Map.empty" "ts_rm s' = ts_rm s"
proof -
  obtain r1 om1 w1 where c: "cancel_tickers (env_api env) (ts_tickers s) (ts_om s) w = (r1, om1, w1)" by (metis prod_cases3)
  show "\<forall>(oid, ord) \<in> set (open_orders (ts_om s')). is_tracked s' (o_market_ticker ord) \<longrightarrow> cancel_refused (env_api env) oid"
    "own_quotes (ts_quoter s') = Map.empty" "ts_rm s' = ts_rm s"
    using assms cancel_tickers_refused [OF c] c
    by (auto simp: cancel_all_quotes_def reset_quotes_def is_tracked_def split: if_splits sum.splits)
qed

text \<open>
  C14. A halted poll leaves no quotes but those the exchange would not cancel: at the end of an
  iteration of the loop that ended normally and did not compare positions with the exchange, if
  trading is halted, by whatever constraint, then the quoter believes in no quote, and every order
  that a tracked market still has is one whose cancel the exchange does not always confirm; so none is
  left when the exchange accepts every cancel. And every 300th iteration halts trading when the feed
  has been silent for more than thirty seconds.
\<close>

theorem halted_poll_quotes_down:
  assumes "lv_paper lv \<or> (pg_poll_count p + 1) mod kReconcileInterval \<noteq> 0"
    and "poll_tick lv (p, w) = Some (Inr (), (p', w'))"
  shows "(is_halted (ts_rm (en_session (pg_engine p'))) \<longrightarrow>
        own_quotes (ts_quoter (en_session (pg_engine p'))) = Map.empty
        \<and> (\<forall>tk. is_tracked (en_session (pg_engine p')) tk \<longrightarrow>
              (\<forall>oid \<in> set (orders_of tk (ts_om (en_session (pg_engine p')))). \<exists>v. fst (api_cancel_order (env_api (lv_env lv)) oid v) \<noteq> Inr True))
        \<and> ((\<forall>oid v. fst (api_cancel_order (env_api (lv_env lv)) oid v) = Inr True) \<longrightarrow>
              (\<forall>tk. is_tracked (en_session (pg_engine p')) tk \<longrightarrow> orders_of tk (ts_om (en_session (pg_engine p'))) = [])))
    \<and> ((pg_poll_count p + 1) mod kStalenessCheckInterval = 0
        \<and> (\<forall>v. kStalenessThreshold_ns < fst (steady_now (lv_env lv) v) - last_message_time (pg_ws p))
      \<longrightarrow> is_set (ts_rm (en_session (pg_engine p'))) kStaleBook)"
proof -
  let ?p = "p\<lparr>pg_poll_count := pg_poll_count p + 1\<rparr>"
  obtain st1 st2 st3 st4 where 1: "tick_rotate lv (?p, w) = Some (Inr (), st1)" and 2: "tick_staleness lv st1 = Some (Inr (), st2)"
    and 3: "tick_portfolio st2 = Some (Inr (), st3)" and 4: "on_program (enforce_quote_safety (lv_env lv)) st3 = Some (Inr (), st4)"
    and 5: "tick_reconcile lv st4 = Some (Inr (), (p', w'))"
    using assms(2) unfolding poll_tick_def by (auto elim!: bind_paged_obtain)
  have count: "pg_poll_count (fst st4) = pg_poll_count p + 1" "pg_poll_count (fst st1) = pg_poll_count p + 1"
    using 1 2 3 4 by (auto simp: tick_rotate_def tick_staleness_def tick_portfolio_def on_program_def Let_def
      split: if_splits option.splits prod.splits)
  have st4: "st4 = (p', w')" using 5 assms(1) count by (auto simp: tick_reconcile_def)
  obtain r s4 w4 where safe: "enforce_quote_safety (lv_env lv) (the_session (fst st3)) (snd st3) = (r, s4, w4)" by (metis prod_cases3)
  then have p': "the_session p' = s4" using 4 st4 by (auto simp: on_program_def on_engine_def)
  have rm: "ts_rm s4 = ts_rm (the_session (fst st3))" using enforce_rm [of "lv_env lv" "the_session (fst st3)" "snd st3"] by (simp add: safe)
  have r: "r = Inr ()" using 4 st4 safe by (auto simp: on_program_def on_engine_def)
  have down: "own_quotes (ts_quoter s4) = Map.empty \<and> (\<forall>(oid, ord) \<in> set (open_orders (ts_om s4)). is_tracked s4 (o_market_ticker ord)
      \<longrightarrow> cancel_refused (env_api (lv_env lv)) oid)" if "is_halted (ts_rm s4)"
  proof -
    have "cancel_all_quotes (lv_env lv) (the_session (fst st3)) (snd st3) = (Inr (), s4, w4)"
      using safe that rm r by (simp add: enforce_quote_safety_def)
    from cancel_all_quotes_refused [OF this] show ?thesis by blast
  qed
  have stale: "is_set (ts_rm s4) kStaleBook"
    if "(pg_poll_count p + 1) mod kStalenessCheckInterval = 0"
      "\<forall>v. kStalenessThreshold_ns < fst (steady_now (lv_env lv) v) - last_message_time (pg_ws p)"
  proof -
    have "last_message_time (pg_ws (fst st1)) = last_message_time (pg_ws p)" using tick_rotate_clock [OF 1] by simp
    then have "is_set (ts_rm (the_session (fst st2))) kStaleBook"
      using tick_staleness_stale [OF 2] that count by simp
    then show ?thesis using tick_portfolio_keeps [OF 3] rm by simp
  qed
  have refused: "\<exists>v. fst (api_cancel_order (env_api (lv_env lv)) oid v) \<noteq> Inr True"
    if "is_halted (ts_rm s4)" "is_tracked s4 tk" "oid \<in> set (orders_of tk (ts_om s4))" for tk oid
    using down that by (fastforce simp: orders_of_def cancel_refused_def)
  have none: "orders_of tk (ts_om s4) = []"
    if "is_halted (ts_rm s4)" "is_tracked s4 tk" "\<forall>oid v. fst (api_cancel_order (env_api (lv_env lv)) oid v) = Inr True" for tk
    using refused [OF that(1,2), of "hd (orders_of tk (ts_om s4))"] that(3) by (cases "orders_of tk (ts_om s4)") simp_all
  show ?thesis
    unfolding p'
  proof (intro conjI impI allI ballI)
    show "own_quotes (ts_quoter s4) = Map.empty" if "is_halted (ts_rm s4)" using down [OF that] by blast
  qed (auto intro: stale refused none)
qed

section \<open>The profit file\<close>

text \<open>What no event of a session changes.\<close>

definition quoter_settings :: "quoter \<Rightarrow> quoter_config \<times> pricing_fn \<times> real option" where
  "quoter_settings q = (q_config q, q_model q, inventory_b q)"

definition settings :: "session \<Rightarrow> pnl_map \<times> risk_limits \<times> quoter_config \<times> pricing_fn \<times> real option" where
  "settings s = (prior_pnl s, rm_limits (ts_rm s), quoter_settings (ts_quoter s))"

lemma quoter_settings_simps [simp]:
  "quoter_settings (reset_quotes q) = quoter_settings q" "quoter_settings (forget_ticker tk q) = quoter_settings q"
  "quoter_settings (forget_order tk oid q) = quoter_settings q" "quoter_settings (set_reduce_only b q) = quoter_settings q"
  "quoter_settings (fst (snd (quoter_update env rm flow tape tk book q om w))) = quoter_settings q"
  by (simp_all add: quoter_settings_def reset_quotes_def forget_ticker_def forget_order_def set_reduce_only_def quoter_update_frame
    Let_def split: option.split)

lemma settings_simps [simp]:
  "settings (s\<lparr>ts_om := om\<rparr>) = settings s" "settings (s\<lparr>ob_map := m\<rparr>) = settings s" "settings (s\<lparr>ts_tickers := tks\<rparr>) = settings s"
  "settings (s\<lparr>last_book_update := a\<rparr>) = settings s" "settings (s\<lparr>seeded_at := a\<rparr>) = settings s" "settings (s\<lparr>feed_dead := D\<rparr>) = settings s"
  "settings (s\<lparr>cooldown_until := c\<rparr>) = settings s" "settings (s\<lparr>ts_tape := t\<rparr>) = settings s" "settings (s\<lparr>ts_flow := f\<rparr>) = settings s"
  "settings (s\<lparr>pnl_published := ps\<rparr>) = settings s"
  "settings (s\<lparr>ts_quoter := q\<rparr>) = (prior_pnl s, rm_limits (ts_rm s), quoter_settings q)"
  "settings (s\<lparr>ts_rm := rm\<rparr>) = (prior_pnl s, rm_limits rm, quoter_settings (ts_quoter s))"
  by (simp_all add: settings_def)

lemma risk_step_limits: "rm_limits (risk_step ev rm) = rm_limits rm"
  by (cases ev) (simp_all add: risk_update_effect update_portfolio_effect halt_def resume_def clear_constraint_def)

lemma run_strategy_settings: "run_strategy env tk book s w = (r, s', w') \<Longrightarrow> settings s' = settings s"
  by (auto simp: run_strategy_def settings_def case_prod_beta Let_def)

lemma quote_or_cool_down_settings: "quote_or_cool_down env tk book s w = (r, s', w') \<Longrightarrow> settings s' = settings s"
  by (auto simp: quote_or_cool_down_def Let_def split: prod.splits sum.splits exn.splits dest: run_strategy_settings)

lemma requote_each_settings: "settings (fst (snd (requote_each env books s w))) = settings s"
proof (induction books arbitrary: s w)
  case (Cons x books)
  obtain tk book where x: "x = (tk, book)" by (cases x)
  show ?case using Cons by (auto simp: x Let_def split: prod.splits sum.splits dest: quote_or_cool_down_settings)
qed simp

lemma kill_dead_feeds_settings: "settings (fst (snd (kill_dead_feeds env tks s w))) = settings s"
proof (induction tks arbitrary: s w)
  case (Cons tk tks)
  have "settings (s\<lparr>feed_dead := D, ts_om := om, ts_quoter := forget_ticker tk (ts_quoter s)\<rparr>) = settings s" for D om
    by (simp add: settings_def)
  then show ?case using Cons by (auto simp: Let_def simp del: settings_simps(11) split: prod.splits sum.splits exn.splits)
qed simp

lemma cancel_preexisting_settings: "settings (fst (snd (cancel_preexisting_orders env ords s w))) = settings s"
proof (induction ords arbitrary: s w)
  case (Cons ord ords)
  then show ?case by (auto split: prod.splits sum.splits exn.splits)
qed simp

lemma seed_settings: "settings (fst (snd (seed_orderbook env snap s w))) = settings s"
  by (auto simp: seed_orderbook_def Let_def split: prod.splits sum.splits exn.splits dest: run_strategy_settings)

lemma cancel_all_quotes_settings: "settings (fst (snd (cancel_all_quotes env s w))) = settings s"
  by (auto simp: cancel_all_quotes_def settings_def split: prod.splits sum.splits)

lemma on_fill_settings: "settings (snd (on_fill f s)) = settings s"
  by (auto simp: on_fill_def publish_pnl_def settings_def risk_update_effect Let_def split: prod.splits sum.splits bool.splits)

lemma session_step_settings: "settings (fst (session_step env ev (s, w))) = settings s"
proof (cases ev)
  case (AddMarketEv snap)
  then show ?thesis using seed_settings [of env snap] by (simp add: add_market_def)
next
  case (DeltaEv tk sd p d)
  have "settings (fst (snd (quote_or_cool_down env tk book s1 w1))) = settings s1" for book s1 w1
    using quote_or_cool_down_settings by (metis prod.collapse)
  then show ?thesis by (simp add: DeltaEv on_delta_def case_prod_beta Let_def)
next
  case (RiskEv ev)
  then show ?thesis by (simp add: settings_def risk_step_limits)
next
  case (WindDownEv b)
  then show ?thesis by (simp add: settings_def)
next
  case PortfolioRiskEv
  then show ?thesis by (simp add: run_portfolio_risk_def settings_def update_portfolio_effect)
qed (auto simp: seed_settings cancel_all_quotes_settings cancel_preexisting_settings kill_dead_feeds_settings requote_each_settings on_fill_settings
  on_snapshot_def on_trade_def record_flatten_def on_disconnect_def enforce_quote_safety_def requote_idle_markets_def
  remove_market_if_idle_def publish_pnl_def Let_def split: prod.splits sum.splits)

lemma drives_settings: "drives env P s s' \<Longrightarrow> settings s' = settings s"
proof -
  have "settings (fst b) = settings (fst a)" if "(session_move env P)\<^sup>*\<^sup>* a b" for a b
    using that
  proof (induction rule: rtranclp_induct)
    case (step b c)
    then obtain ev w w' where "session_step env ev (fst b, w) = (fst c, w')" by (auto simp: session_move_def)
    then show ?case using session_step_settings [of env ev "fst b" w] step.IH by simp
  qed simp
  then show "drives env P s s' \<Longrightarrow> settings s' = settings s" by (fastforce simp: drives_def)
qed

lemma carried_totals_for:
  "prior_pnl_for (carried_totals s) tk
     = prior_pnl_for (prior_pnl s) tk + (if is_tracked s tk then realized_pnl (ts_om s) tk else 0)"
proof -
  let ?f = "\<lambda>tk totals. let session_pnl = realized_pnl (ts_om s) tk in
    if session_pnl \<noteq> 0 \<or> totals tk \<noteq> None then totals(tk \<mapsto> prior_pnl_for (prior_pnl s) tk + session_pnl) else totals"
  have "prior_pnl_for (fold ?f tks m) tk = (if tk \<in> set tks then prior_pnl_for (prior_pnl s) tk + realized_pnl (ts_om s) tk else prior_pnl_for m tk)"
    if "prior_pnl_for m tk = prior_pnl_for (prior_pnl s) tk
        \<or> prior_pnl_for m tk = prior_pnl_for (prior_pnl s) tk + realized_pnl (ts_om s) tk" "m tk = None \<longrightarrow> prior_pnl s tk = None" for tks m
    using that
  proof (induction tks arbitrary: m)
    case (Cons t tks)
    have one: "prior_pnl_for (?f t m) tk = (if t = tk then prior_pnl_for (prior_pnl s) tk + realized_pnl (ts_om s) tk else prior_pnl_for m tk)"
      using Cons.prems by (auto simp: prior_pnl_for_def Let_def)
    have keep: "?f t m tk = None \<longrightarrow> prior_pnl s tk = None" using Cons.prems(2) by (auto simp: Let_def)
    show ?case using Cons.IH [of "?f t m"] one keep Cons.prems by auto
  qed simp
  from this [of "prior_pnl s" "ts_tickers s"] show ?thesis by (simp add: carried_totals_def is_tracked_def)
qed

lemma load_items_reads:
  "\<forall>e \<in> set xs. js_get_real js (snd e) = Inr (g (snd e)) \<Longrightarrow> distinct (map fst xs)
    \<Longrightarrow> load_items js xs m = m ++ (map_option g \<circ> map_of xs)"
proof (induction xs arbitrary: m)
  case (Cons e xs)
  obtain tk v where e: "e = (tk, v)" by (cases e)
  have "map_of xs tk = None" using Cons.prems(2) by (simp add: e map_of_eq_None_iff)
  then have step: "(m(tk \<mapsto> g v)) ++ (map_option g \<circ> map_of xs) = m ++ (map_option g \<circ> map_of (e # xs))"
    by (auto simp: e map_add_def fun_eq_iff split: option.split)
  have "load_items js (e # xs) m = load_items js xs (m(tk \<mapsto> g v))" using Cons.prems(1) by (simp add: e)
  also have "\<dots> = (m(tk \<mapsto> g v)) ++ (map_option g \<circ> map_of xs)" using Cons.prems by (intro Cons.IH) auto
  finally show ?case using step by (rule trans)
qed (simp add: map_add_def fun_eq_iff)

lemma load_persisted:
  assumes "json_reads_back js" and "read_file path = Some (persist_pnl js pnl)"
  shows "load_pnl js read_file path = map_of pnl"
proof -
  let ?kvs = "map (\<lambda>(tk, cents). (tk, js_real js cents)) pnl"
  let ?items = "js_items js (js_object js ?kvs)"
  let ?g = "\<lambda>v. case js_get_real js v of Inr x \<Rightarrow> x | Inl _ \<Rightarrow> 0"
  note js = json_reads_backD [OF assms(1)]
  have vals: "map_of ?kvs = map_option (js_real js) \<circ> map_of pnl" by (simp add: map_of_map comp_def)
  have "js_get_real js (snd e) = Inr (?g (snd e))" if "e \<in> set ?items" for e
  proof -
    have "map_of ?items (fst e) = Some (snd e)" using js(14) [of ?kvs] that by simp
    then have "\<exists>x. snd e = js_real js x" by (auto simp: js(13) vals intro: sym)
    then show ?thesis by (auto simp: js(11))
  qed
  then have "load_items js ?items Map.empty = Map.empty ++ (map_option ?g \<circ> map_of ?items)"
    using js(14) [of ?kvs] by (intro load_items_reads ballI)
  also have "\<dots> = map_of pnl" by (simp add: js(13) vals fun_eq_iff option.map_comp comp_def js(11) option.map_ident)
  finally show ?thesis using assms(2) by (simp add: load_pnl_def persist_pnl_def js(10))
qed

lemma run_settings:
  assumes "boot lv0 prior w = Some (Inr (Some (lv, p)), w1)" and "live_run lv evs (p, w1) = Some (p', w2)"
  shows "settings (the_session p') = settings (live_session (lv_config lv) [] prior)"
proof -
  obtain tickers where "follows lv UNIV (live_session (lv_config lv) tickers prior) (the_session p)"
    using boot_follows [OF assms(1), of UNIV] by metis
  moreover have "goes lv UNIV (p, w1) (p', w2)" by (rule live_run_goes [OF assms(2)]) simp
  ultimately have "drives (lv_env lv) (reported lv UNIV) (live_session (lv_config lv) tickers prior) (the_session p')"
    unfolding goes_def follows_def [symmetric] by (auto intro: follows_trans)
  from drives_settings [OF this] show ?thesis by (simp add: settings_def live_session_def new_session_def)
qed

lemma run_prior:
  assumes "boot lv0 prior w = Some (Inr (Some (lv, p)), w1)" and "live_run lv evs (p, w1) = Some (p', w2)"
  shows "prior_pnl (the_session p') = prior"
  using run_settings [OF assms] by (simp add: settings_def live_session_def new_session_def)

text \<open>
  C38. The profit survives a restart: given a JSON library that reads back what it wrote, a program
  started on the file that the previous one wrote from its totals reads back exactly these totals,
  whatever the order of the map's entries. At any moment
  of its run the total it would write for a market is the previous total plus what this session has
  realized if the market is tracked then, and the previous total alone if it is not: what was realized
  on a market that has since been rotated out is not in it (\<open>rotation_forgets_pnl\<close>).
\<close>

theorem pnl_survives_restart:
  assumes "json_reads_back js" and "read_file path = Some (persist_pnl js pnl)" and "map_of pnl = carried_totals previous"
    and "boot lv0 (load_pnl js read_file path) w = Some (Inr (Some (lv, p)), w1)" and "live_run lv evs (p, w1) = Some (p', w2)"
  shows "prior_pnl (en_session (pg_engine p')) = carried_totals previous
    \<and> (\<forall>tk. prior_pnl_for (carried_totals (en_session (pg_engine p'))) tk
        = prior_pnl_for (carried_totals previous) tk
          + (if is_tracked (en_session (pg_engine p')) tk then realized_pnl (ts_om (en_session (pg_engine p'))) tk else 0))"
  using run_prior [OF assms(4,5)] load_persisted [where read_file = read_file and path = path, OF assms(1,2)] assms(3)
    carried_totals_for [of "en_session (pg_engine p')"] by simp

section \<open>A run\<close>

text \<open>A paper session on one market, whose snapshot request fails, at an exchange that answers.\<close>

definition demo_account :: "nat account_api" where
  "demo_account = \<lparr>ac_get_fills = (\<lambda>_ n. Some (Inr [], n)),
     ac_get_positions = (\<lambda>n. Some (Inr [\<lparr>mp_ticker = ''M'', mp_position = from_centi 300, mp_realized_pnl_cents = 0,
        mp_market_exposure_cents = 0, mp_resting_orders_count = 0\<rparr>], n)),
     ac_flatten = (\<lambda>tk q n. (Inr \<lparr>o_id = ''flat'', o_market_ticker = tk, o_side = No, o_price_cents = 60, o_quantity = q,
        o_filled_quantity = q, o_status = Filled, o_type = Market, o_created_at = 0, o_average_fill_price_cents = 0\<rparr>, n))\<rparr>"

definition demo_live :: "(json, json, nat) live" where
  "demo_live = \<lparr>lv_env = ticking_env, lv_account = demo_account,
     lv_market = \<lparr>md_get_markets = (\<lambda>_ n. Some (Inr [], n)), md_get_incentive_programs = (\<lambda>n. Some (Inr [], n)),
       md_get_recent_trades = (\<lambda>_ _. return_io None), md_get_candlesticks = (\<lambda>_ _ _. return_io None),
       md_get_orderbook = (\<lambda>_ n. (Inl (StdException ''timeout''), n))\<rparr>,
     lv_open_orders = return_io [],
     lv_ws_env = \<lparr>we_json = tree_json, ws_send = (\<lambda>_ n. n), ws_request_close = id, we_steady_now = (\<lambda>n. (int n, n))\<rparr>,
     lv_config = demo_config, lv_paper = False, lv_start_seconds = 0, lv_baseline = [],
     lv_join = join_at_head \<lparr>wc_url = ''ws:'', wc_max_reconnects = - 1, wc_reconnect_delay_ms = 100\<rparr>
       (\<lambda>s. (Inl (StdException ''refused''), s)) (\<lambda>_. id) 0\<rparr>"

lemma demo_join: "feed_ends demo_live"
  by (simp add: feed_ends_def demo_live_def join_at_head_ends)

lemma demo_services: "services_answer demo_live"
  by (auto simp: services_answer_def services_contained_def demo_live_def demo_account_def ticking_env_def accepting_api_def api_no_abort_def return_io_def
    flatten_fill_def price_defs)

definition demo_start :: "pnl_map \<Rightarrow> program" where
  "demo_start prior = \<lparr>pg_engine = \<lparr>en_session = live_session demo_config [''M''] prior, en_last_fill = 7\<rparr>,
     pg_ws = new_ws_client 7, pg_poll_count = 0, pg_shutdown = False, pg_phase = Trading\<rparr>"

definition demo_wired :: "(json, json, nat) live" where
  "demo_wired = demo_live\<lparr>lv_baseline := [\<lparr>mp_ticker = ''M'', mp_position = from_centi 300, mp_realized_pnl_cents = 0,
        mp_market_exposure_cents = 0, mp_resting_orders_count = 0\<rparr>]\<rparr>"

lemma demo_boot: "boot demo_live prior 7 = Some (Inr (Some (demo_wired, demo_start prior)), 7)"
  by (simp add: boot_def select_tickers_def start_program_def startup_cancel_def cancel_stale_def startup_baseline_def
    baseline_positions_def startup_seed_def seed_market_def catch_io_def bind_io_def bind_paged_def paged_io_def return_io_def lift_read_def
    demo_live_def demo_config_def demo_account_def ticking_env_def ours_of_def demo_start_def demo_wired_def signed_divide_int_def kNanosPerSecond_def)

definition fill_frame :: json where
  "fill_frame = JObject [(''type'', JString ''fill''), (''msg'', JObject [(''trade_id'', JString ''t''), (''order_id'', JString ''o''),
     (''market_ticker'', JString ''M''), (''outcome_side'', JString ''yes''), (''yes_price_dollars'', JString (format_dollars 40)),
     (''count_fp'', JString (to_fp_string (from_centi 300))), (''is_taker'', JBool False), (''ts_ms'', JInt 5)])]"

lemma fill_frame_carries:
  "carries tree_json ws_parse_fill fill_frame \<lparr>f_trade_id = ''t'', f_order_id = ''o'', f_market_ticker = ''M'', f_side = Yes, f_price_cents = 40,
     f_quantity = from_centi 300, f_fee_cents = 0, f_is_taker = False, f_timestamp = 5 * kNanosPerMilli\<rparr>"
proof -
  have "stod ''0'' = Inr 0" by code_simp
  then show ?thesis
    by (simp add: carries_def fill_frame_def tree_json_def ws_parse_fill_def value_or_def get_str_def get_int_def get_bool_def
      dollars_roundtrip_aux parse_fp_count_def fp_string_roundtrip_aux ws_parse_side_def)
qed

lemma live_run_append: "live_run lv (evs @ evs') st = Option.bind (live_run lv evs st) (live_run lv evs')"
  by (induction evs arbitrary: st) (auto split: bind_splits)

lemma demo_leaves:
  "\<exists>p' w'. leave_loop demo_wired ((demo_start prior)\<lparr>pg_shutdown := True\<rparr>, 7) = Some (p', w')
     \<and> (\<exists>d. pg_phase p' = WindingDown d) \<and> all_flat (the_session p')"
  by (simp add: leave_loop_def demo_wired_def demo_live_def demo_config_def default_quoter_config_def demo_start_def ticking_env_def
    kNanosPerSecond_def all_flat_def live_session_def new_session_def net_position_def new_order_manager_def is_zero_def
    lookup_or_def from_centi_eq_0)

lemma demo_wired_join: "feed_ends demo_wired"
  using demo_join by (simp add: feed_ends_def demo_wired_def)

lemma demo_wired_services: "services_answer demo_wired"
  using demo_services by (simp add: demo_wired_def services_answer_def services_contained_def)

lemma demo_signal: "\<exists>p' w'. live_run demo_wired [SignalEv, PollEv] (demo_start prior, 7) = Some (p', w')
    \<and> (\<exists>d. pg_phase p' = WindingDown d) \<and> all_flat (the_session p')"
  using demo_leaves [of prior] by (auto simp: demo_start_def poll_def is_running_def Let_def)

lemma demo_stops: "\<exists>p' w'. live_run demo_wired [SignalEv, PollEv, PollEv] (demo_start prior, 7) = Some (p', w') \<and> \<not> is_running p'"
proof -
  obtain p1 w1 d where run: "live_run demo_wired [SignalEv, PollEv] (demo_start prior, 7) = Some (p1, w1)"
    and p1: "pg_phase p1 = WindingDown d" "all_flat (the_session p1)" using demo_signal by blast
  obtain p2 w2 where "finish demo_wired 0 (p1, w1) = Some (p2, w2)" "pg_phase p2 = Exited 0"
    using finish_total [OF demo_wired_services demo_wired_join, of 0 p1 w1] by blast
  then have "live_run demo_wired [PollEv] (p1, w1) = Some (p2, w2)" "\<not> is_running p2" using p1 by (simp_all add: poll_def is_running_def)
  then show ?thesis using run live_run_append [of demo_wired "[SignalEv, PollEv]" "[PollEv]"] by (simp del: live_run.simps)
qed

theorem exits_without_quotes_witness:
  "\<exists>p' w'. live_run demo_wired [SignalEv, PollEv, PollEv] (demo_start Map.empty, 7) = Some (p', w')
     \<and> own_quotes (ts_quoter (the_session p')) = Map.empty"
proof -
  have "\<forall>oid v. fst (api_cancel_order (env_api (lv_env demo_wired)) oid v) = Inr True"
    by (simp add: demo_wired_def demo_live_def ticking_env_def accepting_api_def)
  then show ?thesis using exits_without_quotes [OF demo_boot] demo_stops [of Map.empty] by blast
qed

theorem shutdown_completes_witness:
  "\<exists>p1 w1 p2 w2. live_run demo_wired [SignalEv, PollEv] (demo_start Map.empty, 7) = Some (p1, w1)
     \<and> live_run demo_wired [WorldEv 100000000000, PollEv] (p1, w1) = Some (p2, w2) \<and> \<not> is_running p2"
proof -
  obtain p1 w1 where run: "live_run demo_wired (SignalEv # PollEv # []) (demo_start Map.empty, 7) = Some (p1, w1)"
    using demo_signal by blast
  have "pg_phase (demo_start Map.empty) = Trading" by (simp add: demo_start_def)
  moreover have "fst (steady_now (lv_env demo_wired) 7) + winddown_seconds (cf_quoter (lv_config demo_wired)) * kNanosPerSecond
      \<le> fst (steady_now (lv_env demo_wired) 100000000000)"
    by (simp add: demo_wired_def demo_live_def demo_config_def default_quoter_config_def ticking_env_def kNanosPerSecond_def)
  ultimately show ?thesis using shutdown_completes [OF demo_wired_services demo_wired_join [unfolded feed_ends_def] _ run] run by blast
qed

definition demo_fill :: fill where
  "demo_fill = \<lparr>f_trade_id = ''t'', f_order_id = ''o'', f_market_ticker = ''M'', f_side = Yes, f_price_cents = 40,
     f_quantity = from_centi 300, f_fee_cents = 0, f_is_taker = False, f_timestamp = 5 * kNanosPerMilli\<rparr>"

lemma demo_on_fill:
  "\<exists>s'. on_fill demo_fill (live_session demo_config [''M''] prior) = (Inr True, s') \<and> net_position (ts_om s') ''M'' = from_centi 300"
proof -
  have "\<exists>om'. record_fill demo_fill new_order_manager = (Inr True, om') \<and> net_position om' ''M'' = from_centi 300"
    by (simp add: record_fill_def demo_fill_def price_defs is_positive_def new_order_manager_def net_position_def lookup_or_def Let_def)
  then obtain om' where "record_fill demo_fill new_order_manager = (Inr True, om')" "net_position om' ''M'' = from_centi 300" by blast
  moreover have "f_market_ticker demo_fill = ''M''" by (simp add: demo_fill_def)
  ultimately show ?thesis
    by (simp add: on_fill_def live_session_def new_session_def is_tracked_def publish_pnl_def Let_def)
qed

lemma demo_fill_frame:
  "\<exists>p1. live_step demo_wired (FrameEv fill_frame) (demo_start prior, 7) = Some (p1, 7) \<and> pg_phase p1 = Trading
     \<and> pg_shutdown p1 = False \<and> net_position (ts_om (the_session p1)) ''M'' = from_centi 300"
proof -
  obtain s' where fill: "on_fill demo_fill (live_session demo_config [''M''] prior) = (Inr True, s')"
    and net: "net_position (ts_om s') ''M'' = from_centi 300" using demo_on_fill by blast
  have json: "we_json (lv_ws_env demo_wired) = tree_json" by (simp add: demo_wired_def demo_live_def)
  obtain body where body: "js_find tree_json fill_frame ''msg'' = Some body" "ws_parse_fill tree_json body = Inr demo_fill"
    using fill_frame_carries by (auto simp: carries_def demo_fill_def tree_json_def)
  have frame: "js_parse tree_json fill_frame = Inr fill_frame" "js_find tree_json fill_frame ''type'' = Some (JString ''fill'')"
    "js_get_string tree_json (JString ''fill'') = Inr ''fill''" "js_find tree_json fill_frame ''sid'' = None"
    by (simp_all add: fill_frame_def tree_json_def)
  have seq: "check_sequence (engine_ws (lv_ws_env demo_wired)) fill_frame s = (Inr True, s)" for s :: "ws_client \<times> engine \<times> nat"
    by (simp add: check_sequence_def json frame)
  obtain c' where hb: "handle_heartbeat (engine_ws (lv_ws_env demo_wired)) (pg_ws (demo_start prior), (pg_engine (demo_start prior), 7))
      = (c', (pg_engine (demo_start prior), 7))"
    by (simp add: handle_heartbeat_def engine_ws_def demo_wired_def demo_live_def)
  have cb: "fill_callback (live_callbacks (lv_env demo_wired)) = Some fill_received" by (simp add: live_callbacks_def)
  have engine: "en_session (pg_engine (demo_start prior)) = live_session demo_config [''M''] prior" by (simp add: demo_start_def)
  have "\<exists>e'. handle_message (engine_ws (lv_ws_env demo_wired)) (live_callbacks (lv_env demo_wired)) fill_frame
      (pg_ws (demo_start prior), (pg_engine (demo_start prior), 7)) = (Inr (), (c', (e', 7))) \<and> en_session e' = s'"
    by (simp add: handle_message_def json body frame hb seq dispatch_type_def dispatch_def cb fill_received_def catch_io_def
      engine fill discard_def Let_def)
  then show ?thesis
    using net by (auto simp: feed_event_def paged_io_def is_running_def Let_def) (simp_all add: demo_start_def)
qed

theorem live_keeps_books_witness:
  "\<exists>p' w'. live_run demo_wired [FrameEv fill_frame] (demo_start Map.empty, 7) = Some (p', w')
     \<and> net_position (ts_om (the_session p')) ''M'' = from_centi 300 \<and> (\<exists>L. simulates (ts_om (the_session p')) L)"
proof -
  obtain p1 where p1: "live_step demo_wired (FrameEv fill_frame) (demo_start Map.empty, 7) = Some (p1, 7)"
    "net_position (ts_om (the_session p1)) ''M'' = from_centi 300" using demo_fill_frame by blast
  then have run: "live_run demo_wired [FrameEv fill_frame] (demo_start Map.empty, 7) = Some (p1, 7)" by simp
  show ?thesis using live_keeps_books [OF demo_boot run] run p1(2) by blast
qed

text \<open>A paper session with two resting orders at its 299th poll, the feed silent for forty seconds.\<close>

definition silent_live :: "(json, json, nat) live" where
  "silent_live = demo_wired\<lparr>lv_paper := True, lv_env := ticking_env\<lparr>steady_now := (\<lambda>n. (40000000000 + int n, n))\<rparr>\<rparr>"

definition silent_program :: program where
  "silent_program = \<lparr>pg_engine = \<lparr>en_session = (live_session demo_config [''M''] Map.empty)\<lparr>ts_om := two_orders\<rparr>, en_last_fill = 0\<rparr>,
     pg_ws = new_ws_client 0, pg_poll_count = 299, pg_shutdown = False, pg_phase = Trading\<rparr>"

lemma silent_ok: "session_ok (the_session silent_program) new_ledger"
proof -
  have "same_accounts new_order_manager two_orders"
    by (simp add: same_accounts_def two_orders_def place_def accepting_api_def price_defs new_order_manager_def is_positive_def
      from_centi_eq_0)
  then show ?thesis
    using session_ok_om [OF new_session_ok] by (simp add: silent_program_def live_session_def new_session_def)
qed

lemma silent_tick: "\<exists>p' w'. poll_tick silent_live (silent_program, 3) = Some (Inr (), (p', w')) \<and> is_tracked (the_session p') ''M''"
proof -
  let ?env = "lv_env silent_live"
  let ?s = "ts_rm_update (set_constraint kStaleBook) (the_session silent_program)"
  obtain s1 where s1: "s1 = ?s" by blast
  then have halted: "is_halted (ts_rm s1)" "is_halted (ts_rm (run_portfolio_risk s1))"
    using run_portfolio_keeps [of ?s kStaleBook] by (auto simp: halted_iff)
  have accepts: "accepts_cancels ?env" by (simp add: accepts_cancels_def silent_live_def ticking_env_def accepting_api_def)
  have stale: "check_ws_staleness 40000000003 (pg_ws silent_program) (the_session silent_program) = s1"
    by (simp add: s1 check_ws_staleness_def silent_program_def new_ws_client_def kStalenessThreshold_ns_def kNanosPerSecond_def)
  have ok: "session_ok (run_portfolio_risk s1) new_ledger"
    using silent_ok by (simp add: s1 session_ok_def run_portfolio_risk_def)
  obtain r s' w' where c: "cancel_all_quotes ?env (run_portfolio_risk s1) 3 = (r, s', w')" by (metis prod_cases3)
  have r: "r = Inr ()" using cancel_all_quotes_down(1) [OF accepts ok c] .
  have "is_tracked (run_portfolio_risk s1) ''M''"
    by (simp add: s1 is_tracked_def run_portfolio_risk_def silent_program_def live_session_def new_session_def)
  then have "is_tracked s' ''M''" using c by (auto simp: cancel_all_quotes_def is_tracked_def split: prod.splits sum.splits)
  moreover have count: "pg_poll_count silent_program = 299" "lv_paper silent_live" "steady_now ?env 3 = (40000000003, 3)"
    by (simp_all add: silent_program_def silent_live_def)
  ultimately show ?thesis
    by (simp add: poll_tick_def bind_paged_def tick_rotate_def tick_staleness_def tick_portfolio_def tick_reconcile_def on_program_def
      on_engine_def stale requote_idle_markets_def enforce_quote_safety_def halted c r kStalenessCheckInterval_def
      kPortfolioRiskInterval_def Let_def)
qed

theorem halted_poll_quotes_down_witness:
  "orders_of ''M'' (ts_om (the_session silent_program)) = [''o'']
   \<and> (\<exists>p' w'. poll_tick silent_live (silent_program, 3) = Some (Inr (), (p', w')) \<and> orders_of ''M'' (ts_om (the_session p')) = [])"
proof -
  obtain p' w' where tick: "poll_tick silent_live (silent_program, 3) = Some (Inr (), (p', w'))" and tracked: "is_tracked (the_session p') ''M''"
    using silent_tick by blast
  have accepts: "\<forall>oid v. fst (api_cancel_order (env_api (lv_env silent_live)) oid v) = Inr True"
    and "lv_paper silent_live \<or> (pg_poll_count silent_program + 1) mod kReconcileInterval \<noteq> 0"
    by (simp_all add: silent_live_def ticking_env_def accepting_api_def)
  note rule = halted_poll_quotes_down [OF this(2) tick]
  have "(pg_poll_count silent_program + 1) mod kStalenessCheckInterval = 0"
    "\<forall>v. kStalenessThreshold_ns < fst (steady_now (lv_env silent_live) v) - last_message_time (pg_ws silent_program)"
    by (simp_all add: silent_program_def silent_live_def kStalenessCheckInterval_def kStalenessThreshold_ns_def kNanosPerSecond_def new_ws_client_def)
  then have "is_halted (ts_rm (the_session p'))" using rule by (auto simp: halted_iff)
  then have "orders_of ''M'' (ts_om (the_session p')) = []" using rule tracked accepts by blast
  moreover have "orders_of ''M'' (ts_om (the_session silent_program)) = [''o'']" by (simp add: silent_program_def two_orders_open)
  ultimately show ?thesis using tick by blast
qed

theorem pnl_survives_restart_witness:
  "prior_pnl (the_session (demo_start (load_pnl tree_json [''pnl'' \<mapsto> persist_pnl tree_json [(''M'', 5)]] ''pnl''))) = [''M'' \<mapsto> 5]"
proof -
  let ?previous = "live_session demo_config [] [''M'' \<mapsto> 5]"
  have carried: "carried_totals ?previous = [''M'' \<mapsto> 5]"
    by (simp add: carried_totals_def live_session_def new_session_def)
  have "map_of [(''M'', 5)] = carried_totals ?previous" by (simp add: carried)
  from pnl_survives_restart [where read_file = "[''pnl'' \<mapsto> persist_pnl tree_json [(''M'', 5)]]" and path = "''pnl''",
      OF tree_json_ok(2) _ this demo_boot live_run.simps(1)]
  show ?thesis by (simp add: carried)
qed

end
