(* ===== verification/Ix_Socket.thy ===== *)
theory Ix_Socket
  imports Live_Correct
begin

text \<open>
  The production socket (\<open>IxWebSocket\<close> of \<open>source/net/websocket_client.cpp\<close>) and the handlers the
  client registers with it: one message of the library is one call of a handler, on a thread of the
  library's own, where an exception nobody catches ends the process; a Close or an Error ends the
  connection and wakes the loop that runs it. What the library delivers on a connection is a list of
  messages, which ends early when the socket is stopped.
\<close>

section \<open>Messages and handlers\<close>

datatype 't ix_message = IxOpen | IxClose | IxError string | IxMessage 't | IxPing | IxPong | IxOther

record ('t, 'w) ix_handlers =
  on_message_cb :: "('t \<Rightarrow> (unit, 'w) io) option"
  on_connect_cb :: "(unit, 'w) io option"
  on_disconnect_cb :: "(unit, 'w) io option"
  on_heartbeat_cb :: "(unit, 'w) io option"

definition call_handler :: "(unit, 'w) io option \<Rightarrow> (unit, 'w) io" where
  "call_handler cb = (case cb of None \<Rightarrow> return_io () | Some f \<Rightarrow> f)"

text \<open>The state beside the world is \<open>done\<close>, which the waiting \<open>run\<close> looks at.\<close>

definition ix_callback :: "('t, 'w) ix_handlers \<Rightarrow> 't ix_message \<Rightarrow> bool \<times> 'w \<Rightarrow> (exn + unit) \<times> bool \<times> 'w" where
  "ix_callback hs msg st =
     (case st of (finished, w) \<Rightarrow>
      (case msg of
         IxOpen \<Rightarrow> (let (r, w') = call_handler (on_connect_cb hs) w in (r, (finished, w')))
       | IxClose \<Rightarrow> (case call_handler (on_disconnect_cb hs) w of (Inl e, w') \<Rightarrow> (Inl e, (finished, w')) | (Inr _, w') \<Rightarrow> (Inr (), (True, w')))
       | IxError reason \<Rightarrow>
           (case call_handler (on_disconnect_cb hs) w of (Inl e, w') \<Rightarrow> (Inl e, (finished, w')) | (Inr _, w') \<Rightarrow> (Inr (), (True, w')))
       | IxMessage str \<Rightarrow>
           (let (r, w') = call_handler (map_option (\<lambda>f. f str) (on_message_cb hs)) w in (r, (finished, w')))
       | IxPing \<Rightarrow> (let (r, w') = call_handler (on_heartbeat_cb hs) w in (r, (finished, w')))
       | IxPong \<Rightarrow> (let (r, w') = call_handler (on_heartbeat_cb hs) w in (r, (finished, w')))
       | IxOther \<Rightarrow> (Inr (), (finished, w))))"

text \<open>\<open>run\<close>: serve until done; after the last message the socket has been stopped, which sets \<open>done\<close> too.\<close>

definition std_terminate :: "exn \<Rightarrow> exn" where
  "std_terminate e = (case e of StdException what \<Rightarrow> Abort what | Abort what \<Rightarrow> Abort what)"

fun ix_run :: "('t, 'w) ix_handlers \<Rightarrow> 't ix_message list \<Rightarrow> (unit, 'w) io" where
  "ix_run hs [] w = (Inr (), w)"
| "ix_run hs (msg # msgs) w =
     (case ix_callback hs msg (False, w) of
        (Inl e, (_, w')) \<Rightarrow> (Inl (std_terminate e), w')
      | (Inr _, (True, w')) \<Rightarrow> (Inr (), w')
      | (Inr _, (False, w')) \<Rightarrow> ix_run hs msgs w')"

text \<open>The handlers \<open>WebSocketClient::run\<close> registers.\<close>

definition client_handlers :: "('j, 't, 'w) ws_env \<Rightarrow> 'w ws_callbacks \<Rightarrow> ('t, ws_client \<times> 'w) ix_handlers" where
  "client_handlers env cbs =
     \<lparr>on_message_cb = Some (handle_message env cbs), on_connect_cb = Some (handle_connect env cbs),
      on_disconnect_cb = Some (handle_disconnect cbs), on_heartbeat_cb = Some (\<lambda>s. (Inr (), handle_heartbeat env s))\<rparr>"

text \<open>One attempt of the client's loop: sign, set the URL and the headers, run the socket.\<close>

definition auth_headers :: "(string \<Rightarrow> string \<Rightarrow> exn + string) \<Rightarrow> ('w \<Rightarrow> time_ns \<times> 'w) \<Rightarrow> auth \<Rightarrow> ws_config \<Rightarrow> (headers, 'w) io" where
  "auth_headers rsa clock au cfg = sign rsa clock au ''GET'' (extract_ws_path (wc_url cfg))"

text \<open>
  \<open>ix_start\<close> is the library's \<open>start\<close>: what it delivers on the connection, and whether it was cut
  short by \<open>WebSocketClient::stop\<close>.
\<close>

definition ws_attempt :: "(string \<Rightarrow> string \<Rightarrow> exn + string) \<Rightarrow> ('w \<Rightarrow> time_ns \<times> 'w) \<Rightarrow> auth \<Rightarrow> ws_config
    \<Rightarrow> (string \<Rightarrow> headers \<Rightarrow> 'w \<Rightarrow> ('t ix_message list \<times> bool) \<times> 'w) \<Rightarrow> ('t, ws_client \<times> 'w) ix_handlers
    \<Rightarrow> (unit, ws_client \<times> 'w) io" where
  "ws_attempt rsa clock au cfg ix_start hs s =
     (case auth_headers rsa clock au cfg (snd s) of
        (Inl e, w') \<Rightarrow> (Inl e, (fst s, w'))
      | (Inr hdrs, w') \<Rightarrow>
          (let ((msgs, stopped), w'') = ix_start (wc_url cfg) hdrs w'; (r, (c, w3)) = ix_run hs msgs (fst s, w'')
           in (r, (if stopped then stop c else c, w3))))"

section \<open>A connection is a sequence of live events\<close>

definition event_of :: "'t ix_message \<Rightarrow> ('t, 'w) live_event list" where
  "event_of msg = (case msg of IxOpen \<Rightarrow> [ConnectEv] | IxClose \<Rightarrow> [CloseEv] | IxError _ \<Rightarrow> [CloseEv] | IxMessage raw \<Rightarrow> [FrameEv raw]
     | IxPing \<Rightarrow> [HeartbeatEv] | IxPong \<Rightarrow> [HeartbeatEv] | IxOther \<Rightarrow> [])"

text \<open>What the client sees of a connection: everything up to the first Close or Error.\<close>

fun until_closed :: "'t ix_message list \<Rightarrow> 't ix_message list" where
  "until_closed [] = []"
| "until_closed (msg # msgs) = (case msg of IxClose \<Rightarrow> [msg] | IxError _ \<Rightarrow> [msg] | _ \<Rightarrow> msg # until_closed msgs)"

definition program_with :: "program \<Rightarrow> ws_client \<times> engine \<times> 'w \<Rightarrow> program \<times> 'w" where
  "program_with p st = (p\<lparr>pg_ws := fst st, pg_engine := fst (snd st)\<rparr>, snd (snd st))"

lemma program_with_simps [simp]:
  "is_running (fst (program_with p st)) = is_running p"
  "program_with (fst (program_with p st)) st' = program_with p st'"
  "(pg_ws (fst (program_with p st)), (pg_engine (fst (program_with p st)), snd (program_with p st))) = st"
  by (simp_all add: program_with_def is_running_def)

text \<open>One message on an open connection is the event it stands for.\<close>

lemma ix_callback_step:
  fixes lv :: "('j, 't, 'w) live"
  assumes "is_running p" and "msg \<noteq> IxOpen"
    and "ix_callback (client_handlers (engine_ws (lv_ws_env lv)) (live_callbacks (lv_env lv))) msg (False, st) = (r, (finished, st'))"
  shows "live_run lv (event_of msg) (program_with p st)
    = Some (case r of Inr _ \<Rightarrow> program_with p st' | Inl _ \<Rightarrow> crash (lv_env lv) (program_with p st'))"
proof -
  let ?hs = "client_handlers (wse_of lv) (cbs_of lv)"
  have feed: "feed_event lv f (program_with p st) = Some (case r of Inr _ \<Rightarrow> program_with p st' | Inl _ \<Rightarrow> crash (lv_env lv) (program_with p st'))"
    if "f st = Some (r, st')" for f
    using that by (cases st') (simp add: feed_event_def program_with_def Let_def split: sum.split)
  have step: "live_step lv ev (program_with p st) = feed_event lv f (program_with p st)"
    if "\<And>p w. is_running p \<Longrightarrow> live_step lv ev (p, w) = feed_event lv f (p, w)" for ev f
    using that [of "fst (program_with p st)" "snd (program_with p st)"] assms(1) by simp
  have one: ?thesis if "event_of msg = [ev]" "live_step lv ev (program_with p st) = feed_event lv f (program_with p st)"
      "f st = Some (r, st')" for ev f
    using that(1,2) feed [of f] that(3) by simp
  show ?thesis
  proof (cases msg)
    case IxClose
    show ?thesis
      by (rule one [of CloseEv "paged_io (handle_disconnect (cbs_of lv))"])
        (use assms(3) in \<open>auto simp: IxClose event_of_def ix_callback_def client_handlers_def call_handler_def paged_io_def
          intro!: step split: prod.splits sum.splits\<close>)
  next
    case (IxError reason)
    show ?thesis
      by (rule one [of CloseEv "paged_io (handle_disconnect (cbs_of lv))"])
        (use assms(3) in \<open>auto simp: IxError event_of_def ix_callback_def client_handlers_def call_handler_def paged_io_def
          intro!: step split: prod.splits sum.splits\<close>)
  next
    case (IxMessage raw)
    show ?thesis
      by (rule one [of "FrameEv raw" "paged_io (handle_message (wse_of lv) (cbs_of lv) raw)"])
        (use assms(3) in \<open>auto simp: IxMessage event_of_def ix_callback_def client_handlers_def call_handler_def paged_io_def Let_def
          intro!: step split: prod.splits\<close>)
  next
    case IxPing
    show ?thesis
      by (rule one [of HeartbeatEv "\<lambda>st. Some (Inr (), handle_heartbeat (wse_of lv) st)"])
        (use assms(3) in \<open>auto simp: IxPing event_of_def ix_callback_def client_handlers_def call_handler_def Let_def intro!: step\<close>)
  next
    case IxPong
    show ?thesis
      by (rule one [of HeartbeatEv "\<lambda>st. Some (Inr (), handle_heartbeat (wse_of lv) st)"])
        (use assms(3) in \<open>auto simp: IxPong event_of_def ix_callback_def client_handlers_def call_handler_def Let_def intro!: step\<close>)
  next
    case IxOther
    then show ?thesis using assms(3) by (auto simp: ix_callback_def event_of_def)
  qed (use assms(2) in simp)
qed

lemma live_run_stopped: "\<not> is_running p \<Longrightarrow> live_run lv evs (p, w) = Some (p, w)"
  by (induction evs) simp_all

lemma live_run_crashed: "live_run lv evs (crash env st) = Some (crash env st)"
proof -
  have "\<not> is_running (fst (crash env st))" by (cases st) (simp add: crash_eq is_running_def case_prod_beta Let_def)
  then show ?thesis using live_run_stopped by (metis prod.collapse)
qed

lemma live_run_app: "live_run lv (evs @ evs') st = Option.bind (live_run lv evs st) (live_run lv evs')"
  by (induction evs arbitrary: st) (auto split: bind_splits)

text \<open>
  C19. A connection is a sequence of live events: what the production socket does with the messages of
  an open connection, through the handlers the client registered, is what the live program does with
  the events they stand for, up to the first Close or Error, in order, each once; and an exception
  that escapes a handler is the crash of the program.
\<close>

theorem socket_is_feed:
  fixes lv :: "('j, 't, 'w) live"
  assumes "is_running p" and "IxOpen \<notin> set msgs"
    and "ix_run (client_handlers (engine_ws (lv_ws_env lv)) (live_callbacks (lv_env lv))) msgs st = (r, st')"
  shows "live_run lv (concat (map event_of (until_closed msgs))) (program_with p st)
    = Some (case r of Inr _ \<Rightarrow> program_with p st' | Inl _ \<Rightarrow> crash (lv_env lv) (program_with p st'))"
  using assms(2,3)
proof (induction msgs arbitrary: st)
  case (Cons msg msgs)
  obtain r1 finished st1 where cb: "ix_callback (client_handlers (engine_ws (lv_ws_env lv)) (live_callbacks (lv_env lv))) msg (False, st)
      = (r1, (finished, st1))" by (metis prod_cases3)
  note step = ix_callback_step [OF assms(1) _ cb]
  have closes: "until_closed (msg # msgs) = (if finished then [msg] else msg # until_closed msgs)" if "r1 = Inr ()"
    using cb that by (auto simp: ix_callback_def split: ix_message.splits prod.splits sum.splits)
  show ?case
  proof (cases r1)
    case (Inl e)
    have "\<exists>rest. until_closed (msg # msgs) = msg # rest" by (cases msg) auto
    then show ?thesis using Cons.prems step cb Inl by (auto simp: live_run_app live_run_crashed)
  next
    case (Inr u)
    show ?thesis
    proof (cases finished)
      case True
      then show ?thesis using Cons.prems step cb Inr closes by auto
    next
      case False
      then have "ix_run (client_handlers (engine_ws (lv_ws_env lv)) (live_callbacks (lv_env lv))) msgs st1 = (r, st')"
        using Cons.prems(2) cb Inr by simp
      then show ?thesis using Cons.IH [of st1] Cons.prems(1) step closes False Inr by (auto simp: live_run_app)
    qed
  qed
qed auto

theorem socket_is_feed_witness:
  "\<exists>r st'. ix_run (client_handlers (engine_ws (lv_ws_env demo_wired)) (live_callbacks (lv_env demo_wired)))
      [IxMessage fill_frame, IxOther, IxClose, IxPing] (pg_ws (demo_start Map.empty), (pg_engine (demo_start Map.empty), 7)) = (r, st')
    \<and> live_run demo_wired [FrameEv fill_frame, CloseEv] (demo_start Map.empty, 7)
      = Some (case r of Inr _ \<Rightarrow> program_with (demo_start Map.empty) st' | Inl _ \<Rightarrow> crash (lv_env demo_wired) (program_with (demo_start Map.empty) st'))"
proof -
  let ?p = "demo_start Map.empty" and ?msgs = "[IxMessage fill_frame, IxOther, IxClose, IxPing]"
  let ?st = "(pg_ws ?p, (pg_engine ?p, 7))"
  obtain r st' where run: "ix_run (client_handlers (wse_of demo_wired) (cbs_of demo_wired)) ?msgs ?st = (r, st')" by (metis prod.exhaust)
  have start: "program_with ?p ?st = (?p, 7)" by (simp add: program_with_def)
  have "is_running ?p" by (simp add: is_running_def demo_start_def)
  from socket_is_feed [OF this _ run] have "live_run demo_wired (concat (map event_of (until_closed ?msgs))) (?p, 7)
      = Some (case r of Inr _ \<Rightarrow> program_with ?p st' | Inl _ \<Rightarrow> crash (lv_env demo_wired) (program_with ?p st'))"
    unfolding start by simp
  then have "live_run demo_wired [FrameEv fill_frame, CloseEv] (?p, 7)
      = Some (case r of Inr _ \<Rightarrow> program_with ?p st' | Inl _ \<Rightarrow> crash (lv_env demo_wired) (program_with ?p st'))"
    by (simp add: event_of_def)
  with run show ?thesis by blast
qed

section \<open>Stopping too early\<close>

text \<open>
  \<open>run\<close> begins by setting the flag that \<open>stop\<close> clears, on both levels: a stop that comes before
  the thread has entered \<open>run\<close> is forgotten, and the loop runs as if nobody had asked it to stop.
\<close>

lemma early_stop_forgotten: "ws_run cfg attempt sleep_ms (stop c, w) = ws_run cfg attempt sleep_ms (c, w)"
  by (simp add: ws_run_def stop_def)

end
