(* ===== verification/Scan_Output.thy ===== *)
theory Scan_Output
  imports App_Modes
begin

text \<open>
  The result file of a scan (\<open>source/exchange/scan_output.cpp\<close>) and the scan mode that writes it
  (\<open>run_scan_mode\<close> of \<open>source/app/app_modes.cpp\<close>). Opening and writing a file are parameters, each
  with its success; what the mode logs is left out.
\<close>

section \<open>The document\<close>

text \<open>
  \<open>gmtime_r\<close> and \<open>strftime\<close> with \<open>"%Y-%m-%dT%H:%M:%SZ"\<close>; the twenty characters of a year of four
  digits fit the buffer, and \<open>system_clock\<close> counts from 1677 to 2262.
\<close>

definition to_iso8601 :: "time_ns \<Rightarrow> string" where
  "to_iso8601 time_point =
     (let secs = time_point sdiv kNanosPerSecond; in_day = secs mod 86400 in
      case civil_from_days (secs div 86400) of (year, month, day) \<Rightarrow>
        int_to_string year @ ''-'' @ two_digits (nat month) @ ''-'' @ two_digits (nat day) @ ''T''
          @ two_digits (nat (in_day div 3600)) @ '':'' @ two_digits (nat (in_day mod 3600 div 60)) @ '':''
          @ two_digits (nat (in_day mod 60)) @ ''Z'')"

definition scan_market :: "('j, 't) json_ops \<Rightarrow> market_score \<Rightarrow> 'j" where
  "scan_market js r =
     js_object js [(''ticker'', js_string js (sc_ticker r)), (''title'', js_string js (sc_title r)),
       (''category'', js_string js (sc_category r)), (''mid_price_cents'', js_int js (sc_mid_price_cents r)),
       (''spread_cents'', js_int js (sc_spread_cents r)), (''volume_24h'', js_real js (sc_volume_24h r)),
       (''days_to_close'', js_real js (sc_days_to_close r)), (''score'', js_real js (sc_score r))]"

definition scan_results_to_json :: "('j, 't) json_ops \<Rightarrow> market_score list \<Rightarrow> time_ns \<Rightarrow> 't" where
  "scan_results_to_json js results scanned_at =
     js_dump_indent js 2 (js_object js
       [(''scanned_at'', js_string js (to_iso8601 scanned_at)), (''count'', js_int js (int (length results))),
        (''tickers'', js_array js (map (\<lambda>r. js_string js (sc_ticker r)) results)),
        (''markets'', js_array js (map (scan_market js) results))])"

text \<open>A stream of files: opening truncates; the state of the stream after writing.\<close>

record ('t, 'w) file_ops =
  fo_open :: "string \<Rightarrow> 'w \<Rightarrow> bool \<times> 'w"
  fo_write :: "string \<Rightarrow> 't \<Rightarrow> 'w \<Rightarrow> bool \<times> 'w"

definition write_scan_results :: "('j, 't) json_ops \<Rightarrow> ('t, 'w) file_ops \<Rightarrow> string \<Rightarrow> market_score list \<Rightarrow> time_ns \<Rightarrow> 'w \<Rightarrow> bool \<times> 'w" where
  "write_scan_results js fo path results scanned_at w =
     (let (opened, w') = fo_open fo path w in
      if \<not> opened then (False, w') else fo_write fo path (scan_results_to_json js results scanned_at) w')"

section \<open>The scan mode\<close>

definition kScanResultsPath :: string where "kScanResultsPath = ''scan_results.json''"
definition kScanTopN :: int where "kScanTopN = 20"

definition run_scan_mode :: "('j, 't) json_ops \<Rightarrow> ('t, 'w) file_ops \<Rightarrow> ('w \<Rightarrow> time_ns \<times> 'w) \<Rightarrow> 'w market_data \<Rightarrow> scanner_config
    \<Rightarrow> (int, 'w) paged" where
  "run_scan_mode js fo clock md cfg w =
     (let (now, w1) = clock w in
      bind_paged (scan md cfg kScanTopN now) (\<lambda>results w2.
        let (written, w3) = write_scan_results js fo kScanResultsPath results now w2 in Some (Inr 0, w3)) w1)"

section \<open>Times survive\<close>

lemma digits_grow: "v \<le> foldl (\<lambda>acc c. 10 * acc + digit_val c) (v :: nat) ds"
proof (induction ds arbitrary: v)
  case (Cons d ds)
  from Cons.IH [of "10 * v + digit_val d"] show ?case by simp
qed simp

lemma read_digits_all:
  "list_all is_digit ds \<Longrightarrow> length ds \<le> k \<Longrightarrow> \<not> is_digit c \<Longrightarrow> foldl (\<lambda>acc c. 10 * acc + digit_val c) v ds \<le> hi
    \<Longrightarrow> read_digits hi k v (ds @ c # s) = (foldl (\<lambda>acc c. 10 * acc + digit_val c) v ds, c # s)"
proof (induction ds arbitrary: k v)
  case Nil
  then show ?case by (cases k) auto
next
  case (Cons d ds)
  obtain k' where k: "k = Suc k'" using Cons.prems(2) by (cases k) auto
  have "10 * v + digit_val d \<le> hi" using digits_grow [of "10 * v + digit_val d" ds] Cons.prems(4) by simp
  then have "v * 10 \<le> hi" by simp
  then show ?case using Cons.IH [of k' "10 * v + digit_val d"] Cons.prems by (simp add: k mult.commute)
qed

lemma get_number_digits:
  assumes "list_all is_digit ds" and "ds \<noteq> []" and "length ds \<le> n" and "lo \<le> digits_val ds" and "digits_val ds \<le> hi" and "\<not> is_digit c"
  shows "get_number lo hi n (ds @ c # s) = Some (digits_val ds, c # s)"
proof -
  obtain d ds' where ds: "ds = d # ds'" using assms(2) by (cases ds) auto
  have "digits_val ds = foldl (\<lambda>acc c. 10 * acc + digit_val c) (digit_val d) ds'" by (simp add: ds digits_val_def)
  then show ?thesis
    using assms read_digits_all [of ds' "n - 1" c "digit_val d" hi s] is_digit_props(3) [of d]
    by (simp add: ds get_number_def)
qed

lemma get_number_two:
  "lo \<le> n \<Longrightarrow> n \<le> hi \<Longrightarrow> n < 100 \<Longrightarrow> \<not> is_digit c \<Longrightarrow> get_number lo hi 2 (two_digits n @ c # s) = Some (n, c # s)"
  using get_number_digits [of "two_digits n" 2 lo hi c s] length_two_digits [of n] by force

lemma length_year: "n \<le> 9999 \<Longrightarrow> length (nat_to_string n) \<le> 4"
  by (auto simp: nat_to_string.simps [of n] nat_to_string.simps [of "n div 10"] nat_to_string.simps [of "n div 10 div 10"]
    nat_to_string.simps [of "n div 10 div 10 div 10"])

lemma skip_char_eq [simp]: "skip_char c (c # s) = Some s"
  by (simp add: skip_char_def)

lemma separators:
  "\<not> is_digit (CHR ''-'')" "\<not> is_digit (CHR ''T'')" "\<not> is_digit (CHR '':'')" "\<not> is_digit (CHR ''Z'')"
  by (simp_all add: is_digit_def)

lemma get_number_year: "n \<le> 9999 \<Longrightarrow> get_number 0 9999 4 (nat_to_string n @ CHR ''-'' # s) = Some (n, CHR ''-'' # s)"
  using get_number_digits [OF nat_to_string_digits nat_to_string_nonempty length_year, of n 0 9999 "CHR ''-''" s] separators(1)
  by simp

lemma strptime_written:
  assumes "y \<le> 9999" and "1 \<le> m" "m \<le> 12" and "1 \<le> d" "d \<le> 31" and "h \<le> 23" and "i \<le> 59" and "s \<le> 59"
  shows "strptime (nat_to_string y @ ''-'' @ two_digits m @ ''-'' @ two_digits d @ ''T'' @ two_digits h @ '':'' @ two_digits i @ '':''
    @ two_digits s @ ''Z'') = Some (y, m, d, h, i, s)"
proof -
  have "m < 100" "d < 100" "h < 100" "i < 100" "s < 100" "s \<le> 61" using assms by simp_all
  note numbers = get_number_year [OF assms(1)]
    get_number_two [OF assms(2,3) this(1) separators(1)] get_number_two [OF assms(4,5) this(2) separators(2)]
    get_number_two [OF le0 assms(6) this(3) separators(3)] get_number_two [OF le0 assms(7) this(4) separators(3)]
    get_number_two [OF le0 this(6) this(5) separators(4)]
  show ?thesis by (simp only: strptime_def append.simps numbers Option.bind.simps prod.case skip_char_eq)
qed

lemma time_of_day:
  fixes r :: int
  assumes "0 \<le> r" and "r < 86400"
  shows "nat (r div 3600) \<le> 23" and "nat (r mod 3600 div 60) \<le> 59" and "nat (r mod 60) \<le> 59"
    and "3600 * int (nat (r div 3600)) + 60 * int (nat (r mod 3600 div 60)) + int (nat (r mod 60)) = r"
proof -
  show "nat (r div 3600) \<le> 23" "nat (r mod 3600 div 60) \<le> 59" "nat (r mod 60) \<le> 59" using assms by auto
  have "r mod 3600 mod 60 = r mod 60" by (simp add: mod_mod_cancel)
  moreover have "int (nat (r div 3600)) = r div 3600" "int (nat (r mod 3600 div 60)) = r mod 3600 div 60" "int (nat (r mod 60)) = r mod 60"
    using assms(1) by (simp_all add: pos_imp_zdiv_nonneg_iff)
  ultimately show "3600 * int (nat (r div 3600)) + 60 * int (nat (r mod 3600 div 60)) + int (nat (r mod 60)) = r"
    using mult_div_mod_eq [of 3600 r] mult_div_mod_eq [of 60 "r mod 3600"] by (metis add.assoc)
qed

lemma timegm_day: "timegm (y, m, d, h, i, s) = 86400 * day_number (int y) m (int d) + (3600 * int h + 60 * int i + int s)"
  by (simp add: timegm_def day_number_def)

text \<open>Every time from 1970 to the year 9999 is written so that the client's own parser reads back the second it fell in.\<close>

lemma iso_second:
  assumes "0 \<le> t" and "t < 253402300800 * kNanosPerSecond"
  shows "parse_iso8601 (to_iso8601 t) = Inr (t div kNanosPerSecond * kNanosPerSecond)"
proof -
  let ?secs = "t div kNanosPerSecond"
  have k: "0 < kNanosPerSecond" by (simp add: kNanosPerSecond_def)
  then have sd: "t sdiv kNanosPerSecond = ?secs" using assms(1) by (simp add: signed_divide_int_def sgn_if)
  have secs: "0 \<le> ?secs" "?secs < 253402300800" using assms by (simp_all add: kNanosPerSecond_def)
  obtain y m d where date: "civil_from_days (?secs div 86400) = (y, int m, d)" "is_date y m d" "day_number y m d = ?secs div 86400"
    using civil_from_days_spec by metis
  have y: "0 \<le> y" "y \<le> 9999"
  proof -
    show "0 \<le> y"
      using day_in_year(2) [OF date(2)] days_before_year_mono [of "y + 1" 0] secs(1) date(3)
      by (cases "0 \<le> y") (auto simp: days_before_year_def)
    show "y \<le> 9999"
      using day_in_year(1) [OF date(2)] days_before_year_mono [of 10000 y] secs(2) date(3)
      by (cases "y \<le> 9999") (auto simp: days_before_year_def)
  qed
  have md: "1 \<le> m" "m \<le> 12" "1 \<le> nat d" "nat d \<le> 31" "int (nat d) = d"
    using date(2) by (auto simp: is_date_def month_days_def split: if_splits)
  let ?r = "?secs mod 86400"
  have "0 \<le> ?r" "?r < 86400" by simp_all
  note r = time_of_day [OF this]
  have year: "int (nat y) = y" using y(1) by simp
  have nat_year: "nat y \<le> 9999" using y(2) by linarith
  have "int_to_string y = nat_to_string (nat y)" using y(1) by (simp add: int_to_string_def)
  then have "to_iso8601 t = nat_to_string (nat y) @ ''-'' @ two_digits m @ ''-'' @ two_digits (nat d) @ ''T'' @ two_digits (nat (?r div 3600))
      @ '':'' @ two_digits (nat (?r mod 3600 div 60)) @ '':'' @ two_digits (nat (?r mod 60)) @ ''Z''"
    unfolding to_iso8601_def sd Let_def date(1) prod.case nat_int by (simp only:)
  then have "strptime (to_iso8601 t) = Some (nat y, m, nat d, nat (?r div 3600), nat (?r mod 3600 div 60), nat (?r mod 60))"
    by (simp only: strptime_written [OF nat_year md(1-4) r(1-3)])
  moreover have "timegm (nat y, m, nat d, nat (?r div 3600), nat (?r mod 3600 div 60), nat (?r mod 60)) = ?secs"
    unfolding timegm_day r(4) md(5) year date(3) by (rule mult_div_mod_eq)
  ultimately show ?thesis by (simp only: parse_iso8601_def option.case)
qed

text \<open>
  C31. The result file tells what the scan found: whenever the scan returns and the file can be opened,
  the mode writes one document and exits with 0, also when nothing was found; read back, the
  document lists the found markets in rank order, counts them, and is stamped with the second the
  scan began in, in the format the client itself parses.
\<close>

theorem scan_file_reads_back:
  assumes "json_reads_back js" and "clock w = (now, w1)" and "scan md cfg kScanTopN now w1 = Some (Inr results, w2)"
    and "fo_open fo kScanResultsPath w2 = (True, w3)" and "0 \<le> now" and "now < 253402300800 * kNanosPerSecond"
  shows "\<exists>text doc. run_scan_mode js fo clock md cfg w = Some (Inr 0, snd (fo_write fo kScanResultsPath text w3))
    \<and> js_parse js text = Inr doc
    \<and> bindE (js_at js doc ''tickers'') (\<lambda>ts. map_result (js_get_string js) (js_elements js ts)) = Inr (map sc_ticker results)
    \<and> get_int js doc ''count'' = Inr (int (length results))
    \<and> bindE (get_str js doc ''scanned_at'') parse_iso8601 = Inr (now div kNanosPerSecond * kNanosPerSecond)"
proof -
  let ?kvs = "[(''scanned_at'', js_string js (to_iso8601 now)), (''count'', js_int js (int (length results))),
    (''tickers'', js_array js (map (\<lambda>r. js_string js (sc_ticker r)) results)), (''markets'', js_array js (map (scan_market js) results))]"
  note js = json_reads_backD [OF assms(1)]
  have run: "run_scan_mode js fo clock md cfg w
      = Some (Inr 0, snd (fo_write fo kScanResultsPath (scan_results_to_json js results now) w3))"
    by (simp add: run_scan_mode_def assms(2-4) bind_paged_def write_scan_results_def case_prod_beta Let_def)
  have doc: "js_parse js (scan_results_to_json js results now) = Inr (js_object js ?kvs)"
    unfolding scan_results_to_json_def by (rule js(10))
  have tickers: "js_at js (js_object js ?kvs) ''tickers'' = Inr (js_array js (map (\<lambda>r. js_string js (sc_ticker r)) results))"
    by (rule js(9)) simp
  have "map_result (js_get_string js) (map (\<lambda>r. js_string js (sc_ticker r)) results) = Inr (map sc_ticker results)"
    by (induction results) (simp_all add: js(5))
  moreover have "get_str js (js_object js ?kvs) ''scanned_at'' = Inr (to_iso8601 now)"
    by (rule get_reads_back(1) [OF assms(1)]) simp
  moreover have "get_int js (js_object js ?kvs) ''count'' = Inr (int (length results))"
    by (rule get_reads_back(2) [OF assms(1)]) simp
  moreover have "parse_iso8601 (to_iso8601 now) = Inr (now div kNanosPerSecond * kNanosPerSecond)"
    by (rule iso_second [OF assms(5,6)])
  ultimately show ?thesis using run doc tickers by (auto simp: js(4))
qed

definition demo_disk :: "(json, unit) file_ops" where
  "demo_disk = \<lparr>fo_open = (\<lambda>_ w. (True, w)), fo_write = (\<lambda>_ _ w. (True, w))\<rparr>"

theorem scan_file_reads_back_witness:
  "\<exists>doc. run_scan_mode tree_json demo_disk (\<lambda>w. (0, w)) two_markets default_scanner_config () = Some (Inr 0, ())
     \<and> bindE (js_at tree_json doc ''tickers'') (\<lambda>ts. map_result (js_get_string tree_json) (js_elements tree_json ts)) = Inr [''A'']"
proof -
  obtain r w' where scan: "scan two_markets default_scanner_config kScanTopN 0 () = Some (Inr [r], w')" "sc_ticker r = ''A''"
    using two_markets_scan [of 20] by (auto simp: kScanTopN_def)
  have disk: "fo_open demo_disk kScanResultsPath w' = (True, w')" by (simp add: demo_disk_def)
  have "(0::int) < 253402300800 * kNanosPerSecond" by (simp add: kNanosPerSecond_def)
  from scan_file_reads_back [where clock = "\<lambda>w. (0, w)" and w = "()", OF tree_json_ok(2) refl scan(1) disk order_refl this] scan(2)
  show ?thesis by auto
qed

end
