(* ===== verification/Capture.thy ===== *)
theory Capture
  imports Feed_World
begin

text \<open>
  Recording a session (\<open>source/net/capture.cpp\<close>): the socket and transport that tee what they see
  to an output stream, the lines of such a stream read back, and the injection of recorded frames
  into a client without a connection (\<open>inject_frame\<close> over \<open>NullWebSocket\<close>, the reading loops of
  \<open>source/app/app_modes.cpp\<close>). The stream is the text written so far, with the count beside it.
\<close>

section \<open>The recording socket\<close>

record capture =
  cap_out :: string
  cap_count :: nat

definition new_capture :: capture where
  "new_capture = \<lparr>cap_out = [], cap_count = 0\<rparr>"

definition record_line :: "string \<Rightarrow> capture \<Rightarrow> capture" where
  "record_line line cap = \<lparr>cap_out = cap_out cap @ line @ [CHR 0x0A], cap_count = cap_count cap + 1\<rparr>"

text \<open>What the recording socket hands its inner socket as the message handler; the rest passes through.\<close>

definition capture_handler :: "(string \<Rightarrow> (unit, 's) io) option \<Rightarrow> string \<Rightarrow> (unit, capture \<times> 's) io" where
  "capture_handler user_handler message st =
     (let cap = record_line message (fst st) in
      case user_handler of
        None \<Rightarrow> (Inr (), (cap, snd st))
      | Some h \<Rightarrow> (let (r, s') = h message (snd st) in (r, (cap, s'))))"

section \<open>The recording transport\<close>

definition record_response :: "('j, string) json_ops \<Rightarrow> string \<Rightarrow> string \<Rightarrow> string \<Rightarrow> string http_response \<Rightarrow> capture \<Rightarrow> capture" where
  "record_response js http_method url request_body response =
     record_line (js_dump js (js_object js [(''method'', js_string js http_method), (''url'', js_string js url),
       (''request_body'', js_string js request_body), (''status'', js_int js (status_code response)),
       (''response_body'', js_string js (body response))]))"

definition recorded :: "('j, string) json_ops \<Rightarrow> string \<Rightarrow> string \<Rightarrow> string \<Rightarrow> (string http_response, 'w) io
    \<Rightarrow> (string http_response, capture \<times> 'w) io" where
  "recorded js http_method url request_body call st =
     (case call (snd st) of
        (Inl e, w') \<Rightarrow> (Inl e, (fst st, w'))
      | (Inr response, w') \<Rightarrow> (Inr response, (record_response js http_method url request_body response (fst st), w')))"

definition capturing_transport :: "('j, string) json_ops \<Rightarrow> (string, 'w) http_transport \<Rightarrow> (string, capture \<times> 'w) http_transport" where
  "capturing_transport js inner =
     \<lparr>http_get = (\<lambda>url h. recorded js ''GET'' url [] (http_get inner url h)),
      http_post = (\<lambda>url h b. recorded js ''POST'' url b (http_post inner url h b)),
      http_delete = (\<lambda>url h. recorded js ''DELETE'' url [] (http_delete inner url h))\<rparr>"

section \<open>Reading a recording back\<close>

text \<open>\<open>std::getline\<close> until the stream ends; a last line needs no line feed.\<close>

function read_lines :: "string \<Rightarrow> string list" where
  "read_lines [] = []"
| "read_lines (c # s) =
     takeWhile (\<lambda>x. x \<noteq> CHR 0x0A) (c # s) # read_lines (drop 1 (dropWhile (\<lambda>x. x \<noteq> CHR 0x0A) (c # s)))"
  by pat_completeness auto
termination
proof (relation "measure length")
  fix c :: char and s
  have "length (dropWhile (\<lambda>x. x \<noteq> CHR 0x0A) (c # s)) \<le> length (c # s)" by (rule length_dropWhile_le)
  then show "(drop 1 (dropWhile (\<lambda>x. x \<noteq> CHR 0x0A) (c # s)), c # s) \<in> measure length"
    by (simp only: in_measure length_drop list.size)
qed simp

text \<open>A client without a connection: \<open>NullWebSocket\<close> does nothing, the clock is still read.\<close>

definition null_ws_env :: "('j, 't) json_ops \<Rightarrow> ('w \<Rightarrow> time_ns \<times> 'w) \<Rightarrow> ('j, 't, 's \<times> 'w) ws_env" where
  "null_ws_env js steady =
     \<lparr>we_json = js, ws_send = (\<lambda>_. id), ws_request_close = id,
      we_steady_now = (\<lambda>(s, w). let (t, w') = steady w in (t, (s, w')))\<rparr>"

text \<open>The loop over the lines, empty ones skipped; the count of frames.\<close>

fun inject_lines :: "(string \<Rightarrow> (unit, 's) io) \<Rightarrow> string list \<Rightarrow> int \<Rightarrow> (int, 's) io" where
  "inject_lines inject [] frames = return_io frames"
| "inject_lines inject (line # rest) frames =
     (if line = [] then inject_lines inject rest frames
      else bind_io (inject line) (\<lambda>_. inject_lines inject rest (frames + 1)))"

section \<open>A recording is faithful\<close>

definition as_line :: "string \<Rightarrow> string" where
  "as_line raw = raw @ [CHR 0x0A]"

lemma read_lines_cons: "CHR 0x0A \<notin> set l \<Longrightarrow> read_lines (as_line l @ s) = l # read_lines s"
proof -
  assume no: "CHR 0x0A \<notin> set l"
  obtain c r where cr: "as_line l @ s = c # r" by (cases "as_line l @ s") (simp_all add: as_line_def)
  have "takeWhile (\<lambda>x. x \<noteq> CHR 0x0A) (as_line l @ s) = l" "dropWhile (\<lambda>x. x \<noteq> CHR 0x0A) (as_line l @ s) = CHR 0x0A # s"
    using no by (auto simp: as_line_def takeWhile_append dropWhile_append)
  then show ?thesis using read_lines.simps(2) [of c r] unfolding cr by simp
qed

lemma read_lines_recording: "\<forall>l \<in> set ls. CHR 0x0A \<notin> set l \<Longrightarrow> read_lines (concat (map as_line ls)) = ls"
  by (induction ls) (simp_all add: read_lines_cons)

lemma inject_lines_skip: "inject_lines inject (filter (\<lambda>l. l \<noteq> []) ls) n = inject_lines inject ls n"
  by (induction ls arbitrary: n) auto

text \<open>The frames a recording socket has passed on, and where they led.\<close>

fun received :: "(string \<Rightarrow> (unit, 's) io) \<Rightarrow> string list \<Rightarrow> 's \<Rightarrow> 's" where
  "received h [] s = s"
| "received h (raw # raws) s = received h raws (snd (h raw s))"

lemma received_capture:
  "received (capture_handler (Some h)) raws (cap, s) =
     (\<lparr>cap_out = cap_out cap @ concat (map as_line raws), cap_count = cap_count cap + length raws\<rparr>, received h raws s)"
  by (induction raws arbitrary: cap s) (simp_all add: capture_handler_def record_line_def as_line_def case_prod_beta Let_def)

text \<open>
  A recording is transparent and faithful: the recording socket leads the client where it would
  have gone without it, and as long as no frame contains a line feed the file it wrote has the
  received frames as its lines, in order, each once.
\<close>

theorem capture_faithful:
  assumes "\<forall>raw \<in> set raws. CHR 0x0A \<notin> set raw"
  shows "snd (received (capture_handler (Some h)) raws (new_capture, s)) = received h raws s
    \<and> read_lines (cap_out (fst (received (capture_handler (Some h)) raws (new_capture, s)))) = raws
    \<and> cap_count (fst (received (capture_handler (Some h)) raws (new_capture, s))) = length raws"
  using read_lines_recording [OF assms] by (simp add: received_capture new_capture_def)

theorem capture_faithful_witness:
  "read_lines (cap_out (fst (received (capture_handler (Some (\<lambda>raw n. (Inr (), n + length raw)))) [''{}'', ''[1]''] (new_capture, 0)))) = [''{}'', ''[1]'']"
  using capture_faithful [of "[''{}'', ''[1]'']" "\<lambda>raw n. (Inr (), n + length raw)" 0] by simp

text \<open>
  The recording transport changes no answer: whatever the request, it returns the inner
  transport's response or error and world; a response adds one line to the record, an error none.
\<close>

lemma capturing_transparent:
  "\<exists>cap'. http_get (capturing_transport js inner) url h (cap, w) = (fst (http_get inner url h w), (cap', snd (http_get inner url h w)))
     \<and> cap_count cap' = cap_count cap + (case fst (http_get inner url h w) of Inl _ \<Rightarrow> 0 | Inr _ \<Rightarrow> 1)"
  "\<exists>cap'. http_post (capturing_transport js inner) url h b (cap, w) = (fst (http_post inner url h b w), (cap', snd (http_post inner url h b w)))
     \<and> cap_count cap' = cap_count cap + (case fst (http_post inner url h b w) of Inl _ \<Rightarrow> 0 | Inr _ \<Rightarrow> 1)"
  "\<exists>cap'. http_delete (capturing_transport js inner) url h (cap, w) = (fst (http_delete inner url h w), (cap', snd (http_delete inner url h w)))
     \<and> cap_count cap' = cap_count cap + (case fst (http_delete inner url h w) of Inl _ \<Rightarrow> 0 | Inr _ \<Rightarrow> 1)"
  by (auto simp: capturing_transport_def recorded_def record_response_def record_line_def split: prod.splits sum.splits)

lemma capturing_raises_std:
  "transport_raises_std inner \<Longrightarrow> transport_raises_std (capturing_transport js inner)"
  unfolding transport_raises_std_def raises_std_def capturing_transport_def recorded_def
  by (auto split: prod.splits sum.splits)

end
