(* ===== verification/Fv_Backtest.thy ===== *)
theory Fv_Backtest
  imports Orderbook Trade_Tape Fixed_Point
begin

text \<open>
  The fair-value backtest (\<open>source/tooling/fv_backtest.cpp\<close>): a grid of candidate fair values is
  computed from the book and the tapes at every print, and each is graded against the first later
  print of its market past a horizon. The maps of books and of pending scores are partial maps; a
  print is graded in candidate order, so the list of candidates keeps its positions. Half lives
  are positive numbers of seconds.
\<close>

section \<open>Configuration\<close>

record anchor_spec =
  as_label :: string
  as_use_micro :: bool
  as_weighting :: depth_weighting

record fv_config =
  fv_anchors :: "anchor_spec list"
  fv_tape_weights :: "real list"
  fv_half_lives :: "int list"
  fv_own_fill_weights :: "real list"
  fv_tape_window_seconds :: int
  fv_score_horizon_seconds :: int

definition fv_defaults :: fv_config where
  "fv_defaults = (let w = default_depth_weighting in
     \<lparr>fv_anchors = [\<lparr>as_label = ''micro'', as_use_micro = True, as_weighting = w\<rparr>,
        \<lparr>as_label = ''clearing(flat)'', as_use_micro = False, as_weighting = w\<rparr>,
        \<lparr>as_label = ''clearing(d=0.5)'', as_use_micro = False, as_weighting = w\<lparr>decay_per_cent := 1 / 2\<rparr>\<rparr>,
        \<lparr>as_label = ''clearing(d=0.8)'', as_use_micro = False, as_weighting = w\<lparr>decay_per_cent := 4 / 5\<rparr>\<rparr>,
        \<lparr>as_label = ''clearing(top3)'', as_use_micro = False, as_weighting = w\<lparr>max_levels := 3\<rparr>\<rparr>],
      fv_tape_weights = [0, 1 / 10, 1 / 4, 1 / 2, 3 / 4, 1], fv_half_lives = [10, 30, 120],
      fv_own_fill_weights = [0, 1 / 2], fv_tape_window_seconds = 600, fv_score_horizon_seconds = 30\<rparr>)"

section \<open>State\<close>

record accumulator =
  ac_events :: int
  ac_abs_error_sum :: real
  ac_signed_error_sum :: real

definition new_accumulator :: accumulator where
  "new_accumulator = \<lparr>ac_events = 0, ac_abs_error_sum = 0, ac_signed_error_sum = 0\<rparr>"

definition record_error :: "accumulator \<Rightarrow> real \<Rightarrow> accumulator" where
  "record_error acc error_cents =
     \<lparr>ac_events = ac_events acc + 1, ac_abs_error_sum = ac_abs_error_sum acc + \<bar>error_cents\<bar>,
      ac_signed_error_sum = ac_signed_error_sum acc + error_cents\<rparr>"

record candidate =
  cd_name :: string
  cd_anchor_index :: nat
  cd_tape_weight :: real
  cd_half_life :: int
  cd_tape_index :: nat
  cd_accumulator :: accumulator

record pending_score =
  ps_deadline :: time_ns
  ps_fair_values :: "real list"

record fv_backtest =
  fb_config :: fv_config
  fb_candidates :: "candidate list"
  fb_tapes :: "trade_tape list"
  fb_books :: "ticker \<rightharpoonup> orderbook"
  fb_pending :: "ticker \<rightharpoonup> pending_score list"

section \<open>The candidate grid\<close>

text \<open>
  \<open>std::format("{:g}")\<close>: six significant digits, in positional notation for exponents from -4 to 5,
  without trailing zeros.
\<close>

definition round_half_even :: "real \<Rightarrow> int" where
  "round_half_even x =
     (let f = \<lfloor>x\<rfloor> in if x - of_int f < 1 / 2 then f else if x - of_int f > 1 / 2 then f + 1 else if even f then f else f + 1)"

definition significant_digits :: "real \<Rightarrow> int \<times> int" where
  "significant_digits x =
     (let e = \<lfloor>log 10 x\<rfloor>; n = round_half_even (x * 10 powr of_int (5 - e))
      in if n = 10 ^ 6 then (10 ^ 5, e + 1) else (n, e))"

definition strip_zeros :: "string \<Rightarrow> string" where
  "strip_zeros digits = rev (dropWhile (\<lambda>c. c = CHR ''0'') (rev digits))"

definition with_point :: "string \<Rightarrow> string \<Rightarrow> string" where
  "with_point whole fraction = (if strip_zeros fraction = [] then whole else whole @ ''.'' @ strip_zeros fraction)"

definition exponent_string :: "int \<Rightarrow> string" where
  "exponent_string e = (if e < 0 then ''e-'' else ''e+'') @ (if \<bar>e\<bar> < 10 then ''0'' else []) @ int_to_string \<bar>e\<bar>"

definition format_g :: "real \<Rightarrow> string" where
  "format_g x =
     (if x = 0 then ''0''
      else
        let (n, e) = significant_digits \<bar>x\<bar>; digits = int_to_string n;
            text = (if e < -4 \<or> e \<ge> 6 then with_point (take 1 digits) (drop 1 digits) @ exponent_string e
                    else if e < 0 then with_point ''0'' (replicate (nat (- e) - 1) (CHR ''0'') @ digits)
                    else with_point (take (nat e + 1) digits) (drop (nat e + 1) digits))
        in if x < 0 then ''-'' @ text else text)"

definition tape_candidate_name :: "string \<Rightarrow> real \<Rightarrow> int \<Rightarrow> real \<Rightarrow> string" where
  "tape_candidate_name label tape_weight half_life own_weight =
     label @ ''+tape(w='' @ format_g tape_weight @ '',h='' @ int_to_string half_life @ ''s''
       @ (if own_weight > 0 then '',own='' @ format_g own_weight else []) @ '')''"

definition anchor_candidates :: "fv_config \<Rightarrow> nat \<Rightarrow> candidate list" where
  "anchor_candidates cfg anchor_index =
     (let anchor = fv_anchors cfg ! anchor_index in
      \<lparr>cd_name = as_label anchor, cd_anchor_index = anchor_index, cd_tape_weight = 0, cd_half_life = 0, cd_tape_index = 0,
        cd_accumulator = new_accumulator\<rparr>
      # concat (map (\<lambda>tape_weight.
          if tape_weight \<le> 0 then []
          else concat (map (\<lambda>half_life.
            map (\<lambda>tape_index.
              \<lparr>cd_name = tape_candidate_name (as_label anchor) tape_weight half_life (fv_own_fill_weights cfg ! tape_index),
               cd_anchor_index = anchor_index, cd_tape_weight = tape_weight, cd_half_life = half_life,
               cd_tape_index = tape_index, cd_accumulator = new_accumulator\<rparr>)
            [0..<length (fv_own_fill_weights cfg)]) (fv_half_lives cfg))) (fv_tape_weights cfg)))"

definition build_candidates :: "fv_config \<Rightarrow> candidate list" where
  "build_candidates cfg = concat (map (anchor_candidates cfg) [0..<length (fv_anchors cfg)])"

definition new_fv_backtest :: "fv_config \<Rightarrow> fv_backtest" where
  "new_fv_backtest cfg =
     \<lparr>fb_config = cfg, fb_candidates = build_candidates cfg,
      fb_tapes = map (\<lambda>own_weight. new_trade_tape
        \<lparr>tc_window_seconds = fv_tape_window_seconds cfg, tc_own_fill_weight = own_weight\<rparr>) (fv_own_fill_weights cfg),
      fb_books = Map.empty, fb_pending = Map.empty\<rparr>"

section \<open>Events\<close>

definition fv_on_snapshot :: "orderbook \<Rightarrow> fv_backtest \<Rightarrow> fv_backtest" where
  "fv_on_snapshot snap bt = bt\<lparr>fb_books := (fb_books bt)(ob_ticker snap \<mapsto> apply_snapshot snap)\<rparr>"

definition fv_on_delta :: "ticker \<Rightarrow> side \<Rightarrow> int \<Rightarrow> quantity \<Rightarrow> fv_backtest \<Rightarrow> fv_backtest" where
  "fv_on_delta tk sd price_cents delta bt =
     bt\<lparr>fb_books := (fb_books bt)(tk \<mapsto> apply_delta (lookup_or empty_book (fb_books bt) tk) sd price_cents delta)\<rparr>"

definition fv_on_fill :: "fill \<Rightarrow> fv_backtest \<Rightarrow> fv_backtest" where
  "fv_on_fill f bt = bt\<lparr>fb_tapes := map (record_own_fill (f_trade_id f)) (fb_tapes bt)\<rparr>"

definition fair_value_of :: "fv_backtest \<Rightarrow> candidate \<Rightarrow> orderbook \<Rightarrow> public_trade \<Rightarrow> real" where
  "fair_value_of bt c book trade =
     (let anchor = fv_anchors (fb_config bt) ! cd_anchor_index c;
          anchor_price = (if as_use_micro anchor then micro_price_cents book else clearing_price_cents book (as_weighting anchor))
      in if cd_tape_weight c \<le> 0 then anchor_price
         else case vwap_cents (fb_tapes bt ! cd_tape_index c) (pt_market_ticker trade) (cd_half_life c) (pt_timestamp trade) of
           None \<Rightarrow> anchor_price
         | Some tape_vwap \<Rightarrow> cd_tape_weight c * tape_vwap + (1 - cd_tape_weight c) * anchor_price)"

definition queue_scores :: "public_trade \<Rightarrow> fv_backtest \<Rightarrow> fv_backtest" where
  "queue_scores trade bt =
     (let tk = pt_market_ticker trade in
      case fb_books bt tk of
        None \<Rightarrow> bt
      | Some book \<Rightarrow>
          if best_bid book = None \<or> best_ask book = None then bt
          else
            let pending = \<lparr>ps_deadline = pt_timestamp trade + fv_score_horizon_seconds (fb_config bt) * kNanosPerSecond,
                           ps_fair_values = map (\<lambda>c. fair_value_of bt c book trade) (fb_candidates bt)\<rparr>
            in bt\<lparr>fb_pending := (fb_pending bt)(tk \<mapsto> lookup_or [] (fb_pending bt) tk @ [pending])\<rparr>)"

definition grade :: "int \<Rightarrow> pending_score \<Rightarrow> candidate list \<Rightarrow> candidate list" where
  "grade price_cents due cs =
     map2 (\<lambda>c fair_value. c\<lparr>cd_accumulator := record_error (cd_accumulator c) (fair_value - of_int price_cents)\<rparr>)
       cs (ps_fair_values due)"

fun resolve_queue :: "public_trade \<Rightarrow> pending_score list \<Rightarrow> candidate list \<Rightarrow> pending_score list \<times> candidate list" where
  "resolve_queue trade [] cs = ([], cs)"
| "resolve_queue trade (front # queue) cs =
     (if ps_deadline front \<le> pt_timestamp trade
      then resolve_queue trade queue (grade (pt_yes_price_cents trade) front cs) else (front # queue, cs))"

definition resolve_pending :: "public_trade \<Rightarrow> fv_backtest \<Rightarrow> fv_backtest" where
  "resolve_pending trade bt =
     (case fb_pending bt (pt_market_ticker trade) of
        None \<Rightarrow> bt
      | Some queue \<Rightarrow>
          (let (queue', cs') = resolve_queue trade queue (fb_candidates bt)
           in bt\<lparr>fb_pending := (fb_pending bt)(pt_market_ticker trade \<mapsto> queue'), fb_candidates := cs'\<rparr>))"

definition fv_on_trade :: "public_trade \<Rightarrow> fv_backtest \<Rightarrow> fv_backtest" where
  "fv_on_trade trade bt =
     (let bt' = resolve_pending trade (queue_scores trade bt) in bt'\<lparr>fb_tapes := map (record_trade trade) (fb_tapes bt')\<rparr>)"

section \<open>The scoreboard\<close>

record fv_score =
  sc_candidate :: string
  sc_events :: int
  sc_mae_cents :: real
  sc_bias_cents :: real

definition score_of :: "candidate \<Rightarrow> fv_score" where
  "score_of c =
     (let acc = cd_accumulator c; n = ac_events acc in
      \<lparr>sc_candidate = cd_name c, sc_events = n,
       sc_mae_cents = (if n > 0 then ac_abs_error_sum acc / of_int n else 0),
       sc_bias_cents = (if n > 0 then ac_signed_error_sum acc / of_int n else 0)\<rparr>)"

definition fv_scores :: "fv_backtest \<Rightarrow> fv_score list" where
  "fv_scores bt = sort_key sc_mae_cents (map score_of (fb_candidates bt))"

section \<open>What the backtest grades\<close>

datatype fv_event = FvSnapshot orderbook | FvDelta ticker side int quantity | FvTrade public_trade | FvFill fill

fun fv_step :: "fv_event \<Rightarrow> fv_backtest \<Rightarrow> fv_backtest" where
  "fv_step (FvSnapshot snap) bt = fv_on_snapshot snap bt"
| "fv_step (FvDelta tk sd p d) bt = fv_on_delta tk sd p d bt"
| "fv_step (FvTrade trade) bt = fv_on_trade trade bt"
| "fv_step (FvFill f) bt = fv_on_fill f bt"

definition fv_run :: "fv_config \<Rightarrow> fv_event list \<Rightarrow> fv_backtest" where
  "fv_run cfg evs = fold fv_step evs (new_fv_backtest cfg)"

text \<open>The identity of a candidate, which grading does not touch, and the shape of a graded grid.\<close>

definition untouched :: "candidate list \<Rightarrow> candidate list" where
  "untouched cs = map (\<lambda>c. c\<lparr>cd_accumulator := new_accumulator\<rparr>) cs"

definition acc_ok :: "int \<Rightarrow> accumulator \<Rightarrow> bool" where
  "acc_ok n acc \<longleftrightarrow> ac_events acc = n \<and> \<bar>ac_signed_error_sum acc\<bar> \<le> ac_abs_error_sum acc"

definition graded_evenly :: "int \<Rightarrow> candidate list \<Rightarrow> bool" where
  "graded_evenly n cs \<longleftrightarrow> 0 \<le> n \<and> (\<forall>c \<in> set cs. acc_ok n (cd_accumulator c))"

definition fv_ok :: "fv_config \<Rightarrow> fv_backtest \<Rightarrow> bool" where
  "fv_ok cfg bt \<longleftrightarrow> fb_config bt = cfg \<and> untouched (fb_candidates bt) = build_candidates cfg
     \<and> (\<exists>n. graded_evenly n (fb_candidates bt))
     \<and> (\<forall>tk queue due. fb_pending bt tk = Some queue \<and> due \<in> set queue \<longrightarrow>
          length (ps_fair_values due) = length (build_candidates cfg))"

lemma untouched_length: "untouched cs = ds \<Longrightarrow> length cs = length ds"
  by (auto simp: untouched_def)

lemma grade_untouched: "length (ps_fair_values due) = length cs \<Longrightarrow> untouched (grade price due cs) = untouched cs"
  by (auto simp: untouched_def grade_def intro!: nth_equalityI)

lemma grade_evenly:
  assumes "length (ps_fair_values due) = length cs" and "graded_evenly n cs"
  shows "graded_evenly (n + 1) (grade price due cs)"
proof -
  have "acc_ok n (cd_accumulator c)" if "(c, x) \<in> set (zip cs (ps_fair_values due))" for c x
    using assms(2) set_zip_leftD [OF that] by (simp add: graded_evenly_def)
  then show ?thesis using assms(2) by (fastforce simp: graded_evenly_def grade_def acc_ok_def record_error_def)
qed

lemma resolve_queue_ok:
  assumes "graded_evenly n cs" and "\<forall>due \<in> set queue. length (ps_fair_values due) = length cs"
    and "resolve_queue trade queue cs = (queue', cs')"
  shows "untouched cs' = untouched cs \<and> (\<exists>n. graded_evenly n cs') \<and> set queue' \<subseteq> set queue"
  using assms
proof (induction trade queue cs arbitrary: n rule: resolve_queue.induct)
  case (2 trade front queue cs)
  have len: "length (ps_fair_values front) = length cs" using "2.prems"(2) by simp
  show ?case
  proof (cases "ps_deadline front \<le> pt_timestamp trade")
    case True
    then have res: "resolve_queue trade queue (grade (pt_yes_price_cents trade) front cs) = (queue', cs')"
      using "2.prems"(3) by simp
    have "length (grade (pt_yes_price_cents trade) front cs) = length cs" using len by (simp add: grade_def)
    with "2.IH" [OF True grade_evenly [OF len "2.prems"(1)] _ res] "2.prems"(2) show ?thesis
      using grade_untouched [OF len] by auto
  qed (use "2.prems" in auto)
qed auto

lemma new_fv_ok: "fv_ok cfg (new_fv_backtest cfg)"
proof -
  have "cd_accumulator c = new_accumulator" if "c \<in> set (build_candidates cfg)" for c
    using that by (auto simp: build_candidates_def anchor_candidates_def Let_def split: if_splits)
  then have "untouched (build_candidates cfg) = build_candidates cfg" "graded_evenly 0 (build_candidates cfg)"
    by (auto simp: untouched_def graded_evenly_def acc_ok_def new_accumulator_def intro: map_idI)
  then show ?thesis by (auto simp: fv_ok_def new_fv_backtest_def)
qed

lemma queue_scores_ok: "fv_ok cfg bt \<Longrightarrow> fv_ok cfg (queue_scores trade bt)"
  by (auto simp: fv_ok_def queue_scores_def Let_def lookup_or_def dest: untouched_length split: option.splits if_splits) metis

lemma resolve_pending_ok:
  assumes "fv_ok cfg bt" shows "fv_ok cfg (resolve_pending trade bt)"
proof (cases "fb_pending bt (pt_market_ticker trade)")
  case (Some queue)
  obtain queue' cs' where r: "resolve_queue trade queue (fb_candidates bt) = (queue', cs')" by force
  obtain n where "graded_evenly n (fb_candidates bt)" using assms by (auto simp: fv_ok_def)
  moreover have "\<forall>due \<in> set queue. length (ps_fair_values due) = length (fb_candidates bt)"
    using assms Some by (auto simp: fv_ok_def dest!: untouched_length)
  ultimately have "untouched cs' = untouched (fb_candidates bt)" "\<exists>n. graded_evenly n cs'" "set queue' \<subseteq> set queue"
    using resolve_queue_ok [OF _ _ r] by auto
  then show ?thesis using assms Some r by (auto simp: fv_ok_def resolve_pending_def)
qed (use assms in \<open>simp add: resolve_pending_def\<close>)

lemma fv_ok_frame [simp]:
  "fv_ok cfg (bt\<lparr>fb_tapes := ts\<rparr>) = fv_ok cfg bt" "fv_ok cfg (bt\<lparr>fb_books := bs\<rparr>) = fv_ok cfg bt"
  by (simp_all add: fv_ok_def)

lemma fv_step_ok: "fv_ok cfg bt \<Longrightarrow> fv_ok cfg (fv_step ev bt)"
  by (cases ev) (simp_all add: fv_on_snapshot_def fv_on_delta_def fv_on_fill_def fv_on_trade_def Let_def
    resolve_pending_ok queue_scores_ok)

lemma fv_run_ok: "fv_ok cfg (fv_run cfg evs)"
proof -
  have "fv_ok cfg bt \<Longrightarrow> fv_ok cfg (fold fv_step evs bt)" for bt
    by (induction evs arbitrary: bt) (simp_all add: fv_step_ok)
  then show ?thesis by (simp add: fv_run_def new_fv_ok)
qed

text \<open>
  A fair scoreboard: after any recording, every candidate of the grid appears once, best mean
  absolute error first, all graded on the same number of events, and the bias of a candidate is
  within its error.
\<close>

theorem fair_scoreboard:
  "let scores = fv_scores (fv_run cfg evs) in
     mset (map sc_candidate scores) = mset (map cd_name (build_candidates cfg))
     \<and> sorted (map sc_mae_cents scores)
     \<and> (\<exists>n \<ge> 0. \<forall>s \<in> set scores. sc_events s = n)
     \<and> (\<forall>s \<in> set scores. \<bar>sc_bias_cents s\<bar> \<le> sc_mae_cents s)"
proof -
  let ?cs = "fb_candidates (fv_run cfg evs)"
  obtain n where ok: "untouched ?cs = build_candidates cfg" "graded_evenly n ?cs"
    using fv_run_ok [of cfg evs] by (auto simp: fv_ok_def)
  have "map cd_name ?cs = map cd_name (untouched ?cs)" by (simp add: untouched_def)
  then have names: "map sc_candidate (map score_of ?cs) = map cd_name (build_candidates cfg)"
    using ok(1) by (simp add: score_of_def Let_def comp_def)
  have "\<bar>sc_bias_cents (score_of c)\<bar> \<le> sc_mae_cents (score_of c)" "sc_events (score_of c) = n" if "c \<in> set ?cs" for c
    using ok(2) that by (auto simp: score_of_def graded_evenly_def acc_ok_def Let_def intro!: divide_right_mono)
  moreover have "mset (map sc_candidate (fv_scores (fv_run cfg evs))) = mset (map sc_candidate (map score_of ?cs))"
    by (simp add: fv_scores_def multiset.map_comp)
  ultimately show ?thesis
    using ok(2) unfolding names Let_def by (fastforce simp: fv_scores_def graded_evenly_def)
qed

text \<open>Prints of a market in the order of their times, as a recording has them.\<close>

fun trades_of :: "ticker \<Rightarrow> fv_event list \<Rightarrow> public_trade list" where
  "trades_of tk [] = []"
| "trades_of tk (FvTrade t # evs) = (if pt_market_ticker t = tk then t # trades_of tk evs else trades_of tk evs)"
| "trades_of tk (_ # evs) = trades_of tk evs"

definition chronological :: "fv_event list \<Rightarrow> bool" where
  "chronological evs \<longleftrightarrow> (\<forall>tk. sorted (map pt_timestamp (trades_of tk evs)))"

definition horizon_ns :: "fv_config \<Rightarrow> int" where
  "horizon_ns cfg = fv_score_horizon_seconds cfg * kNanosPerSecond"

definition queued :: "fv_backtest \<Rightarrow> ticker \<Rightarrow> pending_score list" where
  "queued bt tk = lookup_or [] (fb_pending bt) tk"

lemma trades_of_snoc:
  "trades_of tk (evs @ [ev]) = trades_of tk evs @ (case ev of FvTrade t \<Rightarrow> if pt_market_ticker t = tk then [t] else [] | _ \<Rightarrow> [])"
  by (induction tk evs rule: trades_of.induct) (auto split: fv_event.split)

lemma fv_run_snoc: "fv_run cfg (evs @ [ev]) = fv_step ev (fv_run cfg evs)"
  by (simp add: fv_run_def)

lemma resolve_queue_sorted:
  "sorted (map ps_deadline queue) \<Longrightarrow> resolve_queue trade queue cs =
     (filter (\<lambda>p. pt_timestamp trade < ps_deadline p) queue,
      fold (grade (pt_yes_price_cents trade)) (filter (\<lambda>p. ps_deadline p \<le> pt_timestamp trade) queue) cs)"
proof (induction trade queue cs rule: resolve_queue.induct)
  case (2 trade front queue cs)
  show ?case
  proof (cases "ps_deadline front \<le> pt_timestamp trade")
    case True
    then show ?thesis using 2 by simp
  next
    case False
    have late: "\<forall>p \<in> set queue. pt_timestamp trade < ps_deadline p" using False "2.prems" by force
    then have "filter (\<lambda>p. pt_timestamp trade < ps_deadline p) queue = queue"
      "filter (\<lambda>p. ps_deadline p \<le> pt_timestamp trade) queue = []"
      by (auto simp: filter_id_conv filter_empty_conv)
    then show ?thesis using False by simp
  qed
qed simp

text \<open>What queueing a print's scores does.\<close>

lemma queue_scores_queued:
  obtains new where "queued (queue_scores trade bt) (pt_market_ticker trade) = queued bt (pt_market_ticker trade) @ new"
    and "\<forall>p \<in> set new. ps_deadline p = pt_timestamp trade + horizon_ns (fb_config bt)" and "length new \<le> 1"
    and "tk \<noteq> pt_market_ticker trade \<Longrightarrow> queued (queue_scores trade bt) tk = queued bt tk"
  by (cases "fb_books bt (pt_market_ticker trade)")
    (force simp: queue_scores_def queued_def lookup_or_def Let_def horizon_ns_def split: if_splits)+

lemma resolve_pending_queued:
  assumes "sorted (map ps_deadline (queued bt (pt_market_ticker trade)))"
  shows "queued (resolve_pending trade bt) tk =
      (if tk = pt_market_ticker trade then filter (\<lambda>p. pt_timestamp trade < ps_deadline p) (queued bt tk) else queued bt tk)"
    and "fb_candidates (resolve_pending trade bt) =
      fold (grade (pt_yes_price_cents trade)) (filter (\<lambda>p. ps_deadline p \<le> pt_timestamp trade) (queued bt (pt_market_ticker trade)))
        (fb_candidates bt)"
  using assms resolve_queue_sorted [of "queued bt (pt_market_ticker trade)" trade "fb_candidates bt"]
  by (auto simp: resolve_pending_def queued_def lookup_or_def split: option.splits)

lemma fv_on_trade_queued [simp]: "queued (fv_on_trade trade bt) tk = queued (resolve_pending trade (queue_scores trade bt)) tk"
  by (simp add: fv_on_trade_def queued_def Let_def)

text \<open>In a chronological recording the pending scores of a market are due in the order of the queue.\<close>

definition due_in_order :: "fv_config \<Rightarrow> fv_event list \<Rightarrow> ticker \<Rightarrow> pending_score list \<Rightarrow> bool" where
  "due_in_order cfg evs tk queue \<longleftrightarrow> sorted (map ps_deadline queue)
     \<and> (\<forall>p \<in> set queue. \<exists>t \<in> set (trades_of tk evs). ps_deadline p = pt_timestamp t + horizon_ns cfg)"

lemma due_in_order_queue:
  assumes "due_in_order cfg evs (pt_market_ticker trade) (queued bt (pt_market_ticker trade))" and "fb_config bt = cfg"
    and "chronological (evs @ [FvTrade trade])"
  shows "due_in_order cfg (evs @ [FvTrade trade]) (pt_market_ticker trade) (queued (queue_scores trade bt) (pt_market_ticker trade))"
proof -
  let ?tk = "pt_market_ticker trade"
  obtain new where new: "queued (queue_scores trade bt) ?tk = queued bt ?tk @ new"
    "\<forall>p \<in> set new. ps_deadline p = pt_timestamp trade + horizon_ns cfg" "length new \<le> 1"
    using queue_scores_queued [of trade bt] assms(2) by metis
  have "sorted (map pt_timestamp (trades_of ?tk evs @ [trade]))"
    using assms(3) by (simp only: chronological_def trades_of_snoc fv_event.case) (metis (full_types))
  then have "\<forall>t \<in> set (trades_of ?tk evs). pt_timestamp t \<le> pt_timestamp trade" by (auto simp: sorted_append)
  then have "\<forall>p \<in> set (queued bt ?tk). ps_deadline p \<le> pt_timestamp trade + horizon_ns cfg"
    using assms(1) by (fastforce simp: due_in_order_def)
  moreover have "sorted (map ps_deadline new)" using new(3) by (cases new) auto
  ultimately show ?thesis
    using assms(1) new by (force simp: due_in_order_def sorted_append trades_of_snoc)
qed

lemma fv_run_due_in_order: "chronological evs \<Longrightarrow> due_in_order cfg evs tk (queued (fv_run cfg evs) tk)"
proof (induction evs arbitrary: tk rule: rev_induct)
  case Nil
  show ?case by (simp add: due_in_order_def fv_run_def new_fv_backtest_def queued_def lookup_or_def)
next
  case (snoc ev evs)
  have chron: "chronological evs" using snoc.prems by (auto simp: chronological_def trades_of_snoc sorted_append)
  note IH = snoc.IH [OF chron]
  show ?case
  proof (cases ev)
    case (FvTrade trade)
    let ?bt = "queue_scores trade (fv_run cfg evs)"
    have q: "due_in_order cfg (evs @ [ev]) (pt_market_ticker trade) (queued ?bt (pt_market_ticker trade))"
      using due_in_order_queue [OF IH _ snoc.prems [unfolded FvTrade]] fv_run_ok [of cfg evs] FvTrade by (simp add: fv_ok_def)
    have keep: "due_in_order cfg (evs @ [ev]) k (filter P qs)" if "due_in_order cfg (evs @ [ev]) k qs" for k P qs
      using that by (auto simp: due_in_order_def sorted_filter)
    have "sorted (map ps_deadline (queued ?bt (pt_market_ticker trade)))" using q by (simp add: due_in_order_def)
    note after = resolve_pending_queued(1) [OF this, of tk]
    show ?thesis
    proof (cases "tk = pt_market_ticker trade")
      case True
      then show ?thesis using keep [OF q] after FvTrade by (simp add: fv_run_snoc)
    next
      case False
      then have "queued ?bt tk = queued (fv_run cfg evs) tk" using queue_scores_queued [of trade "fv_run cfg evs" tk] by metis
      then show ?thesis using IH [of tk] after False FvTrade by (simp add: fv_run_snoc due_in_order_def trades_of_snoc)
    qed
  qed (use IH [of tk] in \<open>simp_all add: fv_run_snoc due_in_order_def trades_of_snoc fv_on_snapshot_def fv_on_delta_def
      fv_on_fill_def queued_def\<close>)
qed

lemma fold_grade_nth:
  assumes "\<forall>p \<in> set due. length (ps_fair_values p) = length cs" and "i < length cs"
  shows "cd_accumulator (fold (grade price) due cs ! i) = fold (\<lambda>p acc. record_error acc (ps_fair_values p ! i - of_int price)) due (cd_accumulator (cs ! i))"
  using assms
proof (induction due arbitrary: cs)
  case (Cons p due)
  have "length (grade price p cs) = length cs" using Cons.prems(1) by (simp add: grade_def)
  moreover have "cd_accumulator (grade price p cs ! i) = record_error (cd_accumulator (cs ! i)) (ps_fair_values p ! i - of_int price)"
    using Cons.prems by (simp add: grade_def)
  moreover have "\<forall>q \<in> set due. length (ps_fair_values q) = length cs" using Cons.prems(1) by simp
  ultimately show ?case
    using Cons.IH [of "grade price p cs"] Cons.prems(2) by simp_all
qed simp_all

lemma fold_record_error:
  "fold (\<lambda>p acc. record_error acc (e p)) due acc = \<lparr>ac_events = ac_events acc + int (length due),
     ac_abs_error_sum = ac_abs_error_sum acc + (\<Sum>p\<leftarrow>due. \<bar>e p\<bar>), ac_signed_error_sum = ac_signed_error_sum acc + (\<Sum>p\<leftarrow>due. e p)\<rparr>"
  by (induction due arbitrary: acc) (simp_all add: record_error_def)

text \<open>
  Every event is graded once, when it is due: in a chronological recording a print resolves
  exactly the pending events of its market whose deadline has passed, each candidate's error
  counts growing by one and its sums by the distance of its fair value to the print's price;
  the others stay queued, and so does every other market's queue. With a horizon of zero the
  print's own event is among those it resolves.
\<close>

theorem graded_when_due:
  assumes "chronological (evs @ [FvTrade trade])"
  shows "let tk = pt_market_ticker trade; bt = fv_run cfg evs; bt' = fv_run cfg (evs @ [FvTrade trade]);
      queue = queued (queue_scores trade bt) tk; due = filter (\<lambda>p. ps_deadline p \<le> pt_timestamp trade) queue
    in queued bt' tk = filter (\<lambda>p. pt_timestamp trade < ps_deadline p) queue
      \<and> (\<forall>k. k \<noteq> tk \<longrightarrow> queued bt' k = queued bt k)
      \<and> (\<forall>i < length (fb_candidates bt). cd_accumulator (fb_candidates bt' ! i) =
          (let acc = cd_accumulator (fb_candidates bt ! i); error = (\<lambda>p. ps_fair_values p ! i - of_int (pt_yes_price_cents trade))
           in \<lparr>ac_events = ac_events acc + int (length due),
               ac_abs_error_sum = ac_abs_error_sum acc + (\<Sum>p\<leftarrow>due. \<bar>error p\<bar>),
               ac_signed_error_sum = ac_signed_error_sum acc + (\<Sum>p\<leftarrow>due. error p)\<rparr>))
      \<and> (horizon_ns cfg \<le> 0 \<longrightarrow> queued bt' tk = [])"
proof -
  let ?tk = "pt_market_ticker trade" and ?bt = "fv_run cfg evs"
  let ?q = "queue_scores trade ?bt"
  have chron: "chronological evs" using assms by (auto simp: chronological_def trades_of_snoc sorted_append)
  have cfg: "fb_config ?bt = cfg" and len: "length (fb_candidates ?bt) = length (build_candidates cfg)"
    using fv_run_ok [of cfg evs] by (auto simp: fv_ok_def dest: untouched_length)
  have q: "due_in_order cfg (evs @ [FvTrade trade]) ?tk (queued ?q ?tk)"
    by (rule due_in_order_queue [OF fv_run_due_in_order [OF chron] cfg assms])
  then have "sorted (map ps_deadline (queued ?q ?tk))" by (simp add: due_in_order_def)
  note after = resolve_pending_queued [OF this]
  have cands: "fb_candidates ?q = fb_candidates ?bt"
    by (auto simp: queue_scores_def Let_def split: option.splits)
  have "\<forall>p \<in> set (queued ?q ?tk). length (ps_fair_values p) = length (fb_candidates ?bt)"
    using queue_scores_ok [OF fv_run_ok [of cfg evs], of trade] len
    by (cases "fb_pending ?q ?tk") (auto simp: fv_ok_def queued_def lookup_or_def)
  then have graded: "cd_accumulator (fold (grade price) (filter P (queued ?q ?tk)) (fb_candidates ?bt) ! i)
      = fold (\<lambda>p acc. record_error acc (ps_fair_values p ! i - of_int price)) (filter P (queued ?q ?tk)) (cd_accumulator (fb_candidates ?bt ! i))"
    if "i < length (fb_candidates ?bt)" for i price P
    using fold_grade_nth [OF _ that, of "filter P (queued ?q ?tk)"] by simp
  have "sorted (map pt_timestamp (trades_of ?tk evs @ [trade]))"
    using assms by (simp only: chronological_def trades_of_snoc fv_event.case) (metis (full_types))
  then have "\<forall>p \<in> set (queued ?q ?tk). ps_deadline p \<le> pt_timestamp trade" if "horizon_ns cfg \<le> 0"
    using q that by (force simp: due_in_order_def trades_of_snoc sorted_append)
  then have zero: "horizon_ns cfg \<le> 0 \<longrightarrow> filter (\<lambda>p. pt_timestamp trade < ps_deadline p) (queued ?q ?tk) = []"
    by (fastforce simp: filter_empty_conv)
  have others: "queued ?q k = queued ?bt k" if "k \<noteq> ?tk" for k using queue_scores_queued [of trade ?bt k] that by metis
  show ?thesis
    unfolding Let_def fv_run_snoc fv_step.simps fv_on_trade_queued
    by (intro conjI allI impI)
      (use zero others in \<open>simp_all add: after cands fv_on_trade_def Let_def graded fold_record_error\<close>)
qed

definition one_print :: public_trade where
  "one_print = \<lparr>pt_trade_id = ''t'', pt_market_ticker = ''M'', pt_yes_price_cents = 40, pt_quantity = from_contracts 1,
     pt_taker_side = Yes, pt_timestamp = 7\<rparr>"

definition micro_only :: fv_config where
  "micro_only = fv_defaults\<lparr>fv_anchors := take 1 (fv_anchors fv_defaults), fv_tape_weights := []\<rparr>"

theorem fair_scoreboard_witness:
  "\<exists>s. fv_scores (fv_run micro_only [FvSnapshot small_book, FvTrade one_print]) = [s] \<and> sc_candidate s = ''micro''
     \<and> \<bar>sc_bias_cents s\<bar> \<le> sc_mae_cents s"
proof -
  let ?scores = "fv_scores (fv_run micro_only [FvSnapshot small_book, FvTrade one_print])"
  note fair = fair_scoreboard [of micro_only "[FvSnapshot small_book, FvTrade one_print]", unfolded Let_def]
  have "map cd_name (build_candidates micro_only) = [''micro'']"
    by (simp add: build_candidates_def anchor_candidates_def micro_only_def fv_defaults_def Let_def)
  then have "mset (map sc_candidate ?scores) = mset [''micro'']" using fair by simp
  then have "map sc_candidate ?scores = [''micro'']" by (metis mset_single_iff mset.simps(1) mset.simps(2) mset_single_iff_right)
  then obtain s where s: "?scores = [s]" "sc_candidate s = ''micro''" by (cases ?scores) auto
  then show ?thesis using fair by simp
qed

theorem graded_when_due_witness:
  "queued (fv_run (fv_defaults\<lparr>fv_score_horizon_seconds := 0\<rparr>) ([FvSnapshot small_book] @ [FvTrade one_print])) ''M'' = []
   \<and> queued (fv_run fv_defaults ([FvSnapshot small_book] @ [FvTrade one_print])) ''X'' = []"
proof -
  have "chronological ([FvSnapshot small_book] @ [FvTrade one_print])" by (auto simp: chronological_def)
  note graded = graded_when_due [OF this, unfolded Let_def]
  have "horizon_ns (fv_defaults\<lparr>fv_score_horizon_seconds := 0\<rparr>) \<le> 0" by (simp add: horizon_ns_def fv_defaults_def Let_def)
  moreover have market: "pt_market_ticker one_print = ''M''" by (simp add: one_print_def)
  moreover have "queued (fv_run fv_defaults [FvSnapshot small_book]) ''X'' = []"
    by (simp add: fv_run_def queued_def new_fv_backtest_def fv_on_snapshot_def lookup_or_def)
  ultimately show ?thesis
    using graded [of "fv_defaults\<lparr>fv_score_horizon_seconds := 0\<rparr>", THEN conjunct2, THEN conjunct2, THEN conjunct2]
      graded [of fv_defaults, THEN conjunct2, THEN conjunct1] market by simp
qed

end
