(* ===== verification/Replay.thy ===== *)
theory Replay
  imports Startup Capture Fv_Backtest
begin

text \<open>
  The two modes that replay a recording (\<open>run_backtest_mode\<close> and \<open>run_fv_replay_mode\<close> of
  \<open>source/app/app_modes.cpp\<close>): the whole stack against the paper exchange, crossing recorded
  prints with the simulated quotes, and the fair-value scoreboard. The file system is a map from
  paths to texts; the clocks act on a state \<open>'c\<close>; the throw-away RSA key is a parameter. What the
  modes write to their output stream is their result beside the exit code; logging is left out.
\<close>

section \<open>Reports\<close>

definition pad_right :: "nat \<Rightarrow> string \<Rightarrow> string" where
  "pad_right n s = s @ replicate (n - length s) (CHR '' '')"

definition pad_left :: "nat \<Rightarrow> string \<Rightarrow> string" where
  "pad_left n s = replicate (n - length s) (CHR '' '') @ s"

text \<open>\<open>std::format("{:.<p>f}")\<close>, correctly rounded.\<close>

definition format_fixed :: "nat \<Rightarrow> real \<Rightarrow> string" where
  "format_fixed p x =
     (let n = nat (round_half_even (\<bar>x\<bar> * 10 ^ p)); digits = nat_to_string n;
          padded = replicate (p + 1 - length digits) (CHR ''0'') @ digits; k = length padded - p
      in (if x < 0 then ''-'' else []) @ take k padded @ (if p = 0 then [] else CHR ''.'' # drop k padded))"

definition format_signed :: "nat \<Rightarrow> real \<Rightarrow> string" where
  "format_signed p x = (if x < 0 then [] else ''+'') @ format_fixed p x"

definition line_of :: "string list \<Rightarrow> string" where
  "line_of cells = concat cells @ [CHR 0x0A]"

section \<open>The fair-value replay\<close>

definition pure_callback :: "('a \<Rightarrow> 's \<Rightarrow> 's) \<Rightarrow> 'a \<Rightarrow> (unit, 's \<times> 'w) io" where
  "pure_callback f x sw = (Inr (), (f x (fst sw), snd sw))"

definition fv_callbacks :: "(fv_backtest \<times> 'w) ws_callbacks" where
  "fv_callbacks =
     \<lparr>snapshot_callback = Some (pure_callback fv_on_snapshot),
      delta_callback = Some (pure_callback (\<lambda>(tk, sd, price_cents, delta). fv_on_delta tk sd price_cents delta)),
      fill_callback = Some (pure_callback fv_on_fill), trade_callback = Some (pure_callback fv_on_trade),
      disconnect_callback = None, reconnect_callback = None\<rparr>"

definition fv_report :: "fv_score list \<Rightarrow> string" where
  "fv_report scores =
     line_of [pad_right 40 ''candidate'', pad_left 8 ''events'', pad_left 10 ''MAE(c)'', pad_left 10 ''bias(c)'']
     @ concat (map (\<lambda>score. line_of [pad_right 40 (sc_candidate score), pad_left 8 (int_to_string (sc_events score)),
         pad_left 10 (format_fixed 3 (sc_mae_cents score)), pad_left 10 (format_signed 3 (sc_bias_cents score))]) scores)"

definition run_fv_replay_mode :: "('j, string) json_ops \<Rightarrow> ('w \<Rightarrow> time_ns \<times> 'w) \<Rightarrow> (string \<Rightarrow> string option) \<Rightarrow> string
    \<Rightarrow> (int \<times> string, 'w) io" where
  "run_fv_replay_mode js steady read_file capture_path w =
     (case read_file capture_path of
        None \<Rightarrow> (Inr (1, []), w)
      | Some text \<Rightarrow>
          (let (now, w1) = steady w;
               (r, (c, (bt, w2))) = inject_lines (handle_message (null_ws_env js steady) fv_callbacks) (read_lines text) 0
                 (new_ws_client now, (new_fv_backtest fv_defaults, w1))
           in case r of Inl e \<Rightarrow> (Inl e, w2) | Inr frames \<Rightarrow> (Inr (0, fv_report (fv_scores bt)), w2)))"

section \<open>The backtest\<close>

record backtest =
  bt_session :: session
  bt_prints :: int
  bt_sim_fills :: int

type_synonym 'c paper_world = "rate_limiter \<times> paper \<times> 'c"

text \<open>The services of a backtest: clocks, and the signing of its throw-away key.\<close>

record ('j, 'c) backtest_services =
  bs_json :: "('j, string) json_ops"
  bs_system_now :: "'c \<Rightarrow> time_ns \<times> 'c"
  bs_steady_now :: "'c \<Rightarrow> time_ns \<times> 'c"
  bs_sleep_ms :: "int \<Rightarrow> 'c \<Rightarrow> 'c"
  bs_rsa_sign :: "string \<Rightarrow> string \<Rightarrow> exn + string"
  bs_rsa_pem :: string

definition backtest_client :: "('j, 'c) backtest_services \<Rightarrow> app_config \<Rightarrow> ('j, string, paper \<times> 'c) rest_client" where
  "backtest_client sv cf = paper_client (bs_json sv) (bs_system_now sv) (bs_steady_now sv) (bs_sleep_ms sv) (bs_rsa_sign sv)
     \<lparr>api_key = ''paper'', pem_private_key = bs_rsa_pem sv\<rparr> (cf_base_url cf)"

definition in_paper_world :: "('c \<Rightarrow> 'a \<times> 'c) \<Rightarrow> 'c paper_world \<Rightarrow> 'a \<times> 'c paper_world" where
  "in_paper_world f st = (case st of (rl, pe, cl) \<Rightarrow> let (x, cl') = f cl in (x, (rl, pe, cl')))"

definition backtest_env :: "('j, 'c) backtest_services \<Rightarrow> app_config \<Rightarrow> 'c paper_world env" where
  "backtest_env sv cf = \<lparr>env_api = client_api (backtest_client sv cf), steady_now = in_paper_world (bs_steady_now sv),
     system_now = in_paper_world (bs_system_now sv)\<rparr>"

definition on_backtest :: "(session \<Rightarrow> 'w \<Rightarrow> (exn + unit) \<times> session \<times> 'w) \<Rightarrow> (unit, backtest \<times> 'w) io" where
  "on_backtest f st = (let (r, s', w') = f (bt_session (fst st)) (snd st) in (r, ((fst st)\<lparr>bt_session := s'\<rparr>, w')))"

definition backtest_snapshot :: "'w env \<Rightarrow> orderbook \<Rightarrow> session \<Rightarrow> 'w \<Rightarrow> (exn + unit) \<times> session \<times> 'w" where
  "backtest_snapshot env snap s w = (if is_tracked s (ob_ticker snap) then on_snapshot env snap s w else add_market env snap s w)"

definition backtest_print :: "('c \<Rightarrow> time_ns \<times> 'c) \<Rightarrow> public_trade \<Rightarrow> (unit, backtest \<times> 'c paper_world) io" where
  "backtest_print clock print st = (case st of (b, (rl, pe, cl)) \<Rightarrow>
     (let (r, so, pe', cl') = simulate_maker_fills clock print (Some (bt_session b), pe, cl);
          s' = (case so of Some s' \<Rightarrow> s' | None \<Rightarrow> bt_session b); b1 = b\<lparr>bt_prints := bt_prints b + 1\<rparr>
      in case r of
           Inl e \<Rightarrow> (Inl e, (b1\<lparr>bt_session := s'\<rparr>, (rl, pe', cl')))
         | Inr filled \<Rightarrow>
             (Inr (), (b1\<lparr>bt_session := on_trade print s', bt_sim_fills := bt_sim_fills b + filled\<rparr>, (rl, pe', cl')))))"

definition backtest_callbacks :: "'c paper_world env \<Rightarrow> ('c \<Rightarrow> time_ns \<times> 'c) \<Rightarrow> (backtest \<times> 'c paper_world) ws_callbacks" where
  "backtest_callbacks env clock =
     \<lparr>snapshot_callback = Some (\<lambda>snap. on_backtest (backtest_snapshot env snap)),
      delta_callback = Some (\<lambda>(tk, sd, price_cents, qty). on_backtest (on_delta env tk sd price_cents qty)),
      fill_callback = None, trade_callback = Some (backtest_print clock), disconnect_callback = None, reconnect_callback = None\<rparr>"

text \<open>What the profit listener has put together.\<close>

definition realized_cents :: "session \<Rightarrow> pnl_map" where
  "realized_cents s = fold (\<lambda>pnl acc. acc ++ pnl) (pnl_published s) Map.empty"

definition backtest_report :: "string \<Rightarrow> int \<Rightarrow> backtest \<Rightarrow> string" where
  "backtest_report capture_path frames b =
     (let s = bt_session b in
      line_of [''backtest '', capture_path, ''  frames='', int_to_string frames, '' prints='', int_to_string (bt_prints b),
        '' sim_fills='', int_to_string (bt_sim_fills b)]
      @ line_of [pad_right 42 ''ticker'', pad_left 10 ''net_pos'', pad_left 14 ''realized_$'']
      @ concat (map (\<lambda>tk. line_of [pad_right 42 tk, pad_left 10 (to_fp_string (net_position (ts_om s) tk)),
          pad_left 14 (format_fixed 2 (case realized_cents s tk of Some cents \<Rightarrow> cents / 100 | None \<Rightarrow> 0))]) (ts_tickers s)))"

definition replay_backtest :: "('j, 'c) backtest_services \<Rightarrow> app_config \<Rightarrow> string list \<Rightarrow> 'c
    \<Rightarrow> (exn + int) \<times> ws_client \<times> backtest \<times> 'c paper_world" where
  "replay_backtest sv cf ls cl =
     (let (limiter_start, cl1) = bs_steady_now sv cl; (now, cl2) = bs_steady_now sv cl1; env = backtest_env sv cf in
      inject_lines (handle_message (null_ws_env (bs_json sv) (in_paper_world (bs_steady_now sv))) (backtest_callbacks env (bs_system_now sv)))
        ls 0
        (new_ws_client now, (\<lparr>bt_session = live_session cf [] Map.empty, bt_prints = 0, bt_sim_fills = 0\<rparr>,
          (new_write_limiter limiter_start, new_paper, cl2))))"

definition run_backtest_mode :: "('j, 'c) backtest_services \<Rightarrow> (string \<Rightarrow> string option) \<Rightarrow> string \<Rightarrow> app_config \<Rightarrow> (int \<times> string, 'c) io" where
  "run_backtest_mode sv read_file capture_path cf cl =
     (case read_file capture_path of
        None \<Rightarrow> (Inr (1, []), cl)
      | Some text \<Rightarrow>
          (let (r, (c, (b, (rl, pe, cl')))) = replay_backtest sv cf (read_lines text) cl
           in case r of Inl e \<Rightarrow> (Inl e, cl') | Inr frames \<Rightarrow> (Inr (0, backtest_report capture_path frames b), cl')))"

end
