(* ===== verification/Feed_Simulation.thy ===== *)
theory Feed_Simulation
  imports Capture
begin

text \<open>
  Two clients fed alike: when their callbacks agree on related worlds, they answer every frame in the
  same way and stay related. The programs that replay a recording interpret this locale.
\<close>

definition answers_agree :: "('w \<Rightarrow> 'v \<Rightarrow> bool) \<Rightarrow> (exn + 'a) \<times> 'w \<Rightarrow> (exn + 'a) \<times> 'v \<Rightarrow> bool" where
  "answers_agree R a b \<longleftrightarrow> fst a = fst b \<and> R (snd a) (snd b)"

definition callbacks_agree :: "('w \<Rightarrow> 'v \<Rightarrow> bool) \<Rightarrow> ('a \<Rightarrow> (unit, 'w) io) option \<Rightarrow> ('a \<Rightarrow> (unit, 'v) io) option \<Rightarrow> bool" where
  "callbacks_agree R cb cb' \<longleftrightarrow> (case (cb, cb') of
     (None, None) \<Rightarrow> True
   | (Some f, Some g) \<Rightarrow> (\<forall>x w v. R w v \<longrightarrow> answers_agree R (f x w) (g x v))
   | _ \<Rightarrow> False)"

definition clients_agree :: "('w \<Rightarrow> 'v \<Rightarrow> bool) \<Rightarrow> ws_client \<times> 'w \<Rightarrow> ws_client \<times> 'v \<Rightarrow> bool" where
  "clients_agree R a b \<longleftrightarrow> fst a = fst b \<and> R (snd a) (snd b)"

lemma inject_agree:
  assumes "\<And>raw s t. S s t \<Longrightarrow> answers_agree S (f raw s) (g raw t)"
  shows "S s t \<Longrightarrow> answers_agree S (inject_lines f ls n s) (inject_lines g ls n t)"
proof (induction ls arbitrary: n s t)
  case (Cons l ls)
  have "answers_agree S (f l s) (g l t)" by (rule assms [OF Cons.prems])
  then show ?case using Cons
    by (auto simp: bind_io_def answers_agree_def return_io_def split: prod.splits sum.splits)
qed (simp add: answers_agree_def return_io_def)

lemma inject_lines_world:
  assumes "\<And>w. R w w" and "\<And>a b c. R a b \<Longrightarrow> R b c \<Longrightarrow> R a c"
    and "\<And>raw s. raw \<in> set ls \<Longrightarrow> R (snd s) (snd (snd (f raw s)))"
  shows "R (snd s) (snd (snd (inject_lines f ls n s)))"
  using assms(3)
proof (induction ls arbitrary: n s)
  case (Cons l ls)
  have "R (snd s) (snd (snd (f l s)))" by (rule Cons.prems) simp
  moreover have "R (snd t) (snd (snd (inject_lines f ls m t)))" for m t by (rule Cons.IH) (simp add: Cons.prems)
  ultimately show ?case
    by (auto simp: bind_io_def split: prod.split sum.split intro: assms(2))
qed (simp add: return_io_def assms(1))

locale feed_simulation =
  fixes env :: "('j, string, 'w) ws_env" and env' :: "('j, string, 'v) ws_env" and cbs :: "'w ws_callbacks" and cbs' :: "'v ws_callbacks"
    and R :: "'w \<Rightarrow> 'v \<Rightarrow> bool"
  assumes json: "we_json env' = we_json env"
    and clock: "R w v \<Longrightarrow> fst (we_steady_now env w) = fst (we_steady_now env' v) \<and> R (snd (we_steady_now env w)) (snd (we_steady_now env' v))"
    and close: "R w v \<Longrightarrow> R (ws_request_close env w) (ws_request_close env' v)"
    and snapshot: "callbacks_agree R (snapshot_callback cbs) (snapshot_callback cbs')"
    and delta: "callbacks_agree R (delta_callback cbs) (delta_callback cbs')"
    and fill: "callbacks_agree R (fill_callback cbs) (fill_callback cbs')"
    and trade: "callbacks_agree R (trade_callback cbs) (trade_callback cbs')"
begin

lemma dispatch_agree:
  assumes "callbacks_agree R cb cb'" and "clients_agree R s t"
  shows "answers_agree (clients_agree R) (dispatch cb parsed s) (dispatch cb' parsed t)"
proof (cases "\<exists>f g x. cb = Some f \<and> cb' = Some g \<and> parsed = Inr x")
  case True
  then obtain f g x where *: "cb = Some f" "cb' = Some g" "parsed = Inr x" by blast
  have "answers_agree R (f x (snd s)) (g x (snd t))" using assms by (simp add: * callbacks_agree_def clients_agree_def)
  then show ?thesis using assms(2)
    by (auto simp: * dispatch_def bind_io_def lift_result_def catch_io_def return_io_def answers_agree_def clients_agree_def
      case_prod_beta Let_def split: sum.split exn.split)
next
  case False
  with assms show ?thesis
    by (cases cb; cases cb'; cases parsed)
      (auto simp: dispatch_def bind_io_def lift_result_def catch_io_def return_io_def answers_agree_def callbacks_agree_def split: exn.split)
qed

lemma heartbeat_agree: "clients_agree R s t \<Longrightarrow> clients_agree R (handle_heartbeat env s) (handle_heartbeat env' t)"
  using clock [of "snd s" "snd t"] by (simp add: handle_heartbeat_def clients_agree_def case_prod_beta Let_def)

lemma sequence_agree:
  "clients_agree R s t \<Longrightarrow> answers_agree (clients_agree R) (check_sequence env j s) (check_sequence env' j t)"
  by (auto simp: check_sequence_def sequence_intact_def json clients_agree_def answers_agree_def close Let_def
    split: option.split sum.split)

lemma dispatch_type_agree:
  "clients_agree R s t \<Longrightarrow> answers_agree (clients_agree R) (dispatch_type env cbs ty b s) (dispatch_type env' cbs' ty b t)"
  using dispatch_agree [OF snapshot] dispatch_agree [OF delta] dispatch_agree [OF fill] dispatch_agree [OF trade]
  by (auto simp: dispatch_type_def json Let_def return_io_def answers_agree_def)

lemma frame_agree:
  assumes "clients_agree R s t"
  shows "answers_agree (clients_agree R) (handle_message env cbs raw s) (handle_message env' cbs' raw t)"
proof -
  let ?s = "handle_heartbeat env s" and ?t = "handle_heartbeat env' t"
  note hb = heartbeat_agree [OF assms]
  have stop: "answers_agree (clients_agree R) (r, ?s) (r, ?t)" for r :: "exn + unit" using hb by (simp add: answers_agree_def)
  have seq: "fst (check_sequence env j ?s) = fst (check_sequence env' j ?t)"
      "clients_agree R (snd (check_sequence env j ?s)) (snd (check_sequence env' j ?t))" for j
    using sequence_agree [OF hb, of j] by (simp_all add: answers_agree_def)
  have go: "answers_agree (clients_agree R)
      (case check_sequence env j ?s of (Inl e, s') \<Rightarrow> (Inl e, s') | (Inr False, s') \<Rightarrow> (Inr (), s') | (Inr True, s') \<Rightarrow> dispatch_type env cbs ty b s')
      (case check_sequence env' j ?t of (Inl e, s') \<Rightarrow> (Inl e, s') | (Inr False, s') \<Rightarrow> (Inr (), s') | (Inr True, s') \<Rightarrow> dispatch_type env' cbs' ty b s')"
    for j ty b
    using seq [of j] dispatch_type_agree by (auto simp: answers_agree_def split: prod.split sum.split bool.split)
  show ?thesis
    unfolding handle_message_def Let_def json
    by (auto split: sum.split exn.split option.split intro: stop go)
qed

lemma inject_frames_agree:
  "clients_agree R s t \<Longrightarrow> answers_agree (clients_agree R) (inject_lines (handle_message env cbs) ls n s) (inject_lines (handle_message env' cbs') ls n t)"
  by (rule inject_agree [OF frame_agree])

end

end
