(* ===== verification/Replay_Correct.thy ===== *)
theory Replay_Correct
  imports Replay Feed_Simulation Live_Correct
begin

text \<open>
  What the two replays guarantee: the scoreboard of a recording is that of the events its frames
  deliver, and a backtest keeps the books of fills its own recorded prints gave.
\<close>

section \<open>The fair-value replay\<close>

text \<open>A client that only notes what it is called with.\<close>

definition noting_callbacks :: "(fv_event list \<times> 'w) ws_callbacks" where
  "noting_callbacks =
     \<lparr>snapshot_callback = Some (pure_callback (\<lambda>snap evs. evs @ [FvSnapshot snap])),
      delta_callback = Some (pure_callback (\<lambda>(tk, sd, p, d) evs. evs @ [FvDelta tk sd p d])),
      fill_callback = Some (pure_callback (\<lambda>f evs. evs @ [FvFill f])),
      trade_callback = Some (pure_callback (\<lambda>t evs. evs @ [FvTrade t])),
      disconnect_callback = None, reconnect_callback = None\<rparr>"

definition scored :: "fv_event list \<times> 'w \<Rightarrow> fv_backtest \<times> 'w \<Rightarrow> bool" where
  "scored a b \<longleftrightarrow> fst b = fv_run fv_defaults (fst a) \<and> snd b = snd a"

interpretation fv_feed: feed_simulation "null_ws_env js steady" "null_ws_env js steady" noting_callbacks fv_callbacks scored
  for js :: "('j, string) json_ops" and steady :: "'w \<Rightarrow> time_ns \<times> 'w"
  by unfold_locales
    (auto simp: null_ws_env_def scored_def noting_callbacks_def fv_callbacks_def callbacks_agree_def answers_agree_def pure_callback_def
      fv_run_snoc case_prod_beta Let_def)

text \<open>
  C20. The replay of a recording scores what was recorded: when the file was written by the recording
  socket around any client, the mode prints the scoreboard of exactly the events that a client
  delivers on the recorded frames, in their order, and exits with 0.
\<close>

theorem fv_replay_faithful:
  assumes "read_file path = Some (cap_out (fst (received (capture_handler (Some h)) raws (new_capture, s))))"
    and "\<forall>raw \<in> set raws. CHR 0x0A \<notin> set raw"
    and "inject_lines (handle_message (null_ws_env js steady) noting_callbacks) raws 0
      (new_ws_client (fst (steady w)), ([], snd (steady w))) = (Inr n, (c, (evs, w')))"
  shows "run_fv_replay_mode js steady read_file path w = (Inr (0, fv_report (fv_scores (fv_run fv_defaults evs))), w')"
proof -
  let ?start = "(new_ws_client (fst (steady w)), (new_fv_backtest fv_defaults, snd (steady w)))"
  have lines: "read_lines (cap_out (fst (received (capture_handler (Some h)) raws (new_capture, s)))) = raws"
    using read_lines_recording [OF assms(2)] by (simp add: received_capture new_capture_def)
  have "answers_agree (clients_agree scored) (Inr n, (c, (evs, w')))
      (inject_lines (handle_message (null_ws_env js steady) fv_callbacks) raws 0 ?start)"
    unfolding assms(3) [symmetric]
    by (rule fv_feed.inject_frames_agree) (simp add: clients_agree_def scored_def fv_run_def)
  then have "inject_lines (handle_message (null_ws_env js steady) fv_callbacks) raws 0 ?start
      = (Inr n, (c, (fv_run fv_defaults evs, w')))"
    by (simp add: answers_agree_def clients_agree_def scored_def prod_eq_iff)
  then show ?thesis
    using assms(1) by (simp add: run_fv_replay_mode_def lines case_prod_beta Let_def)
qed

section \<open>The backtest\<close>

text \<open>The events a backtest raises: its fills are those its fill model gives for a recorded print.\<close>

definition replayed_fill :: "('j, string) json_ops \<Rightarrow> string set \<Rightarrow> fill \<Rightarrow> bool" where
  "replayed_fill js F f \<longleftrightarrow> (\<exists>raw \<in> F. \<exists>print. carries js ws_parse_trade raw print \<and> f \<in> maker_fills print)"

definition replayed :: "('j, string) json_ops \<Rightarrow> string set \<Rightarrow> session_event \<Rightarrow> bool" where
  "replayed js F ev = (case ev of TradeFillEv f \<Rightarrow> replayed_fill js F f | FlattenEv _ \<Rightarrow> False | _ \<Rightarrow> True)"

definition backtest_drives :: "'w env \<Rightarrow> ('j, string) json_ops \<Rightarrow> string set \<Rightarrow> backtest \<times> 'w \<Rightarrow> backtest \<times> 'w \<Rightarrow> bool" where
  "backtest_drives env js F a b = drives env (replayed js F) (bt_session (fst a)) (bt_session (fst b))"

lemma on_backtest_drives:
  assumes "\<And>s w. drives env P s (fst (snd (f s w)))"
  shows "drives env P (bt_session (fst st)) (bt_session (fst (snd (on_backtest f st))))"
  using assms by (simp add: on_backtest_def case_prod_beta Let_def)

lemma backtest_handlers_drive:
  "drives env (replayed js F) s (fst (snd (backtest_snapshot env snap s w)))"
  "drives env (replayed js F) s (fst (snd (on_delta env tk sd p q s w)))"
  "drives env (replayed js F) s (on_trade trade s)"
proof -
  have ev: "drives env (replayed js F) s s'" if "replayed js F ev" "fst (session_step env ev (s, w)) = s'" for ev s' w
    by (rule drives_event [of _ ev _ _ w _ "snd (session_step env ev (s, w))"]) (use that in \<open>auto simp: prod_eq_iff\<close>)
  have "drives env (replayed js F) s (fst (snd (on_snapshot env snap s w)))" by (rule ev [of "SnapshotEv snap" w]) (simp_all add: replayed_def)
  moreover have "drives env (replayed js F) s (fst (snd (add_market env snap s w)))" by (rule ev [of "AddMarketEv snap" w]) (simp_all add: replayed_def)
  ultimately show "drives env (replayed js F) s (fst (snd (backtest_snapshot env snap s w)))" by (simp add: backtest_snapshot_def)
  show "drives env (replayed js F) s (fst (snd (on_delta env tk sd p q s w)))" by (rule ev [of "DeltaEv tk sd p q" w]) (simp_all add: replayed_def)
  show "drives env (replayed js F) s (on_trade trade s)" by (rule ev [of "PublicTradeEv trade"]) (simp_all add: replayed_def)
qed

lemma backtest_print_drives:
  assumes "raw \<in> F" and "carries js ws_parse_trade raw print"
  shows "drives env (replayed js F) (bt_session (fst st)) (bt_session (fst (snd (backtest_print clock print st))))"
proof -
  obtain b rl pe cl where st: "st = (b, (rl, pe, cl))" by (metis prod_cases4)
  obtain r so pe' cl' where sim: "simulate_maker_fills clock print (Some (bt_session b), pe, cl) = (r, so, pe', cl')" by (metis prod_cases4)
  from simulate_maker_fills_drives [OF this, of env] obtain s' where s': "so = Some s'" "drives env (fill_given (maker_fills print)) (bt_session b) s'"
    by blast
  have "drives env (replayed js F) (bt_session b) s'"
  proof (rule drives_mono [OF s'(2)])
    fix ev assume "fill_given (maker_fills print) ev"
    then obtain f where f: "ev = TradeFillEv f" "f \<in> maker_fills print" by (auto simp: fill_given_def)
    have "replayed_fill js F f" unfolding replayed_fill_def using assms f(2) by blast
    then show "replayed js F ev" by (simp add: replayed_def f(1))
  qed
  then show ?thesis using drives_trans [OF _ backtest_handlers_drive(3)]
    by (auto simp: backtest_print_def st sim s'(1) Let_def split: sum.split)
qed

interpretation backtest_feed: feed_world "null_ws_env js (in_paper_world steady)" "backtest_callbacks env clock" F "backtest_drives env js F"
  for js :: "('j, string) json_ops" and steady clock :: "'c \<Rightarrow> time_ns \<times> 'c" and env :: "'c paper_world env" and F
proof
  have same: "fst b = fst a \<Longrightarrow> backtest_drives env js F a b" for a b :: "backtest \<times> 'c paper_world" by (simp add: backtest_drives_def)
  show "backtest_drives env js F w w" for w by (rule same) simp
  show "backtest_drives env js F a b \<Longrightarrow> backtest_drives env js F b c \<Longrightarrow> backtest_drives env js F a c" for a b c
    unfolding backtest_drives_def by (rule drives_trans)
  show "backtest_drives env js F w (snd (we_steady_now (null_ws_env js (in_paper_world steady)) w))"
    "backtest_drives env js F w (ws_send (null_ws_env js (in_paper_world steady)) t w)"
    "backtest_drives env js F w (ws_request_close (null_ws_env js (in_paper_world steady)) w)" for w t
    by (rule same, simp add: null_ws_env_def case_prod_beta Let_def)+
qed (auto simp: backtest_callbacks_def backtest_drives_def null_ws_env_def intro!: on_backtest_drives backtest_handlers_drive
    backtest_print_drives split: prod.splits)

text \<open>
  C6. A backtest keeps the books: at the end of a replay, also one that an exception ended, the order
  manager simulates a ledger whose every fill the fill model gave for a print that a line of the
  recording carried; no two open orders share an identifier, and no market's own bid and ask are
  crossed.
\<close>

theorem backtest_keeps_books:
  assumes "replay_backtest sv cf ls cl = (r, c, b, st)"
  shows "\<exists>L. simulates (ts_om (bt_session b)) L
    \<and> (\<forall>f \<in> set (lg_fills L). \<exists>raw \<in> set ls. \<exists>print. carries (bs_json sv) ws_parse_trade raw print \<and> f \<in> maker_fills print)
    \<and> keys_distinct (open_orders (ts_om (bt_session b))) \<and> quotes_uncrossed (ts_quoter (bt_session b))"
proof -
  let ?env = "backtest_env sv cf"
  let ?m = "handle_message (null_ws_env (bs_json sv) (in_paper_world (bs_steady_now sv))) (backtest_callbacks ?env (bs_system_now sv))"
  let ?R = "backtest_drives ?env (bs_json sv) (set ls)"
  obtain s0 where s0: "inject_lines ?m ls 0 s0 = (r, c, b, st)" "bt_session (fst (snd s0)) = live_session cf [] Map.empty"
    using assms unfolding replay_backtest_def Let_def case_prod_beta by (metis backtest.select_convs(1) fst_conv snd_conv)
  have "?R (snd s0) (snd (snd (inject_lines ?m ls 0 s0)))"
    by (rule inject_lines_world) (blast intro: backtest_feed.refl backtest_feed.trans backtest_feed.frame_world)+
  then have "drives ?env (replayed (bs_json sv) (set ls)) (live_session cf [] Map.empty) (bt_session b)"
    using s0 by (simp add: backtest_drives_def)
  from drives_ok [OF this [unfolded live_session_def] new_session_ok]
  obtain L where L: "session_ok (bt_session b) L"
      "set (lg_fills L) \<subseteq> set (lg_fills new_ledger) \<union> \<Union> (fill_of_event ` {ev. replayed (bs_json sv) (set ls) ev})" by blast
  have "replayed_fill (bs_json sv) (set ls) f" if "f \<in> set (lg_fills L)" for f
    using that L(2) by (fastforce simp: new_ledger_def fill_of_event_def replayed_def split: session_event.splits)
  with L(1) show ?thesis unfolding session_ok_def books_ok_def replayed_fill_def by metis
qed

section \<open>A recorded print\<close>

text \<open>A JSON library over lines of text, given what each line denotes.\<close>

definition line_json :: "(string \<Rightarrow> json) \<Rightarrow> (json, string) json_ops" where
  "line_json f = \<lparr>js_parse = Inr \<circ> f, js_dump = (\<lambda>_. []), js_literal = (\<lambda>_. []), js_at = js_at tree_json,
     js_value = js_value tree_json, js_find = js_find tree_json, js_index = js_index tree_json, js_elements = js_elements tree_json,
     js_get_string = js_get_string tree_json, js_get_int = js_get_int tree_json, js_get_real = js_get_real tree_json,
     js_get_bool = js_get_bool tree_json, js_is_integer = js_is_integer tree_json, js_is_number = js_is_number tree_json,
     js_is_string = js_is_string tree_json, js_is_null = js_is_null tree_json, js_object = js_object tree_json,
     js_array = js_array tree_json, js_string = js_string tree_json, js_int = js_int tree_json, js_bool = js_bool tree_json,
     js_real = js_real tree_json, js_is_array = js_is_array tree_json, js_items = js_items tree_json, js_dump_indent = (\<lambda>_ _. [])\<rparr>"

definition trade_body :: json where
  "trade_body = JObject [(''trade_id'', JString ''t''), (''market_ticker'', JString ''M''), (''yes_price_dollars'', JString (format_dollars 40)),
     (''count_fp'', JString (to_fp_string (from_centi 300))), (''taker_outcome_side'', JString ''yes''), (''ts_ms'', JInt 5)]"

definition trade_frame :: json where
  "trade_frame = JObject [(''type'', JString ''trade''), (''msg'', trade_body)]"

definition demo_print :: public_trade where
  "demo_print = \<lparr>pt_trade_id = ''t'', pt_market_ticker = ''M'', pt_yes_price_cents = 40, pt_quantity = from_centi 300,
     pt_taker_side = Yes, pt_timestamp = 5 * kNanosPerMilli\<rparr>"

abbreviation demo_lines :: "(json, string) json_ops" where
  "demo_lines \<equiv> line_json (\<lambda>_. trade_frame)"

lemma trade_body_parses: "ws_parse_trade demo_lines trade_body = Inr demo_print"
  by (simp add: trade_body_def demo_print_def line_json_def tree_json_def ws_parse_trade_def get_str_def get_int_def
    dollars_roundtrip_aux parse_fp_count_def fp_string_roundtrip_aux ws_parse_side_def)

lemma trade_frame_handled:
  assumes "trade_callback cbs = Some cb" and "we_json env = demo_lines"
  shows "handle_message env cbs raw s = dispatch (Some cb) (Inr demo_print) (handle_heartbeat env s)"
proof -
  have frame: "js_parse demo_lines raw = Inr trade_frame" "js_find demo_lines trade_frame ''type'' = Some (JString ''trade'')"
    "js_get_string demo_lines (JString ''trade'') = Inr ''trade''" "js_find demo_lines trade_frame ''sid'' = None"
    "js_find demo_lines trade_frame ''msg'' = Some trade_body"
    by (simp_all add: trade_frame_def line_json_def tree_json_def)
  have "check_sequence env trade_frame s = (Inr True, s)" for s by (simp add: check_sequence_def assms(2) frame)
  then show ?thesis by (simp add: handle_message_def assms frame trade_body_parses dispatch_type_def Let_def)
qed

abbreviation demo_clock :: "nat \<Rightarrow> time_ns \<times> nat" where
  "demo_clock \<equiv> \<lambda>n. (int n, n)"

theorem fv_replay_faithful_witness:
  "run_fv_replay_mode demo_lines demo_clock (\<lambda>_. Some (''{}'' @ [CHR 0x0A])) ''session.jsonl'' 7
     = (Inr (0, fv_report (fv_scores (fv_run fv_defaults [FvTrade demo_print]))), 7)"
proof -
  have "\<exists>c. inject_lines (handle_message (null_ws_env demo_lines demo_clock) noting_callbacks) [''{}''] 0
      (new_ws_client (fst (demo_clock 7)), ([], snd (demo_clock 7))) = (Inr 1, (c, ([FvTrade demo_print], 7)))"
    by (simp add: bind_io_def trade_frame_handled noting_callbacks_def null_ws_env_def handle_heartbeat_def dispatch_def
      catch_io_def lift_result_def pure_callback_def return_io_def Let_def)
  then obtain c where c: "inject_lines (handle_message (null_ws_env demo_lines demo_clock) noting_callbacks) [''{}''] 0
      (new_ws_client (fst (demo_clock 7)), ([], snd (demo_clock 7))) = (Inr 1, (c, ([FvTrade demo_print], 7)))" by blast
  have "''{}'' @ [CHR 0x0A] = cap_out (fst (received (capture_handler (Some (\<lambda>raw n. (Inr (), n + length raw)))) [''{}''] (new_capture, 0)))"
    by (simp add: capture_handler_def record_line_def new_capture_def)
  then show ?thesis
    using fv_replay_faithful [OF _ _ c, where read_file = "\<lambda>_. Some (''{}'' @ [CHR 0x0A])" and path = "''session.jsonl''"
      and h = "\<lambda>raw n. (Inr (), n + length raw)" and s = 0] by simp
qed

definition demo_services :: "(json, nat) backtest_services" where
  "demo_services = \<lparr>bs_json = demo_lines, bs_system_now = demo_clock, bs_steady_now = demo_clock, bs_sleep_ms = (\<lambda>_ n. n),
     bs_rsa_sign = (\<lambda>_ _. Inr ''sig''), bs_rsa_pem = []\<rparr>"

theorem backtest_keeps_books_witness:
  "\<exists>r c b st. replay_backtest demo_services demo_config [''{}''] 7 = (r, c, b, st) \<and> bt_prints b = 1 \<and> r = Inr 1
     \<and> (\<exists>L. simulates (ts_om (bt_session b)) L)"
proof -
  let ?cbs = "backtest_callbacks (backtest_env demo_services demo_config) demo_clock"
  let ?env = "null_ws_env demo_lines (in_paper_world demo_clock)"
  have sel: "bs_json demo_services = demo_lines" "bs_system_now demo_services = demo_clock" "bs_steady_now demo_services = demo_clock"
    by (simp_all add: demo_services_def)
  have cb: "trade_callback ?cbs = Some (backtest_print demo_clock)" by (simp add: backtest_callbacks_def)
  have handled: "handle_message ?env ?cbs raw s = dispatch (Some (backtest_print demo_clock)) (Inr demo_print) (handle_heartbeat ?env s)" for raw s
    by (rule trade_frame_handled [OF cb]) (simp add: null_ws_env_def)
  have beat: "handle_heartbeat ?env (c, (b, (rl, pe, n))) = (c\<lparr>last_message_time := int n\<rparr>, (b, (rl, pe, n)))" for c b rl pe n
    by (simp add: handle_heartbeat_def null_ws_env_def in_paper_world_def)
  obtain r c b st where run: "replay_backtest demo_services demo_config [''{}''] 7 = (r, c, b, st)" by (metis prod_cases4)
  then have "bt_prints b = 1 \<and> r = Inr 1"
    by (auto simp: replay_backtest_def sel bind_io_def handled beat dispatch_def catch_io_def lift_result_def return_io_def
      backtest_print_def simulate_maker_fills_def new_paper_def)
  then show ?thesis using run backtest_keeps_books [OF run] by blast
qed

end
