(* ===== verification/Capture_Mode.thy ===== *)
theory Capture_Mode
  imports Ix_Socket Scan_Output Replay_Correct
begin

text \<open>
  The capture mode (\<open>run_capture_mode\<close> of \<open>source/app/app_modes.cpp\<close>): it records what an exchange
  sends, the REST answers of the seed requests in one file and the frames of the feed in another,
  until a signal stops it. A recording is the text written so far; what the mode logs is left out.
\<close>

section \<open>The recording client and socket\<close>

definition beside_capture :: "('w \<Rightarrow> 'a \<times> 'w) \<Rightarrow> capture \<times> 'w \<Rightarrow> 'a \<times> capture \<times> 'w" where
  "beside_capture f st = (let (x, w') = f (snd st) in (x, (fst st, w')))"

definition capturing_client :: "('j, string, 'p) rest_client \<Rightarrow> ('j, string, capture \<times> 'p) rest_client" where
  "capturing_client c =
     \<lparr>rc_json = rc_json c, rc_transport = capturing_transport (rc_json c) (rc_transport c), rc_auth = rc_auth c,
      rc_base_url = rc_base_url c, rc_path_prefix = rc_path_prefix c, rc_rsa_sign = rc_rsa_sign c,
      rc_system_now = beside_capture (rc_system_now c), rc_steady_now = beside_capture (rc_steady_now c),
      rc_sleep_ms = (\<lambda>ms st. (fst st, rc_sleep_ms c ms (snd st)))\<rparr>"

text \<open>
  The handlers the recording socket registers with the production one: every handler passes
  through, the frames by way of the recorder.
\<close>

definition client_past_capture :: "('a, ws_client \<times> 'w) io \<Rightarrow> ('a, ws_client \<times> capture \<times> 'w) io" where
  "client_past_capture f st =
     (case st of (c, (cap, w)) \<Rightarrow> let (r, (c', w')) = f (c, w) in (r, (c', (cap, w'))))"

definition client_capture :: "('a, capture \<times> ws_client \<times> 'w) io \<Rightarrow> ('a, ws_client \<times> capture \<times> 'w) io" where
  "client_capture f st =
     (case st of (c, (cap, w)) \<Rightarrow> let (r, (cap', (c', w'))) = f (cap, (c, w)) in (r, (c', (cap', w'))))"

definition capturing_handlers :: "(string, ws_client \<times> 'w) ix_handlers \<Rightarrow> (string, ws_client \<times> capture \<times> 'w) ix_handlers" where
  "capturing_handlers hs =
     \<lparr>on_message_cb = Some (\<lambda>raw. client_capture (capture_handler (on_message_cb hs) raw)),
      on_connect_cb = map_option client_past_capture (on_connect_cb hs),
      on_disconnect_cb = map_option client_past_capture (on_disconnect_cb hs),
      on_heartbeat_cb = map_option client_past_capture (on_heartbeat_cb hs)\<rparr>"

section \<open>The mode\<close>

text \<open>What the mode runs on: the plain client it records, its feed, and the files.\<close>

record ('j, 'p) capture_services =
  cs_client :: "('j, string, 'p) rest_client"
  cs_ws_env :: "('j, string, 'p) ws_env"
  cs_ix_start :: "string \<Rightarrow> headers \<Rightarrow> 'p \<Rightarrow> (string ix_message list \<times> bool) \<times> 'p"
  cs_ws_sleep_ms :: "int \<Rightarrow> 'p \<Rightarrow> 'p"
  cs_open :: "string \<Rightarrow> 'p \<Rightarrow> bool \<times> 'p"

definition kDefaultMaxReconnects :: int where "kDefaultMaxReconnects = - 1"
definition kDefaultReconnectDelayMs :: int where "kDefaultReconnectDelayMs = 5000"

definition capture_ws_config :: "app_config \<Rightarrow> ws_config" where
  "capture_ws_config cf = \<lparr>wc_url = cf_ws_url cf, wc_max_reconnects = kDefaultMaxReconnects, wc_reconnect_delay_ms = kDefaultReconnectDelayMs\<rparr>"

text \<open>The only callback logs.\<close>

definition capture_callbacks :: "'w ws_callbacks" where
  "capture_callbacks = \<lparr>snapshot_callback = Some (\<lambda>_. return_io ()), delta_callback = None, fill_callback = None, trade_callback = None,
     disconnect_callback = None, reconnect_callback = None\<rparr>"

text \<open>Fetching the seed books, exceptions contained, and subscribing; then the positions.\<close>

fun capture_seeds :: "('j, string, 'p) rest_client \<Rightarrow> ('j, string, 'p) ws_env \<Rightarrow> ticker list
    \<Rightarrow> (unit, ws_client \<times> rate_limiter \<times> capture \<times> 'p) io" where
  "capture_seeds cl wse [] st = (Inr (), st)"
| "capture_seeds cl wse (tk # tks) (c, rl_cap_w) =
     (case get_orderbook (capturing_client cl) tk rl_cap_w of
        (Inl (Abort what), s') \<Rightarrow> (Inl (Abort what), (c, s'))
      | (_, (rl, (cap, w))) \<Rightarrow>
          (let (c', w') = subscribe wse tk (c, w) in capture_seeds cl wse tks (c', (rl, (cap, w')))))"

definition capture_rest :: "('j, string, 'p) rest_client \<Rightarrow> ('j, string, 'p) ws_env \<Rightarrow> ticker list
    \<Rightarrow> (unit, ws_client \<times> rate_limiter \<times> capture \<times> 'p) paged" where
  "capture_rest cl wse tks st =
     (case capture_seeds cl wse tks st of
        (Inl e, st') \<Rightarrow> Some (Inl e, st')
      | (Inr _, (c, s)) \<Rightarrow>
          (case get_positions (capturing_client cl) s of
             None \<Rightarrow> None
           | Some (Inl (Abort what), s') \<Rightarrow> Some (Inl (Abort what), (c, s'))
           | Some (_, s') \<Rightarrow> Some (Inr (), (c, s'))))"

definition capture_feed :: "('j, 'p) capture_services \<Rightarrow> ws_config \<Rightarrow> ws_client \<times> capture \<times> 'p
    \<Rightarrow> ((exn + unit) \<times> ws_client \<times> capture \<times> 'p) option" where
  "capture_feed sv cfg =
     (let cl = cs_client sv in
      ws_run cfg
        (ws_attempt (rc_rsa_sign cl) (beside_capture (rc_system_now cl)) (rc_auth cl) cfg
           (\<lambda>url hdrs. beside_capture (cs_ix_start sv url hdrs)) (capturing_handlers (client_handlers (cs_ws_env sv) capture_callbacks)))
        (\<lambda>ms st. (fst st, cs_ws_sleep_ms sv ms (snd st))))"

definition capture_tickers :: "('j, 'p) capture_services \<Rightarrow> app_config \<Rightarrow> (ticker list, 'p) paged" where
  "capture_tickers sv cf w =
     (if cf_target_tickers cf \<noteq> [] then Some (Inr (cf_target_tickers cf), w)
      else
        let cl = cs_client sv; (limiter_start, w1) = rc_steady_now cl w in
        map_option (\<lambda>(r, (rl, w')). (r, w'))
          (scan_top_tickers (\<lambda>(rl, w). let (t, w') = rc_system_now cl w in (t, (rl, w'))) (client_market_data cl) (cf_scanner cf)
             (new_write_limiter limiter_start, w1)))"

text \<open>The exit code, the recording of the feed and that of the requests.\<close>

definition run_capture_mode :: "('j, 'p) capture_services \<Rightarrow> app_config \<Rightarrow> string \<Rightarrow> (int \<times> capture \<times> capture, 'p) paged" where
  "run_capture_mode sv cf out_dir =
     bind_paged (capture_tickers sv cf) (\<lambda>tickers w.
       if tickers = [] then Some (Inr (1, (new_capture, new_capture)), w)
       else
         let (ws_opened, w1) = cs_open sv (out_dir @ ''/session.jsonl'') w;
             (rest_opened, w2) = cs_open sv (out_dir @ ''/rest.jsonl'') w1;
             (limiter_start, w3) = rc_steady_now (cs_client sv) w2; (now, w4) = rc_steady_now (cs_client sv) w3
         in if \<not> ws_opened \<or> \<not> rest_opened then Some (Inr (1, (new_capture, new_capture)), w2)
            else case capture_rest (cs_client sv) (cs_ws_env sv) tickers (new_ws_client now, (new_write_limiter limiter_start, (new_capture, w4))) of
              None \<Rightarrow> None
            | Some (Inl e, (c, (rl, (rest_capture, w5)))) \<Rightarrow> Some (Inl e, w5)
            | Some (Inr _, (c, (rl, (rest_capture, w5)))) \<Rightarrow>
                (case capture_feed sv (capture_ws_config cf) (c, (new_capture, w5)) of
                   None \<Rightarrow> None
                 | Some (Inl e, (c', (ws_capture, w6))) \<Rightarrow> Some (Inl e, w6)
                 | Some (Inr _, (c', (ws_capture, w6))) \<Rightarrow> Some (Inr (0, (ws_capture, rest_capture)), w6)))"

section \<open>Recording changes nothing\<close>

definition wrote :: "string list \<Rightarrow> capture \<Rightarrow> capture" where
  "wrote raws cap = \<lparr>cap_out = cap_out cap @ concat (map as_line raws), cap_count = cap_count cap + length raws\<rparr>"

lemma wrote_simps [simp]: "wrote [] cap = cap" "wrote b (wrote a cap) = wrote (a @ b) cap" "record_line raw cap = wrote [raw] cap"
  by (simp_all add: wrote_def record_line_def as_line_def)

text \<open>
  \<open>records l f g\<close>: next to a recording, \<open>f\<close> does what \<open>g\<close> does, and writes the lines \<open>l w\<close> of the
  world \<open>w\<close> it begins in unless the process ends.
\<close>

definition records :: "('w \<Rightarrow> string list) \<Rightarrow> ('a, ws_client \<times> capture \<times> 'w) io \<Rightarrow> ('a, ws_client \<times> 'w) io \<Rightarrow> bool" where
  "records l f g \<longleftrightarrow> (\<forall>c cap w r c' w'. g (c, w) = (r, (c', w')) \<longrightarrow>
     (\<exists>raws. f (c, (cap, w)) = (r, (c', (wrote raws cap, w'))) \<and> ((\<forall>what. r \<noteq> Inl (Abort what)) \<longrightarrow> raws = l w)))"

definition frames_of_messages :: "'t ix_message list \<Rightarrow> 't list" where
  "frames_of_messages msgs = concat (map (\<lambda>msg. case msg of IxMessage raw \<Rightarrow> [raw] | _ \<Rightarrow> []) msgs)"

lemma records_callback:
  assumes "ix_callback hs msg (False, (c, w)) = (r, (finished, (c', w')))" and "on_message_cb hs \<noteq> None"
  shows "ix_callback (capturing_handlers hs) msg (False, (c, (cap, w)))
    = (r, (finished, (c', (wrote (case msg of IxMessage raw \<Rightarrow> [raw] | _ \<Rightarrow> []) cap, w'))))"
  using assms
  by (auto simp: ix_callback_def capturing_handlers_def call_handler_def client_past_capture_def client_capture_def capture_handler_def
    return_io_def Let_def split: ix_message.splits option.splits prod.splits sum.splits)

lemma records_ix_run:
  assumes "on_message_cb hs \<noteq> None"
  shows "records (\<lambda>_. frames_of_messages (until_closed msgs)) (ix_run (capturing_handlers hs) msgs) (ix_run hs msgs)"
proof -
  have "\<exists>raws. ix_run (capturing_handlers hs) msgs (c, (cap, w)) = (r, (c', (wrote raws cap, w')))
      \<and> ((\<forall>what. r \<noteq> Inl (Abort what)) \<longrightarrow> raws = frames_of_messages (until_closed msgs))"
    if "ix_run hs msgs (c, w) = (r, (c', w'))" for c cap w r c' w'
    using that
  proof (induction msgs arbitrary: c cap w)
    case Nil
    then show ?case by (intro exI [of _ "[]"]) (simp add: frames_of_messages_def)
  next
    case (Cons msg msgs)
    let ?fr = "case msg of IxMessage raw \<Rightarrow> [raw] | _ \<Rightarrow> []"
    obtain r1 finished c1 w1 where cb: "ix_callback hs msg (False, (c, w)) = (r1, (finished, (c1, w1)))" by (metis prod_cases4)
    have cap_cb: "ix_callback (capturing_handlers hs) msg (False, (c, (cap, w))) = (r1, (finished, (c1, (wrote ?fr cap, w1))))"
      by (rule records_callback [OF cb assms])
    have closes: "until_closed (msg # msgs) = (if finished then [msg] else msg # until_closed msgs)" if "r1 = Inr ()"
      using cb that by (auto simp: ix_callback_def split: ix_message.splits prod.splits sum.splits)
    show ?case
    proof (cases "r1 = Inr () \<and> \<not> finished")
      case True
      then have "ix_run hs msgs (c1, w1) = (r, (c', w'))" using Cons.prems cb by simp
      from Cons.IH [OF this, of "wrote ?fr cap"] obtain raws where
        "ix_run (capturing_handlers hs) msgs (c1, (wrote ?fr cap, w1)) = (r, (c', (wrote raws (wrote ?fr cap), w')))"
        "(\<forall>what. r \<noteq> Inl (Abort what)) \<longrightarrow> raws = frames_of_messages (until_closed msgs)" by blast
      then show ?thesis using True cap_cb closes by (intro exI [of _ "?fr @ raws"]) (simp add: frames_of_messages_def)
    next
      case False
      then show ?thesis using Cons.prems cb cap_cb closes
        by (intro exI [of _ ?fr]) (cases r1; cases finished; auto simp: frames_of_messages_def std_terminate_def split: exn.splits)
    qed
  qed
  then show ?thesis unfolding records_def by blast
qed

text \<open>
  The connections a feed opens, in order: \<open>served\<close> is what the library delivers on the connection an
  attempt opens in a given world, nothing when signing fails and none is opened. The loop is the plain
  client's, without a recorder.
\<close>

definition connection_served :: "(string \<Rightarrow> string \<Rightarrow> exn + string) \<Rightarrow> ('w \<Rightarrow> time_ns \<times> 'w) \<Rightarrow> auth \<Rightarrow> ws_config
    \<Rightarrow> (string \<Rightarrow> headers \<Rightarrow> 'w \<Rightarrow> ('t ix_message list \<times> bool) \<times> 'w) \<Rightarrow> 'w \<Rightarrow> 't ix_message list list" where
  "connection_served rsa clock au cfg ix_start w =
     (case auth_headers rsa clock au cfg w of
        (Inl _, _) \<Rightarrow> []
      | (Inr hdrs, w') \<Rightarrow> [fst (fst (ix_start (wc_url cfg) hdrs w'))])"

inductive connections :: "ws_config \<Rightarrow> (unit, ws_client \<times> 'w) io \<Rightarrow> (int \<Rightarrow> 'w \<Rightarrow> 'w) \<Rightarrow> ('w \<Rightarrow> 'm list) \<Rightarrow> int \<Rightarrow> ws_client \<times> 'w \<Rightarrow> 'm list \<Rightarrow> bool"
  for cfg attempt sleep_ms served where
  not_running: "\<not> ws_running c \<Longrightarrow> connections cfg attempt sleep_ms served n (c, w) []"
| last_connection: "ws_running c \<Longrightarrow> catch_io attempt (\<lambda>_. return_io ()) (c, w) = (Inr (), (c', w'))
    \<Longrightarrow> \<not> ws_running c' \<or> 0 \<le> wc_max_reconnects cfg \<and> wc_max_reconnects cfg \<le> n
    \<Longrightarrow> connections cfg attempt sleep_ms served n (c, w) (served w)"
| reconnection: "ws_running c \<Longrightarrow> catch_io attempt (\<lambda>_. return_io ()) (c, w) = (Inr (), (c', w'))
    \<Longrightarrow> ws_running c' \<Longrightarrow> \<not> (0 \<le> wc_max_reconnects cfg \<and> wc_max_reconnects cfg \<le> n)
    \<Longrightarrow> delay = reconnect_backoff (wc_reconnect_delay_ms cfg) (consecutive_connect_failures c' + 1)
    \<Longrightarrow> connections cfg attempt sleep_ms served (n + 1)
         (c'\<lparr>consecutive_connect_failures := consecutive_connect_failures c' + 1\<rparr>, if 0 < delay then sleep_ms delay w' else w') rest
    \<Longrightarrow> connections cfg attempt sleep_ms served n (c, w) (served w @ rest)"

text \<open>The connections of a run are determined by where it starts.\<close>

lemma connections_unique:
  "connections cfg attempt sleep_ms served n s conns \<Longrightarrow> connections cfg attempt sleep_ms served n s conns' \<Longrightarrow> conns' = conns"
proof (induction arbitrary: conns' rule: connections.induct)
  case (not_running c n w)
  from this(2,1) show ?case by (cases rule: connections.cases) auto
next
  case (last_connection c w c' w' n)
  from last_connection(4,1-3) show ?case by (cases rule: connections.cases) auto
next
  case (reconnection c w c' w' n delay rest)
  from reconnection(8) show ?case using reconnection(1-5) reconnection.IH by (cases rule: connections.cases) auto
qed

definition frames_served :: "'t ix_message list list \<Rightarrow> 't list" where
  "frames_served conns = concat (map (\<lambda>msgs. frames_of_messages (until_closed msgs)) conns)"

lemma frames_served_simps [simp]:
  "frames_served [] = []" "frames_served (a @ b) = frames_served a @ frames_served b" "frames_served [msgs] = frames_of_messages (until_closed msgs)"
  by (simp_all add: frames_served_def)

text \<open>An attempt next to the recorder is the plain attempt, and writes the frames of its connection.\<close>

lemma records_attempt:
  assumes "on_message_cb hs \<noteq> None"
  shows "records (\<lambda>w. frames_served (connection_served rsa clock au cfg ix_start w))
    (ws_attempt rsa (beside_capture clock) au cfg (\<lambda>url hdrs. beside_capture (ix_start url hdrs)) (capturing_handlers hs))
    (ws_attempt rsa clock au cfg ix_start hs)"
  unfolding records_def
proof (intro allI impI)
  fix c cap w r c' w'
  assume run: "ws_attempt rsa clock au cfg ix_start hs (c, w) = (r, (c', w'))"
  obtain rh w1 where h: "auth_headers rsa clock au cfg w = (rh, w1)" by (cases "auth_headers rsa clock au cfg w")
  have hc: "auth_headers rsa (beside_capture clock) au cfg (cap, w) = (rh, (cap, w1))"
    using h by (auto simp: auth_headers_def sign_def bind_io_def lift_read_def lift_result_def return_io_def beside_capture_def Let_def
      split: prod.splits sum.splits)
  show "\<exists>raws. ws_attempt rsa (beside_capture clock) au cfg (\<lambda>url hdrs. beside_capture (ix_start url hdrs)) (capturing_handlers hs) (c, (cap, w))
      = (r, (c', (wrote raws cap, w'))) \<and> ((\<forall>what. r \<noteq> Inl (Abort what)) \<longrightarrow> raws = frames_served (connection_served rsa clock au cfg ix_start w))"
  proof (cases rh)
    case (Inl e)
    then show ?thesis using run h hc by (intro exI [of _ "[]"]) (simp add: ws_attempt_def connection_served_def)
  next
    case (Inr hdrs)
    obtain msgs stopped w2 where st: "ix_start (wc_url cfg) hdrs w1 = ((msgs, stopped), w2)" by (metis prod.collapse)
    obtain r2 c2 w3 where ix: "ix_run hs msgs (c, w2) = (r2, (c2, w3))" by (metis prod_cases3)
    from records_ix_run [OF assms, of msgs] ix obtain raws where raws:
      "ix_run (capturing_handlers hs) msgs (c, (cap, w2)) = (r2, (c2, (wrote raws cap, w3)))"
      "(\<forall>what. r2 \<noteq> Inl (Abort what)) \<longrightarrow> raws = frames_of_messages (until_closed msgs)" unfolding records_def by blast
    have "connection_served rsa clock au cfg ix_start w = [msgs]" by (simp add: connection_served_def h Inr st)
    then show ?thesis using run h hc Inr st ix raws
      by (intro exI [of _ raws]) (auto simp: ws_attempt_def beside_capture_def Let_def)
  qed
qed

lemma records_run_loop:
  fixes f :: "(unit, ws_client \<times> capture \<times> 'w) io"
  assumes "records (\<lambda>w. frames_served (served w)) f g"
    and "run_loop cfg f (\<lambda>ms st. (fst st, sl ms (snd st))) n (c, (cap, w)) = Some (r, (c', (cap', w')))"
  shows "run_loop cfg g sl n (c, w) = Some (r, (c', w'))
    \<and> (r = Inr () \<longrightarrow> (\<exists>conns. connections cfg g sl served n (c, w) conns \<and> cap' = wrote (frames_served conns) cap))"
proof -
  let ?sl = "\<lambda>ms (st :: capture \<times> 'w). (fst st, sl ms (snd st))"
  let ?kept = "\<lambda>conf k c cap w r c' cap' w'. run_loop conf g sl k (c, w) = Some (r, (c', w'))
    \<and> (r = Inr () \<longrightarrow> (\<exists>conns. connections conf g sl served k (c, w) conns \<and> cap' = wrote (frames_served conns) cap))"
  let ?Q = "\<lambda>conf attempt sleep k s y. attempt = f \<longrightarrow> sleep = ?sl \<longrightarrow>
    (\<forall>c cap w r c' cap' w'. s = (c, (cap, w)) \<longrightarrow> y = (r, (c', (cap', w'))) \<longrightarrow> ?kept conf k c cap w r c' cap' w')"
  have "?Q cfg f ?sl n (c, (cap, w)) (r, (c', (cap', w')))"
  proof (rule run_loop.raw_induct [where P = ?Q, OF _ assms(2)], intro impI allI)
    fix rec conf attempt sleep k s y c cap w r c' cap' w'
    assume IH: "\<And>conf attempt sleep k s y. rec conf attempt sleep k s = Some y \<Longrightarrow> ?Q conf attempt sleep k s y"
      and step: "(if \<not> ws_running (fst s) then Some (Inr (), ((fst s)\<lparr>ws_running := False\<rparr>, snd s))
        else case catch_io attempt (\<lambda>_. return_io ()) s of
          (Inl e, s') \<Rightarrow> Some (Inl e, s')
        | (Inr _, s') \<Rightarrow>
            if \<not> ws_running (fst s') \<or> 0 \<le> wc_max_reconnects conf \<and> wc_max_reconnects conf \<le> k
            then Some (Inr (), ((fst s')\<lparr>ws_running := False\<rparr>, snd s'))
            else let failures = consecutive_connect_failures (fst s') + 1; c' = (fst s')\<lparr>consecutive_connect_failures := failures\<rparr>;
                     delay = reconnect_backoff (wc_reconnect_delay_ms conf) failures
                 in rec conf attempt sleep (k + 1) (c', if 0 < delay then sleep delay (snd s') else snd s')) = Some y"
      and eqs: "attempt = f" "sleep = ?sl" "s = (c, (cap, w))" "y = (r, (c', (cap', w')))"
    obtain r1 c1 w1 where g: "g (c, w) = (r1, (c1, w1))" by (metis prod_cases3)
    with assms(1) obtain raws1 where f: "f (c, (cap, w)) = (r1, (c1, (wrote raws1 cap, w1)))"
      "(\<forall>what. r1 \<noteq> Inl (Abort what)) \<longrightarrow> raws1 = frames_served (served w)" unfolding records_def by blast
    consider "\<not> ws_running c" | "ws_running c" "\<exists>what. r1 = Inl (Abort what)" | "ws_running c" "\<forall>what. r1 \<noteq> Inl (Abort what)" by blast
    then show "?kept conf k c cap w r c' cap' w'"
    proof cases
      case 1
      have "connections conf g sl served k (c, w) []" by (rule not_running [OF 1])
      then show ?thesis using step 1 by (subst run_loop.simps) (auto simp: eqs intro!: exI [of _ "[]"])
    next
      case 2
      then show ?thesis using step f(1) g by (subst run_loop.simps) (auto simp: eqs catch_io_def)
    next
      case 3
      have caught: "catch_io f (\<lambda>_. return_io ()) (c, (cap, w)) = (Inr (), (c1, (wrote raws1 cap, w1)))"
          "catch_io g (\<lambda>_. return_io ()) (c, w) = (Inr (), (c1, w1))"
        using 3 f(1) g by (cases r1; auto simp: catch_io_def return_io_def split: exn.splits)+
      have raws1: "raws1 = frames_served (served w)" using f(2) 3(2) by blast
      show ?thesis
      proof (cases "\<not> ws_running c1 \<or> 0 \<le> wc_max_reconnects conf \<and> wc_max_reconnects conf \<le> k")
        case True
        have "connections conf g sl served k (c, w) (served w)" by (rule last_connection [OF 3(1) caught(2) True])
        then show ?thesis using step 3 True raws1 caught
          by (subst run_loop.simps) (auto simp: eqs)
      next
        case False
        let ?fl = "consecutive_connect_failures c1 + 1"
        let ?c2 = "c1\<lparr>consecutive_connect_failures := ?fl\<rparr>" and ?d = "reconnect_backoff (wc_reconnect_delay_ms conf) ?fl"
        let ?w2 = "if 0 < ?d then sl ?d w1 else w1"
        have "rec conf f ?sl (k + 1) (?c2, (wrote raws1 cap, ?w2)) = Some (r, (c', (cap', w')))"
          using step 3(1) False caught(1) by (simp add: eqs Let_def split: if_splits)
        from IH [OF this] have rest: "?kept conf (k + 1) ?c2 (wrote raws1 cap) ?w2 r c' cap' w'" by blast
        have "run_loop conf g sl k (c, w) = Some (r, (c', w'))"
          using rest 3(1) False caught(2) by (subst run_loop.simps) (auto simp: Let_def)
        moreover have "\<exists>conns. connections conf g sl served k (c, w) conns \<and> cap' = wrote (frames_served conns) cap" if "r = Inr ()"
        proof -
          from rest that obtain conns where conns: "connections conf g sl served (k + 1) (?c2, ?w2) conns"
            "cap' = wrote (frames_served conns) (wrote raws1 cap)" by blast
          have "connections conf g sl served k (c, w) (served w @ conns)"
            using False by (intro reconnection [OF 3(1) caught(2) _ _ refl conns(1)]) blast+
          then show ?thesis using conns(2) raws1 by (intro exI [of _ "served w @ conns"]) simp
        qed
        ultimately show ?thesis by blast
      qed
    qed
  qed
  then show ?thesis by blast
qed

lemma recording_run:
  assumes "on_message_cb hs \<noteq> None"
    and "ws_run cfg (ws_attempt rsa (beside_capture clock) au cfg (\<lambda>url hdrs. beside_capture (ix_start url hdrs)) (capturing_handlers hs))
      (\<lambda>ms st. (fst st, sleep_ms ms (snd st))) (c, (cap, w)) = Some (r, (c', (cap', w')))"
  shows "ws_run cfg (ws_attempt rsa clock au cfg ix_start hs) sleep_ms (c, w) = Some (r, (c', w'))"
    and "r = Inr () \<Longrightarrow> \<exists>conns. connections cfg (ws_attempt rsa clock au cfg ix_start hs) sleep_ms
        (connection_served rsa clock au cfg ix_start) 0 (c\<lparr>ws_running := True\<rparr>, w) conns \<and> cap' = wrote (frames_served conns) cap"
  using records_run_loop [OF records_attempt [OF assms(1)] assms(2) [unfolded ws_run_def fst_conv snd_conv]]
  by (simp_all add: ws_run_def)

text \<open>What a connection of the feed delivers, the library has delivered.\<close>

lemma connections_delivered:
  assumes "connections cfg attempt sleep_ms (connection_served rsa clock au cfg ix_start) n s conns"
  shows "\<forall>msgs \<in> set conns. \<exists>url hdrs v. msgs = fst (fst (ix_start url hdrs v))"
proof -
  have "\<forall>msgs \<in> set (connection_served rsa clock au cfg ix_start w). \<exists>url hdrs v. msgs = fst (fst (ix_start url hdrs v))" for w
    by (auto simp: connection_served_def split: prod.split sum.split)
  with assms show ?thesis by induction (auto simp: ball_Un)
qed

text \<open>
  C21. Recording changes nothing and misses nothing: when a capture ends well, the recorded feed went as
  it goes from the same start without a recorder, ending with the same client and world; and read back, the recording of the
  session is the frames of all the connections which that feed, without a recorder, opens, connection
  after connection in the order in which they are opened (\<open>connections_unique\<close>: no other choice of them
  fits), each up to its Close, in order, each frame once, as long as no frame contains a line feed.
\<close>

theorem capture_mode_faithful:
  assumes "run_capture_mode sv cf out_dir w = Some (Inr (0, (session_file, rest_file)), w')"
    and "\<forall>url hdrs v raw. IxMessage raw \<in> set (fst (fst (cs_ix_start sv url hdrs v))) \<longrightarrow> CHR 0x0A \<notin> set raw"
  shows "\<exists>c w1 c' conns. let cfg = capture_ws_config cf; rsa = rc_rsa_sign (cs_client sv); clock = rc_system_now (cs_client sv);
        au = rc_auth (cs_client sv);
        feed = ws_attempt rsa clock au cfg (cs_ix_start sv) (client_handlers (cs_ws_env sv) capture_callbacks)
      in capture_feed sv cfg (c, (new_capture, w1)) = Some (Inr (), (c', (session_file, w')))
       \<and> ws_run cfg feed (cs_ws_sleep_ms sv) (c, w1) = Some (Inr (), (c', w'))
       \<and> connections cfg feed (cs_ws_sleep_ms sv) (connection_served rsa clock au cfg (cs_ix_start sv)) 0 (c\<lparr>ws_running := True\<rparr>, w1) conns
       \<and> read_lines (cap_out session_file) = concat (map (\<lambda>msgs. frames_of_messages (until_closed msgs)) conns)
       \<and> cap_count session_file = length (read_lines (cap_out session_file))"
proof -
  let ?cl = "cs_client sv" and ?cfg = "capture_ws_config cf"
  obtain c w1 c' where feed: "capture_feed sv ?cfg (c, (new_capture, w1)) = Some (Inr (), (c', (session_file, w')))"
    using assms(1)
    by (auto simp: run_capture_mode_def bind_paged_def Let_def split: option.splits sum.splits prod.splits if_splits)
  have hs: "on_message_cb (client_handlers (cs_ws_env sv) capture_callbacks) \<noteq> None" by (simp add: client_handlers_def)
  note run = recording_run [OF hs feed [unfolded capture_feed_def Let_def]]
  from run(2) [OF refl] obtain conns where conns: "connections ?cfg (ws_attempt (rc_rsa_sign ?cl) (rc_system_now ?cl) (rc_auth ?cl) ?cfg (cs_ix_start sv)
        (client_handlers (cs_ws_env sv) capture_callbacks)) (cs_ws_sleep_ms sv)
      (connection_served (rc_rsa_sign ?cl) (rc_system_now ?cl) (rc_auth ?cl) ?cfg (cs_ix_start sv)) 0 (c\<lparr>ws_running := True\<rparr>, w1) conns"
    and cap: "session_file = wrote (frames_served conns) new_capture" by blast
  have sub: "set (until_closed msgs) \<subseteq> set msgs" for msgs :: "string ix_message list"
    by (induction msgs) (auto split: ix_message.splits)
  have frame: "raw \<in> set (frames_of_messages (until_closed msgs)) \<Longrightarrow> IxMessage raw \<in> set msgs" for raw and msgs :: "string ix_message list"
    using sub [of msgs] by (auto simp: frames_of_messages_def split: ix_message.splits)
  have "\<forall>l \<in> set (frames_served conns). CHR 0x0A \<notin> set l"
    using connections_delivered [OF conns] frame assms(2) unfolding frames_served_def by fastforce
  from read_lines_recording [OF this] have "read_lines (cap_out session_file) = frames_served conns"
    by (simp add: cap wrote_def new_capture_def)
  moreover have "cap_count session_file = length (frames_served conns)"
    by (simp add: cap wrote_def new_capture_def)
  ultimately show ?thesis using feed run(1) conns unfolding frames_served_def Let_def by metis
qed

text \<open>An exchange whose REST side is down, and whose feed is stopped after one frame.\<close>

definition down_transport :: "(string, 'w) http_transport" where
  "down_transport = \<lparr>http_get = (\<lambda>_ _ w. (Inl (StdException ''down''), w)), http_post = (\<lambda>_ _ _ w. (Inl (StdException ''down''), w)),
     http_delete = (\<lambda>_ _ w. (Inl (StdException ''down''), w))\<rparr>"

definition down_client :: "(json, string, nat) rest_client" where
  "down_client = \<lparr>rc_json = line_json (\<lambda>_. JNull), rc_transport = down_transport, rc_auth = \<lparr>api_key = ''k'', pem_private_key = []\<rparr>,
     rc_base_url = ''https://x/v2'', rc_path_prefix = ''/v2'', rc_rsa_sign = (\<lambda>_ _. Inr ''sig''), rc_system_now = (\<lambda>n. (0, n)),
     rc_steady_now = (\<lambda>n. (0, n)), rc_sleep_ms = (\<lambda>_ n. n)\<rparr>"

definition one_frame :: "(json, nat) capture_services" where
  "one_frame = \<lparr>cs_client = down_client,
     cs_ws_env = \<lparr>we_json = line_json (\<lambda>_. JObject []), ws_send = (\<lambda>_. id), ws_request_close = id, we_steady_now = (\<lambda>n. (0, n))\<rparr>,
     cs_ix_start = (\<lambda>_ _ n. (([IxMessage ''{}''], True), n)), cs_ws_sleep_ms = (\<lambda>_. id), cs_open = (\<lambda>_ n. (True, n))\<rparr>"

lemma down_get: "get_json (capturing_client down_client) path url (rl, (cap, n)) = (Inl (StdException ''down''), (rl, (cap, n)))"
  by (simp add: get_json_def signed_get_def rc_sign_def on_world_def capturing_client_def down_client_def down_transport_def capturing_transport_def recorded_def
    sign_def bind_io_def lift_read_def lift_result_def return_io_def beside_capture_def Let_def)

lemma one_frame_feed:
  "\<exists>c' cap'. capture_feed one_frame cfg (c, (new_capture, n)) = Some (Inr (), (c', (cap', n)))"
proof -
  have run: "ws_run cfg attempt sleep_ms (c, st) = Some (Inr (), (c'\<lparr>ws_running := False\<rparr>, st'))"
    if "attempt (c\<lparr>ws_running := True\<rparr>, st) = (Inr (), (stop c', st'))" for attempt sleep_ms c' and st st' :: "capture \<times> nat"
    unfolding ws_run_def by (subst run_loop.simps) (simp add: that catch_io_def stop_def)
  show ?thesis
    by (simp add: capture_feed_def one_frame_def down_client_def Let_def)
      (rule exI, rule exI, rule run, simp add: ws_attempt_def auth_headers_def sign_def bind_io_def lift_read_def lift_result_def return_io_def
        beside_capture_def capturing_handlers_def client_handlers_def ix_callback_def call_handler_def client_capture_def capture_handler_def
        handle_message_def handle_heartbeat_def line_json_def tree_json_def Let_def)
qed

lemma one_frame_served:
  "connection_served (rc_rsa_sign (cs_client one_frame)) (rc_system_now (cs_client one_frame)) (rc_auth (cs_client one_frame))
     cfg (cs_ix_start one_frame) n = [[IxMessage ''{}'']]"
  by (simp add: connection_served_def one_frame_def down_client_def auth_headers_def sign_def bind_io_def lift_read_def lift_result_def
    return_io_def Let_def)

lemma one_frame_attempt:
  assumes "catch_io (ws_attempt (rc_rsa_sign (cs_client one_frame)) (rc_system_now (cs_client one_frame)) (rc_auth (cs_client one_frame)) cfg
     (cs_ix_start one_frame) hs) (\<lambda>_. return_io ()) (c, n) = (Inr (), (c', n'))"
  shows "\<not> ws_running c'"
proof -
  obtain r c1 n1 where "ix_run hs [IxMessage ''{}''] (c, n) = (r, (c1, n1))" by (metis prod_cases3)
  then have "ws_attempt (rc_rsa_sign (cs_client one_frame)) (rc_system_now (cs_client one_frame)) (rc_auth (cs_client one_frame)) cfg
     (cs_ix_start one_frame) hs (c, n) = (r, (c1\<lparr>ws_running := False\<rparr>, n1))"
    by (simp add: ws_attempt_def one_frame_def down_client_def auth_headers_def sign_def bind_io_def lift_read_def lift_result_def
      return_io_def stop_def Let_def del: ix_run.simps)
  then show ?thesis using assms by (cases r) (auto simp: catch_io_def return_io_def split: exn.splits)
qed

theorem capture_mode_faithful_witness:
  "\<exists>session_file rest_file w'. run_capture_mode one_frame demo_config ''out'' 7 = Some (Inr (0, (session_file, rest_file)), w')
     \<and> read_lines (cap_out session_file) = [''{}''] \<and> cap_count session_file = 1"
proof -
  have book: "get_orderbook (capturing_client down_client) tk (rl, (cap, n)) = (Inl (StdException ''down''), (rl, (cap, n)))" for tk rl cap n
    by (simp add: get_orderbook_def down_get bind_io_def)
  have positions: "get_positions (capturing_client down_client) (rl, (cap, n)) = Some (Inl (StdException ''down''), (rl, (cap, n)))" for rl cap n
    unfolding get_positions_def by (subst fetch_pages.simps) (simp add: positions_page_def down_get bind_io_def)
  have rest: "\<exists>c'. capture_rest down_client wse [''M''] (c, (rl, (cap, n))) = Some (Inr (), (c', (rl, (cap, snd (subscribe wse ''M'' (c, n))))))"
    for wse c rl cap n by (simp add: capture_rest_def book positions case_prod_beta Let_def)
  obtain c1 where c1: "capture_rest down_client (cs_ws_env one_frame) [''M''] (new_ws_client 0, (new_write_limiter 0, (new_capture, 7)))
      = Some (Inr (), (c1, (new_write_limiter 0, (new_capture, 7))))"
    using rest [of "cs_ws_env one_frame" "new_ws_client 0" "new_write_limiter 0" new_capture 7]
    by (auto simp: subscribe_def new_ws_client_def Let_def)
  obtain c2 session_file where c2: "capture_feed one_frame (capture_ws_config demo_config) (c1, (new_capture, 7)) = Some (Inr (), (c2, (session_file, 7)))"
    using one_frame_feed by blast
  have sel: "cs_client one_frame = down_client" "cs_open one_frame p n = (True, n)" "rc_steady_now down_client n = (0, n)" for p n
    by (simp_all add: one_frame_def down_client_def)
  have "cf_target_tickers demo_config = [''M'']" by (simp add: demo_config_def)
  then have run: "run_capture_mode one_frame demo_config ''out'' 7 = Some (Inr (0, (session_file, new_capture)), 7)"
    by (simp add: run_capture_mode_def bind_paged_def capture_tickers_def sel c1 c2 Let_def)
  have "\<forall>url hdrs v raw. IxMessage raw \<in> set (fst (fst (cs_ix_start one_frame url hdrs v))) \<longrightarrow> CHR 0x0A \<notin> set raw"
    by (simp add: one_frame_def)
  from capture_mode_faithful [OF run this, unfolded Let_def] obtain c w1 conns where
    "connections (capture_ws_config demo_config) (ws_attempt (rc_rsa_sign (cs_client one_frame)) (rc_system_now (cs_client one_frame))
        (rc_auth (cs_client one_frame)) (capture_ws_config demo_config) (cs_ix_start one_frame)
        (client_handlers (cs_ws_env one_frame) capture_callbacks)) (cs_ws_sleep_ms one_frame)
      (connection_served (rc_rsa_sign (cs_client one_frame)) (rc_system_now (cs_client one_frame)) (rc_auth (cs_client one_frame))
        (capture_ws_config demo_config) (cs_ix_start one_frame)) 0 (c\<lparr>ws_running := True\<rparr>, w1) conns"
    and lines: "read_lines (cap_out session_file) = concat (map (\<lambda>msgs. frames_of_messages (until_closed msgs)) conns)"
      "cap_count session_file = length (read_lines (cap_out session_file))" by blast
  then have "conns = [[IxMessage ''{}'']]"
    by (cases rule: connections.cases) (auto simp: one_frame_served dest: one_frame_attempt)
  with lines have "read_lines (cap_out session_file) = [''{}'']" by (simp add: frames_of_messages_def)
  with lines(2) run show ?thesis by auto
qed

end
