(* ===== verification/Http_Transport.thy ===== *)
theory Http_Transport
  imports Exchange_Interface
begin

text \<open>
  The production transport (\<open>source/net/http_transport.cpp\<close>): URLs split into a base and a path, one
  configured client per base kept for its connection, every request timed and reported to the
  observer, failures raised. The HTTP library (cpp-httplib) is a parameter; the mutex serialises the
  requests, which are one step each, and logging is left out.
\<close>

section \<open>URLs\<close>

fun find_sub :: "string \<Rightarrow> string \<Rightarrow> nat option" where
  "find_sub pat [] = (if pat = [] then Some 0 else None)"
| "find_sub pat (c # s) = (if take (length pat) (c # s) = pat then Some 0 else map_option Suc (find_sub pat s))"

text \<open>The base is scheme and host, the path everything from the first slash after them.\<close>

definition split_url :: "string \<Rightarrow> exn + string \<times> string" where
  "split_url url =
     (case find_sub ''://'' url of
        None \<Rightarrow> Inl (StdException (''Invalid URL (no scheme): '' @ url))
      | Some scheme_end \<Rightarrow>
          let rest = drop (scheme_end + 3) url; host = takeWhile (\<lambda>c. c \<noteq> CHR ''/'') rest; path_start = scheme_end + 3 + length host
          in if host = rest then Inr (url, ''/'') else Inr (take path_start url, drop path_start url))"

section \<open>The library and the clients\<close>

record client_options =
  follow_location :: bool
  connection_timeout_sec :: int
  read_timeout_sec :: int
  keep_alive :: bool

definition kConnectTimeoutSec :: int where "kConnectTimeoutSec = 10"
definition kReadTimeoutSec :: int where "kReadTimeoutSec = 30"

definition configure :: client_options where
  "configure = \<lparr>follow_location = True, connection_timeout_sec = kConnectTimeoutSec, read_timeout_sec = kReadTimeoutSec,
     keep_alive = True\<rparr>"

text \<open>
  What the library offers: a client for a base, which it may refuse, with options; requests on a
  client, which give a response or the text of an error.
\<close>

record ('c, 't, 'w) httplib =
  hl_client :: "string \<Rightarrow> client_options \<Rightarrow> ('c, 'w) io"
  hl_get :: "'c \<Rightarrow> string \<Rightarrow> headers \<Rightarrow> 'w \<Rightarrow> (string + 't http_response) \<times> 'w"
  hl_post :: "'c \<Rightarrow> string \<Rightarrow> headers \<Rightarrow> 't \<Rightarrow> string \<Rightarrow> 'w \<Rightarrow> (string + 't http_response) \<times> 'w"
  hl_delete :: "'c \<Rightarrow> string \<Rightarrow> headers \<Rightarrow> 'w \<Rightarrow> (string + 't http_response) \<times> 'w"

type_synonym 'c clients = "string \<rightharpoonup> 'c"

type_synonym 'w latency_observer = "string \<Rightarrow> string \<Rightarrow> int \<Rightarrow> int \<Rightarrow> (unit, 'w) io"

definition make_response :: "string + 't http_response \<Rightarrow> exn + 't http_response" where
  "make_response result =
     (case result of Inl err \<Rightarrow> Inl (StdException (''HTTP request failed: '' @ err)) | Inr response \<Rightarrow> Inr response)"

definition timed :: "('w \<Rightarrow> time_ns \<times> 'w) \<Rightarrow> string \<Rightarrow> string \<Rightarrow> 'w latency_observer option
    \<Rightarrow> ('w \<Rightarrow> (string + 't http_response) \<times> 'w) \<Rightarrow> ('t http_response, 'w) io" where
  "timed clock http_method path observer perform w =
     (let (start, w1) = clock w; (result, w2) = perform w1; (now, w3) = clock w2;
          elapsed_ms = (now - start) sdiv kNanosPerMilli;
          status = (case result of Inl _ \<Rightarrow> - 1 | Inr response \<Rightarrow> status_code response)
      in case observer of
           None \<Rightarrow> (make_response result, w3)
         | Some observe \<Rightarrow>
             (case observe http_method path status elapsed_ms w3 of
                (Inl e, w4) \<Rightarrow> (Inl e, w4)
              | (Inr _, w4) \<Rightarrow> (make_response result, w4)))"

definition client_for :: "('c, 't, 'w) httplib \<Rightarrow> string \<Rightarrow> ('c, 'c clients \<times> 'w) io" where
  "client_for hl base st =
     (case fst st base of
        Some client \<Rightarrow> (Inr client, st)
      | None \<Rightarrow>
          (case hl_client hl base configure (snd st) of
             (Inl e, w') \<Rightarrow> (Inl e, (fst st, w'))
           | (Inr client, w') \<Rightarrow> (Inr client, ((fst st)(base \<mapsto> client), w'))))"

section \<open>The transport\<close>

definition request :: "('c, 't, 'w) httplib \<Rightarrow> ('w \<Rightarrow> time_ns \<times> 'w) \<Rightarrow> 'w latency_observer option \<Rightarrow> string \<Rightarrow> string
    \<Rightarrow> ('c \<Rightarrow> string \<Rightarrow> 'w \<Rightarrow> (string + 't http_response) \<times> 'w) \<Rightarrow> ('t http_response, 'c clients \<times> 'w) io" where
  "request hl clock observer http_method url perform st =
     (case split_url url of
        Inl e \<Rightarrow> (Inl e, st)
      | Inr (base, path) \<Rightarrow>
          (case client_for hl base st of
             (Inl e, st') \<Rightarrow> (Inl e, st')
           | (Inr client, (clients, w)) \<Rightarrow>
               let (r, w') = timed clock http_method path observer (perform client path) w in (r, (clients, w'))))"

definition live_http_transport :: "('c, 't, 'w) httplib \<Rightarrow> ('w \<Rightarrow> time_ns \<times> 'w) \<Rightarrow> 'w latency_observer option
    \<Rightarrow> ('t, 'c clients \<times> 'w) http_transport" where
  "live_http_transport hl clock observer =
     \<lparr>http_get = (\<lambda>url h. request hl clock observer ''GET'' url (\<lambda>client path. hl_get hl client path h)),
      http_post = (\<lambda>url h b. request hl clock observer ''POST'' url (\<lambda>client path. hl_post hl client path h b ''application/json'')),
      http_delete = (\<lambda>url h. request hl clock observer ''DELETE'' url (\<lambda>client path. hl_delete hl client path h))\<rparr>"

section \<open>What a request does\<close>

lemma find_sub_Some: "find_sub pat s = Some k \<Longrightarrow> take (length pat) (drop k s) = pat \<and> k + length pat \<le> length s"
proof (induction s arbitrary: k)
  case (Cons c s)
  show ?case
  proof (cases "take (length pat) (c # s) = pat")
    case True
    then have "length pat \<le> length (c # s)" by (metis length_take min_def nle_le)
    with True Cons.prems show ?thesis by simp
  next
    case False
    with Cons.prems Cons.IH show ?thesis by auto
  qed
qed (auto split: if_splits)

text \<open>Nothing of a URL is lost or invented but the slash of an empty path, and the base ends before the path's slash.\<close>

lemma split_url_parts:
  assumes "split_url url = Inr (base, path)"
  shows "hd path = CHR ''/''" and "base @ path = url \<or> base = url \<and> path = ''/''"
    and "\<exists>scheme host. base = scheme @ ''://'' @ host \<and> CHR ''/'' \<notin> set host"
proof -
  obtain k where k: "find_sub ''://'' url = Some k" using assms by (auto simp: split_url_def split: option.splits)
  let ?rest = "drop (k + 3) url" let ?host = "takeWhile (\<lambda>c. c \<noteq> CHR ''/'') ?rest"
  have url: "url = take k url @ ''://'' @ ?rest"
    using find_sub_Some [OF k] by (metis append_take_drop_id drop_drop length_Cons list.size(3) numeral_3_eq_3 add.commute)
  have host: "CHR ''/'' \<notin> set ?host" by (auto dest: set_takeWhileD)
  have "hd path = CHR ''/'' \<and> (base @ path = url \<or> base = url \<and> path = ''/'')
    \<and> (\<exists>scheme host. base = scheme @ ''://'' @ host \<and> CHR ''/'' \<notin> set host)"
  proof (cases "?host = ?rest")
    case True
    then have bp: "base = url" "path = ''/''" using assms k by (simp_all add: split_url_def Let_def)
    have "base = take k url @ ''://'' @ ?host" unfolding bp(1) True by (rule url)
    with host have "\<exists>scheme host. base = scheme @ ''://'' @ host \<and> CHR ''/'' \<notin> set host" by blast
    with bp show ?thesis by simp
  next
    case False
    have bp: "base = take (k + 3 + length ?host) url" "path = drop (k + 3 + length ?host) url"
      using assms unfolding split_url_def Let_def k option.case if_not_P [OF False] by simp_all
    have "path = dropWhile (\<lambda>c. c \<noteq> CHR ''/'') ?rest"
      unfolding bp(2) dropWhile_eq_drop drop_drop by (rule arg_cong [where f = "\<lambda>n. drop n url"]) (rule add.commute)
    moreover have "dropWhile (\<lambda>c. c \<noteq> CHR ''/'') ?rest \<noteq> []" using False by (metis append_Nil2 takeWhile_dropWhile_id)
    from hd_dropWhile [OF this] have "hd (dropWhile (\<lambda>c. c \<noteq> CHR ''/'') ?rest) = CHR ''/''" by simp
    ultimately have "hd path = CHR ''/''" by simp
    moreover have "base = take k url @ ''://'' @ take (length ?host) ?rest"
      unfolding bp(1) take_add using find_sub_Some [OF k] by (simp add: numeral_3_eq_3)
    then have "base = take k url @ ''://'' @ ?host" by (metis takeWhile_eq_take)
    moreover have "base @ path = url" unfolding bp by (rule append_take_drop_id)
    ultimately show ?thesis using host by blast
  qed
  then show "hd path = CHR ''/''" "base @ path = url \<or> base = url \<and> path = ''/''"
    "\<exists>scheme host. base = scheme @ ''://'' @ host \<and> CHR ''/'' \<notin> set host" by blast+
qed

lemma raises_std_request:
  assumes "\<And>b o'. raises_std (hl_client hl b o')" and "\<And>obs m p s t. observer = Some obs \<Longrightarrow> raises_std (obs m p s t)"
  shows "raises_std (request hl clock observer http_method url perform)"
  using assms unfolding raises_std_def request_def split_url_def client_for_def timed_def make_response_def Let_def
  by (auto split: prod.splits sum.splits option.splits if_splits)

lemma live_http_transport_raises_std:
  assumes "\<And>b o'. raises_std (hl_client hl b o')" and "\<And>obs m p s t. observer = Some obs \<Longrightarrow> raises_std (obs m p s t)"
  shows "transport_raises_std (live_http_transport hl clock observer)"
  unfolding transport_raises_std_def live_http_transport_def http_transport.simps
  by (intro conjI allI; rule raises_std_request; fact assms)

definition noting :: "string \<Rightarrow> string \<Rightarrow> int \<Rightarrow> int \<Rightarrow> (unit, (string \<times> string \<times> int \<times> int) list \<times> 'w) io" where
  "noting http_method path status rtt st = (Inr (), (fst st @ [(http_method, path, status, rtt)], snd st))"

text \<open>
  C32. Every request is measured once: whatever the library answers, either no client could be had and
  nothing was sent, or the observer was told exactly once of the method, the path and the status,
  which is that of the response the caller gets, and -1 when the caller gets an exception;
  and no client once made is ever replaced.
\<close>

theorem requests_measured:
  assumes "\<And>base opts st. fst (snd (hl_client hl base opts st)) = fst st" and "\<And>st. fst (snd (clock st)) = fst st"
    and "\<And>client path st. fst (snd (perform client path st)) = fst st"
    and "request hl clock (Some noting) http_method url perform (clients, (seen, w)) = (r, (clients', (seen', w')))"
  shows "clients \<subseteq>\<^sub>m clients'
    \<and> ((\<exists>e. r = Inl e) \<and> seen' = seen \<and> (\<forall>base path. split_url url = Inr (base, path) \<longrightarrow> clients' base = None)
      \<or> (\<exists>base path client status rtt. split_url url = Inr (base, path) \<and> clients' base = Some client
          \<and> seen' = seen @ [(http_method, path, status, rtt)]
          \<and> (case r of Inl _ \<Rightarrow> status = - 1 | Inr response \<Rightarrow> status = status_code response)))"
proof (cases "split_url url")
  case (Inl e)
  then show ?thesis using assms(4) by (auto simp: request_def)
next
  case (Inr bp)
  obtain base path where bp: "bp = (base, path)" by (cases bp)
  obtain rc clients1 seen1 w1 where cl: "client_for hl base (clients, (seen, w)) = (rc, (clients1, (seen1, w1)))" by (metis prod_cases4)
  have kept: "seen1 = seen" "clients \<subseteq>\<^sub>m clients1" and have_client: "rc = Inr client \<Longrightarrow> clients1 base = Some client"
    and no_client: "rc = Inl e \<Longrightarrow> clients1 base = None" for client e
    using cl assms(1) [of base configure "(seen, w)"]
    by (auto simp: client_for_def map_le_def split: option.splits sum.splits prod.splits)
  show ?thesis
  proof (cases rc)
    case (Inl e)
    then show ?thesis using assms(4) kept no_client by (auto simp: request_def \<open>split_url url = Inr bp\<close> bp cl)
  next
    case (Inr client)
    obtain t0 l2 w2 where 2: "clock (seen, w1) = (t0, (l2, w2))" by (metis prod_cases3)
    obtain res l3 w3 where 3: "perform client path (seen, w2) = (res, (l3, w3))" by (metis prod_cases3)
    obtain t1 l4 w4 where 4: "clock (seen, w3) = (t1, (l4, w4))" by (metis prod_cases3)
    have logs: "l2 = seen" "l3 = seen" "l4 = seen" using assms(2) [of "(seen, w1)"] assms(2) [of "(seen, w3)"] assms(3) [of client path "(seen, w2)"]
      by (simp_all add: 2 3 4)
    have "r = make_response res \<and> clients' = clients1
        \<and> seen' = seen @ [(http_method, path, case res of Inl _ \<Rightarrow> - 1 | Inr response \<Rightarrow> status_code response, (t1 - t0) sdiv kNanosPerMilli)]"
      using assms(4) by (auto simp: request_def \<open>split_url url = Inr bp\<close> bp cl Inr timed_def 2 3 4 logs kept noting_def Let_def)
    then show ?thesis
      using kept have_client [OF Inr] \<open>split_url url = Inr bp\<close> bp by (auto simp: make_response_def split: sum.splits)
  qed
qed

text \<open>A server that never answers.\<close>

definition dead_httplib :: "(unit, string, 'w) httplib" where
  "dead_httplib = \<lparr>hl_client = (\<lambda>_ _ w. (Inr (), w)), hl_get = (\<lambda>_ _ _ w. (Inl ''timeout'', w)),
     hl_post = (\<lambda>_ _ _ _ _ w. (Inl ''timeout'', w)), hl_delete = (\<lambda>_ _ _ w. (Inl ''timeout'', w))\<rparr>"

theorem requests_measured_witness:
  "\<exists>r clients' seen' w'. http_get (live_http_transport dead_httplib (\<lambda>st. (0, st)) (Some noting)) ''https://h/p'' Map.empty
      (Map.empty, ([], 3 :: nat)) = (r, (clients', (seen', w')))
    \<and> (\<exists>rtt. seen' = [(''GET'', ''/p'', - 1, rtt)]) \<and> clients' ''https://h'' \<noteq> None"
proof -
  let ?perform = "\<lambda>client path. hl_get dead_httplib client path Map.empty"
  have split: "split_url ''https://h/p'' = Inr (''https://h'', ''/p'')" by (simp add: split_url_def)
  obtain r clients' seen' w' where run: "request dead_httplib (\<lambda>st. (0, st)) (Some noting) ''GET'' ''https://h/p'' ?perform
      (Map.empty, ([], 3 :: nat)) = (r, (clients', (seen', w')))" by (metis prod_cases4)
  then have "clients' ''https://h'' = Some () \<and> seen' = [(''GET'', ''/p'', - 1, 0)]"
    by (auto simp: request_def split client_for_def dead_httplib_def timed_def noting_def Let_def)
  moreover have "Map.empty \<subseteq>\<^sub>m clients'"
    using requests_measured [OF _ _ _ run] by (simp add: dead_httplib_def)
  ultimately show ?thesis using run by (simp add: live_http_transport_def)
qed

end
