(* ===== verification/Main_Program.thy ===== *)
theory Main_Program
  imports Capture_Mode Process_Guard Http_Transport
begin

text \<open>
  What \<open>main\<close> of \<open>source/app/main.cpp\<close> does with a command line: which mode it runs, on which client,
  and what becomes of an exception. Trading itself is the live program of \<open>Main_Loop\<close> and \<open>Startup\<close>;
  here it is the outcome that hands over the configuration and the credentials. Logging is left out.
\<close>

section \<open>The machine\<close>

text \<open>
  What the program finds around it: files, clocks, the signature, the network, and how long the wait for
  the thread of the feed takes, as in \<open>Main_Loop\<close>.
\<close>

record ('j, 'c) machine =
  mc_json :: "('j, string) json_ops"
  mc_read_file :: "string \<Rightarrow> string option"
  mc_system_now :: "'c \<Rightarrow> time_ns \<times> 'c"
  mc_steady_now :: "'c \<Rightarrow> time_ns \<times> 'c"
  mc_sleep_ms :: "int \<Rightarrow> 'c \<Rightarrow> 'c"
  mc_rsa_sign :: "string \<Rightarrow> string \<Rightarrow> exn + string"
  mc_ephemeral_rsa_pem :: string
  mc_transport :: "(string, 'c) http_transport"
  mc_files :: "(string, 'c) file_ops"
  mc_ws_env :: "('j, string, 'c) ws_env"
  mc_ix_start :: "string \<Rightarrow> headers \<Rightarrow> 'c \<Rightarrow> (string ix_message list \<times> bool) \<times> 'c"
  mc_join :: "ws_client \<Rightarrow> 'c \<Rightarrow> 'c option"

text \<open>A transport next to a paper exchange nobody uses.\<close>

definition past_paper :: "('t, 'c) http_transport \<Rightarrow> ('t, paper \<times> 'c) http_transport" where
  "past_paper tr = \<lparr>http_get = (\<lambda>url h. on_clock (http_get tr url h)), http_post = (\<lambda>url h b. on_clock (http_post tr url h b)),
     http_delete = (\<lambda>url h. on_clock (http_delete tr url h))\<rparr>"

definition make_http_transport :: "('j, 'c) machine \<Rightarrow> bool \<Rightarrow> (string, paper \<times> 'c) http_transport" where
  "make_http_transport m paper = (if paper then paper_transport (mc_json m) (mc_system_now m) else past_paper (mc_transport m))"

definition main_client :: "('j, 'c) machine \<Rightarrow> bool \<Rightarrow> app_config \<Rightarrow> auth \<Rightarrow> ('j, string, paper \<times> 'c) rest_client" where
  "main_client m paper cf au =
     \<lparr>rc_json = mc_json m, rc_transport = make_http_transport m paper, rc_auth = au, rc_base_url = cf_base_url cf,
      rc_path_prefix = extract_path_prefix (cf_base_url cf), rc_rsa_sign = mc_rsa_sign m, rc_system_now = on_clock (mc_system_now m),
      rc_steady_now = on_clock (mc_steady_now m), rc_sleep_ms = (\<lambda>ms s. (fst s, mc_sleep_ms m ms (snd s)))\<rparr>"

text \<open>The services of the backtest and of the capture, which make clients of their own.\<close>

definition backtest_on :: "('j, 'c) machine \<Rightarrow> ('j, 'c) backtest_services" where
  "backtest_on m = \<lparr>bs_json = mc_json m, bs_system_now = mc_system_now m, bs_steady_now = mc_steady_now m, bs_sleep_ms = mc_sleep_ms m,
     bs_rsa_sign = mc_rsa_sign m, bs_rsa_pem = mc_ephemeral_rsa_pem m\<rparr>"

definition capture_on :: "('j, 'c) machine \<Rightarrow> app_config \<Rightarrow> auth \<Rightarrow> ('j, 'c) capture_services" where
  "capture_on m cf au =
     \<lparr>cs_client = \<lparr>rc_json = mc_json m, rc_transport = mc_transport m, rc_auth = au, rc_base_url = cf_base_url cf,
        rc_path_prefix = extract_path_prefix (cf_base_url cf), rc_rsa_sign = mc_rsa_sign m, rc_system_now = mc_system_now m,
        rc_steady_now = mc_steady_now m, rc_sleep_ms = mc_sleep_ms m\<rparr>,
      cs_ws_env = mc_ws_env m, cs_ix_start = mc_ix_start m, cs_ws_sleep_ms = mc_sleep_ms m, cs_open = fo_open (mc_files m)\<rparr>"

section \<open>The modes\<close>

datatype outcome = Exited int string | Trade app_config auth

definition exited :: "(exn + int) \<Rightarrow> exn + outcome" where
  "exited r = (case r of Inl e \<Rightarrow> Inl e | Inr code \<Rightarrow> Inr (Exited code []))"

text \<open>A mode that runs on the client: its limiter starts when it is made.\<close>

definition with_client :: "('j, 'c) machine \<Rightarrow> (rate_limiter \<times> paper \<times> 'c \<Rightarrow> ((exn + int) \<times> rate_limiter \<times> paper \<times> 'c) option)
    \<Rightarrow> (outcome, 'c) paged" where
  "with_client m mode w =
     (let (limiter_start, w1) = mc_steady_now m w in
      map_option (\<lambda>(r, (rl, (pe, w'))). (exited r, w')) (mode (new_write_limiter limiter_start, (new_paper, w1))))"

definition on_machine :: "('c \<Rightarrow> 'a \<times> 'c) \<Rightarrow> rate_limiter \<times> paper \<times> 'c \<Rightarrow> 'a \<times> rate_limiter \<times> paper \<times> 'c" where
  "on_machine f st = (let (x, w') = f (snd (snd st)) in (x, (fst st, (fst (snd st), w'))))"

definition client_mode :: "('j, 'c) machine \<Rightarrow> cli_args \<Rightarrow> app_config \<Rightarrow> auth \<Rightarrow> (outcome, 'c) paged" where
  "client_mode m cli cf au =
     (let c = main_client m (paper_mode cli) cf au;
          files = \<lparr>fo_open = (\<lambda>p. on_machine (fo_open (mc_files m) p)), fo_write = (\<lambda>p t. on_machine (fo_write (mc_files m) p t))\<rparr>
      in if scan_mode cli then
           with_client m (run_scan_mode (mc_json m) files (on_machine (mc_system_now m)) (client_market_data c) (cf_scanner cf))
         else if reconcile_mode cli then with_client m (run_reconcile_mode (client_account c) (cf_target_tickers cf))
         else if flatten_mode cli then with_client m (run_flatten_mode (client_account c))
         else if capture_mode cli then
           (\<lambda>w. map_option (\<lambda>(r, w'). (case r of Inl e \<Rightarrow> Inl e | Inr (code, files) \<Rightarrow> Inr (Exited code []), w'))
              (run_capture_mode (capture_on m cf au) cf (capture_dir cli) w))
         else (\<lambda>w. Some (Inr (Trade cf au), w)))"

definition printed :: "(exn + (int \<times> string)) \<times> 'c \<Rightarrow> ((exn + outcome) \<times> 'c) option" where
  "printed rw = (case rw of (Inl e, w') \<Rightarrow> Some (Inl e, w') | (Inr (code, out), w') \<Rightarrow> Some (Inr (Exited code out), w'))"

definition main_body :: "('j, 'c) machine \<Rightarrow> cli_args \<Rightarrow> (outcome, 'c) paged" where
  "main_body m cli w =
     (if fv_replay_mode cli then printed (run_fv_replay_mode (mc_json m) (mc_steady_now m) (mc_read_file m) (replay_path cli) w)
      else case load_config (mc_json m) (mc_read_file m) (config_path cli) of
        Inl e \<Rightarrow> Some (Inl e, w)
      | Inr cf \<Rightarrow>
          if backtest_mode cli then printed (run_backtest_mode (backtest_on m) (mc_read_file m) (backtest_path cli) cf w)
          else case mc_read_file m (cf_private_key_path cf) of
            None \<Rightarrow> Some (Inr (Exited 1 []), w)
          | Some key \<Rightarrow> client_mode m cli cf \<lparr>api_key = cf_api_key cf, pem_private_key = key\<rparr> w)"

text \<open>\<open>catch (const std::exception &)\<close>: a message on the error stream and exit code 1.\<close>

definition run_main :: "('j, 'c) machine \<Rightarrow> string list \<Rightarrow> (outcome, 'c) paged" where
  "run_main m args w =
     (case main_body m (parse_args args) w of
        Some (Inl (StdException what), w') \<Rightarrow> Some (Inr (Exited 1 []), w')
      | r \<Rightarrow> r)"

section \<open>Failing safely\<close>

text \<open>Whatever the files hold, loading a configuration raises nothing but standard exceptions.\<close>

lemma std_simps: "std_result (Inr x)" "std_result (Inl (StdException what))"
  by (simp_all add: std_result_def)

lemma std_fields:
  assumes "json_raises_std js"
  shows "(\<And>v. std_result (get v)) \<Longrightarrow> std_result (require_layered js get secrets j k)"
    and "std_result (layered_value js secrets j k d)" and "std_result (get_strings js j)"
    and "(\<And>v. std_result (rd v)) \<Longrightarrow> std_result (section_or js j k x rd)"
  unfolding require_layered_def require_field_def layered_value_def get_strings_def section_or_def
  using assms by (auto intro!: raises_std_intros std_simps)

lemma std_sections:
  assumes "json_raises_std js"
  shows "std_result (load_quoter js j)" and "std_result (load_flow js k j)" and "std_result (load_risk js j)" and "std_result (load_scanner js j)"
  unfolding load_quoter_def load_flow_def load_risk_def load_scanner_def Let_def
  by (intro raises_std_intros assms std_simps)+

lemma load_config_std:
  assumes "json_raises_std js"
  shows "std_result (load_config js read_file path)"
proof -
  have "std_result (load_secrets js read_file j path)" for j
    unfolding load_secrets_def using assms by (auto intro!: raises_std_intros std_simps split: option.split)
  moreover have "std_result (config_of js secrets j)" for secrets j
    unfolding config_of_def by (intro raises_std_intros std_fields std_sections assms std_simps)
  ultimately show ?thesis
    unfolding load_config_def using assms by (auto intro!: raises_std_intros std_simps split: option.split)
qed

lemma only_trade_trades [simp]:
  "exited x \<noteq> Inr (Trade cf au)" "with_client m mode w \<noteq> Some (Inr (Trade cf au), w')" "printed y \<noteq> Some (Inr (Trade cf au), w')"
proof -
  show ex: "exited x \<noteq> Inr (Trade cf au)" for x by (simp add: exited_def split: sum.split)
  show "with_client m mode w \<noteq> Some (Inr (Trade cf au), w')" using ex by (auto simp: with_client_def Let_def split: prod.splits)
  show "printed y \<noteq> Some (Inr (Trade cf au), w')" by (auto simp: printed_def split: prod.splits sum.splits)
qed

lemma client_mode_trades:
  assumes "client_mode m cli cf' au' w = Some (Inr (Trade cf au), w')"
  shows "cf' = cf \<and> au' = au \<and> \<not> scan_mode cli \<and> \<not> reconcile_mode cli \<and> \<not> flatten_mode cli \<and> \<not> capture_mode cli"
proof -
  have "(case x of Inl e \<Rightarrow> Inl e | Inr (code, out) \<Rightarrow> Inr (Exited code [])) \<noteq> Inr (Trade cf au)" for x :: "exn + (int \<times> capture \<times> capture)"
    by (cases x) auto
  with assms show ?thesis
    by (auto simp: client_mode_def Let_def simp del: not_None_eq split: if_splits)
qed

text \<open>
  C8. The program fails safely: no standard exception leaves it, it ends with exit code 1 instead; it
  trades only with a configuration that loads, the key that the configuration names, and none of the
  other modes asked for; and a command line whose configuration does not load, or whose key cannot be
  read, makes no request at all, unless it asks for a replay.
\<close>

theorem main_fails_safely:
  fixes m :: "('j, 'c) machine"
  assumes "run_main m args w = Some (r, w')" and "json_raises_std (mc_json m)"
  shows "(\<forall>what. r \<noteq> Inl (StdException what))
    \<and> (\<forall>cf au. r = Inr (Trade cf au) \<longrightarrow>
        load_config (mc_json m) (mc_read_file m) (config_path (parse_args args)) = Inr cf
        \<and> api_key au = cf_api_key cf \<and> mc_read_file m (cf_private_key_path cf) = Some (pem_private_key au)
        \<and> (\<forall>mode \<in> {scan_mode, reconcile_mode, flatten_mode, capture_mode, backtest_mode, fv_replay_mode}. \<not> mode (parse_args args)))
    \<and> (\<not> fv_replay_mode (parse_args args) \<and> \<not> backtest_mode (parse_args args)
        \<and> (\<forall>cf. load_config (mc_json m) (mc_read_file m) (config_path (parse_args args)) = Inr cf
              \<longrightarrow> mc_read_file m (cf_private_key_path cf) = None)
       \<longrightarrow> r = Inr (Exited 1 []) \<and> w' = w)"
proof -
  let ?cli = "parse_args args"
  have std: "\<exists>what. e = StdException what" if "load_config (mc_json m) (mc_read_file m) (config_path ?cli) = Inl e" for e
    using that load_config_std [OF assms(2), of "mc_read_file m" "config_path ?cli"] by (cases e) (auto simp: std_result_def)
  have "(\<forall>what. r \<noteq> Inl (StdException what))"
    using assms(1) by (auto simp: run_main_def split: option.splits prod.splits sum.splits exn.splits)
  moreover have "load_config (mc_json m) (mc_read_file m) (config_path ?cli) = Inr cf
      \<and> api_key au = cf_api_key cf \<and> mc_read_file m (cf_private_key_path cf) = Some (pem_private_key au)
      \<and> (\<forall>mode \<in> {scan_mode, reconcile_mode, flatten_mode, capture_mode, backtest_mode, fv_replay_mode}. \<not> mode ?cli)"
    if "r = Inr (Trade cf au)" for cf au
    using assms(1) that
    by (auto simp: run_main_def main_body_def split: option.splits prod.splits sum.splits exn.splits if_splits dest: client_mode_trades)
  moreover have "r = Inr (Exited 1 []) \<and> w' = w"
    if "\<not> fv_replay_mode ?cli \<and> \<not> backtest_mode ?cli" "\<forall>cf. load_config (mc_json m) (mc_read_file m) (config_path ?cli) = Inr cf
              \<longrightarrow> mc_read_file m (cf_private_key_path cf) = None"
    using assms(1) that std
    by (cases "load_config (mc_json m) (mc_read_file m) (config_path ?cli)") (auto simp: run_main_def main_body_def)
  ultimately show ?thesis by blast
qed

text \<open>A machine without files.\<close>

definition bare_machine :: "(json, nat) machine" where
  "bare_machine = \<lparr>mc_json = line_json (\<lambda>_. JNull), mc_read_file = (\<lambda>_. None), mc_system_now = demo_clock, mc_steady_now = demo_clock,
     mc_sleep_ms = (\<lambda>_ n. n), mc_rsa_sign = (\<lambda>_ _. Inr ''sig''), mc_ephemeral_rsa_pem = [], mc_transport = down_transport,
     mc_files = \<lparr>fo_open = (\<lambda>_ n. (False, n)), fo_write = (\<lambda>_ _ n. (False, n))\<rparr>, mc_ws_env = cs_ws_env one_frame,
     mc_ix_start = cs_ix_start one_frame, mc_join = (\<lambda>_. Some)\<rparr>"

lemma line_json_std: "json_raises_std (line_json f)"
  using tree_json_ok(1) by (simp add: json_raises_std_def line_json_def std_result_def)

theorem main_fails_safely_witness:
  "run_main bare_machine [''kalshi'', ''--paper''] 7 = Some (Inr (Exited 1 []), 7)"
proof -
  have cli: "parse_args [''kalshi'', ''--paper''] = default_cli_args\<lparr>paper_mode := True\<rparr>" by (simp add: parse_args_def default_cli_args_def)
  obtain r w' where run: "run_main bare_machine [''kalshi'', ''--paper''] 7 = Some (r, w')"
    by (simp add: run_main_def main_body_def cli default_cli_args_def bare_machine_def load_config_def)
  have "json_raises_std (mc_json bare_machine)" by (simp add: bare_machine_def line_json_std)
  from main_fails_safely [OF run this] have "r = Inr (Exited 1 []) \<and> w' = 7"
    by (simp add: cli default_cli_args_def bare_machine_def load_config_def)
  with run show ?thesis by simp
qed

end
