(* ===== verification/Endurance.thy ===== *)
theory Endurance
  imports Live_Correct
begin

text \<open>
  What keeps the live program up: no frame the exchange documents, no failure of a service and no
  request that goes wrong ends it; every step of it returns, and it trades until it is told to stop.
\<close>

section \<open>A feed that does not fail\<close>

text \<open>The one kind of frame that raises out of the client has a \<open>type\<close> member that is not a string.\<close>

definition typed_frame :: "('j, 't) json_ops \<Rightarrow> 't \<Rightarrow> bool" where
  "typed_frame js raw \<longleftrightarrow> (\<forall>parsed ty. js_parse js raw = Inr parsed \<longrightarrow> js_find js parsed ''type'' = Some ty
     \<longrightarrow> (\<exists>s. js_get_string js ty = Inr s))"

lemma dispatch_quiet:
  assumes "std_result parsed" and "\<And>f x what. cb = Some f \<Longrightarrow> parsed = Inr x \<Longrightarrow> fst (f x (snd s)) \<noteq> Inl (Abort what)"
  shows "fst (dispatch cb parsed s) = Inr ()"
proof (cases cb; cases parsed)
  fix f e assume "cb = Some f" "parsed = Inl e"
  then show ?thesis using assms(1) by (cases e) (auto simp: dispatch_def catch_io_def bind_io_def lift_result_def return_io_def std_result_def)
next
  fix f x assume cb: "cb = Some f" "parsed = Inr x"
  then show ?thesis using assms(2) [OF cb]
    by (auto simp: dispatch_def catch_io_def bind_io_def lift_result_def return_io_def case_prod_beta Let_def split: sum.split exn.split)
qed (simp_all add: dispatch_def)

text \<open>A feed whose callbacks keep an invariant of the world, and under it never end the process.\<close>

locale quiet_feed = feed_world env cbs F R for env :: "('j, 't, 'w) ws_env" and cbs F R +
  fixes I :: "'w \<Rightarrow> bool"
  assumes kept: "R w w' \<Longrightarrow> I w \<Longrightarrow> I w'"
    and snapshot_quiet: "snapshot_callback cbs = Some f1 \<Longrightarrow> I w \<Longrightarrow> fst (f1 x1 w) \<noteq> Inl (Abort what)"
    and delta_quiet: "delta_callback cbs = Some f2 \<Longrightarrow> I w \<Longrightarrow> fst (f2 x2 w) \<noteq> Inl (Abort what)"
    and fill_quiet: "fill_callback cbs = Some f3 \<Longrightarrow> raw \<in> F \<Longrightarrow> carries (we_json env) ws_parse_fill raw x3 \<Longrightarrow> I w
      \<Longrightarrow> fst (f3 x3 w) \<noteq> Inl (Abort what)"
    and trade_quiet: "trade_callback cbs = Some f4 \<Longrightarrow> I w \<Longrightarrow> fst (f4 x4 w) \<noteq> Inl (Abort what)"
begin

lemma dispatch_type_quiet:
  assumes "json_raises_std (we_json env)" and "raw \<in> F" and "js_parse (we_json env) raw = Inr j"
    and "js_find (we_json env) j ''msg'' = Some b" and "I (snd s)"
  shows "fst (dispatch_type env cbs t b s) = Inr ()"
proof -
  have carried: "ws_parse_fill (we_json env) b = Inr x \<Longrightarrow> carries (we_json env) ws_parse_fill raw x" for x
    using assms(3,4) by (auto simp: carries_def)
  have "fst (dispatch (snapshot_callback cbs) (parse_snapshot (we_json env) b) s) = Inr ()"
    by (rule dispatch_quiet, intro ws_parse_std assms(1)) (rule snapshot_quiet [OF _ assms(5)])
  moreover have "fst (dispatch (delta_callback cbs) (parse_delta (we_json env) b) s) = Inr ()"
    by (rule dispatch_quiet, intro ws_parse_std assms(1)) (rule delta_quiet [OF _ assms(5)])
  moreover have "fst (dispatch (fill_callback cbs) (ws_parse_fill (we_json env) b) s) = Inr ()"
    by (rule dispatch_quiet, intro ws_parse_std assms(1)) (rule fill_quiet [OF _ assms(2) carried assms(5)])
  moreover have "fst (dispatch (trade_callback cbs) (ws_parse_trade (we_json env) b) s) = Inr ()"
    by (rule dispatch_quiet, intro ws_parse_std assms(1)) (rule trade_quiet [OF _ assms(5)])
  ultimately show ?thesis by (simp add: dispatch_type_def Let_def return_io_def)
qed

lemma frame_quiet:
  assumes "json_raises_std (we_json env)" and "json_integers (we_json env)" and "raw \<in> F" and "typed_frame (we_json env) raw" and "I (snd s)"
  shows "fst (handle_message env cbs raw s) = Inr ()"
proof -
  let ?s = "handle_heartbeat env s"
  have hb: "I (snd ?s)" by (rule kept [OF heartbeat_world assms(5)])
  have seq: "I w" if "check_sequence env j ?s = (r, (c, w))" for j r c w
    using kept [OF sequence_world hb, of j] that by simp
  have parse: "js_parse (we_json env) raw \<noteq> Inl (Abort what)" for what
    using json_raises_stdD(1) [OF assms(1)] by (auto simp: std_result_def)
  have checked: "check_sequence env j ?s \<noteq> (Inl e, s')" for j e s'
    using check_sequence_contains [OF assms(2)] by (metis Inl_Inr_False fst_conv)
  have disp: "fst (dispatch_type env cbs t b (c, w)) = Inr ()"
    if "js_parse (we_json env) raw = Inr j" "js_find (we_json env) j ''msg'' = Some b" "check_sequence env j ?s = (r, (c, w))" for j r c w t b
    by (rule dispatch_type_quiet [OF assms(1,3) that(1,2)]) (simp add: seq [OF that(3)])
  have typed: "js_get_string (we_json env) ty \<noteq> Inl e" if "js_parse (we_json env) raw = Inr j" "js_find (we_json env) j ''type'' = Some ty" for j ty e
    using assms(4) that by (auto simp: typed_frame_def)
  show ?thesis
    unfolding handle_message_def Let_def
    by (auto split: sum.split exn.split option.split if_split prod.split bool.split dest: parse [THEN notE] typed [THEN notE] checked [THEN notE]
      intro: disp)
qed

end

section \<open>The live callbacks are quiet\<close>

text \<open>A session whose settings suit the quoter, told only of fills with a price and a quantity.\<close>

definition good_engine :: "('j, 't, 'w) live \<Rightarrow> 't set \<Rightarrow> engine \<times> 'w \<Rightarrow> bool" where
  "good_engine lv F ew \<longleftrightarrow> good_session (lv_env lv) (en_session (fst ew)) \<and> (\<forall>f. reported_fill lv F f \<longrightarrow> fill_ok f)"

lemma good_session_settings: "good_session env s \<Longrightarrow> settings s' = settings s \<Longrightarrow> good_session env s'"
  by (simp add: good_session_def settings_def quoter_settings_def band_valid_def)

lemma follows_good: "follows lv F s s' \<Longrightarrow> good_session (lv_env lv) s \<Longrightarrow> good_session (lv_env lv) s'"
  unfolding follows_def by (metis drives_settings good_session_settings)

lemma engine_follows_good: "engine_follows lv F a b \<Longrightarrow> good_engine lv F a \<Longrightarrow> good_engine lv F b"
  by (auto simp: engine_follows_def good_engine_def dest: follows_good)

lemma on_fill_total: "fill_ok f \<Longrightarrow> \<exists>b. fst (on_fill f s) = Inr b"
  using record_fill_total [of f "ts_om (s\<lparr>ts_tape := t\<rparr>)" for t]
  by (auto simp: on_fill_def Let_def split: prod.split sum.split bool.split) (metis fst_conv)

lemma fill_received_total: "fill_ok f \<Longrightarrow> fst (fill_received f st) = Inr ()"
  using on_fill_total [of f "en_session (fst st)"] by (auto simp: fill_received_def discard_def case_prod_beta Let_def)

lemma on_engine_total: "fst (f (en_session (fst st)) (snd st)) = Inr () \<Longrightarrow> fst (on_engine f st) = Inr ()"
  by (simp add: on_engine_def case_prod_beta Let_def)

interpretation live_quiet: quiet_feed "wse_of lv" "cbs_of lv" F "engine_follows lv F" "good_engine lv F" for lv :: "('j, 't, 'w) live" and F
proof
  show "engine_follows lv F w w' \<Longrightarrow> good_engine lv F w \<Longrightarrow> good_engine lv F w'" for w w' by (rule engine_follows_good)
qed (auto simp: live_callbacks_def good_engine_def reported_fill_def on_engine_total handler_total fill_received_total split: prod.splits)

section \<open>Asking for fills, positions and markets\<close>

definition pages_contained :: "('a, 'w) paged \<Rightarrow> bool" where
  "pages_contained m \<longleftrightarrow> (\<forall>w what w'. m w \<noteq> Some (Inl (Abort what), w'))"

lemma pages_contained_bind: "pages_contained m \<Longrightarrow> (\<And>x. pages_contained (f x)) \<Longrightarrow> pages_contained (bind_paged m f)"
  unfolding pages_contained_def bind_paged_def by (fastforce split: option.splits sum.splits)

lemma pages_contained_io: "raises_std m \<Longrightarrow> pages_contained (paged_io m)"
  by (simp add: pages_contained_def raises_std_def paged_io_def)

lemma pages_contained_lift_read: "pages_contained (paged_io (lift_read f))"
  by (rule pages_contained_io [OF raises_std_read])

definition market_contained :: "'w market_data \<Rightarrow> bool" where
  "market_contained md \<longleftrightarrow> (\<forall>e. pages_contained (md_get_markets md e)) \<and> pages_contained (md_get_incentive_programs md)
     \<and> (\<forall>tk n. raises_std (md_get_recent_trades md tk n)) \<and> (\<forall>tk a b. raises_std (md_get_candlesticks md tk a b))
     \<and> (\<forall>tk. raises_std (md_get_orderbook md tk))"

lemma admit_loop_std: "(\<And>tk. raises_std (admits md cfg now tk)) \<Longrightarrow> raises_std (admit_loop md cfg top_n now admitted cs)"
  by (induction cs arbitrary: admitted) (auto intro!: raises_std_intros)

lemma scan_contained:
  assumes "market_contained md"
  shows "pages_contained (scan md cfg top_n now)"
proof -
  have md: "pages_contained (md_get_markets md e)" "pages_contained (md_get_incentive_programs md)" "raises_std (md_get_recent_trades md tk n)"
    "raises_std (md_get_candlesticks md tk a b)" "raises_std (md_get_orderbook md tk)" for e tk n a b
    using assms by (simp_all add: market_contained_def)
  have "pages_contained (fetch_series md es acc)" for es acc
    by (induction es arbitrary: acc) (auto intro: pages_contained_bind pages_contained_io raises_std_intros md)
  then have fetch: "pages_contained (fetch_markets md series)" for series by (simp add: fetch_markets_def md)
  have "raises_std (admits md cfg now tk)" for tk
    unfolding admits_def passes_flow_admission_def passes_book_admission_def passes_reversion_admission_def Let_def
    by (intro raises_std_intros md)
  then have "raises_std (admit_finalists md cfg top_n now cs)" for cs
    by (simp add: admit_finalists_def admit_loop_std raises_std_intros)
  moreover have "std_result (resize_top top_n xs)" for xs :: "market_score list" by (simp add: resize_top_def std_result_def)
  ultimately show ?thesis
    unfolding scan_def by (intro pages_contained_bind pages_contained_io raises_std_intros fetch md)
qed

lemma scan_now_contained: "market_contained md \<Longrightarrow> pages_contained (scan_now clock md cfg)"
  unfolding scan_now_def
  by (intro pages_contained_bind pages_contained_lift_read scan_contained pages_contained_io raises_std_intros)

lemma backfill_total:
  assumes "\<forall>f. reported_fill lv F f \<longrightarrow> fill_ok f" and "pages_contained (ac_get_fills (lv_account lv) m)"
    and "backfill_fills (lv_account lv) m a s w = Some (r, a', s', w')"
  shows "\<exists>n. r = Inr n"
proof -
  have loop: "\<exists>k. fst (backfill_loop fs n a s) = Inr k" if "\<forall>f \<in> set fs. fill_ok f" for fs n a s
    using that
  proof (induction fs arbitrary: n a s)
    case (Cons f fs)
    obtain b s1 where "on_fill f s = (Inr b, s1)" using on_fill_total [of f s] Cons.prems by (cases "on_fill f s") auto
    then show ?case using Cons by simp
  qed simp
  show ?thesis
  proof (cases "ac_get_fills (lv_account lv) m w")
    case (Some x)
    obtain rx w1 where x: "x = (rx, w1)" by fastforce
    show ?thesis
    proof (cases rx)
      case (Inr fs)
      have "\<forall>f \<in> set fs. fill_ok f" using assms(1) Some x Inr unfolding reported_fill_def by blast
      from loop [OF this, of 0 a s] show ?thesis using assms(3) Some x Inr by (auto simp: backfill_fills_def case_prod_beta Let_def)
    next
      case (Inl e)
      then show ?thesis using assms(2,3) Some x by (cases e) (auto simp: backfill_fills_def pages_contained_def)
    qed
  qed (use assms(3) in \<open>simp add: backfill_fills_def\<close>)
qed

lemma reconcile_passes_total:
  assumes "pages_contained (ac_get_positions ac)"
    and "\<And>run s w r s' w'. backfill = Some run \<Longrightarrow> run s w = Some (r, s', w') \<Longrightarrow> \<exists>n. r = Inr n"
    and "reconcile_passes ac refs tickers baseline backfill n first s w = Some (r, s', w')"
  shows "\<exists>b. r = Inr b"
  using assms(3)
proof (induction n arbitrary: first s w)
  case (Suc n)
  have run: "\<exists>b. r = Inr b" if h: "(if first then backfill else None) = Some run" "run s w1 = Some (r1, s1, w2)"
      "(case r1 of Inl e \<Rightarrow> Some (Inl e, s1, w2)
        | Inr k \<Rightarrow> if k \<ge> 0 then reconcile_passes ac refs tickers baseline backfill n False s1 w2 else reconcile_halt refs s1 w2)
       = Some (r, s', w')" for run w1 r1 s1 w2
  proof -
    have "backfill = Some run" using h(1) by (simp split: if_splits)
    then obtain k where "r1 = Inr k" using assms(2) [of run s w1 r1 s1 w2] h(2) by blast
    then show ?thesis using h(3) Suc.IH by (auto simp: reconcile_halt_def split: if_splits)
  qed
  show ?case
  proof (cases "ac_get_positions ac w")
    case (Some x)
    obtain rx w1 where x: "x = (rx, w1)" by (cases x)
    show ?thesis
    proof (cases rx)
      case (Inl e)
      then show ?thesis using Suc.prems assms(1) Some x
        by (cases e) (auto simp: pages_contained_def reconcile_halt_def split: if_splits)
    next
      case (Inr exchange)
      show ?thesis
      proof (cases "if first then backfill else None")
        case None
        then show ?thesis using Suc.prems Some x Inr by (auto simp: reconcile_halt_def split: if_splits)
      next
        case bf: (Some run)
        show ?thesis
        proof (cases "run s w1")
          case None
          then show ?thesis using Suc.prems Some x Inr bf by (auto split: if_splits)
        next
          case res: (Some y)
          obtain r1 s1 w2 where y: "y = (r1, s1, w2)" by (metis prod_cases3)
          show ?thesis
          proof (cases "in_sync (reconcile (ref_om refs s) tickers exchange baseline)")
            case False
            then show ?thesis using Suc.prems Some x Inr bf res y by (intro run [OF bf res [unfolded y]]) (cases r1; simp)
          qed (use Suc.prems Some x Inr in auto)
        qed
      qed
    qed
  qed (use Suc.prems in simp)
qed (auto simp: reconcile_halt_def)

lemma adopt_market_total:
  assumes "good_session env (fst st)" and "raises_std (md_get_orderbook md tk)"
  shows "fst (adopt_market env md wse tk st) = Inr () \<and> good_session env (fst (snd (adopt_market env md wse tk st)))"
proof -
  obtain s c w where st: "st = (s, c, w)" by (metis prod_cases3)
  have book: "fst (md_get_orderbook md tk w) \<noteq> Inl (Abort what)" for what
    using assms(2) by (metis raises_std_def prod.collapse)
  have add: "fst (add_market env snap s w') = Inr ()" "good_session env (fst (snd (add_market env snap s w')))" for snap w'
    using handler_total(4) [of env s snap w'] session_step_settings [of env "AddMarketEv snap" s w'] assms(1)
    by (auto simp: st intro: good_session_settings)
  show ?thesis
    using assms(1) book add
    by (auto simp: st adopt_market_def catch_io_def return_io_def case_prod_beta Let_def split: sum.split exn.split)
qed

lemma adopt_all_total:
  assumes "\<And>tk. raises_std (md_get_orderbook md tk)"
  shows "good_session env (fst st) \<Longrightarrow> fst (adopt_all env md wse tks st) = Inr ()"
proof (induction tks arbitrary: st)
  case (Cons tk tks)
  obtain r st1 where a: "adopt_market env md wse tk st = (r, st1)" by (cases "adopt_market env md wse tk st")
  then have "r = Inr ()" "good_session env (fst st1)" using adopt_market_total [OF Cons.prems assms, where tk = tk and wse = wse] by simp_all
  then show ?case using Cons.IH a by (simp add: bind_io_def)
qed (simp add: return_io_def)

lemma rotate_markets_total:
  assumes "good_session env s" and "market_contained md" and "rotate_markets env md wse cfg (s, c, w) = Some (r, st')"
  shows "r = Inr ()"
proof -
  have "settings (drop_unpicked picks s) = settings s" for picks
    using drives_settings [OF drop_unpicked_drives] by blast
  then have "good_session env (drop_unpicked picks s)" for picks using assms(1) good_session_settings by blast
  then have "fst (adopt_all env md wse tks (drop_unpicked picks s, c, w1)) = Inr ()" for picks tks w1
    using adopt_all_total [of md env "(drop_unpicked picks s, c, w1)"] assms(2) by (simp add: market_contained_def)
  then have all: "fst (catch_io (adopt_all env md wse tks) (\<lambda>_. return_io ()) (drop_unpicked picks s, c, w1)) = Inr ()" for picks tks w1
    by (simp add: catch_io_def case_prod_beta)
  show ?thesis
    using assms(3) scan_now_contained [OF assms(2), of "system_now env" cfg] all
    by (auto simp: rotate_markets_def pages_contained_def Let_def split: option.splits sum.splits exn.splits) (metis fst_conv)
qed

section \<open>No poll ends the program\<close>

text \<open>
  What the services may not do to the program: end the process. What the exchange reports as
  fills has a price and a quantity.
\<close>

definition services_quiet :: "('j, 't, 'w) live \<Rightarrow> bool" where
  "services_quiet lv \<longleftrightarrow> services_contained lv \<and> (\<forall>m. pages_contained (ac_get_fills (lv_account lv) m)) \<and> market_contained (lv_market lv)"

abbreviation good_program :: "('j, 't, 'w) live \<Rightarrow> 't set \<Rightarrow> program \<times> 'w \<Rightarrow> bool" where
  "good_program lv F st \<equiv> good_engine lv F (pg_engine (fst st), snd st)"

definition tick_total :: "('j, 't, 'w) live \<Rightarrow> 't set \<Rightarrow> (unit, program \<times> 'w) paged \<Rightarrow> bool" where
  "tick_total lv F f \<longleftrightarrow> (\<forall>st r st'. good_program lv F st \<longrightarrow> f st = Some (r, st') \<longrightarrow> r = Inr ())"

lemma goes_good: "goes lv F st st' \<Longrightarrow> good_program lv F st \<Longrightarrow> good_program lv F st'"
  by (auto simp: goes_def good_engine_def dest: follows_good)

lemma tick_total_bind: "act_goes lv F f \<Longrightarrow> tick_total lv F f \<Longrightarrow> tick_total lv F g \<Longrightarrow> tick_total lv F (bind_paged f (\<lambda>_. g))"
  unfolding tick_total_def
proof (intro allI impI)
  fix st r st' assume f: "act_goes lv F f" "\<forall>st r st'. good_program lv F st \<longrightarrow> f st = Some (r, st') \<longrightarrow> r = Inr ()"
    and g: "\<forall>st r st'. good_program lv F st \<longrightarrow> g st = Some (r, st') \<longrightarrow> r = Inr ()"
    and good: "good_program lv F st" and run: "bind_paged f (\<lambda>_. g) st = Some (r, st')"
  obtain r1 st1 where 1: "f st = Some (r1, st1)" using run by (cases "f st") (auto simp: bind_paged_def)
  then have "r1 = Inr ()" using f(2) good by blast
  then have "g st1 = Some (r, st')" using run 1 by (simp add: bind_paged_def)
  moreover have "good_program lv F st1" by (rule goes_good [OF actsD [OF f(1) 1] good])
  ultimately show "r = Inr ()" using g by blast
qed

lemma on_program_total:
  "(\<And>s w. good_session (lv_env lv) s \<Longrightarrow> fst (f s w) = Inr ()) \<Longrightarrow> tick_total lv F (on_program f)"
  by (auto simp: tick_total_def on_program_def good_engine_def on_engine_def case_prod_beta Let_def)

lemma positions_contained: "services_contained lv \<Longrightarrow> pages_contained (ac_get_positions (lv_account lv))"
  by (simp add: services_contained_def pages_contained_def)

lemma poll_ticks_total:
  assumes "services_quiet lv"
  shows "tick_total lv F (tick_rotate lv)" "tick_total lv F (tick_staleness lv)" "tick_total lv F tick_portfolio" "tick_total lv F (tick_reconcile lv)"
proof -
  have quiet: "services_contained lv" "market_contained (lv_market lv)" "pages_contained (ac_get_fills (lv_account lv) m)" for m
    using assms by (simp_all add: services_quiet_def)
  show "tick_total lv F (tick_rotate lv)"
    by (auto simp: tick_total_def tick_rotate_def good_engine_def Let_def split: if_splits option.splits
      dest!: rotate_markets_total [OF _ quiet(2)])
  have "good_session (lv_env lv) (check_ws_staleness now c s)" if "good_session (lv_env lv) s" for now c s
    by (rule follows_good [OF follows_staleness that])
  then have "tick_total lv F (on_program (\<lambda>s w. let (now, w') = steady_now (lv_env lv) w
      in requote_idle_markets (lv_env lv) (check_ws_staleness now c s) w'))" for c
    by (intro on_program_total) (simp add: case_prod_beta Let_def handler_total)
  then show "tick_total lv F (tick_staleness lv)" by (auto simp: tick_total_def tick_staleness_def)
  have "tick_total lv F (on_program (\<lambda>s w. (Inr (), run_portfolio_risk s, w)))" by (rule on_program_total) simp
  then show "tick_total lv F tick_portfolio" by (auto simp: tick_total_def tick_portfolio_def)
  show "tick_total lv F (tick_reconcile lv)"
    unfolding tick_total_def
  proof (intro allI impI)
    fix st r st' assume good: "good_program lv F st" and run: "tick_reconcile lv st = Some (r, st')"
    have "\<exists>b. r = Inr b" if "reconcile_passes (lv_account lv) refs tickers baseline
        (Some (\<lambda>e w. map_option (\<lambda>(r, advance, s', w'). (r, e\<lparr>en_session := s',
            en_last_fill := (case advance of Some t \<Rightarrow> t | None \<Rightarrow> en_last_fill e)\<rparr>, w'))
          (backfill_fills (lv_account lv) (lv_start_seconds lv) (Some (en_last_fill e)) (en_session e) w))) n first e w
        = Some (r, e', w')" for refs tickers baseline n first e w r e' w'
      by (rule reconcile_passes_total [OF positions_contained [OF quiet(1)] _ that])
        (use good in \<open>auto simp: good_engine_def dest!: backfill_total [OF _ quiet(3)]\<close>)
    then show "r = Inr ()"
      using run by (auto simp: tick_reconcile_def reconcile_against_exchange_def discard_def Let_def split: if_splits option.splits) fastforce
  qed
qed

lemma poll_tick_total:
  assumes "services_quiet lv"
  shows "tick_total lv F (poll_tick lv)"
proof -
  have "tick_total lv F (on_program (enforce_quote_safety (lv_env lv)))" by (rule on_program_total) (simp add: handler_total)
  then have "tick_total lv F (bind_paged (tick_rotate lv) (\<lambda>_. bind_paged (tick_staleness lv) (\<lambda>_. bind_paged tick_portfolio (\<lambda>_.
      bind_paged (on_program (enforce_quote_safety (lv_env lv))) (\<lambda>_. tick_reconcile lv)))))"
    by (intro tick_total_bind tick_goes on_program_goes follows_handlers poll_ticks_total [OF assms])
  then have "r = Inr ()" if "good_program lv F st" "poll_tick lv st = Some (r, st')" for st r st'
    using that unfolding tick_total_def poll_tick_def
    by (elim allE [where x = "((fst st)\<lparr>pg_poll_count := pg_poll_count (fst st) + 1\<rparr>, snd st)"]) simp
  then show ?thesis unfolding tick_total_def by blast
qed

section \<open>The program stays up\<close>

lemma live_connect_total:
  assumes "services_quiet lv" and "good_engine lv F (snd st)" and "live_connect lv st = Some (r, st')"
  shows "r = Inr ()"
proof -
  obtain r1 c1 e1 w1 where h: "handle_connect (wse_of lv) (cbs_of lv) st = (r1, (c1, (e1, w1)))" by (metis prod.collapse)
  have r1: "r1 = Inr ()"
    using h by (auto simp: handle_connect_def live_callbacks_def run_callback_def case_prod_beta Let_def split: if_splits)
  have fills: "pages_contained (ac_get_fills (lv_account lv) m)" for m using assms(1) by (simp add: services_quiet_def)
  have "\<forall>f. reported_fill lv F f \<longrightarrow> fill_ok f" using assms(2) by (simp add: good_engine_def)
  then have "r2 = Inr ()" if "reconnect_backfill (lv_account lv) n ew = Some (r2, ew')" for n ew r2 ew'
    using that by (auto simp: reconnect_backfill_def discard_def Let_def split: option.splits dest!: backfill_total [OF _ fills])
  then show ?thesis using assms(3) h r1 by (auto simp: live_connect_def split: if_splits option.splits)
qed

text \<open>Trading, or, once it was told to stop, winding down or ended in order.\<close>

definition staying :: "bool \<Rightarrow> program \<Rightarrow> bool" where
  "staying told p \<longleftrightarrow> (case pg_phase p of Trading \<Rightarrow> True | WindingDown d \<Rightarrow> told | Exited code \<Rightarrow> told \<and> code = 0 | Died \<Rightarrow> False)
     \<and> (pg_shutdown p \<longrightarrow> told)"

lemma feed_event_stays:
  assumes "feed_event lv f st = Some st'" and "\<And>r s'. f (pg_ws (fst st), (pg_engine (fst st), snd st)) = Some (r, s') \<Longrightarrow> r = Inr ()"
    and "staying told (fst st)"
  shows "staying told (fst st')"
proof -
  obtain r c' e' w' where f: "f (pg_ws (fst st), (pg_engine (fst st), snd st)) = Some (r, (c', (e', w')))"
    using assms(1) by (auto simp: feed_event_def split: option.splits)
  then have "r = Inr ()" by (rule assms(2))
  then show ?thesis using assms(1,3) f by (auto simp: feed_event_def staying_def)
qed

lemma finish_stays:
  assumes "services_quiet lv" and "finish lv 0 (p, w) = Some st'" and "pg_shutdown p \<longrightarrow> told" and "told"
  shows "staying told (fst st')"
proof (cases st')
  case (Pair p' w')
  then show ?thesis using finish_contained [of lv 0 p w p' w'] assms by (simp add: staying_def services_quiet_def)
qed

lemma poll_tick_stays:
  assumes "poll_tick lv st = Some (Inr (), st')"
  shows "pg_phase (fst st') = pg_phase (fst st) \<and> pg_shutdown (fst st') = pg_shutdown (fst st)"
  using actsD [OF poll_tick_phase assms] by (simp add: same_phase_def)

lemma poll_stays:
  assumes "services_quiet lv" and "good_program lv F (p, w)" and "staying told p" and "poll lv (p, w) = Some st'"
  shows "staying told (fst st')"
proof (cases "pg_phase p")
  case Trading
  have leave: "staying told (fst st')" if "leave_loop lv (p, w) = Some st'" "told"
    using that finish_stays [OF assms(1)] by (auto simp: leave_loop_def staying_def Let_def split: if_splits prod.splits)
  have tick: "staying told (fst st')" if "poll_tick lv (p, w) = Some (Inr (), st')"
    using poll_tick_stays [OF that] assms(3) by (simp add: staying_def)
  have "r = Inr ()" if "poll_tick lv (p, w) = Some (r, st1)" for r st1
    using poll_tick_total [OF assms(1), of F] assms(2) that unfolding tick_total_def by blast
  moreover have "pg_shutdown p \<longrightarrow> told" using assms(3) by (simp add: staying_def)
  ultimately show ?thesis
    using assms(4) Trading leave tick by (auto simp: poll_def split: if_splits option.splits)
next
  case (WindingDown deadline)
  then have told: "told" using assms(3) by (simp add: staying_def)
  then show ?thesis
    using assms(3,4) WindingDown finish_stays [OF assms(1)]
    by (auto simp: poll_def Let_def staying_def split: if_splits prod.splits)
qed (use assms in \<open>auto simp: poll_def\<close>)

lemma live_step_stays:
  assumes "services_quiet lv" and "json_raises_std (we_json (lv_ws_env lv))" and "json_integers (we_json (lv_ws_env lv))"
    and "good_program lv F (p, w)" and "staying told p" and "live_step lv ev (p, w) = Some st'"
    and "\<And>raw. ev = FrameEv raw \<Longrightarrow> raw \<in> F \<and> typed_frame (we_json (lv_ws_env lv)) raw"
  shows "staying (told \<or> ev = SignalEv) (fst st')"
proof (cases "is_running p")
  case True
  have good: "good_engine lv F (pg_engine p, w)" using assms(4) by simp
  have feed: "staying told (fst st')" if "feed_event lv f (p, w) = Some st'"
      "\<And>r s'. f (pg_ws p, (pg_engine p, w)) = Some (r, s') \<Longrightarrow> r = Inr ()" for f
    using feed_event_stays [OF that(1), of told] that(2) assms(5) by simp
  show ?thesis
  proof (cases ev)
    case (FrameEv raw)
    have "r = Inr ()" if "handle_message (wse_of lv) (cbs_of lv) raw (pg_ws p, (pg_engine p, w)) = (r, s')" for r s'
      using that live_quiet.frame_quiet [of lv raw F "(pg_ws p, (pg_engine p, w))"] assms(2,3,7) FrameEv good by simp
    then show ?thesis using feed [of "paged_io (handle_message (wse_of lv) (cbs_of lv) raw)"] assms(6) True FrameEv
      by (simp add: paged_io_def)
  next
    case HeartbeatEv
    then show ?thesis using feed [of "\<lambda>st. Some (Inr (), handle_heartbeat (wse_of lv) st)"] assms(6) True by simp
  next
    case ConnectEv
    moreover have "r = Inr ()" if "live_connect lv (pg_ws p, (pg_engine p, w)) = Some (r, s')" for r s'
      by (rule live_connect_total [OF assms(1) _ that]) (use good in simp)
    ultimately show ?thesis using feed [of "live_connect lv"] assms(6) True by simp
  next
    case CloseEv
    have "r = Inr ()" if "handle_disconnect (cbs_of lv) (pg_ws p, (pg_engine p, w)) = (r, s')" for r s'
      using that good by (auto simp: handle_disconnect_def run_callback_def live_callbacks_def good_engine_def on_engine_def handler_total
        case_prod_beta Let_def)
    then show ?thesis using feed [of "paged_io (handle_disconnect (cbs_of lv))"] assms(6) True CloseEv by (simp add: paged_io_def)
  next
    case PollEv
    then show ?thesis using poll_stays [OF assms(1,4,5)] assms(6) True by simp
  qed (use assms(5,6) True in \<open>auto simp: staying_def split: phase.splits\<close>)
next
  case False
  then show ?thesis using assms(5,6) by (auto simp: staying_def Let_def split: phase.splits)
qed

lemma live_run_stays:
  assumes "services_quiet lv" and "json_raises_std (we_json (lv_ws_env lv))" and "json_integers (we_json (lv_ws_env lv))"
    and "\<forall>raw. FrameEv raw \<in> set evs \<longrightarrow> raw \<in> F \<and> typed_frame (we_json (lv_ws_env lv)) raw"
    and "live_run lv evs st = Some st'" and "good_program lv F st" and "staying told (fst st)"
  shows "staying (told \<or> SignalEv \<in> set evs) (fst st')"
  using assms(4-7)
proof (induction evs arbitrary: st told)
  case (Cons ev evs)
  obtain st1 where st1: "live_step lv ev st = Some st1" "live_run lv evs st1 = Some st'" using Cons.prems(2) by (cases "live_step lv ev st") auto
  have "good_program lv F st1"
    by (rule goes_good [OF live_step_goes [OF st1(1)] Cons.prems(3)]) (use Cons.prems(1) in auto)
  moreover have "staying (told \<or> ev = SignalEv) (fst st1)"
    using live_step_stays [OF assms(1-3), of F "fst st" "snd st" told ev st1] Cons.prems(1,3,4) st1(1) by simp
  ultimately have "staying ((told \<or> ev = SignalEv) \<or> SignalEv \<in> set evs) (fst st')"
    using Cons.prems(1) st1(2) by (intro Cons.IH) auto
  then show ?case by (simp add: disj_assoc eq_commute)
qed simp

section \<open>Every step returns\<close>

text \<open>
  When the listings of the exchange end, so does every step of the program; the last one also needs the
  feed's thread to end once it was told to stop.
\<close>

definition returns :: "('a \<Rightarrow> 'b option) \<Rightarrow> bool" where
  "returns f \<longleftrightarrow> (\<forall>x. f x \<noteq> None)"

definition listings_end :: "('j, 't, 'w) live \<Rightarrow> bool" where
  "listings_end lv \<longleftrightarrow> (\<forall>m. returns (ac_get_fills (lv_account lv) m)) \<and> returns (ac_get_positions (lv_account lv))
     \<and> (\<forall>e. returns (md_get_markets (lv_market lv) e)) \<and> returns (md_get_incentive_programs (lv_market lv))"

lemma returns_bind: "returns m \<Longrightarrow> (\<And>x. returns (f x)) \<Longrightarrow> returns (bind_paged m f)"
  unfolding returns_def bind_paged_def by (fastforce split: option.splits sum.splits)

lemma returns_io: "returns (paged_io m)"
  by (simp add: returns_def paged_io_def)

lemma returns_answer: "returns (\<lambda>x. Some (f x))"
  by (simp add: returns_def)

lemma scan_now_returns:
  assumes "\<And>e. returns (md_get_markets md e)" and "returns (md_get_incentive_programs md)"
  shows "returns (scan_now clock md cfg)"
proof -
  have "returns (fetch_series md es acc)" for es acc
    by (induction es arbitrary: acc) (simp_all add: returns_io returns_bind assms(1))
  then have "returns (fetch_markets md series)" for series by (simp add: fetch_markets_def assms(1))
  then show ?thesis unfolding scan_now_def scan_def by (intro returns_bind returns_io assms)
qed

lemma backfill_returns:
  "returns (ac_get_fills ac m) \<Longrightarrow> backfill_fills ac m a s w \<noteq> None"
  by (auto simp: returns_def backfill_fills_def case_prod_beta Let_def simp del: not_None_eq split: option.splits sum.splits exn.splits)

lemma reconcile_halt_returns: "reconcile_halt refs s w \<noteq> None"
  by (simp add: reconcile_halt_def)

lemma reconcile_passes_returns:
  assumes "returns (ac_get_positions ac)" and "\<And>run s w. backfill = Some run \<Longrightarrow> run s w \<noteq> None"
  shows "reconcile_passes ac refs tickers baseline backfill n first s w \<noteq> None"
proof (induction n arbitrary: first s w)
  case (Suc n)
  obtain r w1 where r: "ac_get_positions ac w = Some (r, w1)" using assms(1) unfolding returns_def by fast
  show ?case
  proof (cases "if first then backfill else None")
    case None
    then have "\<not> first \<or> backfill = None" by (simp split: if_splits)
    then show ?thesis using r by (auto simp: reconcile_halt_returns simp del: not_None_eq split: sum.split exn.split)
  next
    case (Some run)
    then have "run s w1 \<noteq> None" using assms(2) by (simp split: if_splits)
    then obtain k s2 w2 where "run s w1 = Some (k, s2, w2)" by fast
    moreover have "first" "backfill = Some run" using Some by (simp_all split: if_splits)
    ultimately show ?thesis using r Suc.IH by (simp add: reconcile_halt_returns del: not_None_eq split: sum.split exn.split)
  qed
qed (simp add: reconcile_halt_returns del: not_None_eq)

lemma finish_returns: "listings_end lv \<Longrightarrow> feed_ends lv \<Longrightarrow> finish lv code st \<noteq> None"
  by (auto simp: listings_end_def feed_ends_def stop_def returns_def finish_def shutdown_session_def shutdown_flatten_def
    flatten_all_positions_def Let_def simp del: not_None_eq split: option.splits prod.splits sum.splits if_splits)

lemma poll_tick_returns:
  assumes "listings_end lv"
  shows "returns (poll_tick lv)"
proof -
  note ends = assms [unfolded listings_end_def]
  have scan: "returns (scan_now (system_now (lv_env lv)) (lv_market lv) (cf_scanner (lv_config lv)))"
    using ends by (intro scan_now_returns) blast+
  have rotate: "returns (tick_rotate lv)"
    using scan by (auto simp: returns_def tick_rotate_def rotate_markets_def case_prod_beta Let_def simp del: not_None_eq split: option.splits sum.splits exn.splits)
  have backfill: "backfill_fills (lv_account lv) n a s w \<noteq> None" for n a s w by (rule backfill_returns) (use ends in blast)
  have passes: "reconcile_passes (lv_account lv) refs tickers baseline
        (Some (\<lambda>e w. map_option (\<lambda>(r, advance, s', w'). (r, e\<lparr>en_session := s',
            en_last_fill := (case advance of Some t \<Rightarrow> t | None \<Rightarrow> en_last_fill e)\<rparr>, w'))
          (backfill_fills (lv_account lv) (lv_start_seconds lv) (Some (en_last_fill e)) (en_session e) w))) n first e w \<noteq> None"
    for refs tickers baseline n first e w
  proof (rule reconcile_passes_returns)
    fix run s w
    assume "Some (\<lambda>e w. map_option (\<lambda>(r, advance, s', w'). (r, e\<lparr>en_session := s',
            en_last_fill := (case advance of Some t \<Rightarrow> t | None \<Rightarrow> en_last_fill e)\<rparr>, w'))
          (backfill_fills (lv_account lv) (lv_start_seconds lv) (Some (en_last_fill e)) (en_session e) w)) = Some run"
    then have "run s w = map_option (\<lambda>(r, advance, s', w'). (r, s\<lparr>en_session := s',
            en_last_fill := (case advance of Some t \<Rightarrow> t | None \<Rightarrow> en_last_fill s)\<rparr>, w'))
          (backfill_fills (lv_account lv) (lv_start_seconds lv) (Some (en_last_fill s)) (en_session s) w)" by blast
    then show "run s w \<noteq> None" using backfill by (simp only: option.map_disc_iff) blast
  qed (use ends in blast)
  have "tick_reconcile lv st \<noteq> None" for st
    by (cases st) (simp add: passes tick_reconcile_def reconcile_against_exchange_def Let_def del: not_None_eq split_paired_Ex split: option.split)
  then have reconcile: "returns (tick_reconcile lv)" unfolding returns_def by blast
  have program: "returns (on_program f)" for f :: "session \<Rightarrow> 'c \<Rightarrow> (exn + unit) \<times> session \<times> 'c"
    by (simp add: returns_def on_program_def case_prod_beta Let_def del: split_paired_Ex)
  have "returns (tick_staleness lv)" "returns (tick_portfolio :: (unit, program \<times> 'c) paged)"
    using program by (auto simp: returns_def tick_staleness_def tick_portfolio_def)
  then have "returns (bind_paged (tick_rotate lv) (\<lambda>_. bind_paged (tick_staleness lv) (\<lambda>_. bind_paged tick_portfolio (\<lambda>_.
      bind_paged (on_program (enforce_quote_safety (lv_env lv))) (\<lambda>_. tick_reconcile lv)))))"
    by (intro returns_bind rotate reconcile program)
  then show ?thesis by (simp add: returns_def poll_tick_def)
qed

text \<open>Not yet told to stop, the program does not come to the wait for the thread.\<close>

lemma poll_returns:
  assumes "listings_end lv" and "services_quiet lv" and "good_program lv F (p, w)" and "staying told p" and "told \<Longrightarrow> feed_ends lv"
  shows "poll lv (p, w) \<noteq> None"
proof -
  have tick: "poll_tick lv st \<noteq> None" for st using poll_tick_returns [OF assms(1)] unfolding returns_def by blast
  have quiet: "poll_tick lv (p, w) = Some (r, st') \<Longrightarrow> r = Inr ()" for r st'
    using poll_tick_total [OF assms(2), of F] assms(3) unfolding tick_total_def by blast
  show ?thesis
  proof (cases told)
    case True
    have fin: "finish lv code st \<noteq> None" for code st by (rule finish_returns [OF assms(1) assms(5) [OF True]])
    show ?thesis
      using fin tick by (auto simp: poll_def leave_loop_def Let_def simp del: not_None_eq split_paired_All
        split: phase.split prod.split option.split sum.split exn.split)
  next
    case False
    obtain r st' where "poll_tick lv (p, w) = Some (r, st')" using tick [of "(p, w)"] by auto
    then show ?thesis using assms(4) False quiet by (auto simp: poll_def staying_def split: phase.splits)
  qed
qed

lemma live_step_returns:
  assumes "listings_end lv" and "services_quiet lv" and "good_program lv F (p, w)" and "staying told p" and "told \<Longrightarrow> feed_ends lv"
  shows "live_step lv ev (p, w) \<noteq> None"
proof -
  have feed: "feed_event lv f st \<noteq> None" if "returns f" for f st
    using that by (auto simp: returns_def feed_event_def Let_def simp del: not_None_eq split: option.split)
  have "reconnect_backfill (lv_account lv) n ew \<noteq> None" for n ew
    using backfill_returns [of "lv_account lv"] assms(1) [unfolded listings_end_def]
    by (auto simp: reconnect_backfill_def Let_def simp del: not_None_eq split: option.split)
  then have connect: "returns (live_connect lv)"
    by (auto simp: returns_def live_connect_def simp del: not_None_eq split: prod.split sum.split option.split)
  show ?thesis
    using poll_returns [OF assms] feed [OF returns_io] feed [OF returns_answer] feed [OF connect]
    by (cases ev) (simp_all add: Let_def del: not_None_eq)
qed

lemma live_run_returns:
  assumes "services_quiet lv" and "json_raises_std (we_json (lv_ws_env lv))" and "json_integers (we_json (lv_ws_env lv))" and "listings_end lv"
    and "\<forall>raw. FrameEv raw \<in> set evs \<longrightarrow> raw \<in> F \<and> typed_frame (we_json (lv_ws_env lv)) raw"
    and "good_program lv F (p, w)" and "staying told p" and "told \<or> SignalEv \<in> set evs \<Longrightarrow> feed_ends lv"
  shows "\<exists>p' w'. live_run lv evs (p, w) = Some (p', w')"
  using assms(5-8)
proof (induction evs arbitrary: p w told)
  case (Cons ev evs)
  obtain p1 w1 where step: "live_step lv ev (p, w) = Some (p1, w1)"
    using live_step_returns [OF assms(4,1) Cons.prems(2,3), of ev] Cons.prems(4) by auto
  have "good_program lv F (p1, w1)"
    by (rule goes_good [OF live_step_goes [OF step] Cons.prems(2)]) (use Cons.prems(1) in auto)
  moreover have "staying (told \<or> ev = SignalEv) p1"
    using live_step_stays [OF assms(1-3) Cons.prems(2,3) step] Cons.prems(1) by simp
  ultimately have "\<exists>p' w'. live_run lv evs (p1, w1) = Some (p', w')"
    using Cons.prems(1,4) by (intro Cons.IH) auto
  then show ?case using step by simp
qed simp

section \<open>The guarantee\<close>

text \<open>A configuration the quoter can trade on, and what startup makes of it.\<close>

definition good_config :: "app_config \<Rightarrow> bool" where
  "good_config cf \<longleftrightarrow> 1 \<le> min_quote_price_cents (cf_risk cf) \<and> max_quote_price_cents (cf_risk cf) \<le> 99
     \<and> 0 < quote_size (cf_quoter cf) \<and> \<bar>flow_lean_cents (cf_quoter cf)\<bar> \<le> 1"

lemma good_live_session:
  assumes "good_config cf" and "api_no_abort (env_api env)"
  shows "good_session env (live_session cf tickers prior)"
proof -
  let ?q = "new_quoter (cf_quoter cf) (pricing_model (cf_quoter cf)) (cf_risk cf)"
  have "q_model ?q = heuristic_estimate \<or> (\<exists>wt. q_model ?q = clearing_price_estimate wt) \<or> (\<exists>beta. q_model ?q = view_based_estimate beta)"
    by (simp add: new_quoter_def pricing_model_def) blast
  moreover have "positive_b (inventory_b ?q)" "q_config ?q = cf_quoter cf"
    using assms(1) new_quoter_b by (simp_all add: good_config_def new_quoter_def)
  ultimately show ?thesis
    using assms by (simp add: good_session_def good_config_def live_session_def new_session_def new_risk_manager_def band_valid_def)
qed

lemma boot_fresh: "boot lv0 prior w = Some (Inr (Some (lv, p)), w1) \<Longrightarrow> \<not> pg_shutdown p"
  by (auto simp: boot_def start_program_def bind_paged_Inr io_Inr split: if_splits prod.splits)

lemma booted_good:
  assumes "boot lv0 prior w = Some (Inr (Some (lv, p)), w1)" and "services_quiet lv0" and "good_config (lv_config lv0)"
    and "\<forall>f. reported_fill lv0 F f \<longrightarrow> fill_ok f"
  obtains "good_program lv F (p, w1)" and "services_quiet lv" and "staying False p"
    and "lv_ws_env lv = lv_ws_env lv0" and "listings_end lv = listings_end lv0" and "feed_ends lv = feed_ends lv0"
proof -
  obtain tickers b n where lv: "lv = lv0\<lparr>lv_config := (lv_config lv0)\<lparr>cf_target_tickers := tickers\<rparr>, lv_baseline := b, lv_start_seconds := n\<rparr>"
    and start: "follows lv F (live_session (lv_config lv) tickers prior) (the_session p)" and phase: "pg_phase p = Trading"
    using boot_follows [OF assms(1), of F] by metis
  have quiet: "services_quiet lv" using assms(2) by (simp add: lv services_quiet_def services_contained_def)
  have "good_session (lv_env lv) (live_session (lv_config lv) tickers prior)"
    using assms(2,3) by (intro good_live_session) (simp_all add: lv good_config_def services_quiet_def services_contained_def)
  then have "good_session (lv_env lv) (the_session p)" by (rule follows_good [OF start])
  moreover have "reported_fill lv F f = reported_fill lv0 F f" for f by (simp add: lv reported_fill_def)
  ultimately have good: "good_program lv F (p, w1)" using assms(4) by (simp add: good_engine_def)
  have "staying False p" using phase boot_fresh [OF assms(1)] by (simp add: staying_def)
  with good quiet show ?thesis by (rule that) (simp_all add: lv listings_end_def feed_ends_def)
qed

text \<open>
  The program stays up: started on a sound configuration, with services that raise nothing worse
  than standard exceptions, listings that end, and, if it is told to stop, a feed whose thread then ends, and told of no fill without a price and a quantity
  and of no frame without a string for its type, every run of it returns, and it is trading after any
  run in which nobody told it to stop; told so, it winds down and exits with code 0. It never dies,
  whatever requests fail.
\<close>

lemma booted_runs:
  assumes "boot lv0 prior w = Some (Inr (Some (lv, p)), w1)" and "services_quiet lv0" and "listings_end lv0"
    and "good_config (lv_config lv0)" and "json_raises_std (we_json (lv_ws_env lv0))" and "json_integers (we_json (lv_ws_env lv0))"
    and "\<forall>f. reported_fill lv0 {raw. FrameEv raw \<in> set evs} f \<longrightarrow> fill_ok f"
    and "\<forall>raw. FrameEv raw \<in> set evs \<longrightarrow> typed_frame (we_json (lv_ws_env lv0)) raw"
    and "SignalEv \<in> set evs \<longrightarrow> feed_ends lv0"
  obtains p' w2 where "live_run lv evs (p, w1) = Some (p', w2)" and "staying (SignalEv \<in> set evs) p'"
proof -
  let ?F = "{raw. FrameEv raw \<in> set evs}"
  obtain good: "good_program lv ?F (p, w1)" and quiet: "services_quiet lv" and start: "staying False p"
    and eqs: "lv_ws_env lv = lv_ws_env lv0" "listings_end lv = listings_end lv0" "feed_ends lv = feed_ends lv0"
    using booted_good [OF assms(1,2,4,7)] by blast
  have json: "json_raises_std (we_json (lv_ws_env lv))" "json_integers (we_json (lv_ws_env lv))" "listings_end lv"
    using assms(3,5,6) by (simp_all add: eqs)
  have frames: "\<forall>raw. FrameEv raw \<in> set evs \<longrightarrow> raw \<in> ?F \<and> typed_frame (we_json (lv_ws_env lv)) raw" using assms(8) by (simp add: eqs)
  obtain p' w2 where run: "live_run lv evs (p, w1) = Some (p', w2)"
    using live_run_returns [OF quiet json frames good start] assms(9) by (auto simp: eqs)
  have "staying (SignalEv \<in> set evs) p'"
    using live_run_stays [OF quiet json(1,2) frames run good, of False] start by simp
  with run show ?thesis by (rule that)
qed

theorem stays_up:
  assumes "boot lv0 prior w = Some (Inr (Some (lv, p)), w1)" and "services_quiet lv0" and "listings_end lv0"
    and "good_config (lv_config lv0)" and "json_raises_std (we_json (lv_ws_env lv0))" and "json_integers (we_json (lv_ws_env lv0))"
    and "\<forall>f. reported_fill lv0 {raw. FrameEv raw \<in> set evs} f \<longrightarrow> fill_ok f"
    and "\<forall>raw. FrameEv raw \<in> set evs \<longrightarrow> typed_frame (we_json (lv_ws_env lv0)) raw"
    and "SignalEv \<in> set evs \<longrightarrow> feed_ends lv0"
  shows "\<exists>p' w2. live_run lv evs (p, w1) = Some (p', w2) \<and> (SignalEv \<notin> set evs \<longrightarrow> pg_phase p' = Trading)
    \<and> (SignalEv \<in> set evs \<longrightarrow> pg_phase p' = Trading \<or> (\<exists>d. pg_phase p' = WindingDown d) \<or> pg_phase p' = Exited 0)"
proof -
  obtain p' w2 where "live_run lv evs (p, w1) = Some (p', w2)" "staying (SignalEv \<in> set evs) p'" by (rule booted_runs [OF assms])
  then show ?thesis by (intro exI [of _ p'] exI [of _ w2]) (auto simp: staying_def split: phase.splits)
qed

lemma demo_quiet: "services_quiet demo_live"
  using demo_services
  by (auto simp: services_quiet_def services_answer_def pages_contained_def market_contained_def demo_live_def demo_account_def
    raises_std_def return_io_def)

lemma demo_listings: "listings_end demo_live"
  by (simp add: listings_end_def demo_live_def demo_account_def returns_answer)

theorem stays_up_witness:
  "\<exists>p' w'. live_run demo_wired [FrameEv fill_frame, PollEv] (demo_start Map.empty, 7) = Some (p', w') \<and> pg_phase p' = Trading"
proof -
  have json: "we_json (lv_ws_env demo_live) = tree_json" by (simp add: demo_live_def)
  have "json_raises_std tree_json" "json_integers tree_json" "typed_frame tree_json fill_frame"
    using tree_json_ok(1) by (auto simp: json_integers_def typed_frame_def fill_frame_def tree_json_def split: json.splits)
  moreover have "good_config (lv_config demo_live)"
    by (simp add: good_config_def demo_live_def demo_config_def default_risk_limits_def default_quoter_config_def)
  moreover have "fill_ok f" if "reported_fill demo_live {fill_frame} f" for f
  proof -
    have "carries tree_json ws_parse_fill fill_frame f"
      using that by (auto simp: reported_fill_def json) (auto simp: demo_live_def demo_account_def)
    then have "f = demo_fill" using fill_frame_carries by (auto simp: carries_def demo_fill_def)
    then show ?thesis by (simp add: demo_fill_def fill_ok_def price_defs)
  qed
  ultimately show ?thesis
    using stays_up [OF demo_boot demo_quiet demo_listings, of "[FrameEv fill_frame, PollEv]" Map.empty] by (simp add: json)
qed

end
