(* ===== verification/Analytics.thy ===== *)
theory Analytics
  imports Http_Transport Core_Types
begin

text \<open>
  The structured event log (\<open>source/engine/analytics.cpp\<close>): one JSON line per quote decision, fill and
  request, through a sink that need not be there. The clock is read when the event is built, which
  only happens when there is a sink. The places that raise the events leave them out of the model.
\<close>

section \<open>Events\<close>

type_synonym ('t, 'w) sink = "'t \<Rightarrow> (unit, 'w) io"

record ('j, 't, 'w) analytics_logger =
  al_json :: "('j, 't) json_ops"
  al_sink :: "('t, 'w) sink option"
  al_clock :: "'w \<Rightarrow> time_ns \<times> 'w"

record quote_decision_event =
  qd_ticker :: ticker
  qd_mid_cents :: real
  qd_micro_cents :: real
  qd_fair_value_cents :: real
  qd_bid_cents :: int
  qd_ask_cents :: int
  qd_inventory_contracts :: real
  qd_flow_imbalanced :: bool

definition epoch_ms :: "time_ns \<Rightarrow> int" where
  "epoch_ms t = t sdiv kNanosPerMilli"

text \<open>What all events share: no sink, no event; else one line with the type and the time first.\<close>

definition log_event :: "('j, 't, 'w) analytics_logger \<Rightarrow> string \<Rightarrow> (string \<times> 'j) list \<Rightarrow> (unit, 'w) io" where
  "log_event al ty kvs w =
     (case al_sink al of
        None \<Rightarrow> (Inr (), w)
      | Some sink \<Rightarrow>
          (let js = al_json al; (now, w') = al_clock al w
           in sink (js_dump js (js_object js ([(''type'', js_string js ty), (''ts_ms'', js_int js (epoch_ms now))] @ kvs))) w'))"

definition quote_decision :: "('j, 't, 'w) analytics_logger \<Rightarrow> quote_decision_event \<Rightarrow> (unit, 'w) io" where
  "quote_decision al d =
     (let js = al_json al in
      log_event al ''quote''
        [(''ticker'', js_string js (qd_ticker d)), (''mid'', js_real js (qd_mid_cents d)), (''micro'', js_real js (qd_micro_cents d)),
         (''fv'', js_real js (qd_fair_value_cents d)), (''bid'', js_int js (qd_bid_cents d)), (''ask'', js_int js (qd_ask_cents d)),
         (''inventory'', js_real js (qd_inventory_contracts d)), (''imbalanced'', js_bool js (qd_flow_imbalanced d))])"

definition fill_event :: "('j, 't, 'w) analytics_logger \<Rightarrow> fill \<Rightarrow> real \<Rightarrow> real \<Rightarrow> (unit, 'w) io" where
  "fill_event al f mid_cents inventory_after_contracts =
     (let js = al_json al in
      log_event al ''fill''
        [(''ticker'', js_string js (f_market_ticker f)), (''trade_id'', js_string js (f_trade_id f)),
         (''side'', js_string js (if f_side f = Yes then ''yes'' else ''no'')), (''price'', js_int js (f_price_cents f)),
         (''qty'', js_real js (contracts (f_quantity f))), (''fee_cents'', js_real js (f_fee_cents f)),
         (''is_taker'', js_bool js (f_is_taker f)), (''mid'', js_real js mid_cents),
         (''inventory_after'', js_real js inventory_after_contracts)])"

text \<open>The observer of the live transport.\<close>

definition http_latency :: "('j, 't, 'w) analytics_logger \<Rightarrow> 'w latency_observer" where
  "http_latency al http_method path status rtt_ms =
     (let js = al_json al in
      log_event al ''http''
        [(''method'', js_string js http_method), (''path'', js_string js path), (''status'', js_int js status),
         (''rtt_ms'', js_int js rtt_ms)])"

section \<open>The log never disturbs\<close>

lemma log_event_none: "al_sink al = None \<Longrightarrow> log_event al ty kvs w = (Inr (), w)"
  by (simp add: log_event_def)

lemma log_event_raises_std: "(\<And>s t. al_sink al = Some s \<Longrightarrow> raises_std (s t)) \<Longrightarrow> raises_std (log_event al ty kvs)"
  unfolding raises_std_def log_event_def by (auto simp: Let_def split: option.splits prod.splits)

text \<open>A transport that is measured raises what an unmeasured one does.\<close>

lemma measured_transport_raises_std:
  assumes "\<And>b opts. raises_std (hl_client hl b opts)" and "\<And>s t. al_sink al = Some s \<Longrightarrow> raises_std (s t)"
  shows "transport_raises_std (live_http_transport hl clock (Some (http_latency al)))"
proof (rule live_http_transport_raises_std [OF assms(1)])
  fix obs http_method path status rtt assume "Some (http_latency al) = Some obs"
  moreover have "raises_std (log_event al ty kvs)" for ty kvs by (rule log_event_raises_std) (rule assms(2))
  ultimately show "raises_std (obs http_method path status rtt)" by (auto simp: http_latency_def Let_def)
qed

end
