(* ===== verification/Signing.thy ===== *)
theory Signing
  imports Rest_Client
begin

text \<open>
  Request signing (\<open>source/net/auth.cpp\<close>): the steps of an RSA-PSS signature with their error
  exits, the message that is signed and the headers. OpenSSL is a parameter: a step gives the next
  context, or nothing when it does not return 1.
\<close>

section \<open>The signature\<close>

record ('key, 'ctx) openssl =
  os_read_private_key :: "string \<Rightarrow> 'key option"
  os_digest_sign_init :: "'key \<Rightarrow> 'ctx option"
  os_set_rsa_padding_pss :: "'ctx \<Rightarrow> 'ctx option"
  os_set_saltlen_digest :: "'ctx \<Rightarrow> 'ctx option"
  os_digest_sign_update :: "'ctx \<Rightarrow> string \<Rightarrow> 'ctx option"
  os_digest_sign_final :: "'ctx \<Rightarrow> nat list option"
  os_base64 :: "nat list \<Rightarrow> string"

definition require :: "string \<Rightarrow> 'a option \<Rightarrow> exn + 'a" where
  "require what r = (case r of None \<Rightarrow> Inl (StdException what) | Some x \<Rightarrow> Inr x)"

text \<open>The last step goes unchecked: when it fails the length stays 0 and the signature is empty.\<close>

definition rsa_pss_sha256_sign :: "('key, 'ctx) openssl \<Rightarrow> string \<Rightarrow> string \<Rightarrow> exn + string" where
  "rsa_pss_sha256_sign os pem_key message =
     bindE (require ''auth: failed to load RSA private key from PEM'' (os_read_private_key os pem_key)) (\<lambda>pkey.
     bindE (require ''auth: EVP_DigestSignInit failed'' (os_digest_sign_init os pkey)) (\<lambda>ctx.
     bindE (require ''auth: EVP_PKEY_CTX_set_rsa_padding failed'' (os_set_rsa_padding_pss os ctx)) (\<lambda>ctx.
     bindE (require ''auth: EVP_PKEY_CTX_set_rsa_pss_saltlen failed'' (os_set_saltlen_digest os ctx)) (\<lambda>ctx.
     bindE (require ''auth: EVP_DigestSignUpdate failed'' (os_digest_sign_update os ctx message)) (\<lambda>ctx.
       Inr (os_base64 os (case os_digest_sign_final os ctx of None \<Rightarrow> [] | Some sig \<Rightarrow> sig)))))))"

section \<open>The headers\<close>

text \<open>\<open>Auth::sign\<close> with its optional timestamp; without one the clock is read.\<close>

definition auth_sign :: "(string \<Rightarrow> string \<Rightarrow> exn + string) \<Rightarrow> ('w \<Rightarrow> time_ns \<times> 'w) \<Rightarrow> auth \<Rightarrow> string \<Rightarrow> string \<Rightarrow> int option
    \<Rightarrow> (headers, 'w) io" where
  "auth_sign rsa clock au http_method path timestamp_ms =
     bind_io (case timestamp_ms of
         Some ts \<Rightarrow> return_io ts
       | None \<Rightarrow> bind_io (lift_read clock) (\<lambda>now. return_io (now sdiv kNanosPerMilli))) (\<lambda>ts.
       bind_io (lift_result (rsa (pem_private_key au) (int_to_string ts @ http_method @ path))) (\<lambda>signature.
         return_io [''Kalshi-Access-Key'' \<mapsto> api_key au, ''Kalshi-Access-Timestamp'' \<mapsto> int_to_string ts,
                    ''Kalshi-Access-Signature'' \<mapsto> signature]))"

lemma auth_sign_now: "auth_sign rsa clock au http_method path None = sign rsa clock au http_method path"
  by (rule ext) (auto simp: auth_sign_def sign_def bind_io_def return_io_def lift_read_def Let_def split: prod.splits)

section \<open>What can go wrong\<close>

lemma require_simps [simp]: "require what None = Inl (StdException what)" "require what (Some x) = Inr x"
  by (simp_all add: require_def)

lemma signature_std: "std_result (rsa_pss_sha256_sign os pem message)"
  unfolding rsa_pss_sha256_sign_def
  by (intro std_result_bindE) (simp_all add: require_def std_result_def split: option.split)

text \<open>
  Signing raises only standard exceptions, and raises one exactly when the key does not load or one
  of the four checked steps fails; what is signed is the timestamp, the method and the path, and the
  headers carry the very timestamp that was signed.
\<close>

theorem signing_sound:
  "std_result (rsa_pss_sha256_sign os pem message)
   \<and> ((\<exists>sig. rsa_pss_sha256_sign os pem message = Inr sig) \<longleftrightarrow>
      (\<exists>key c1 c2 c3 c4. os_read_private_key os pem = Some key \<and> os_digest_sign_init os key = Some c1 \<and> os_set_rsa_padding_pss os c1 = Some c2
        \<and> os_set_saltlen_digest os c2 = Some c3 \<and> os_digest_sign_update os c3 message = Some c4))
   \<and> (auth_sign (rsa_pss_sha256_sign os) clock au http_method path ts w = (Inr hdrs, w') \<longrightarrow>
      (\<exists>stamp sig. hdrs ''Kalshi-Access-Timestamp'' = Some stamp \<and> hdrs ''Kalshi-Access-Signature'' = Some sig
        \<and> hdrs ''Kalshi-Access-Key'' = Some (api_key au)
        \<and> rsa_pss_sha256_sign os (pem_private_key au) (stamp @ http_method @ path) = Inr sig
        \<and> (\<forall>t. ts = Some t \<longrightarrow> stamp = int_to_string t)))"
proof (intro conjI impI)
  show "std_result (rsa_pss_sha256_sign os pem message)" by (rule signature_std)
  show "(\<exists>sig. rsa_pss_sha256_sign os pem message = Inr sig) \<longleftrightarrow>
      (\<exists>key c1 c2 c3 c4. os_read_private_key os pem = Some key \<and> os_digest_sign_init os key = Some c1 \<and> os_set_rsa_padding_pss os c1 = Some c2
        \<and> os_set_saltlen_digest os c2 = Some c3 \<and> os_digest_sign_update os c3 message = Some c4)"
    by (auto simp: rsa_pss_sha256_sign_def require_def split: option.splits)
  assume "auth_sign (rsa_pss_sha256_sign os) clock au http_method path ts w = (Inr hdrs, w')"
  then show "\<exists>stamp sig. hdrs ''Kalshi-Access-Timestamp'' = Some stamp \<and> hdrs ''Kalshi-Access-Signature'' = Some sig
      \<and> hdrs ''Kalshi-Access-Key'' = Some (api_key au)
      \<and> rsa_pss_sha256_sign os (pem_private_key au) (stamp @ http_method @ path) = Inr sig
      \<and> (\<forall>t. ts = Some t \<longrightarrow> stamp = int_to_string t)"
    by (auto simp: auth_sign_def bind_io_def return_io_def lift_read_def lift_result_def split: option.splits prod.splits sum.splits)
qed

text \<open>An unchecked failure: the request goes out with the encoding of an empty signature.\<close>

lemma failed_final_unnoticed:
  assumes "os_read_private_key os pem = Some key" and "os_digest_sign_init os key = Some c1" and "os_set_rsa_padding_pss os c1 = Some c2"
    and "os_set_saltlen_digest os c2 = Some c3" and "os_digest_sign_update os c3 message = Some c4" and "os_digest_sign_final os c4 = None"
  shows "rsa_pss_sha256_sign os pem message = Inr (os_base64 os [])"
  using assms by (simp add: rsa_pss_sha256_sign_def)

definition demo_openssl :: "(unit, string) openssl" where
  "demo_openssl = \<lparr>os_read_private_key = (\<lambda>_. Some ()), os_digest_sign_init = (\<lambda>_. Some []), os_set_rsa_padding_pss = Some,
     os_set_saltlen_digest = Some, os_digest_sign_update = (\<lambda>c s. Some (c @ s)), os_digest_sign_final = (\<lambda>c. Some [length c]),
     os_base64 = (\<lambda>bytes. concat (map nat_to_string bytes))\<rparr>"

theorem signing_sound_witness:
  "\<exists>hdrs w'. auth_sign (rsa_pss_sha256_sign demo_openssl) (\<lambda>n. (int n, n)) \<lparr>api_key = ''k'', pem_private_key = []\<rparr> ''GET'' ''/p'' (Some 5) (7 :: nat)
      = (Inr hdrs, w') \<and> hdrs ''Kalshi-Access-Timestamp'' = Some (int_to_string 5)"
proof -
  let ?run = "auth_sign (rsa_pss_sha256_sign demo_openssl) (\<lambda>n. (int n, n)) \<lparr>api_key = ''k'', pem_private_key = []\<rparr> ''GET'' ''/p'' (Some 5) (7 :: nat)"
  have "\<exists>hdrs w'. ?run = (Inr hdrs, w')"
    by (simp add: auth_sign_def bind_io_def return_io_def lift_result_def rsa_pss_sha256_sign_def demo_openssl_def)
  then obtain hdrs w' where run: "?run = (Inr hdrs, w')" by blast
  with signing_sound [of demo_openssl "[]" "[]" "\<lambda>n. (int n, n)" "\<lparr>api_key = ''k'', pem_private_key = []\<rparr>" "''GET''" "''/p''" "Some 5" 7 hdrs w']
  show ?thesis by auto
qed

end
