(* ===== verification/Production.thy ===== *)
theory Production
  imports Main_Program Endurance Analytics Signing
begin

text \<open>
  The program as it is deployed: what \<open>main\<close> hands over when it trades, the live program wired on
  the REST client, the production transport with its measurement and the RSA signature, and the
  guarantee of \<open>Endurance\<close> for this program, from hypotheses on the libraries and the exchange only.
\<close>

section \<open>The REST client raises nothing but standard exceptions\<close>

lemma std_result_branches [raises_std_intros]:
  "std_result (Inr x)" "std_result a \<Longrightarrow> std_result b \<Longrightarrow> std_result (if c then a else b)"
  "(\<And>x. std_result (f x)) \<Longrightarrow> std_result r \<Longrightarrow> std_result (case v of None \<Rightarrow> r | Some x \<Rightarrow> f x)"
  by (simp_all split: option.split)

lemma parse_dollars_d_std [raises_std_intros]: "std_result (parse_dollars_to_cents_d s)"
  unfolding parse_dollars_to_cents_d_def by (intro raises_std_intros)

lemma client_parse_std [raises_std_intros]:
  assumes "json_raises_std js"
  shows "std_result (parse_market js j)" "std_result (parse_position js j)" "std_result (parse_order js j)" "std_result (parse_fill js j)"
    "std_result (parse_incentive js j)" "std_result (parse_trade js tk j)" "std_result (parse_candle js j)"
proof -
  show "std_result (parse_market js j)" unfolding parse_market_def by (intro raises_std_intros assms)
  show "std_result (parse_position js j)" unfolding parse_position_def by (intro raises_std_intros assms)
  show "std_result (parse_order js j)" unfolding parse_order_def by (intro raises_std_intros assms)
  show "std_result (parse_fill js j)" unfolding parse_fill_def by (intro raises_std_intros assms)
  show "std_result (parse_incentive js j)" unfolding parse_incentive_def by (intro raises_std_intros assms)
  show "std_result (parse_trade js tk j)" unfolding parse_trade_def by (intro raises_std_intros assms)
  show "std_result (parse_candle js j)" unfolding parse_candle_def by (intro raises_std_intros assms)
qed

lemma raises_std_gets [raises_std_intros]:
  assumes "client_raises_std c"
  shows "raises_std (signed_get c path url)" "raises_std (get_json c path url)"
proof -
  show get: "raises_std (signed_get c path url)" for path url
    unfolding signed_get_def by (intro raises_std_intros client_raises_stdD assms)
  show "raises_std (get_json c path url)"
    unfolding get_json_def by (intro raises_std_intros get client_raises_stdD assms)
qed

lemma raises_std_page_retry [raises_std_intros]: "client_raises_std c \<Longrightarrow> raises_std (page_retry c path url n)"
proof (induction n)
  case (Suc n)
  have "raises_std (\<lambda>s. (Inr (), (fst s, rc_sleep_ms c 300 (snd s))))" by (simp add: raises_std_def)
  then show ?case using Suc by (auto intro!: raises_std_intros)
qed (simp add: raises_std_gets)

lemma client_requests_std:
  assumes "client_raises_std c"
  shows "raises_std (markets_page c e cursor)" "raises_std (positions_page c cursor)" "raises_std (incentives_page c cursor)"
    "raises_std (fills_page c m cursor)" "raises_std (get_open_orders c)" "raises_std (get_recent_trades c tk n)"
    "raises_std (get_candlesticks c tk a b)" "raises_std (flatten c tk q)"
proof -
  note intros = raises_std_intros client_raises_stdD [OF assms] assms
  show "raises_std (markets_page c e cursor)" unfolding markets_page_def Let_def by (intro intros)
  show "raises_std (positions_page c cursor)" unfolding positions_page_def by (intro intros)
  show "raises_std (incentives_page c cursor)" unfolding incentives_page_def by (intro intros)
  show "raises_std (fills_page c m cursor)" unfolding fills_page_def Let_def by (intro intros)
  show "raises_std (get_open_orders c)" unfolding get_open_orders_def by (intro intros)
  show "raises_std (get_recent_trades c tk n)" unfolding get_recent_trades_def by (intro intros)
  show "raises_std (get_candlesticks c tk a b)" unfolding get_candlesticks_def Let_def by (intro intros)
  show "raises_std (flatten c tk q)" unfolding flatten_def Let_def by (intro intros)
qed

lemma fetch_pages_contained:
  assumes "\<And>cursor. raises_std (fetch_page cursor)"
  shows "pages_contained (fetch_pages fetch_page cursor acc)"
proof -
  have "fetch_pages fetch_page cursor acc w = Some r \<Longrightarrow> (\<And>cursor. raises_std (fetch_page cursor)) \<Longrightarrow> fst r \<noteq> Inl (Abort what)" for w r what
  proof (induction fetch_page cursor acc w r rule: fetch_pages.raw_induct [rotated, consumes 1, case_names step])
    case (step loop fetch_page cursor acc w r)
    from step(3) [of cursor] have "fetch_page cursor w \<noteq> (Inl (Abort what), w')" for w' by (simp add: raises_std_def)
    then have "fst (fetch_page cursor w) \<noteq> Inl (Abort what)" by (metis prod.collapse)
    then show ?case using step by (auto split: prod.splits sum.splits if_splits)
  qed
  with assms show ?thesis by (fastforce simp: pages_contained_def)
qed

text \<open>The contracts of the order manager, the application and the scanner, kept by the client.\<close>

lemma client_contained:
  assumes "client_raises_std c"
  shows "api_no_abort (client_api c)" "market_contained (client_market_data c)" "pages_contained (ac_get_fills (client_account c) m)"
    "pages_contained (ac_get_positions (client_account c))"
proof -
  have no_abort: "raises_std f \<Longrightarrow> no_abort (f w)" for f :: "('x, 'y) io" and w
    by (simp add: raises_std_def no_abort_def prod_eq_iff)
  show "api_no_abort (client_api c)"
    unfolding api_no_abort_def client_api_def rest_api.simps by (intro conjI allI no_abort raises_std_intros assms)
  have "get_markets c e = fetch_pages (markets_page c e) [] []" "get_incentive_programs c = fetch_pages (incentives_page c) [] []"
    "get_fills c m = fetch_pages (fills_page c m) [] []" "get_positions c = fetch_pages (positions_page c) [] []" for e
    by (simp_all add: fun_eq_iff get_markets_def get_incentive_programs_def get_fills_def get_positions_def)
  then show "market_contained (client_market_data c)" "pages_contained (ac_get_fills (client_account c) m)"
      "pages_contained (ac_get_positions (client_account c))"
    by (simp_all add: market_contained_def client_market_data_def client_account_def fetch_pages_contained client_requests_std assms
      raises_std_get_orderbook)
qed

section \<open>The transports\<close>

lemma paper_transport_std:
  assumes "json_raises_std js"
  shows "transport_raises_std (paper_transport js clock)"
proof -
  have parse: "std_result (parse_request js t)" for t
    unfolding parse_request_def parse_count_def Let_def by (intro raises_std_intros assms)
  have "std_result (fst (paper_get js url h s))" for url h s
    unfolding paper_get_def by (auto intro!: raises_std_intros assms)
  moreover have "std_result (fst (paper_post js clock url h t s))" for url h t s
    using parse [of t] by (auto simp: paper_post_def std_result_def case_prod_beta Let_def split: sum.split)
  moreover have "std_result (fst (paper_delete js url h s))" for url h s by (simp add: paper_delete_def)
  ultimately show ?thesis
    unfolding transport_raises_std_def raises_std_def paper_transport_def std_result_def http_transport.simps by (metis fst_conv)
qed

lemma past_paper_std: "transport_raises_std tr \<Longrightarrow> transport_raises_std (past_paper tr)"
  unfolding transport_raises_std_def raises_std_def past_paper_def on_clock_def
  by (simp add: case_prod_beta Let_def) (metis prod.collapse)

section \<open>The program that trades\<close>

text \<open>The production transport, measured by the analytics log, and the production signature.\<close>

definition deployed :: "('j, 'h clients \<times> 'c) machine \<Rightarrow> ('h, string, 'c) httplib \<Rightarrow> ('c \<Rightarrow> time_ns \<times> 'c)
    \<Rightarrow> ('j, string, 'c) analytics_logger \<Rightarrow> ('key, 'ctx) openssl \<Rightarrow> ('j, 'h clients \<times> 'c) machine" where
  "deployed m hl clock al os =
     m\<lparr>mc_transport := live_http_transport hl clock (Some (http_latency al)), mc_rsa_sign := rsa_pss_sha256_sign os\<rparr>"

text \<open>The feed's socket next to the client's limiter and the paper exchange.\<close>

definition main_ws_env :: "('j, 'c) machine \<Rightarrow> ('j, string, rate_limiter \<times> paper \<times> 'c) ws_env" where
  "main_ws_env m =
     \<lparr>we_json = mc_json m, ws_send = (\<lambda>t st. (fst st, (fst (snd st), ws_send (mc_ws_env m) t (snd (snd st))))),
      ws_request_close = (\<lambda>st. (fst st, (fst (snd st), ws_request_close (mc_ws_env m) (snd (snd st))))),
      we_steady_now = on_machine (mc_steady_now m)\<rparr>"

definition main_live :: "('j, 'c) machine \<Rightarrow> bool \<Rightarrow> app_config \<Rightarrow> auth \<Rightarrow> ('j, string, rate_limiter \<times> paper \<times> 'c) live" where
  "main_live m paper cf au =
     (let c = main_client m paper cf au in
      \<lparr>lv_env = \<lparr>env_api = client_api c, steady_now = on_machine (mc_steady_now m), system_now = on_machine (mc_system_now m)\<rparr>,
       lv_account = client_account c, lv_market = client_market_data c, lv_open_orders = get_open_orders c, lv_ws_env = main_ws_env m,
       lv_config = cf, lv_paper = paper, lv_start_seconds = 0, lv_baseline = [],
       lv_join = (\<lambda>c st. map_option (\<lambda>w'. (fst st, (fst (snd st), w'))) (mc_join m c (snd (snd st))))\<rparr>)"

text \<open>What \<open>main\<close> does with the configuration and the key: start on the profit file.\<close>

definition start_trading :: "('j, 'c) machine \<Rightarrow> bool \<Rightarrow> app_config \<Rightarrow> auth
    \<Rightarrow> 'c \<Rightarrow> ((exn + (('j, string, rate_limiter \<times> paper \<times> 'c) live \<times> program) option) \<times> rate_limiter \<times> paper \<times> 'c) option" where
  "start_trading m paper cf au w =
     (let (limiter_start, w1) = mc_steady_now m w
      in boot (main_live m paper cf au) (load_pnl (mc_json m) (mc_read_file m) (cf_pnl_state_path cf))
           (new_write_limiter limiter_start, (new_paper, w1)))"

lemma main_client_std:
  assumes "json_raises_std (mc_json m)" and "transport_raises_std (mc_transport m)" and "\<And>k t. std_result (mc_rsa_sign m k t)"
  shows "client_raises_std (main_client m paper cf au)"
  using assms paper_transport_std [OF assms(1), of "mc_system_now m"] past_paper_std [OF assms(2)]
  by (simp add: client_raises_std_def main_client_def make_http_transport_def)

lemma main_live_quiet:
  assumes "client_raises_std (main_client m paper cf au)"
    and "\<forall>tk q w ord w'. flatten (main_client m paper cf au) tk q w = (Inr ord, w') \<longrightarrow> is_positive (o_filled_quantity ord)
      \<longrightarrow> is_valid_price (f_price_cents (flatten_fill ord))"
  shows "services_quiet (main_live m paper cf au)"
proof -
  have "raises_std (get_open_orders (main_client m paper cf au))" "raises_std (flatten (main_client m paper cf au) tk q)" for tk q
    by (intro client_requests_std assms(1))+
  with client_contained [OF assms(1)] assms(2) show ?thesis
    by (simp add: services_quiet_def services_contained_def main_live_def client_account_def pages_contained_def raises_std_def Let_def)
qed

text \<open>
  C3. The deployed program stays up. Given a configuration with a sound risk band, quote size and lean,
  libraries that raise nothing but standard exceptions, an exchange whose listings end and that
  reports fills and executions with prices and quantities and frames with a string for their type, and,
  in runs with a signal, a thread of the feed that ends once it was told to stop,
  every run of the program that \<open>main\<close> starts, on the production transport and signature or on paper,
  returns, and it is trading after any run in which nobody told it to stop; told so, it winds down
  and exits with code 0. No failing request, page, file or frame makes it die.
\<close>

theorem production_stays_up:
  assumes "start_trading (deployed m hl clock al os) paper cf au w = Some (Inr (Some (lv, p)), w1)"
    and "listings_end (main_live (deployed m hl clock al os) paper cf au)" and "good_config cf"
    and "json_raises_std (mc_json m)" and "json_integers (mc_json m)" and "\<forall>base opts. raises_std (hl_client hl base opts)"
    and "\<forall>sink line. al_sink al = Some sink \<longrightarrow> raises_std (sink line)"
    and "\<forall>tk q v ord v'. flatten (main_client (deployed m hl clock al os) paper cf au) tk q v = (Inr ord, v')
      \<longrightarrow> is_positive (o_filled_quantity ord) \<longrightarrow> is_valid_price (f_price_cents (flatten_fill ord))"
    and "\<forall>f. reported_fill (main_live (deployed m hl clock al os) paper cf au) {raw. FrameEv raw \<in> set evs} f \<longrightarrow> fill_ok f"
    and "\<forall>raw. FrameEv raw \<in> set evs \<longrightarrow> typed_frame (mc_json m) raw"
    and "SignalEv \<in> set evs \<longrightarrow> (\<forall>c v. \<not> ws_running c \<longrightarrow> mc_join m c v \<noteq> None)"
  shows "\<exists>p' w2. live_run lv evs (p, w1) = Some (p', w2) \<and> (SignalEv \<notin> set evs \<longrightarrow> pg_phase p' = Trading)
    \<and> (SignalEv \<in> set evs \<longrightarrow> pg_phase p' = Trading \<or> (\<exists>d. pg_phase p' = WindingDown d) \<or> pg_phase p' = phase.Exited 0)"
proof -
  let ?m = "deployed m hl clock al os"
  have json: "mc_json ?m = mc_json m" by (simp add: deployed_def)
  have "transport_raises_std (mc_transport ?m)"
    using assms(6,7) by (simp add: deployed_def measured_transport_raises_std)
  moreover have "std_result (mc_rsa_sign ?m k t)" for k t by (simp add: deployed_def signature_std)
  ultimately have "client_raises_std (main_client ?m paper cf au)" using assms(4) by (intro main_client_std) (simp_all add: json)
  from main_live_quiet [OF this assms(8)] have quiet: "services_quiet (main_live ?m paper cf au)" .
  obtain w0 where boot: "boot (main_live ?m paper cf au) (load_pnl (mc_json m) (mc_read_file ?m) (cf_pnl_state_path cf)) w0 = Some (Inr (Some (lv, p)), w1)"
    using assms(1) by (auto simp: start_trading_def json case_prod_beta Let_def)
  have parts: "lv_config (main_live ?m paper cf au) = cf" "we_json (lv_ws_env (main_live ?m paper cf au)) = mc_json m"
    by (simp_all add: main_live_def main_ws_env_def json Let_def)
  have join: "SignalEv \<in> set evs \<longrightarrow> feed_ends (main_live ?m paper cf au)"
    using assms(11) by (simp add: feed_ends_def main_live_def deployed_def Let_def del: not_None_eq)
  obtain p' w2 where "live_run lv evs (p, w1) = Some (p', w2)" "staying (SignalEv \<in> set evs) p'"
    by (rule booted_runs [OF boot quiet assms(2) _ _ _ _ _ join]) (use assms(3-5,9,10) in \<open>simp_all add: parts\<close>)
  then show ?thesis by (intro exI [of _ p'] exI [of _ w2]) (auto simp: staying_def split: phase.splits)
qed

text \<open>A paper session on a library of which every document is empty, one market, one lost connection.\<close>

definition empty_machine :: "(json, unit clients \<times> nat) machine" where
  "empty_machine =
     \<lparr>mc_json = line_json (\<lambda>_. JNull), mc_read_file = (\<lambda>_. None), mc_system_now = (\<lambda>s. (0, s)), mc_steady_now = (\<lambda>s. (0, s)),
      mc_sleep_ms = (\<lambda>_ s. s), mc_rsa_sign = (\<lambda>_ _. Inr []), mc_ephemeral_rsa_pem = [], mc_transport = down_transport,
      mc_files = \<lparr>fo_open = (\<lambda>_ s. (False, s)), fo_write = (\<lambda>_ _ s. (False, s))\<rparr>,
      mc_ws_env = \<lparr>we_json = line_json (\<lambda>_. JNull), ws_send = (\<lambda>_. id), ws_request_close = id, we_steady_now = (\<lambda>s. (0, s))\<rparr>,
      mc_ix_start = (\<lambda>_ _ s. (([], True), s)),
      mc_join = join_at_head \<lparr>wc_url = ''ws:'', wc_max_reconnects = - 1, wc_reconnect_delay_ms = 100\<rparr>
        (\<lambda>s. (Inl (StdException ''refused''), s)) (\<lambda>_. id) 0\<rparr>"

abbreviation paper_machine :: "(json, unit clients \<times> nat) machine" where
  "paper_machine \<equiv> deployed empty_machine dead_httplib (\<lambda>n. (0, n)) \<lparr>al_json = line_json (\<lambda>_. JNull), al_sink = None, al_clock = (\<lambda>n. (0, n))\<rparr> demo_openssl"

abbreviation paper_main_client :: "(json, string, paper \<times> unit clients \<times> nat) rest_client" where
  "paper_main_client \<equiv> main_client paper_machine True demo_config \<lparr>api_key = ''k'', pem_private_key = []\<rparr>"

lemma null_json [simp]:
  "js_parse (line_json (\<lambda>_. JNull)) t = Inr JNull" "js_at (line_json (\<lambda>_. JNull)) JNull k = Inl (StdException ''type_error'')"
    "js_value (line_json (\<lambda>_. JNull)) JNull k = Inl (StdException ''type_error'')"
  by (simp_all add: line_json_def tree_json_def)

lemma failing_page:
  assumes "\<And>page st'. fetch [] st \<noteq> (Inr page, st')"
  shows "\<exists>e. fetch_pages fetch [] [] st = Some (Inl e, snd (fetch [] st))"
proof -
  obtain r st' where "fetch [] st = (r, st')" by (rule prod.exhaust)
  with assms [of _ st'] obtain e where "fetch [] st = (Inl e, st')" by (cases r) blast+
  then show ?thesis by (subst fetch_pages.simps) simp
qed

lemma null_document:
  assumes "rc_json c = line_json (\<lambda>_. JNull)"
  shows "get_json c path url st = (Inr j, st') \<Longrightarrow> j = JNull" "place_order c tk sd q n ty st \<noteq> (Inr ord, st')" "get_fills c m st \<noteq> Some (Inr fs, st')"
    and "get_fills c m st \<noteq> None" "get_positions c st \<noteq> None" "get_markets c e st \<noteq> None" "get_incentive_programs c st \<noteq> None"
proof -
  show json: "get_json c path url st = (Inr j, st') \<Longrightarrow> j = JNull" for path url st j st'
    by (auto simp: get_json_def bind_io_def lift_result_def assms split: prod.splits sum.splits)
  show "place_order c tk sd q n ty st \<noteq> (Inr ord, st')"
    by (auto simp: place_order_def bind_io_def lift_result_def assms placed_order_def get_str_def split: prod.splits sum.splits)
  have "fills_page c m [] st \<noteq> (Inr page, st')" for page st'
    by (auto simp: fills_page_def bind_io_def lift_result_def assms Let_def split: prod.splits sum.splits dest!: json)
  from failing_page [of "fills_page c m" st, OF this] show "get_fills c m st \<noteq> Some (Inr fs, st')" "get_fills c m st \<noteq> None" by (auto simp: get_fills_def)
  have "positions_page c [] st \<noteq> (Inr page, st')" for page st'
    by (auto simp: positions_page_def bind_io_def lift_result_def assms split: prod.splits sum.splits dest!: json)
  from failing_page [of "positions_page c" st, OF this] show "get_positions c st \<noteq> None" by (auto simp: get_positions_def)
  have "markets_page c e [] st \<noteq> (Inr page, st')" for page st'
    by (auto simp: markets_page_def bind_io_def lift_result_def assms Let_def split: prod.splits sum.splits)
  from failing_page [of "markets_page c e" st, OF this] show "get_markets c e st \<noteq> None" by (auto simp: get_markets_def)
  have "incentives_page c [] st \<noteq> (Inr page, st')" for page st'
    by (auto simp: incentives_page_def bind_io_def lift_result_def value_or_def assms split: prod.splits sum.splits dest!: json)
  from failing_page [of "incentives_page c" st, OF this] show "get_incentive_programs c st \<noteq> None" by (auto simp: get_incentive_programs_def)
qed

lemma paper_book: "get_orderbook paper_main_client tk (rl, (new_paper, x)) = (Inl (StdException ''type_error''), (rl, (new_paper, x)))"
  by (cases x) (simp add: get_orderbook_def get_json_def signed_get_def rc_sign_def on_world_def main_client_def make_http_transport_def deployed_def
    empty_machine_def paper_transport_def paper_get_def new_paper_def sign_def bind_io_def lift_read_def lift_result_def return_io_def on_clock_def
    rsa_pss_sha256_sign_def demo_openssl_def check_response_def kHttpOk_def Let_def)

lemma paper_starts:
  "\<exists>lv p. start_trading paper_machine True demo_config \<lparr>api_key = ''k'', pem_private_key = []\<rparr> (Map.empty, 7)
     = Some (Inr (Some (lv, p)), (new_write_limiter 0, (new_paper, (Map.empty, 7))))"
proof -
  have book: "md_get_orderbook (client_market_data paper_main_client) tk (rl, (new_paper, x)) = (Inl (StdException ''type_error''), (rl, (new_paper, x)))" for tk rl x
    by (simp add: client_market_data_def paper_book)
  let ?au = "\<lparr>api_key = ''k'', pem_private_key = []\<rparr>"
  let ?lv = "main_live paper_machine True demo_config ?au"
  have clock: "mc_steady_now paper_machine st = (0, st)" "mc_system_now paper_machine st = (0, st)" "mc_read_file paper_machine f = None" for st f
    by (simp_all add: deployed_def empty_machine_def)
  have sel: "lv_config ?lv = demo_config" "lv_paper ?lv" "lv_market ?lv = client_market_data paper_main_client"
    "we_steady_now (lv_ws_env ?lv) st = (0, st)" "system_now (lv_env ?lv) st = (0, st)" "cf_target_tickers demo_config = [''M'']" for st
    by (simp_all add: main_live_def main_ws_env_def on_machine_def clock demo_config_def Let_def)
  have "\<exists>lv p. boot ?lv Map.empty (rl, (new_paper, x)) = Some (Inr (Some (lv, p)), (rl, (new_paper, x)))" for rl x
    by (simp add: boot_def select_tickers_def start_program_def startup_cancel_def startup_baseline_def startup_seed_def seed_market_def
      book sel catch_io_def bind_io_def bind_paged_def paged_io_def return_io_def lift_read_def)
  then show ?thesis by (simp add: start_trading_def clock load_pnl_def)
qed

theorem production_stays_up_witness:
  "\<exists>lv p w1 p' w2. start_trading paper_machine True demo_config \<lparr>api_key = ''k'', pem_private_key = []\<rparr> (Map.empty, 7) = Some (Inr (Some (lv, p)), w1)
     \<and> live_run lv [CloseEv, PollEv] (p, w1) = Some (p', w2) \<and> pg_phase p' = Trading"
proof -
  let ?au = "\<lparr>api_key = ''k'', pem_private_key = []\<rparr>"
  obtain lv p w1 where start: "start_trading paper_machine True demo_config ?au (Map.empty, 7) = Some (Inr (Some (lv, p)), w1)"
    using paper_starts by blast
  have "rc_json paper_main_client = line_json (\<lambda>_. JNull)" by (simp add: main_client_def deployed_def empty_machine_def)
  note null = null_document [OF this]
  have cf: "good_config demo_config" by (simp add: good_config_def demo_config_def default_risk_limits_def default_quoter_config_def)
  have lib: "json_raises_std (mc_json empty_machine)" "json_integers (mc_json empty_machine)"
    "\<forall>raw. FrameEv raw \<in> set [CloseEv, PollEv] \<longrightarrow> typed_frame (mc_json empty_machine) raw"
    using line_json_std [of "\<lambda>_. JNull"]
    by (auto simp: empty_machine_def json_integers_def line_json_def tree_json_def split: json.splits)
  have http: "\<forall>base opts. raises_std (hl_client dead_httplib base opts)" by (simp add: dead_httplib_def raises_std_def)
  have "\<not> is_positive (o_filled_quantity ord)" if "flatten paper_main_client tk q v = (Inr ord, v')" for tk q v ord v'
    using that null(2) by (auto simp: flatten_def return_io_def default_order_def split: if_splits)
  then have flat: "\<forall>tk q v ord v'. flatten paper_main_client tk q v = (Inr ord, v') \<longrightarrow> is_positive (o_filled_quantity ord)
      \<longrightarrow> is_valid_price (f_price_cents (flatten_fill ord))" by blast
  have fills: "\<forall>f. reported_fill (main_live paper_machine True demo_config ?au) {raw. FrameEv raw \<in> set [CloseEv, PollEv]} f \<longrightarrow> fill_ok f"
    using null(3) by (simp add: reported_fill_def main_live_def client_account_def Let_def)
  have listings: "listings_end (main_live paper_machine True demo_config ?au)"
    using null(4-7) by (simp add: listings_end_def returns_def main_live_def client_account_def client_market_data_def Let_def del: not_None_eq)
  have join: "SignalEv \<in> set [CloseEv, PollEv] \<longrightarrow> (\<forall>c v. \<not> ws_running c \<longrightarrow> mc_join empty_machine c v \<noteq> None)"
    by (simp add: empty_machine_def join_at_head_ends)
  from production_stays_up [OF start listings cf lib(1,2) http _ flat fills lib(3) join]
  have "\<exists>p' w2. live_run lv [CloseEv, PollEv] (p, w1) = Some (p', w2) \<and> pg_phase p' = Trading" by simp
  with start show ?thesis by blast
qed

section \<open>Recording the session\<close>

text \<open>
  The live feed, recorded beside the trading when the configuration asks for it and the file opens:
  the socket is then the recording one, and the file is appended to.
\<close>

definition session_feed :: "app_config \<Rightarrow> bool \<Rightarrow> (string \<Rightarrow> string \<Rightarrow> exn + string) \<Rightarrow> ('w \<Rightarrow> time_ns \<times> 'w) \<Rightarrow> auth \<Rightarrow> ws_config
    \<Rightarrow> (string \<Rightarrow> headers \<Rightarrow> 'w \<Rightarrow> (string ix_message list \<times> bool) \<times> 'w) \<Rightarrow> (int \<Rightarrow> 'w \<Rightarrow> 'w) \<Rightarrow> (string, ws_client \<times> 'w) ix_handlers
    \<Rightarrow> ws_client \<times> capture \<times> 'w \<Rightarrow> ((exn + unit) \<times> ws_client \<times> capture \<times> 'w) option" where
  "session_feed cf opened rsa clock au cfg ix_start sleep_ms hs st =
     (if cf_record_sessions cf \<and> opened then
        ws_run cfg (ws_attempt rsa (beside_capture clock) au cfg (\<lambda>url hdrs. beside_capture (ix_start url hdrs)) (capturing_handlers hs))
          (\<lambda>ms st. (fst st, sleep_ms ms (snd st))) st
      else map_option (\<lambda>(r, (c', w')). (r, (c', (fst (snd st), w'))))
             (ws_run cfg (ws_attempt rsa clock au cfg ix_start hs) sleep_ms (fst st, snd (snd st))))"

text \<open>Trading goes as without the recorder, and the frames of the connections the feed opens go after what was recorded before.\<close>

lemma recorded_session:
  assumes "session_feed cf opened rsa clock au cfg ix_start sleep_ms hs (c, (cap, w)) = Some (r, (c', (cap', w')))" and "on_message_cb hs \<noteq> None"
  shows "ws_run cfg (ws_attempt rsa clock au cfg ix_start hs) sleep_ms (c, w) = Some (r, (c', w'))"
    and "r = Inr () \<Longrightarrow> cf_record_sessions cf \<and> opened \<Longrightarrow> \<exists>conns. connections cfg (ws_attempt rsa clock au cfg ix_start hs) sleep_ms
        (connection_served rsa clock au cfg ix_start) 0 (c\<lparr>ws_running := True\<rparr>, w) conns \<and> cap' = wrote (frames_served conns) cap"
    and "\<not> (cf_record_sessions cf \<and> opened) \<Longrightarrow> cap' = cap"
proof -
  show "ws_run cfg (ws_attempt rsa clock au cfg ix_start hs) sleep_ms (c, w) = Some (r, (c', w'))"
    using assms(1) recording_run(1) [OF assms(2)] by (cases "cf_record_sessions cf \<and> opened") (auto simp: session_feed_def)
  show "\<exists>conns. connections cfg (ws_attempt rsa clock au cfg ix_start hs) sleep_ms
        (connection_served rsa clock au cfg ix_start) 0 (c\<lparr>ws_running := True\<rparr>, w) conns \<and> cap' = wrote (frames_served conns) cap"
    if "r = Inr ()" "cf_record_sessions cf \<and> opened"
    using assms(1) recording_run(2) [OF assms(2) _ that(1)] that(2) by (auto simp: session_feed_def)
  show "cap' = cap" if "\<not> (cf_record_sessions cf \<and> opened)"
    using assms(1) that by (auto simp: session_feed_def)
qed

end
