(* ===== verification/Order_Typing.thy ===== *)
theory Order_Typing
  imports Rest_Client
begin

text \<open>
  What the fields of the order manager may hold. The source keeps prices, quantities and identifiers
  in plain integers and strings; here is the typing they obey in every state the operations can
  reach on the REST client, which builds an order from the request and the exchange's confirmation.
\<close>

section \<open>The typing\<close>

definition typed_order :: "string \<times> order \<Rightarrow> bool" where
  "typed_order e \<longleftrightarrow> fst e = o_id (snd e) \<and> is_valid_price (o_price_cents (snd e)) \<and> 0 < centi (o_quantity (snd e))
     \<and> (o_status (snd e) = Filled \<longleftrightarrow> centi (o_quantity (snd e)) \<le> centi (o_filled_quantity (snd e)))"

definition typed_orders :: "order_manager \<Rightarrow> bool" where
  "typed_orders om \<longleftrightarrow> keys_distinct (open_orders om) \<and> (\<forall>e \<in> set (open_orders om). typed_order e)"

text \<open>
  A confirmed limit order has the price and the quantity that were asked for, and is marked as filled
  exactly when nothing is left of it. The REST client confirms orders so, whatever the exchange says.
\<close>

definition typed_api :: "'w rest_api \<Rightarrow> bool" where
  "typed_api api \<longleftrightarrow> (\<forall>tk sd p q w ord w'. api_place_order api tk sd p q Limit w = (Inr ord, w')
     \<longrightarrow> o_price_cents ord = p \<and> o_quantity ord = q \<and> (o_status ord = Filled \<longleftrightarrow> centi q \<le> centi (o_filled_quantity ord)))"

lemma placed_order_typed:
  assumes "placed_order js tk sd p q Limit j = Inr ord"
  shows "o_price_cents ord = p" "o_quantity ord = q" "o_status ord = Filled \<longleftrightarrow> centi q \<le> centi (o_filled_quantity ord)"
proof -
  from assms obtain filled oid t avg where ord: "\<lparr>o_id = oid, o_market_ticker = tk, o_side = sd, o_price_cents = p, o_quantity = q,
      o_filled_quantity = filled, o_status = (if q \<le> filled then Filled else if Limit = Market then Cancelled
        else if is_positive filled then PartiallyFilled else Open), o_type = Limit, o_created_at = t, o_average_fill_price_cents = avg\<rparr> = ord"
    unfolding placed_order_def bindE_eq_Inr sum.inject by (elim exE conjE)
  show "o_price_cents ord = p" "o_quantity ord = q" "o_status ord = Filled \<longleftrightarrow> centi q \<le> centi (o_filled_quantity ord)"
    unfolding ord [symmetric] by (simp_all add: less_eq_quantity_def)
qed

lemma client_typed: "typed_api (client_api c)"
  unfolding typed_api_def
proof (intro allI impI)
  fix tk sd p q w ord w'
  assume "api_place_order (client_api c) tk sd p q Limit w = (Inr ord, w')"
  then obtain j where "placed_order (rc_json c) tk sd p q Limit j = Inr ord"
    by (auto simp: client_api_def place_order_def bind_io_def lift_result_def bindE_eq_Inr split: sum.splits prod.splits)
  from placed_order_typed [OF this]
  show "o_price_cents ord = p \<and> o_quantity ord = q \<and> (o_status ord = Filled \<longleftrightarrow> centi q \<le> centi (o_filled_quantity ord))" by simp
qed

text \<open>An amended price is a price.\<close>

definition typed_event :: "om_event \<Rightarrow> bool" where
  "typed_event ev \<longleftrightarrow> (case ev of AmendEv _ _ _ p _ \<Rightarrow> is_valid_price p | _ \<Rightarrow> True)"

section \<open>Every operation keeps it\<close>

lemma typed_update:
  assumes "typed_orders om" and "typed_order (k, ord)"
  shows "typed_orders (om\<lparr>open_orders := AList.update k ord (open_orders om)\<rparr>)"
proof -
  have "set (AList.update k ord al) \<subseteq> insert (k, ord) (set al)" for al by (induction al) auto
  with assms show ?thesis by (fastforce simp: typed_orders_def)
qed

lemma typed_delete: "typed_orders om \<Longrightarrow> typed_orders (om\<lparr>open_orders := AList.delete k (open_orders om)\<rparr>)"
  using keys_distinct_delete [of "open_orders om" k] by (auto simp: typed_orders_def) (auto simp: AList.delete_eq)

lemma typed_cong: "open_orders om' = open_orders om \<Longrightarrow> typed_orders om' = typed_orders om"
  by (simp add: typed_orders_def)

lemma typed_find: "typed_orders om \<Longrightarrow> map_of (open_orders om) k = Some ord \<Longrightarrow> typed_order (k, ord)"
  by (auto simp: typed_orders_def dest: map_of_SomeD)

lemma typed_place:
  assumes "typed_api api" and "typed_orders om"
  shows "typed_orders (fst (snd (place api tk sd p q om w)))"
proof -
  have "typed_order (o_id ord, ord)"
    if "api_place_order api tk sd p (from_contracts q) Limit w = (Inr ord, w')" "is_valid_price p" "0 < q" for ord w'
  proof -
    have "0 < centi (from_contracts q)" using that(3) by simp
    moreover have "o_price_cents ord = p" "o_quantity ord = from_contracts q"
      "o_status ord = Filled \<longleftrightarrow> centi (from_contracts q) \<le> centi (o_filled_quantity ord)"
      using assms(1) that(1) unfolding typed_api_def by blast+
    ultimately show ?thesis using that(2) by (simp add: typed_order_def)
  qed
  then show ?thesis using assms(2) by (auto simp: place_def split: sum.split prod.split intro: typed_update)
qed

lemma typed_cancel: "typed_orders om \<Longrightarrow> typed_orders (fst (snd (cancel api oid om w)))"
  by (auto simp: cancel_def typed_delete split: prod.split sum.split)

lemma typed_cancel_each: "typed_orders om \<Longrightarrow> typed_orders (fst (snd (cancel_each api oids om w)))"
proof (induction oids arbitrary: om w)
  case (Cons oid oids)
  show ?case
    using Cons.IH typed_cancel [OF Cons.prems, of api oid w]
    by (auto split: prod.split sum.split exn.split)
qed simp

lemma typed_amend:
  assumes "typed_orders om" and "is_valid_price p"
  shows "typed_orders (fst (snd (amend api oid tk sd p q om w)))"
proof -
  have "typed_orders (om\<lparr>open_orders := AList.update new_id (ord\<lparr>o_id := new_id, o_price_cents := p\<rparr>) (AList.delete oid (open_orders om))\<rparr>)"
    if "map_of (open_orders om) oid = Some ord" for new_id ord
    using typed_update [OF typed_delete [OF assms(1)], of new_id "ord\<lparr>o_id := new_id, o_price_cents := p\<rparr>" oid]
      typed_find [OF assms(1) that] assms(2) by (simp add: typed_order_def)
  then show ?thesis using assms(1) by (auto simp: amend_def split: prod.split sum.split option.split)
qed

lemma typed_record_fill:
  assumes "typed_orders om"
  shows "typed_orders (snd (record_fill f om))"
proof -
  have "typed_orders (om\<lparr>open_orders := apply_to_order f (open_orders om)\<rparr>)" if "is_positive (f_quantity f)"
  proof (cases "map_of (open_orders om) (f_order_id f)")
    case (Some ord)
    then show ?thesis
      using typed_find [OF assms Some] that assms
      by (auto simp: apply_to_order_def Let_def typed_order_def is_positive_def less_eq_quantity_def
        intro!: typed_update typed_delete)
  qed (simp add: apply_to_order_def assms)
  then have "typed_orders om'" if "is_positive (f_quantity f)" "open_orders om' = apply_to_order f (open_orders om)" for om'
    using that typed_cong [of om' "om\<lparr>open_orders := apply_to_order f (open_orders om)\<rparr>"] by simp
  then show ?thesis using assms by (auto simp: record_fill_def Let_def split: prod.split)
qed

lemma typed_step:
  assumes "typed_api api" and "typed_orders (fst st)" and "typed_event ev"
  shows "typed_orders (fst (om_event_step api ev st))"
  using assms by (cases ev; cases st)
    (auto simp: typed_event_def cancel_all_def typed_place typed_cancel typed_cancel_each typed_amend typed_record_fill)

text \<open>
  C7. The order manager is well typed on the REST client: whatever orders, cancels, amends and fills
  are interleaved, as long as no order is amended to a price outside 1 to 99 cents, and whatever the
  exchange answers, in the state they lead to every open order is filed under its own identifier,
  once, with a price between 1 and 99 cents and a positive quantity, and it has something left to fill
  exactly when its status is not Filled; and every lot has a price between 1 and 99 cents and a
  positive quantity, with lots on at most one side of a market.
\<close>

theorem order_manager_well_typed:
  assumes "\<forall>oid tk sd p q. AmendEv oid tk sd p q \<in> set evs \<longrightarrow> 1 \<le> p \<and> p \<le> 99"
  shows "distinct (map fst (open_orders (om_run (client_api c) evs w)))
    \<and> (\<forall>(oid, ord) \<in> set (open_orders (om_run (client_api c) evs w)). oid = o_id ord \<and> 1 \<le> o_price_cents ord \<and> o_price_cents ord \<le> 99
         \<and> 0 < centi (o_quantity ord) \<and> (0 < centi (remaining_quantity ord) \<longleftrightarrow> o_status ord \<noteq> Filled))
    \<and> (\<forall>tk. let yes = lookup_or [] (yes_lots (om_run (client_api c) evs w)) tk; no = lookup_or [] (no_lots (om_run (client_api c) evs w)) tk in
         (\<forall>l \<in> set (yes @ no). 1 \<le> lot_price_cents l \<and> lot_price_cents l \<le> 99 \<and> 0 < centi (lot_remaining l))
         \<and> (yes = [] \<or> no = []))"
proof -
  let ?om = "om_run (client_api c) evs w"
  have "\<forall>ev \<in> set evs. typed_event ev" using assms unfolding typed_event_def is_valid_price_def kMinPriceCents_def kMaxPriceCents_def by (auto split: om_event.split) blast+
  then have "typed_orders (fst (fold (om_event_step (client_api c)) evs st))" if "typed_orders (fst st)" for st
    using that
  proof (induction evs arbitrary: st)
    case (Cons ev evs)
    then show ?case using typed_step [OF client_typed [of c]] by simp
  qed simp
  from this [of "(new_order_manager, w)"] have "typed_orders ?om"
    by (simp add: om_run_def typed_orders_def new_order_manager_def)
  moreover have "inventory_ok ?om tk" for tk
    using om_run_sim [of "client_api c" evs w] by (simp add: simulates_def)
  ultimately show ?thesis
    by (auto simp: typed_orders_def typed_order_def inventory_ok_def lots_ok_def price_defs remaining_quantity_def Let_def)
qed

text \<open>An exchange that confirms every order as not filled yet.\<close>

definition confirming_client :: "(json, json, nat) rest_client" where
  "confirming_client =
     \<lparr>rc_json = tree_json,
      rc_transport = \<lparr>http_get = (\<lambda>_ _ n. (Inl (StdException ''down''), n)),
        http_post = (\<lambda>_ _ _ n. (Inr \<lparr>status_code = 201, body = JObject [(''order_id'', JString ''o''), (''fill_count'', JString ''0''), (''ts_ms'', JInt 5)]\<rparr>, n)),
        http_delete = (\<lambda>_ _ n. (Inl (StdException ''down''), n))\<rparr>,
      rc_auth = \<lparr>api_key = ''k'', pem_private_key = []\<rparr>, rc_base_url = ''x'', rc_path_prefix = [], rc_rsa_sign = (\<lambda>_ _. Inr ''sig''),
      rc_system_now = (\<lambda>n. (0, n)), rc_steady_now = (\<lambda>n. (0, n)), rc_sleep_ms = (\<lambda>_ n. n)\<rparr>"

lemma confirms:
  "\<exists>ord w'. place_order confirming_client ''M'' Yes 40 q Limit (new_write_limiter 0, 0) = (Inr ord, w') \<and> o_id ord = ''o''"
  by (simp add: place_order_def post_json_def bind_io_def rc_sign_def on_world_def sign_def throttle_def confirming_client_def lift_read_def lift_result_def
    return_io_def check_response_def placed_order_def get_str_def get_int_def value_or_def tree_json_def parse_fp_count_def from_fp_string_def stod_def
    parse_sign_def is_space_def is_digit_def Let_def split: prod.split)

theorem order_manager_well_typed_witness:
  "\<exists>ord. open_orders (om_run (client_api confirming_client) [PlaceEv ''M'' Yes 40 3] (new_write_limiter 0, 0)) = [(''o'', ord)]
     \<and> o_price_cents ord \<le> 99 \<and> (0 < centi (remaining_quantity ord)) = (o_status ord \<noteq> Filled)"
proof -
  obtain ord where "open_orders (om_run (client_api confirming_client) [PlaceEv ''M'' Yes 40 3] (new_write_limiter 0, 0)) = [(''o'', ord)]"
    using confirms [of "from_contracts 3"] by (auto simp: om_run_def place_def client_api_def price_defs new_order_manager_def)
  with order_manager_well_typed [of "[PlaceEv ''M'' Yes 40 3]" confirming_client "(new_write_limiter 0, 0)"] show ?thesis by simp
qed

end
