(* ===== verification/Listings.thy ===== *)
theory Listings
  imports Rest_Client
begin

text \<open>
  What an exchange that serves a listing page by page looks like to the REST client: the URL of every
  page written out, what its document says, and a chain of pages from the empty cursor on, which
  ends, or meets a request that fails or a document that cannot be read.
\<close>

section \<open>The addresses of the pages\<close>

definition cursor_parameter :: "string \<Rightarrow> string \<Rightarrow> string" where
  "cursor_parameter sep cursor = (if cursor = [] then [] else sep @ ''cursor='' @ cursor)"

definition fills_url :: "('j, 't, 'p) rest_client \<Rightarrow> int \<Rightarrow> string \<Rightarrow> string" where
  "fills_url c min_ts cursor = rc_base_url c @ ''/portfolio/fills?limit=100''
     @ (if 0 < min_ts then ''&min_ts='' @ int_to_string min_ts else []) @ cursor_parameter ''&'' cursor"

definition positions_url :: "('j, 't, 'p) rest_client \<Rightarrow> string \<Rightarrow> string" where
  "positions_url c cursor = rc_base_url c @ ''/portfolio/positions'' @ cursor_parameter ''?'' cursor"

definition markets_url :: "('j, 't, 'p) rest_client \<Rightarrow> string \<Rightarrow> string \<Rightarrow> string" where
  "markets_url c event cursor = rc_base_url c @ ''/markets?limit=1000&status=open''
     @ (if event = [] then [] else ''&event_ticker='' @ event) @ cursor_parameter ''&'' cursor"

definition incentives_url :: "('j, 't, 'p) rest_client \<Rightarrow> string \<Rightarrow> string" where
  "incentives_url c cursor = rc_base_url c @ ''/incentive_programs?status=active&type=liquidity&limit=1000'' @ cursor_parameter ''&'' cursor"

section \<open>What a page says\<close>

text \<open>The entries under a key, which must be there, and the cursor of the next page, empty on the last.\<close>

definition read_listing :: "('j, 't) json_ops \<Rightarrow> string \<Rightarrow> ('j \<Rightarrow> exn + 'a) \<Rightarrow> 'j \<Rightarrow> exn + 'a list \<times> string" where
  "read_listing js key parse doc =
     bindE (js_at js doc key) (\<lambda>entries. bindE (map_result parse (js_elements js entries)) (\<lambda>page.
     bindE (value_or js (js_get_string js) doc ''cursor'' []) (\<lambda>cursor. Inr (page, cursor))))"

text \<open>Incentive programs: the entries may be missing, and \<open>next_cursor\<close> comes before \<open>cursor\<close>.\<close>

definition read_incentives :: "('j, 't) json_ops \<Rightarrow> 'j \<Rightarrow> exn + incentive_program list \<times> string" where
  "read_incentives js doc =
     bindE (value_or js Inr doc ''incentive_programs'' (js_array js [])) (\<lambda>entries.
     bindE (map_result (parse_incentive js) (js_elements js entries)) (\<lambda>page.
     bindE (value_or js (js_get_string js) doc ''cursor'' []) (\<lambda>fallback.
     bindE (value_or js (js_get_string js) doc ''next_cursor'' fallback) (\<lambda>cursor. Inr (page, cursor)))))"

section \<open>The exchange\<close>

text \<open>Whatever its state and the headers, a GET of the URL is answered with the document, or fails with the exception.\<close>

definition answers :: "('j, 't, 'p) rest_client \<Rightarrow> string \<Rightarrow> 'j \<Rightarrow> bool" where
  "answers c url doc \<longleftrightarrow> (\<forall>hdrs v. \<exists>resp v'. http_get (rc_transport c) url hdrs v = (Inr resp, v')
     \<and> 200 \<le> status_code resp \<and> status_code resp \<le> 299 \<and> js_parse (rc_json c) (body resp) = Inr doc)"

definition refuses :: "('j, 't, 'p) rest_client \<Rightarrow> string \<Rightarrow> exn \<Rightarrow> bool" where
  "refuses c url e \<longleftrightarrow> (\<forall>hdrs v. \<exists>r v'. http_get (rc_transport c) url hdrs v = (r, v')
     \<and> (r = Inl e \<or> (\<exists>resp. r = Inr resp \<and> (status_code resp < 200 \<or> 299 < status_code resp)
          \<and> e = StdException (''HTTP '' @ int_to_string (status_code resp)))))"

text \<open>A chain of pages from a cursor on, and one that breaks with an exception.\<close>

inductive offers :: "('j, 't, 'p) rest_client \<Rightarrow> (string \<Rightarrow> string) \<Rightarrow> ('j \<Rightarrow> exn + 'a list \<times> string) \<Rightarrow> string \<Rightarrow> 'a list \<Rightarrow> bool"
  for c url read where
  offers_last: "answers c (url cursor) doc \<Longrightarrow> read doc = Inr (page, []) \<Longrightarrow> offers c url read cursor page"
| offers_more: "answers c (url cursor) doc \<Longrightarrow> read doc = Inr (page, following) \<Longrightarrow> following \<noteq> [] \<Longrightarrow> offers c url read following rest
    \<Longrightarrow> offers c url read cursor (page @ rest)"

inductive breaks :: "('j, 't, 'p) rest_client \<Rightarrow> (string \<Rightarrow> string) \<Rightarrow> ('j \<Rightarrow> exn + 'a list \<times> string) \<Rightarrow> string \<Rightarrow> exn \<Rightarrow> bool"
  for c url read where
  breaks_request: "refuses c (url cursor) e \<Longrightarrow> breaks c url read cursor e"
| breaks_reading: "answers c (url cursor) doc \<Longrightarrow> read doc = Inl e \<Longrightarrow> breaks c url read cursor e"
| breaks_later: "answers c (url cursor) doc \<Longrightarrow> read doc = Inr (page, following) \<Longrightarrow> following \<noteq> [] \<Longrightarrow> breaks c url read following e
    \<Longrightarrow> breaks c url read cursor e"

section \<open>The client reads it\<close>

text \<open>A page function asks for the page's URL, and returns what the document says or the failure.\<close>

definition asks :: "('j, 't, 'p) rest_client \<Rightarrow> (string \<Rightarrow> string) \<Rightarrow> ('j \<Rightarrow> exn + 'a list \<times> string)
    \<Rightarrow> (string \<Rightarrow> ('a list \<times> string, rate_limiter \<times> 'p) io) \<Rightarrow> bool" where
  "asks c url read fetch \<longleftrightarrow>
     (\<forall>cursor s doc. answers c (url cursor) doc \<longrightarrow> (\<exists>s'. fetch cursor s = (read doc, s')))
     \<and> (\<forall>cursor s e. refuses c (url cursor) e \<longrightarrow> (\<exists>s'. fetch cursor s = (Inl e, s')))"

lemma asksD:
  assumes "asks c url read fetch"
  shows "answers c (url cursor) doc \<Longrightarrow> \<exists>s'. fetch cursor s = (read doc, s')"
    and "refuses c (url cursor) e \<Longrightarrow> \<exists>s'. fetch cursor s = (Inl e, s')"
  using assms unfolding asks_def by blast+

lemma fetch_pages_offers:
  assumes "asks c url read fetch"
  shows "offers c url read cursor items \<Longrightarrow> \<exists>s'. fetch_pages fetch cursor acc s = Some (Inr (acc @ items), s')"
proof (induction arbitrary: acc s rule: offers.induct)
  case (offers_last cursor doc page)
  from asksD(1) [OF assms this(1)] obtain s' where "fetch cursor s = (read doc, s')" by blast
  then show ?case using offers_last(2) by (subst fetch_pages.simps) simp
next
  case (offers_more cursor doc page following rest)
  from asksD(1) [OF assms this(1)] obtain s' where "fetch cursor s = (read doc, s')" by blast
  then show ?case using offers_more(2,3) offers_more.IH [of "acc @ page" s'] by (subst fetch_pages.simps) simp
qed

lemma fetch_pages_breaks:
  assumes "asks c url read fetch"
  shows "breaks c url read cursor e \<Longrightarrow> \<exists>s'. fetch_pages fetch cursor acc s = Some (Inl e, s')"
proof (induction arbitrary: acc s rule: breaks.induct)
  case (breaks_request cursor e)
  from asksD(2) [OF assms this] obtain s' where "fetch cursor s = (Inl e, s')" by blast
  then show ?case by (subst fetch_pages.simps) simp
next
  case (breaks_reading cursor doc e)
  from asksD(1) [OF assms this(1)] obtain s' where "fetch cursor s = (read doc, s')" by blast
  then show ?case using breaks_reading(2) by (subst fetch_pages.simps) simp
next
  case (breaks_later cursor doc page following e)
  from asksD(1) [OF assms this(1)] obtain s' where "fetch cursor s = (read doc, s')" by blast
  then show ?case using breaks_later(2,3) breaks_later.IH [of "acc @ page" s'] by (subst fetch_pages.simps) simp
qed

text \<open>Signing works.\<close>

definition can_sign :: "('j, 't, 'p) rest_client \<Rightarrow> bool" where
  "can_sign c \<longleftrightarrow> (\<forall>key msg. \<exists>signature. rc_rsa_sign c key msg = Inr signature)"

lemma sign_headers:
  assumes "can_sign c"
  obtains hdrs s' where "rc_sign c verb path s = (Inr hdrs, s')"
proof -
  obtain r p' where r: "sign (rc_rsa_sign c) (rc_system_now c) (rc_auth c) verb path (snd s) = (r, p')" by fastforce
  moreover have "\<exists>hdrs. r = Inr hdrs"
  proof -
    obtain t p1 where t: "rc_system_now c (snd s) = (t, p1)" by fastforce
    have "\<exists>signature. rc_rsa_sign c key msg = Inr signature" for key msg using assms unfolding can_sign_def by blast
    then show ?thesis using r t
      by (auto simp: sign_def bind_io_def lift_read_def lift_result_def return_io_def Let_def split: sum.splits) (metis Inl_Inr_False)
  qed
  ultimately show thesis using that by (auto simp: rc_sign_def on_world_def)
qed

lemma signed_get_answers:
  assumes "can_sign c" and "answers c url doc"
  shows "\<exists>resp s'. signed_get c path url s = (Inr resp, s') \<and> js_parse (rc_json c) (body resp) = Inr doc"
proof -
  obtain hdrs s1 where h: "rc_sign c ''GET'' path s = (Inr hdrs, s1)" by (rule sign_headers [OF assms(1)])
  obtain resp v' where "http_get (rc_transport c) url hdrs (snd s1) = (Inr resp, v')" "check_response resp = Inr ()"
    "js_parse (rc_json c) (body resp) = Inr doc" using assms(2) unfolding answers_def check_response_def by fastforce
  then show ?thesis by (simp add: signed_get_def bind_io_def h on_world_def lift_result_def return_io_def)
qed

lemma signed_get_refuses:
  assumes "can_sign c" and "refuses c url e"
  shows "\<exists>s'. signed_get c path url s = (Inl e, s')"
proof -
  obtain hdrs s1 where h: "rc_sign c ''GET'' path s = (Inr hdrs, s1)" by (rule sign_headers [OF assms(1)])
  obtain r v' where "http_get (rc_transport c) url hdrs (snd s1) = (r, v')"
    "r = Inl e \<or> (\<exists>resp. r = Inr resp \<and> check_response resp = Inl e)" using assms(2) unfolding refuses_def check_response_def by fastforce
  then show ?thesis by (auto simp: signed_get_def bind_io_def h on_world_def lift_result_def)
qed

lemma get_json_answers: "can_sign c \<Longrightarrow> answers c url doc \<Longrightarrow> \<exists>s'. get_json c path url s = (Inr doc, s')"
  using signed_get_answers [of c url doc path s] by (auto simp: get_json_def bind_io_def lift_result_def)

lemma get_json_refuses: "can_sign c \<Longrightarrow> refuses c url e \<Longrightarrow> \<exists>s'. get_json c path url s = (Inl e, s')"
  using signed_get_refuses [of c url e path s] by (auto simp: get_json_def bind_io_def)

text \<open>The markets are asked for up to three times.\<close>

lemma page_retry_answers:
  "can_sign c \<Longrightarrow> answers c url doc \<Longrightarrow> \<exists>resp s'. page_retry c path url n s = (Inr resp, s') \<and> js_parse (rc_json c) (body resp) = Inr doc"
  using signed_get_answers [of c url doc path s] by (cases n) (auto simp: catch_io_def)

lemma page_retry_refuses: "can_sign c \<Longrightarrow> refuses c url e \<Longrightarrow> \<exists>s'. page_retry c path url n s = (Inl e, s')"
proof (induction n arbitrary: s)
  case 0
  then show ?case using signed_get_refuses by simp
next
  case (Suc n)
  obtain s1 where "signed_get c path url s = (Inl e, s1)" using signed_get_refuses [OF Suc.prems] by blast
  then show ?case using Suc.IH [OF Suc.prems] by (cases e) (simp_all add: catch_io_def bind_io_def)
qed

lemmas page_defs = fills_page_def positions_page_def markets_page_def incentives_page_def
lemmas url_defs = fills_url_def positions_url_def markets_url_def incentives_url_def cursor_parameter_def page_cursor_def

lemma asks_json:
  assumes "can_sign c" and "\<And>cursor s. fetch cursor s = bind_io (get_json c path (url cursor)) (\<lambda>j. lift_result (read j)) s"
  shows "asks c url read fetch"
  unfolding asks_def
proof (intro conjI allI impI)
  fix cursor s doc assume "answers c (url cursor) doc"
  from get_json_answers [OF assms(1) this, of path s] obtain s' where "get_json c path (url cursor) s = (Inr doc, s')" by blast
  then show "\<exists>s'. fetch cursor s = (read doc, s')" by (simp add: assms(2) bind_io_def lift_result_def)
next
  fix cursor s e assume "refuses c (url cursor) e"
  from get_json_refuses [OF assms(1) this, of path s] obtain s' where "get_json c path (url cursor) s = (Inl e, s')" by blast
  then show "\<exists>s'. fetch cursor s = (Inl e, s')" by (simp add: assms(2) bind_io_def)
qed

lemma pages_ask:
  assumes "can_sign c"
  shows "asks c (fills_url c min_ts) (read_listing (rc_json c) ''fills'' (parse_fill (rc_json c))) (fills_page c min_ts)"
    and "asks c (positions_url c) (read_listing (rc_json c) ''market_positions'' (parse_position (rc_json c))) (positions_page c)"
    and "asks c (incentives_url c) (read_incentives (rc_json c)) (incentives_page c)"
  by (rule asks_json [OF assms, where path = "rc_path_prefix c @ ''/portfolio/fills''"],
      simp add: page_defs url_defs read_listing_def read_incentives_def Let_def)
    (rule asks_json [OF assms, where path = "rc_path_prefix c @ ''/portfolio/positions''"],
      simp add: page_defs url_defs read_listing_def read_incentives_def Let_def,
     rule asks_json [OF assms, where path = "rc_path_prefix c @ ''/incentive_programs''"],
      simp add: page_defs url_defs read_listing_def read_incentives_def Let_def)

lemma markets_ask:
  assumes "can_sign c"
  shows "asks c (markets_url c event) (read_listing (rc_json c) ''markets'' (parse_market (rc_json c))) (markets_page c event)"
  unfolding asks_def
proof (intro conjI allI impI)
  fix cursor s doc assume "answers c (markets_url c event cursor) doc"
  from page_retry_answers [OF assms this, of "rc_path_prefix c @ ''/markets''" "kPageAttempts - 1" s] obtain resp s' where
    "page_retry c (rc_path_prefix c @ ''/markets'') (markets_url c event cursor) (kPageAttempts - 1) s = (Inr resp, s')"
    "js_parse (rc_json c) (body resp) = Inr doc" by blast
  then show "\<exists>s'. markets_page c event cursor s = (read_listing (rc_json c) ''markets'' (parse_market (rc_json c)) doc, s')"
    by (simp add: markets_page_def bind_io_def lift_result_def read_listing_def markets_url_def cursor_parameter_def page_cursor_def Let_def
      split: if_splits)
next
  fix cursor s e assume "refuses c (markets_url c event cursor) e"
  from page_retry_refuses [OF assms this, of "rc_path_prefix c @ ''/markets''" "kPageAttempts - 1" s] obtain s' where
    "page_retry c (rc_path_prefix c @ ''/markets'') (markets_url c event cursor) (kPageAttempts - 1) s = (Inl e, s')" by blast
  then show "\<exists>s'. markets_page c event cursor s = (Inl e, s')"
    by (simp add: markets_page_def bind_io_def markets_url_def cursor_parameter_def page_cursor_def Let_def split: if_splits)
qed

text \<open>
  C35. Listings end when the pages do, with every entry in order or with the first failure: if the
  client can sign and the exchange answers the URL of every page by cursor, the listing of fills,
  positions, markets or incentive programs, asked for from the empty cursor on and following the
  cursors, returns; when the chain of pages ends with an empty cursor it returns the entries of all of
  them, in order, each once; when a request is refused or a document cannot be read, it returns that
  failure. Markets are asked for three times before a refusal counts.
\<close>

theorem listings_exact:
  assumes "can_sign c"
  shows "(offers c (fills_url c min_ts) (read_listing (rc_json c) ''fills'' (parse_fill (rc_json c))) [] fills
      \<longrightarrow> (\<exists>s'. get_fills c min_ts s = Some (Inr fills, s')))
   \<and> (breaks c (fills_url c min_ts) (read_listing (rc_json c) ''fills'' (parse_fill (rc_json c))) [] e
      \<longrightarrow> (\<exists>s'. get_fills c min_ts s = Some (Inl e, s')))
   \<and> (offers c (positions_url c) (read_listing (rc_json c) ''market_positions'' (parse_position (rc_json c))) [] positions
      \<longrightarrow> (\<exists>s'. get_positions c s = Some (Inr positions, s')))
   \<and> (breaks c (positions_url c) (read_listing (rc_json c) ''market_positions'' (parse_position (rc_json c))) [] e
      \<longrightarrow> (\<exists>s'. get_positions c s = Some (Inl e, s')))
   \<and> (offers c (markets_url c event) (read_listing (rc_json c) ''markets'' (parse_market (rc_json c))) [] markets
      \<longrightarrow> (\<exists>s'. get_markets c event s = Some (Inr markets, s')))
   \<and> (breaks c (markets_url c event) (read_listing (rc_json c) ''markets'' (parse_market (rc_json c))) [] e
      \<longrightarrow> (\<exists>s'. get_markets c event s = Some (Inl e, s')))
   \<and> (offers c (incentives_url c) (read_incentives (rc_json c)) [] programs
      \<longrightarrow> (\<exists>s'. get_incentive_programs c s = Some (Inr programs, s')))
   \<and> (breaks c (incentives_url c) (read_incentives (rc_json c)) [] e
      \<longrightarrow> (\<exists>s'. get_incentive_programs c s = Some (Inl e, s')))"
  using fetch_pages_offers [OF pages_ask(1) [OF assms], of min_ts "[]" fills "[]" s] fetch_pages_breaks [OF pages_ask(1) [OF assms], of min_ts "[]" e "[]" s]
    fetch_pages_offers [OF pages_ask(2) [OF assms], of "[]" positions "[]" s] fetch_pages_breaks [OF pages_ask(2) [OF assms], of "[]" e "[]" s]
    fetch_pages_offers [OF markets_ask [OF assms], of event "[]" markets "[]" s] fetch_pages_breaks [OF markets_ask [OF assms], of event "[]" e "[]" s]
    fetch_pages_offers [OF pages_ask(3) [OF assms], of "[]" programs "[]" s] fetch_pages_breaks [OF pages_ask(3) [OF assms], of "[]" e "[]" s]
  by (simp add: get_fills_def get_positions_def get_markets_def get_incentive_programs_def)

text \<open>An exchange with two pages of incentive programs, the second behind a cursor, and no positions.\<close>

definition program_doc :: "ticker \<Rightarrow> string \<Rightarrow> json" where
  "program_doc tk cursor = JObject [(''incentive_programs'', JArray [JObject [(''market_ticker'', JString tk)]]), (''next_cursor'', JString cursor)]"

definition paging_client :: "(json, json, nat) rest_client" where
  "paging_client =
     \<lparr>rc_json = tree_json,
      rc_transport = \<lparr>
        http_get = (\<lambda>url hdrs n.
          let first = ''x/incentive_programs?status=active&type=liquidity&limit=1000'' in
          (Inr (if url = first then \<lparr>status_code = 200, body = program_doc ''A'' ''c2''\<rparr>
                else if url = first @ ''&cursor=c2'' then \<lparr>status_code = 200, body = program_doc ''B'' []\<rparr>
                else \<lparr>status_code = 503, body = JNull\<rparr>), n + 1)),
        http_post = (\<lambda>_ _ _ n. (Inl (StdException ''down''), n)), http_delete = (\<lambda>_ _ n. (Inl (StdException ''down''), n))\<rparr>,
      rc_auth = \<lparr>api_key = ''k'', pem_private_key = []\<rparr>, rc_base_url = ''x'', rc_path_prefix = [], rc_rsa_sign = (\<lambda>_ _. Inr ''sig''),
      rc_system_now = (\<lambda>n. (0, n)), rc_steady_now = (\<lambda>n. (0, n)), rc_sleep_ms = (\<lambda>_ n. n)\<rparr>"

definition program_of :: "ticker \<Rightarrow> incentive_program" where
  "program_of tk = \<lparr>ip_market_ticker = tk, ip_period_reward_centicents = 0, ip_target_size = 0, ip_discount_factor_bps = 0\<rparr>"

theorem listings_exact_witness:
  "\<exists>s1 s2. get_incentive_programs paging_client (new_write_limiter 0, 0) = Some (Inr [program_of ''A'', program_of ''B''], s1)
     \<and> get_positions paging_client (new_write_limiter 0, 0) = Some (Inl (StdException (''HTTP '' @ int_to_string 503)), s2)"
proof -
  have json: "rc_json paging_client = tree_json" by (simp add: paging_client_def)
  have sign: "can_sign paging_client" by (simp add: can_sign_def paging_client_def)
  have doc: "read_incentives tree_json (program_doc tk cursor) = Inr ([program_of tk], cursor)" for tk cursor
    by (simp add: read_incentives_def program_doc_def program_of_def parse_incentive_def value_or_def tree_json_def)
  have a: "answers paging_client (incentives_url paging_client []) (program_doc ''A'' ''c2'')"
    "answers paging_client (incentives_url paging_client ''c2'') (program_doc ''B'' [])"
    by (simp_all add: answers_def incentives_url_def cursor_parameter_def paging_client_def tree_json_def)
  have "offers paging_client (incentives_url paging_client) (read_incentives tree_json) [] ([program_of ''A''] @ [program_of ''B''])"
    using offers_last [where url = "incentives_url paging_client", OF a(2), of "read_incentives tree_json" "[program_of ''B'']"]
    by (intro offers_more [where url = "incentives_url paging_client" and following = "''c2''", OF a(1)]) (simp_all add: doc)
  moreover have "refuses paging_client (positions_url paging_client []) (StdException (''HTTP '' @ int_to_string 503))"
    by (simp add: refuses_def positions_url_def cursor_parameter_def paging_client_def)
  then have "breaks paging_client (positions_url paging_client) (read_listing tree_json ''market_positions'' (parse_position tree_json)) []
      (StdException (''HTTP '' @ int_to_string 503))" by (rule breaks_request [where url = "positions_url paging_client"])
  ultimately show ?thesis
    using listings_exact [OF sign, where programs = "[program_of ''A''] @ [program_of ''B'']" and e = "StdException (''HTTP '' @ int_to_string 503)"
        and s = "(new_write_limiter 0, 0)"]
    unfolding json append_Cons append_Nil by blast
qed

end
