(* ===== verification/Theo_Grid.thy ===== *)
theory Theo_Grid
  imports Prelude
begin

text \<open>
  The bilinear fair-value table of \<open>source/engine/theo_grid.cpp\<close>. \<open>lookup\<close> uses the checked
  accessor \<open>at\<close> of the standard containers, so a table that does not fit its axes raises; on a
  table that fits it interpolates.
\<close>

section \<open>The table\<close>

record theo_grid_config =
  ttc_breakpoints :: "real list"
  mid_breakpoints :: "real list"
  grid_values :: "real list list"

definition kDefaultTtc :: "real list" where "kDefaultTtc = [1/4, 1, 4, 12, 48]"
definition kDefaultMid :: "real list" where "kDefaultMid = [10, 25, 50, 75, 90]"
definition kDefaultValues :: "real list list" where
  "kDefaultValues = [[12, 27, 50, 73, 88], [11, 26, 50, 74, 89], [10, 25, 50, 75, 90],
     [10, 25, 50, 75, 90], [10, 25, 50, 75, 90]]"

definition default_config :: theo_grid_config where
  "default_config = \<lparr>ttc_breakpoints = kDefaultTtc, mid_breakpoints = kDefaultMid,
     grid_values = kDefaultValues\<rparr>"

text \<open>The bracketing indices along one axis, clamped at both ends.\<close>

definition bracket :: "real list \<Rightarrow> real \<Rightarrow> nat \<times> nat" where
  "bracket bp x =
     (let hi0 = lower_bound (\<lambda>b. b < x) bp;
          hi = (if hi0 \<ge> length bp then length bp - 1 else hi0);
          lo = (if hi = 0 then 0 else hi - 1)
      in (lo, hi))"

text \<open>The clamped interpolation fraction along one axis.\<close>

definition axis_alpha :: "real list \<Rightarrow> nat \<Rightarrow> nat \<Rightarrow> real \<Rightarrow> exn + real" where
  "axis_alpha bp lo hi x =
     bindE (vector_at bp hi) (\<lambda>b_hi. bindE (vector_at bp lo) (\<lambda>b_lo.
       let range = b_hi - b_lo;
           frac = (if range > 0 then (x - b_lo) / range else 0)
       in Inr (clamp frac 0 1)))"

definition cell :: "real list list \<Rightarrow> nat \<Rightarrow> nat \<Rightarrow> exn + real" where
  "cell vals i j = bindE (vector_at vals i) (\<lambda>row. vector_at row j)"

definition grid_lookup :: "theo_grid_config \<Rightarrow> real \<Rightarrow> real \<Rightarrow> exn + real" where
  "grid_lookup cfg ttc_hours mid_cents =
     (let (ttc_lo, ttc_hi) = bracket (ttc_breakpoints cfg) ttc_hours;
          (mid_lo, mid_hi) = bracket (mid_breakpoints cfg) mid_cents;
          vals = grid_values cfg
      in bindE (axis_alpha (ttc_breakpoints cfg) ttc_lo ttc_hi ttc_hours) (\<lambda>ttc_alpha.
         bindE (axis_alpha (mid_breakpoints cfg) mid_lo mid_hi mid_cents) (\<lambda>mid_alpha.
         bindE (cell vals ttc_lo mid_lo) (\<lambda>ll. bindE (cell vals ttc_lo mid_hi) (\<lambda>lh.
         bindE (cell vals ttc_hi mid_lo) (\<lambda>hl. bindE (cell vals ttc_hi mid_hi) (\<lambda>hh.
           let val_lo = ll + mid_alpha * (lh - ll);
               val_hi = hl + mid_alpha * (hh - hl)
           in Inr (val_lo + ttc_alpha * (val_hi - val_lo)))))))))"

section \<open>Correctness\<close>

definition axis_ok :: "real list \<Rightarrow> bool" where
  "axis_ok bp \<longleftrightarrow> bp \<noteq> [] \<and> sorted_wrt (<) bp"

definition grid_ok :: "theo_grid_config \<Rightarrow> bool" where
  "grid_ok cfg \<longleftrightarrow> axis_ok (ttc_breakpoints cfg) \<and> axis_ok (mid_breakpoints cfg)
     \<and> length (grid_values cfg) = length (ttc_breakpoints cfg)
     \<and> (\<forall>row \<in> set (grid_values cfg). length row = length (mid_breakpoints cfg))"

lemma axis_partitioned: "axis_ok bp \<Longrightarrow> partitioned (\<lambda>b. b < x) bp"
  unfolding axis_ok_def partitioned_def
  by (auto elim: sorted_wrt_mono_rel [rotated])

lemma bracket_in_range:
  assumes "axis_ok bp" and "bracket bp x = (lo, hi)"
  shows "lo < length bp" "hi < length bp" "lo = hi - 1"
  using assms by (auto simp: bracket_def axis_ok_def Let_def split: if_splits)

lemma axis_alpha_range:
  assumes "axis_ok bp" and "bracket bp x = (lo, hi)"
  obtains a where "axis_alpha bp lo hi x = Inr a" "0 \<le> a" "a \<le> 1"
  using bracket_in_range [OF assms] clamp_bounds [of "0 :: real" 1]
  by (simp add: axis_alpha_def Let_def)

lemma lerp_between:
  fixes a b t lo hi :: real
  assumes "lo \<le> a" "a \<le> hi" "lo \<le> b" "b \<le> hi" "0 \<le> t" "t \<le> 1"
  shows "lo \<le> a + t * (b - a)" "a + t * (b - a) \<le> hi"
proof -
  have "a + t * (b - a) = (1 - t) * a + t * b" by (simp add: algebra_simps)
  then show "lo \<le> a + t * (b - a)" "a + t * (b - a) \<le> hi"
    using convex_bound_le [of a hi b "1 - t" t] convex_bound_le [of "- a" "- lo" "- b" "1 - t" t] assms
    by (simp_all add: algebra_simps)
qed

lemma cell_in_range:
  assumes "grid_ok cfg" "i < length (ttc_breakpoints cfg)" "j < length (mid_breakpoints cfg)"
  shows "cell (grid_values cfg) i j = Inr (grid_values cfg ! i ! j)"
    "grid_values cfg ! i ! j \<in> \<Union> (set ` set (grid_values cfg))"
proof -
  have i: "i < length (grid_values cfg)" and row: "grid_values cfg ! i \<in> set (grid_values cfg)"
    using assms by (simp_all add: grid_ok_def)
  then have j: "j < length (grid_values cfg ! i)" using assms by (auto simp: grid_ok_def)
  show "cell (grid_values cfg) i j = Inr (grid_values cfg ! i ! j)" using i j by (simp add: cell_def)
  show "grid_values cfg ! i ! j \<in> \<Union> (set ` set (grid_values cfg))" using row j by (meson UN_I nth_mem)
qed

lemma bracket_at_breakpoint:
  assumes "axis_ok bp" and "i < length bp"
  shows "bracket bp (bp ! i) = (i - Suc 0, i)"
    "axis_alpha bp (i - Suc 0) i (bp ! i) = Inr (if i = 0 then 0 else 1)"
proof -
  let ?k = "lower_bound (\<lambda>b. b < bp ! i) bp"
  note part = lower_bound_partition [OF axis_partitioned [OF assms(1), of "bp ! i"]]
  have mono: "\<And>j k. j < k \<Longrightarrow> k < length bp \<Longrightarrow> bp ! j < bp ! k"
    using assms(1) by (auto simp: axis_ok_def sorted_wrt_iff_nth_less)
  have "\<not> i < ?k" using part(2) [of i] by auto
  moreover have "\<not> ?k < i"
    using part(3) [of ?k] mono [of ?k i] assms(2) by auto
  ultimately have k: "?k = i" by simp
  show "bracket bp (bp ! i) = (i - Suc 0, i)" using assms(2) by (auto simp: bracket_def k Let_def)
  show "axis_alpha bp (i - Suc 0) i (bp ! i) = Inr (if i = 0 then 0 else 1)"
    using assms(2) mono [of "i - 1" i] by (cases i) (auto simp: axis_alpha_def clamp_def Let_def)
qed

text \<open>
  On a table whose rows fit ascending axes, a lookup never raises, for any time to close and
  any mid, however far outside the axes, and its result lies between any bounds of the table's
  entries.
\<close>

theorem grid_lookup_bounded:
  assumes "grid_ok cfg" and "\<forall>row \<in> set (grid_values cfg). \<forall>v \<in> set row. lo \<le> v \<and> v \<le> hi"
  shows "\<exists>v. grid_lookup cfg ttc mid = Inr v \<and> lo \<le> v \<and> v \<le> hi"
proof -
  let ?V = "grid_values cfg"
  have axes: "axis_ok (ttc_breakpoints cfg)" "axis_ok (mid_breakpoints cfg)"
    using assms(1) by (simp_all add: grid_ok_def)
  obtain tl th ml mh where br: "bracket (ttc_breakpoints cfg) ttc = (tl, th)"
      "bracket (mid_breakpoints cfg) mid = (ml, mh)" by (metis surj_pair)
  note t = bracket_in_range [OF axes(1) br(1)] and m = bracket_in_range [OF axes(2) br(2)]
  obtain a where a: "axis_alpha (ttc_breakpoints cfg) tl th ttc = Inr a" "0 \<le> a" "a \<le> 1"
    by (rule axis_alpha_range [OF axes(1) br(1)])
  obtain c where c: "axis_alpha (mid_breakpoints cfg) ml mh mid = Inr c" "0 \<le> c" "c \<le> 1"
    by (rule axis_alpha_range [OF axes(2) br(2)])
  have bnd: "lo \<le> ?V ! i ! j \<and> ?V ! i ! j \<le> hi"
    if "i < length (ttc_breakpoints cfg)" "j < length (mid_breakpoints cfg)" for i j
    using cell_in_range(2) [OF assms(1) that] assms(2) by blast
  let ?l = "?V ! tl ! ml + c * (?V ! tl ! mh - ?V ! tl ! ml)"
  let ?h = "?V ! th ! ml + c * (?V ! th ! mh - ?V ! th ! ml)"
  have "grid_lookup cfg ttc mid = Inr (?l + a * (?h - ?l))"
    using t(1,2) m(1,2) by (simp add: grid_lookup_def br a(1) c(1) cell_in_range(1) [OF assms(1)] Let_def)
  moreover have "lo \<le> ?l" "?l \<le> hi" "lo \<le> ?h" "?h \<le> hi"
    using lerp_between [of lo "?V ! tl ! ml" hi "?V ! tl ! mh" c] lerp_between [of lo "?V ! th ! ml" hi "?V ! th ! mh" c]
      bnd [OF t(1) m(1)] bnd [OF t(1) m(2)] bnd [OF t(2) m(1)] bnd [OF t(2) m(2)] c(2,3) by blast+
  ultimately show ?thesis using lerp_between a(2,3) by blast
qed

lemma default_config_ok: "grid_ok default_config"
  by (simp add: grid_ok_def axis_ok_def default_config_def kDefaultTtc_def kDefaultMid_def kDefaultValues_def)

theorem grid_lookup_bounded_witness:
  "\<exists>v. grid_lookup default_config (-5) 1000 = Inr v \<and> 10 \<le> v \<and> v \<le> 90"
  using grid_lookup_bounded [OF default_config_ok, of 10 90 "-5" 1000]
  by (simp add: default_config_def kDefaultValues_def)

text \<open>
  At the breakpoints of both axes the lookup returns the table's own entry.\<close>

theorem grid_lookup_exact:
  assumes "grid_ok cfg" and "i < length (ttc_breakpoints cfg)" and "j < length (mid_breakpoints cfg)"
  shows "grid_lookup cfg (ttc_breakpoints cfg ! i) (mid_breakpoints cfg ! j) = Inr (grid_values cfg ! i ! j)"
proof -
  have axes: "axis_ok (ttc_breakpoints cfg)" "axis_ok (mid_breakpoints cfg)"
    using assms(1) by (simp_all add: grid_ok_def)
  show ?thesis
    using assms(2,3) less_imp_diff_less [OF assms(2), of 1] less_imp_diff_less [OF assms(3), of 1]
    by (auto simp: grid_lookup_def bracket_at_breakpoint [OF axes(1) assms(2)]
      bracket_at_breakpoint [OF axes(2) assms(3)] cell_in_range(1) [OF assms(1)] Let_def algebra_simps)
qed

theorem grid_lookup_exact_witness: "grid_lookup default_config 1 75 = Inr 74"
  using grid_lookup_exact [OF default_config_ok, of 1 3]
  by (simp add: default_config_def kDefaultTtc_def kDefaultMid_def kDefaultValues_def numeral_3_eq_3)

end
