(* ===== verification/Spec2Isabelle.thy ===== *)
theory Spec2Isabelle
  imports Production Order_Typing Listings Theo_Grid
begin

text \<open>
  A verification development for the Kalshi market maker (C++, \<open>source/\<close>): a program that quotes a
  bid and an ask on binary event contracts, follows its fills over a WebSocket feed, checks itself
  against the exchange's REST interface, and takes its quotes down when it halts, loses its feed, is
  told to stop or dies.

  \<^bold>\<open>The program and how its parts meet\<close>

  \<open>main\<close> reads the command line and the configuration and chooses a mode. Trading wires a REST client
  (signed requests over an HTTP transport, or over a simulated exchange on paper) and a WebSocket
  client to a session. The feed's thread calls the session for every book message, fill and print;
  the main thread polls ten times a second for rotation, staleness, portfolio risk, quote safety and
  reconciliation. The session keeps the books and calls the quoter, which asks a pricing model for a
  fair value and the risk manager for permission and places orders through the order manager, the
  one owner of positions, lots and open orders. The other modes scan for markets, reconcile, flatten,
  record a feed, and replay a recording through the session or through a grader of fair values.

  \<^bold>\<open>Theories and the source they model\<close> (bottom up)

  \<^item> \<open>Prelude\<close>: exceptions, rounding, \<open>lower_bound\<close>, association lists. \<open>Core_Types\<close>, \<open>Fixed_Point\<close>:
    \<open>core/types.hpp\<close>, \<open>core/quantity.hpp\<close>, the exchange's decimal text and its round trips.
  \<^item> \<open>Orderbook\<close> (\<open>engine/orderbook\<close>), \<open>Pricing\<close> (\<open>engine/pricing_model\<close>, \<open>fair_value\<close>), \<open>Theo_Grid\<close>,
    \<open>Flow_Imbalance\<close>, \<open>Trade_Tape\<close>, \<open>Portfolio\<close>, \<open>Risk_Manager\<close> (all \<open>engine/\<close>): the local book and
    the read models. Two locales state interfaces here: \<open>price_ladder\<close>, what a ladder of price levels
    promises its reader, and \<open>pricing_model\<close>, what the quoter needs of an estimate; the three models
    of the source interpret the latter.
  \<^item> \<open>Order_Manager\<close> (\<open>exchange/order_manager\<close>): lots, matching, profit, exposure; the ledger of fills
    it refines. \<open>Order_Typing\<close>: what its fields hold in every state reachable on the REST client.
  \<^item> \<open>Quoter\<close>, \<open>Quoter_Correct\<close> (\<open>strategy/quoter\<close>): one market's requote, and that it is passive,
    uncrossed, approved, blind to its own echo and free of aborts.
  \<^item> \<open>Trading_Session\<close>, \<open>Session_Correct\<close> (\<open>engine/trading_session\<close>): every handler, as an event of a
    run; the locale \<open>strategy\<close> is the contract of \<open>IStrategy::update\<close>, interpreted on the quoter.
    \<open>Session_Driver\<close>: the application changes a session only through these events.
  \<^item> \<open>Exchange_Interface\<close>, \<open>Rate_Limiter\<close>, \<open>Rest_Client\<close>, \<open>Signing\<close>, \<open>Http_Transport\<close>, \<open>Analytics\<close>
    (\<open>exchange/rest_client\<close>, \<open>core/rate_limiter\<close>, \<open>net/auth\<close>, \<open>net/http_transport\<close>,
    \<open>engine/analytics\<close>): requests, pages, parsing, signatures, the measured transport. \<open>Listings\<close>: the
    exchange as it serves a listing page by page, by URL and cursor, and what the client makes of it.
    \<open>Paper_Exchange\<close>, \<open>Paper_Client\<close> (\<open>net/paper_transport\<close>): the simulated exchange and the client on it.
  \<^item> \<open>Websocket_Client\<close>, \<open>Websocket_Correct\<close>, \<open>Ix_Socket\<close> (\<open>net/websocket_client\<close>): subscriptions,
    frames, gaps, the reconnect loop, the production socket. \<open>Feed_World\<close>, \<open>Feed_Simulation\<close>: two
    locales on what a feed can do to the world of its callbacks, and on two clients fed alike;
    the live program, the backtest and the replay interpret them.
  \<^item> \<open>Ticker_Scanner\<close>, \<open>Scan_Output\<close> (\<open>exchange/\<close>), \<open>App_Config\<close>, \<open>Config_Correct\<close> (\<open>app/config\<close>):
    which markets are traded, the result file, the settings.
  \<^item> \<open>App_Modes\<close>, \<open>App_Correct\<close>, \<open>Capture\<close>, \<open>Capture_Mode\<close>, \<open>Fv_Backtest\<close>, \<open>Replay\<close>, \<open>Replay_Correct\<close>
    (\<open>app/app_modes\<close>, \<open>net/capture\<close>, \<open>tooling/fv_backtest\<close>): backfill, reconciliation, rotation,
    flattening, recording and the replays.
  \<^item> \<open>Process_Guard\<close> (\<open>core/ensure\<close>, \<open>core/cli\<close>), \<open>Main_Loop\<close>, \<open>Startup\<close>, \<open>Main_Program\<close>, \<open>Production\<close>
    (\<open>app/main\<close>): fail-fast checks, the poll loop, startup and the profit file, the choice of the
    mode, the deployed wiring. \<open>Main_Correct\<close>, \<open>Live_Correct\<close>, \<open>Endurance\<close>: what holds of any run;
    \<open>Endurance\<close> extends \<open>feed_world\<close> to \<open>quiet_feed\<close>, the callbacks of which never end the process.

  \<^bold>\<open>What the lemmas show\<close>

  \<^item> \<^emph>\<open>The books.\<close> The order manager refines a ledger of fills (C4); so does a session after any events
    (C5), the live program from startup through any run (C1), and a backtest (C6); profit is a
    function of the set of fills (C11), and exposure bounds are attained (C26).
  \<^item> \<^emph>\<open>The quotes.\<close> Never crossed (C9), passive (C28), approved (C10), within the limits (C15), none
    while a constraint is set (C16), gone within a poll of a halt but for cancels the exchange refuses
    (C14) and, when it refuses none, however a run ends (C2).
  \<^item> \<^emph>\<open>Failures.\<close> No handler raises (C13), no update aborts (C22), exactly one kind of frame escapes
    the client (C36), \<open>main\<close> lets nothing escape (C8), and every run of the deployed program
    returns and stays up (C3), a composition of all of these from the command line's wiring down to the libraries.
  \<^item> \<^emph>\<open>The feed and the exchange.\<close> Deliveries are contiguous (C24), subscriptions complete (C37),
    listings exact, ending when the pages do or with the first failure (C35), the production socket is the sequence of
    events the live program is proved for (C19), requests are measured once (C32).
  \<^item> \<^emph>\<open>Recordings and files.\<close> Recording changes nothing and is read back (C21), replays score what was
    recorded (C20); settings, scan results and, for markets still tracked, profits survive the file
    (C39, C31, C38).

  \<^bold>\<open>How the code is modelled\<close>

  \<^item> A method of a class is a function on a record of the class's fields; effects on the world (clocks,
    requests, the socket) thread a world of a type left open. An exception is \<open>Inl (StdException what)\<close>,
    a failed \<open>ensure\<close> or \<open>std::terminate\<close> is \<open>Inl (Abort what)\<close>, which no \<open>catch\<close> sees; state changed before
    a throw stays changed.
  \<^item> \<open>double\<close> is \<open>real\<close>, exact: rounding error is not modelled, so nothing here bounds it. A non-finite
    reservation price is \<open>None\<close> and stops the model with an \<open>Abort\<close>; an infinite inventory scale is
    \<open>None\<close>. \<open>int\<close> and \<open>long long\<close> are \<open>int\<close>, as signed overflow is undefined; division truncates
    (\<open>sdiv\<close>). The set of active constraints is an \<open>11 word\<close>.
  \<^item> An unordered map that the code iterates over is an association list, whose order no theorem fixes;
    the others are partial maps. \<open>std::sort\<close> is one of the sorts it may be.
  \<^item> Loops over data recurse on it. The page loops and the reconnect loop may run for ever: they are
    \<open>partial_function (option)\<close>, where \<open>None\<close> is never returning, and that they return is proved (C35,
    \<open>bounded_run_returns\<close>). Retries are counted down: three page attempts, three shutdown sweeps and
    two comparison passes, as in the code. No other fuel is used.
  \<^item> A run of the live program is a list of events: a message of the feed, a poll, a signal, or any
    change of the world outside. The engine mutex makes each one step. An exception that leaves a
    feed callback ends the process, through the panic handler; the end of the feed's thread sets the
    shutdown flag, which is the event of a signal. A Close that \<open>stop\<close> provokes during the shutdown
    may be seen as a Close before the last poll. A failed invariant during startup is an \<open>Abort\<close> of
    \<open>boot\<close>; its panic handler has no order to cancel but those of the markets seeded so far, which
    is not modelled. The shutdown waits for the feed's thread before it cancels: the wait is a
    parameter (\<open>lv_join\<close>, \<open>mc_join\<close>) that may never return, and what needs it to return says so (C17, and
    C3 for runs with a signal); a thread at the head of its loop does end (\<open>join_at_head_ends\<close>), one
    that has not entered it yet does not (\<open>early_stop_forgotten\<close>). The backfill after a reconnect stands after \<open>handle_connect\<close>, as its last step.
  \<^item> Third-party code is a parameter with its documented behaviour as a named hypothesis: the JSON
    library (\<open>json_raises_std\<close>, \<open>json_reads_back\<close>, \<open>json_integers\<close>, met by \<open>tree_json\<close> and \<open>line_json\<close>), the
    HTTP library, the steps of OpenSSL, the WebSocket library as the messages it delivers, and files
    as functions from paths to text. Time zones, calendars, \<open>std::format\<close> and number parsing are
    modelled.

  \<^bold>\<open>Not modelled\<close>

  Log lines, the logger's set-up (\<open>core/logger\<close>, \<open>setup_logger\<close>) and the periodic status report
  (\<open>log_status\<close>), which compute nothing the program uses; the calls that raise analytics events inside
  the quoter and the session (the events and their sink are modelled, and \<open>log_event_none\<close> and
  \<open>measured_transport_raises_std\<close> say why they do not matter); the abstract base classes
  (\<open>IStrategy\<close>, \<open>IOrderManager\<close>), each of which has one implementation; constructors, destructors and
  setters that only store; the generation of a throw-away RSA key for the backtest and the Base64
  encoding, both OpenSSL calls; and memory safety and data races, which the mutexes and the compiler
  answer for. With these exceptions the implementation files are covered, and what is left of their
  lines is comments, includes, declarations and logging.
\<close>

end
